(* ===== verification/Prelude.thy ===== *)
theory Prelude
  imports Main "HOL-Library.Word" "HOL-Library.List_Lexorder" "HOL-Library.Char_ord"
    "HOL-Library.Product_Lexorder"
begin

text \<open>
  The prelude of the development: the machine integers of the bridge (\<open>u64\<close>, \<open>u32\<close>, \<open>u16\<close> as
  words), Rust's saturating operations on them, the fallible state-passing operations in which
  every handler that touches the database is written (\<open>('s, 'e, 'a) action\<close>), and the generic
  facts about keyed row lists (a table with a primary key) that the tables share.
\<close>

section \<open>Machine integers\<close>

type_synonym u64 = "64 word"
type_synonym u32 = "32 word"
type_synonym u16 = "16 word"

text \<open>\<open>u64::saturating_add\<close>, \<open>u64::saturating_sub\<close>, \<open>u64::saturating_mul\<close> and their \<open>u32\<close> instances.\<close>

definition saturating_add :: "'a::len word \<Rightarrow> 'a word \<Rightarrow> 'a word" where
  "saturating_add a b =
     (if unat a + unat b < 2 ^ LENGTH('a) then a + b else (- 1))"

definition saturating_sub :: "'a::len word \<Rightarrow> 'a word \<Rightarrow> 'a word" where
  "saturating_sub a b = (if b \<le> a then a - b else 0)"

definition saturating_mul :: "'a::len word \<Rightarrow> 'a word \<Rightarrow> 'a word" where
  "saturating_mul a b =
     (if unat a * unat b < 2 ^ LENGTH('a) then a * b else (- 1))"

lemma unat_saturating_add:
  "unat (saturating_add a b) = min (unat a + unat b) (2 ^ LENGTH('a) - 1)"
  for a b :: "'a::len word"
  by (auto simp: saturating_add_def unat_word_ariths unsigned_minus_1_eq_mask
      mask_eq_exp_minus_1 min_def)

lemma unat_saturating_sub: "unat (saturating_sub a b) = unat a - unat b"
  for a b :: "'a::len word"
  by (auto simp: saturating_sub_def unat_sub word_le_nat_alt)

lemma unat_saturating_mul:
  "unat (saturating_mul a b) = min (unat a * unat b) (2 ^ LENGTH('a) - 1)"
  for a b :: "'a::len word"
proof -
  have m: "unat (- 1 :: 'a word) = 2 ^ LENGTH('a) - 1"
    by (simp add: unsigned_minus_1_eq_mask mask_eq_exp_minus_1)
  show ?thesis
  proof (cases "unat a * unat b < 2 ^ LENGTH('a)")
    case True
    then have "unat a * unat b \<le> 2 ^ LENGTH('a) - 1" by linarith
    with True show ?thesis by (simp add: saturating_mul_def unat_word_ariths del: One_nat_def)
  next
    case False
    then have "2 ^ LENGTH('a) - 1 \<le> unat a * unat b" by linarith
    with False m show ?thesis by (simp add: saturating_mul_def)
  qed
qed

lemma saturating_add_ge: "a \<le> saturating_add a b"
  for a b :: "'a::len word"
proof -
  have "unat a < 2 ^ LENGTH('a)" by (rule unsigned_less)
  then have "unat a \<le> 2 ^ LENGTH('a) - 1" by linarith
  then show ?thesis by (simp add: word_le_nat_alt unat_saturating_add)
qed

section \<open>Decimal text of a number\<close>

text \<open>\<open>u64::to_string\<close>: the decimal digits, most significant first, no leading zero.\<close>

definition digit_char :: "nat \<Rightarrow> char" where
  "digit_char n = char_of (48 + n)"

fun decimal :: "nat \<Rightarrow> string" where
  "decimal n = (if n < 10 then [digit_char n] else decimal (n div 10) @ [digit_char (n mod 10)])"

declare decimal.simps [simp del]

definition u64_to_string :: "u64 \<Rightarrow> string" where
  "u64_to_string x = decimal (unat x)"

definition undecimal :: "string \<Rightarrow> nat" where
  "undecimal s = foldl (\<lambda>acc c. acc * 10 + (of_char c - 48)) 0 s"

lemma of_char_digit_char: "n < 10 \<Longrightarrow> (of_char (digit_char n) :: nat) = 48 + n"
  by (simp add: digit_char_def)

lemma undecimal_decimal [simp]: "undecimal (decimal n) = n"
proof (induction n rule: decimal.induct)
  case (1 n)
  show ?case
  proof (cases "n < 10")
    case True
    then show ?thesis by (subst decimal.simps) (simp add: undecimal_def of_char_digit_char)
  next
    case False
    with 1 have "undecimal (decimal (n div 10)) = n div 10" by simp
    with False show ?thesis
      by (subst decimal.simps) (simp add: undecimal_def of_char_digit_char)
  qed
qed

lemma decimal_eq [simp]: "decimal a = decimal b \<longleftrightarrow> a = b"
  by (metis undecimal_decimal)

lemma u64_to_string_eq [simp]: "u64_to_string a = u64_to_string b \<longleftrightarrow> a = b"
  by (auto simp: u64_to_string_def dest: unsigned_word_eqI)

lemma decimal_nonempty [simp]: "decimal n \<noteq> []"
  by (subst decimal.simps) simp

lemma decimal_digits: "c \<in> set (decimal n) \<Longrightarrow> 48 \<le> (of_char c :: nat) \<and> (of_char c :: nat) \<le> 57"
proof (induction n rule: decimal.induct)
  case (1 n)
  then show ?case
    by (subst (asm) (2) decimal.simps) (auto simp: of_char_digit_char split: if_splits)
qed

lemma decimal_length: "length (decimal n) \<le> max 1 n"
proof (induction n rule: decimal.induct)
  case (1 n)
  show ?case
  proof (cases "n < 10")
    case True
    then show ?thesis by (subst decimal.simps) simp
  next
    case False
    with 1 have "length (decimal (n div 10)) \<le> max 1 (n div 10)" by simp
    also have "\<dots> < n" using False by auto
    finally show ?thesis using False by (subst decimal.simps) simp
  qed
qed

lemma u64_to_string_length: "length (u64_to_string x) < 2 ^ 64"
proof -
  have "unat x < 2 ^ 64" using unsigned_less [of x] by simp
  then have "max 1 (unat x) < 2 ^ 64" by simp
  then show ?thesis using decimal_length [of "unat x"] unfolding u64_to_string_def by linarith
qed

section \<open>Fallible operations that pass a state\<close>

text \<open>
  A handler of the bridge takes the state, may change it and may fail. It keeps the changes it
  made before the failure, so the state is returned on both branches.
\<close>

type_synonym ('s, 'e, 'a) action = "'s \<Rightarrow> ('e + 'a) \<times> 's"

definition ok :: "'a \<Rightarrow> ('s, 'e, 'a) action" where
  "ok a = (\<lambda>s. (Inr a, s))"

definition err :: "'e \<Rightarrow> ('s, 'e, 'a) action" where
  "err e = (\<lambda>s. (Inl e, s))"

text \<open>\<open>let a = m?; f(a)\<close>: the first error ends the handler.\<close>

definition bind_ok ::
  "('s, 'e, 'a) action \<Rightarrow> ('a \<Rightarrow> ('s, 'e, 'b) action) \<Rightarrow> ('s, 'e, 'b) action" where
  "bind_ok m f = (\<lambda>s. case m s of (Inl e, s') \<Rightarrow> (Inl e, s') | (Inr a, s') \<Rightarrow> f a s')"

definition then_ok ::
  "('s, 'e, unit) action \<Rightarrow> ('s, 'e, 'b) action \<Rightarrow> ('s, 'e, 'b) action" where
  "then_ok m n = bind_ok m (\<lambda>_. n)"

text \<open>\<open>Result::map_err\<close>.\<close>

definition map_err :: "('e \<Rightarrow> 'f) \<Rightarrow> ('s, 'e, 'a) action \<Rightarrow> ('s, 'f, 'a) action" where
  "map_err g m = (\<lambda>s. case m s of (Inl e, s') \<Rightarrow> (Inl (g e), s') | (Inr a, s') \<Rightarrow> (Inr a, s'))"

named_theorems action_simps \<open>the equations that run an action\<close>

lemma ok_run [action_simps]: "ok a s = (Inr a, s)"
  by (simp add: ok_def)

lemma err_run [action_simps]: "err e s = (Inl e, s)"
  by (simp add: err_def)

lemma bind_ok_run [action_simps]:
  "bind_ok m f s = (case m s of (Inl e, s') \<Rightarrow> (Inl e, s') | (Inr a, s') \<Rightarrow> f a s')"
  by (simp add: bind_ok_def)

lemma then_ok_run [action_simps]:
  "then_ok m n s = (case m s of (Inl e, s') \<Rightarrow> (Inl e, s') | (Inr a, s') \<Rightarrow> n s')"
  by (simp add: then_ok_def bind_ok_def)

lemma map_err_run [action_simps]:
  "map_err g m s =
     (case m s of (Inl e, s') \<Rightarrow> (Inl (g e), s') | (Inr a, s') \<Rightarrow> (Inr a, s'))"
  by (simp add: map_err_def)

lemma bind_ok_okE:
  assumes "bind_ok m f s = (Inr b, s2)"
  obtains a s1 where "m s = (Inr a, s1)" and "f a s1 = (Inr b, s2)"
  using assms by (auto simp: bind_ok_def split: prod.splits sum.splits)

lemma then_ok_okE:
  assumes "then_ok m n s = (Inr b, s2)"
  obtains s1 where "m s = (Inr (), s1)" and "n s1 = (Inr b, s2)"
  using assms by (auto simp: then_ok_def elim: bind_ok_okE)

text \<open>A property of the state that an action keeps, whatever its outcome.\<close>

definition maintains :: "('s \<Rightarrow> bool) \<Rightarrow> ('s, 'e, 'a) action \<Rightarrow> bool" where
  "maintains P m \<longleftrightarrow> (\<forall>s. P s \<longrightarrow> P (snd (m s)))"

named_theorems maintains_intros \<open>rules that compose actions keeping a property\<close>

lemma maintainsD: "maintains P m \<Longrightarrow> m s = (r, s') \<Longrightarrow> P s \<Longrightarrow> P s'"
  by (metis maintains_def snd_conv)

lemma maintains_ok [maintains_intros]: "maintains P (ok a)"
  by (simp add: maintains_def ok_def)

lemma maintains_err [maintains_intros]: "maintains P (err e)"
  by (simp add: maintains_def err_def)

lemma maintains_bind_ok [maintains_intros]:
  "maintains P m \<Longrightarrow> (\<And>a. maintains P (f a)) \<Longrightarrow> maintains P (bind_ok m f)"
  unfolding maintains_def bind_ok_def
  by (clarsimp split: prod.splits sum.splits) (metis snd_conv)

lemma maintains_then_ok [maintains_intros]:
  "maintains P m \<Longrightarrow> maintains P n \<Longrightarrow> maintains P (then_ok m n)"
  by (simp add: then_ok_def maintains_bind_ok)

lemma maintains_if [maintains_intros]:
  "(b \<Longrightarrow> maintains P m) \<Longrightarrow> (\<not> b \<Longrightarrow> maintains P n) \<Longrightarrow> maintains P (if b then m else n)"
  by simp

lemma maintains_case_option [maintains_intros]:
  "(x = None \<Longrightarrow> maintains P m) \<Longrightarrow> (\<And>a. x = Some a \<Longrightarrow> maintains P (f a)) \<Longrightarrow>
     maintains P (case x of None \<Rightarrow> m | Some a \<Rightarrow> f a)"
  by (cases x) simp_all

section \<open>Rows with a primary key\<close>

text \<open>
  A table is the list of its rows in insertion order. \<open>row_lookup\<close> reads the row of a key,
  \<open>row_upsert\<close> is \<open>INSERT ... ON CONFLICT(key) DO UPDATE\<close> (the row in place of the old one, whose
  kept columns the merge function reads, or a new row at the end), \<open>row_update\<close> is
  \<open>UPDATE ... WHERE\<close> and \<open>row_delete\<close> is \<open>DELETE ... WHERE\<close>.
\<close>

definition row_lookup :: "('r \<Rightarrow> 'k) \<Rightarrow> 'k \<Rightarrow> 'r list \<Rightarrow> 'r option" where
  "row_lookup key k rows = find (\<lambda>r. key r = k) rows"

definition row_update :: "('r \<Rightarrow> bool) \<Rightarrow> ('r \<Rightarrow> 'r) \<Rightarrow> 'r list \<Rightarrow> 'r list" where
  "row_update p f rows = map (\<lambda>r. if p r then f r else r) rows"

definition row_upsert :: "('r \<Rightarrow> 'k) \<Rightarrow> ('r \<Rightarrow> 'r \<Rightarrow> 'r) \<Rightarrow> 'r \<Rightarrow> 'r list \<Rightarrow> 'r list" where
  "row_upsert key merge new rows =
     (if key new \<in> set (map key rows)
      then row_update (\<lambda>r. key r = key new) (\<lambda>old. merge old new) rows
      else rows @ [new])"

definition row_delete :: "('r \<Rightarrow> bool) \<Rightarrow> 'r list \<Rightarrow> 'r list" where
  "row_delete p rows = filter (\<lambda>r. \<not> p r) rows"

lemma set_row_delete [simp]: "set (row_delete p rows) = {r \<in> set rows. \<not> p r}"
  by (auto simp: row_delete_def)

lemma set_row_update: "set (row_update p f rows) = f ` {r \<in> set rows. p r} \<union> {r \<in> set rows. \<not> p r}"
  by (auto simp: row_update_def)

text \<open>The primary-key constraint.\<close>

definition keyed :: "('r \<Rightarrow> 'k) \<Rightarrow> 'r list \<Rightarrow> bool" where
  "keyed key rows \<longleftrightarrow> distinct (map key rows)"

lemma row_lookup_Nil [simp]: "row_lookup key k [] = None"
  by (simp add: row_lookup_def)

lemma row_lookup_Cons:
  "row_lookup key k (r # rows) = (if key r = k then Some r else row_lookup key k rows)"
  by (simp add: row_lookup_def)

lemma row_lookup_append:
  "row_lookup key k (xs @ ys) =
     (case row_lookup key k xs of None \<Rightarrow> row_lookup key k ys | Some r \<Rightarrow> Some r)"
  by (induction xs) (auto simp: row_lookup_Cons)

lemma row_lookup_None_iff: "row_lookup key k rows = None \<longleftrightarrow> k \<notin> set (map key rows)"
  by (induction rows) (auto simp: row_lookup_Cons)

lemma row_lookup_SomeD: "row_lookup key k rows = Some r \<Longrightarrow> r \<in> set rows \<and> key r = k"
  by (induction rows) (auto simp: row_lookup_Cons split: if_splits)

lemma row_lookup_mem: "keyed key rows \<Longrightarrow> r \<in> set rows \<Longrightarrow> row_lookup key (key r) rows = Some r"
  by (induction rows) (auto simp: row_lookup_Cons keyed_def)

lemma row_update_keys:
  "(\<And>r. key (f r) = key r) \<Longrightarrow> map key (row_update p f rows) = map key rows"
  by (simp add: row_update_def)

lemma row_lookup_update:
  assumes "\<And>r. key (f r) = key r"
  shows "row_lookup key k (row_update p f rows) =
           map_option (\<lambda>r. if p r then f r else r) (row_lookup key k rows)"
  using assms by (induction rows) (auto simp: row_update_def row_lookup_Cons)

lemma row_lookup_update_key:
  assumes "\<And>r. key (f r) = key r"
  shows "row_lookup key k (row_update (\<lambda>r. key r = k') f rows) =
           (if k = k' then map_option f (row_lookup key k rows) else row_lookup key k rows)"
  using assms by (induction rows) (auto simp: row_update_def row_lookup_Cons)

lemma row_lookup_delete:
  assumes "keyed key rows"
  shows "row_lookup key k (row_delete p rows) =
           (case row_lookup key k rows of None \<Rightarrow> None | Some r \<Rightarrow> if p r then None else Some r)"
  using assms
proof (induction rows)
  case Nil
  then show ?case by (simp add: row_delete_def)
next
  case (Cons r rows)
  have "row_lookup key (key r) (row_delete p rows) = None"
    using Cons.prems by (auto simp: row_lookup_None_iff row_delete_def keyed_def)
  with Cons show ?case by (auto simp: row_delete_def row_lookup_Cons keyed_def)
qed

lemma row_lookup_upsert:
  assumes "\<And>old. key old = key new \<Longrightarrow> key (merge old new) = key new"
  shows "row_lookup key k (row_upsert key merge new rows) =
           (if k = key new
            then Some (case row_lookup key k rows of None \<Rightarrow> new | Some old \<Rightarrow> merge old new)
            else row_lookup key k rows)"
proof (cases "key new \<in> set (map key rows)")
  case True
  have *: "row_lookup key k (row_update (\<lambda>r. key r = key new) (\<lambda>old. merge old new) rows) =
      map_option (\<lambda>r. if key r = key new then merge r new else r) (row_lookup key k rows)"
    using assms by (induction rows) (auto simp: row_update_def row_lookup_Cons)
  obtain r where "row_lookup key (key new) rows = Some r"
    using True row_lookup_None_iff [of key "key new" rows] by auto
  then show ?thesis using True *
    by (auto simp: row_upsert_def map_option_case split: option.splits dest: row_lookup_SomeD)
next
  case False
  then have "row_lookup key (key new) rows = None" by (simp add: row_lookup_None_iff)
  with False show ?thesis
    by (auto simp: row_upsert_def row_lookup_append row_lookup_Cons split: option.splits)
qed

lemma keyed_Nil [simp]: "keyed key []"
  by (simp add: keyed_def)

lemma keyed_update: "(\<And>r. key (f r) = key r) \<Longrightarrow> keyed key rows \<Longrightarrow> keyed key (row_update p f rows)"
  by (simp add: keyed_def row_update_keys)

lemma keyed_delete: "keyed key rows \<Longrightarrow> keyed key (row_delete p rows)"
  by (simp add: keyed_def row_delete_def distinct_map_filter)

lemma keyed_upsert:
  assumes "\<And>old. key old = key new \<Longrightarrow> key (merge old new) = key new" and "keyed key rows"
  shows "keyed key (row_upsert key merge new rows)"
proof (cases "key new \<in> set (map key rows)")
  case True
  have "map key (row_update (\<lambda>r. key r = key new) (\<lambda>old. merge old new) rows) = map key rows"
    using assms(1) by (induction rows) (auto simp: row_update_def)
  with True assms(2) show ?thesis by (simp add: row_upsert_def keyed_def)
next
  case False
  with assms(2) show ?thesis by (auto simp: row_upsert_def keyed_def)
qed

lemmas row_simps = row_lookup_update row_lookup_delete row_lookup_upsert
lemmas keyed_intros = keyed_update keyed_delete keyed_upsert

lemma row_lookup_map: "row_lookup key k (map f xs) = map_option f (row_lookup (\<lambda>x. key (f x)) k xs)"
  by (induction xs) (auto simp: row_lookup_Cons)

text \<open>With unique keys the order of the rows does not matter.\<close>

lemma row_lookup_set_eq:
  assumes "keyed key xs" and "keyed key ys" and "set xs = set ys"
  shows "row_lookup key k xs = row_lookup key k ys"
proof (cases "row_lookup key k xs")
  case None
  then have "row_lookup key k ys = None" using assms(3) by (simp add: row_lookup_None_iff)
  with None show ?thesis by simp
next
  case (Some r)
  then have "r \<in> set ys" "key r = k" using assms(3) by (auto dest: row_lookup_SomeD)
  with Some row_lookup_mem [OF assms(2)] show ?thesis by auto
qed

lemma distinct_set_singleton: "distinct xs \<Longrightarrow> set xs = {x} \<Longrightarrow> xs = [x]"
proof (cases xs)
  case (Cons y ys)
  assume "distinct xs" "set xs = {x}"
  with Cons have "y = x" "\<And>z. z \<notin> set ys" by auto
  with Cons show ?thesis by (cases ys) auto
qed simp

section \<open>Sorting by a key without ties\<close>

lemma sorted_by_key_unique:
  assumes "sorted (map f xs)" and "sorted (map f ys)" and "distinct (map f xs)"
    and "distinct (map f ys)" and "set xs = set ys"
  shows "xs = ys"
proof -
  have "map f xs = map f ys"
    using assms by (intro sorted_distinct_set_unique) simp_all
  moreover have "inj_on f (set xs \<union> set ys)" using assms(3,5) by (simp add: distinct_map)
  ultimately show ?thesis by (simp add: inj_on_map_eq_map)
qed

lemma sort_key_eqI:
  assumes "distinct (map f xs)" and "sorted (map f ys)" and "distinct (map f ys)"
    and "set xs = set ys"
  shows "sort_key f xs = ys"
  using assms by (intro sorted_by_key_unique [of f]) (auto simp: distinct_map)

lemma sort_key_filter:
  assumes "distinct (map f xs)"
  shows "sort_key f (filter P xs) = filter P (sort_key f xs)"
  using assms
  by (intro sort_key_eqI) (auto simp: distinct_map sorted_filter intro: inj_on_subset)

lemma sort_key_hd_min:
  assumes "sort_key f xs = y # ys"
  shows "y \<in> set xs" and "x \<in> set xs \<Longrightarrow> f y \<le> f x"
proof -
  have set_eq: "set xs = set (y # ys)" using assms by (metis set_sort)
  then show "y \<in> set xs" by simp
  have "sorted (map f (y # ys))" using assms by (metis sorted_sort_key)
  then show "x \<in> set xs \<Longrightarrow> f y \<le> f x" using set_eq by auto
qed

end
