(* ===== verification/Protocol_Types.thy ===== *)
theory Protocol_Types
  imports Prelude
begin

text \<open>
  The data of \<open>crates/bridge-core/src/protocol.rs\<close>: session snapshots, alert kinds and events,
  approvals and their decisions, the envelopes the server sends and the commands a client sends.
  Rust strings are lists of UTF-8 bytes. The JSON text a field carries (\<open>serde_json::Value\<close>) is
  the type parameter \<open>'json\<close>.
\<close>

datatype session_status = Idle | Running | WaitingForInput | WaitingForApproval | StatusError

datatype session_event_type =
    Message | MessageDelta | ReasoningSummary | ReasoningSummaryDelta | Plan | PlanDelta
  | ToolCall | ToolResult | ApprovalRequested | ApprovalResolvedEvent | StatusChanged | ErrorEvent

datatype alert_kind = Completed | ApprovalRequired | InputRequired | ErrorAlert

datatype approval_kind = Command | FileEdit | Network | Mcp | UnknownApproval

datatype decision_kind = Approve | Reject

datatype api_error_code =
    Unauthorized | InvalidRequest | Forbidden | NotFound | UnsupportedMediaType | InternalError
  | InvalidPairingToken | ExpiredPairingToken | DeviceRevokedCode | DeviceNotFoundCode
  | AdapterError | WorkspaceRequired | WorkspaceNotAllowed | WorkspaceUnavailable
  | PushUnavailable | InvalidSubscriptionCode

record session_snapshot =
  snap_thread_id :: string
  snap_title :: string
  snap_cwd :: "string option"
  snap_model_provider :: "string option"
  snap_preview :: "string option"
  snap_updated_at :: u64
  snap_status :: session_status
  snap_pending_approval_ids :: "string list"

record workspace_option =
  wo_cwd :: string

record 'json session_event =
  ev_id :: string
  ev_thread_id :: string
  ev_type :: session_event_type
  ev_payload :: 'json
  ev_created_at :: u64

record alert_event =
  al_event_id :: string
  al_kind :: alert_kind
  al_thread_id :: string
  al_thread_title :: string
  al_occurred_at :: u64

record 'json approval_request =
  ap_id :: string
  ap_thread_id :: string
  ap_kind :: approval_kind
  ap_title :: string
  ap_detail :: string
  ap_risk_hint :: "string option"
  ap_raw :: "'json option"
  ap_created_at :: u64
  ap_expires_at :: "u64 option"

record approval_decision =
  dec_approval_id :: string
  dec_decision :: decision_kind
  dec_comment :: "string option"
  dec_device_id :: string
  dec_decided_at :: u64

datatype 'json server_envelope =
    SessionSnapshot session_snapshot
  | SessionEvent "'json session_event"
  | AlertEvent alert_event
  | ApprovalRequest "'json approval_request"
  | ApprovalResolved approval_decision
  | ServerError string

datatype client_command =
    Subscribe "string option"
  | SendMessage string string
  | ApprovalDecision approval_decision

text \<open>
  The names \<open>#[serde(rename_all = "snake_case")]\<close> gives the variants, which is what the JSON text
  of a status holds.
\<close>

fun session_status_name :: "session_status \<Rightarrow> string" where
  "session_status_name Idle = ''idle''"
| "session_status_name Running = ''running''"
| "session_status_name WaitingForInput = ''waiting_for_input''"
| "session_status_name WaitingForApproval = ''waiting_for_approval''"
| "session_status_name StatusError = ''error''"

definition all_session_statuses :: "session_status list" where
  "all_session_statuses = [Idle, Running, WaitingForInput, WaitingForApproval, StatusError]"

definition quote_json :: "string \<Rightarrow> string" where
  "quote_json s = [CHR 0x22] @ s @ [CHR 0x22]"

definition session_status_to_json :: "session_status \<Rightarrow> string" where
  "session_status_to_json s = quote_json (session_status_name s)"

definition session_status_from_json :: "string \<Rightarrow> session_status option" where
  "session_status_from_json text =
     find (\<lambda>s. session_status_to_json s = text) all_session_statuses"

lemma session_status_name_eq [simp]: "session_status_name a = session_status_name b \<longleftrightarrow> a = b"
  by (cases a; cases b) simp_all

lemma session_status_json_round_trip [simp]:
  "session_status_from_json (session_status_to_json s) = Some s"
  by (cases s)
    (simp_all add: session_status_from_json_def all_session_statuses_def session_status_to_json_def
      quote_json_def)

end
