(* ===== verification/Sqlite.thy ===== *)
theory Sqlite
  imports Protocol_Types
begin

text \<open>
  The SQLite file that \<open>storage.rs\<close> and \<open>notification_store.rs\<close> open (the sidecar opens both on the
  same path). Each table is the list of its rows. \<open>faults\<close> is the environment's script: one entry
  per call into the database, \<open>True\<close> where the connection fails (a busy or broken file); an empty
  script is a connection that works. A failing call changes no table, as a failed statement or a
  rolled-back transaction does.
\<close>

record device =
  device_id :: string
  display_name :: string
  secret_hash :: string
  paired_origin :: "string option"
  dev_created_at :: u64
  last_seen_at :: u64
  revoked_at :: "u64 option"

record event_cursor =
  cur_thread_id :: string
  cursor :: string
  cur_updated_at :: u64

record alert_kind_settings =
  kind_completed :: bool
  kind_approval_required :: bool
  kind_input_required :: bool
  kind_error :: bool

record device_notification_settings =
  set_device_id :: string
  set_enabled :: bool
  alert_kinds :: alert_kind_settings
  sound_enabled :: bool
  vibration_enabled :: bool
  set_updated_at :: u64

text \<open>
  Two structs keep a column as text that the Rust value holds decoded: the field's type is a
  parameter, so that the row and the decoded struct share their other fields.
\<close>

record ('status, 'ids) alert_state =
  as_thread_id :: string
  as_status :: 'status
  as_updated_at :: u64
  state_cycle :: u64
  known_approval_ids :: 'ids
  fallback_approval_cycle :: "u64 option"

record push_subscription =
  sub_device_id :: string
  sub_origin :: string
  endpoint :: string
  p256dh :: string
  auth :: string
  sub_created_at :: u64
  last_success_at :: "u64 option"
  invalidated_at :: "u64 option"

record 'status delivery =
  dl_event_id :: string
  dl_device_id :: string
  payload_json :: string
  dl_status :: 'status
  attempt_count :: u32
  next_attempt_at :: u64
  last_error_category :: "string option"
  dl_updated_at :: u64

type_synonym session_alert_state = "(session_status, string list) alert_state"
type_synonym alert_state_row = "(string, string) alert_state"
type_synonym delivery_row = "string delivery"

record db =
  faults :: "bool list"
  devices :: "device list"
  event_cursors :: "event_cursor list"
  device_settings :: "device_notification_settings list"
  alert_states :: "alert_state_row list"
  push_subscriptions :: "push_subscription list"
  deliveries :: "delivery_row list"

text \<open>The database of a first start: the migrations have made every table, all empty.\<close>

definition empty_db :: db where
  "empty_db =
     \<lparr>faults = [], devices = [], event_cursors = [], device_settings = [], alert_states = [],
      push_subscriptions = [], deliveries = []\<rparr>"

datatype db_error =
    ConnectionFailure | ToSqlConversionFailure | FromSqlConversionFailure | InvalidQuery

type_synonym 'a db_op = "(db, db_error, 'a) action"

text \<open>
  One call: the script is asked first, then the statement runs on the tables. \<open>rusqlite\<close> stores a
  \<open>u64\<close> as SQLite's signed 64-bit integer and refuses one that does not fit.
\<close>

definition sql_call :: "(db \<Rightarrow> db_error + ('a \<times> db)) \<Rightarrow> 'a db_op" where
  "sql_call f s =
     (let s' = s\<lparr>faults := tl (faults s)\<rparr>
      in if faults s \<noteq> [] \<and> hd (faults s) then (Inl ConnectionFailure, s')
         else case f s' of Inl e \<Rightarrow> (Inl e, s') | Inr (a, s'') \<Rightarrow> (Inr a, s''))"

definition fits_i64 :: "u64 \<Rightarrow> bool" where
  "fits_i64 x \<longleftrightarrow> x < 2 ^ 63"

definition fits_i64_opt :: "u64 option \<Rightarrow> bool" where
  "fits_i64_opt x \<longleftrightarrow> (case x of None \<Rightarrow> True | Some v \<Rightarrow> fits_i64 v)"

text \<open>A statement whose integer parameters are bound first.\<close>

definition with_params :: "bool \<Rightarrow> (db \<Rightarrow> 'a \<times> db) \<Rightarrow> db \<Rightarrow> db_error + ('a \<times> db)" where
  "with_params fits f s = (if fits then Inr (f s) else Inl ToSqlConversionFailure)"

definition sql_write :: "bool \<Rightarrow> (db \<Rightarrow> db) \<Rightarrow> unit db_op" where
  "sql_write fits f = sql_call (with_params fits (\<lambda>s. ((), f s)))"

definition sql_read :: "(db \<Rightarrow> 'a) \<Rightarrow> 'a db_op" where
  "sql_read f = sql_call (\<lambda>s. Inr (f s, s))"

text \<open>The tables, without the script: what an operation is about.\<close>

definition tables :: "db \<Rightarrow> db" where
  "tables s = s\<lparr>faults := []\<rparr>"

definition same_tables :: "db \<Rightarrow> db \<Rightarrow> bool" where
  "same_tables s t \<longleftrightarrow> tables s = tables t"

lemma same_tables_refl [simp]: "same_tables s s"
  by (simp add: same_tables_def)

lemma same_tables_sym: "same_tables s t \<Longrightarrow> same_tables t s"
  by (simp add: same_tables_def)

lemma same_tables_trans [trans]: "same_tables s t \<Longrightarrow> same_tables t u \<Longrightarrow> same_tables s u"
  by (simp add: same_tables_def)

lemma same_tables_fields:
  "same_tables s t \<longleftrightarrow>
     devices s = devices t \<and> event_cursors s = event_cursors t \<and>
     device_settings s = device_settings t \<and> alert_states s = alert_states t \<and>
     push_subscriptions s = push_subscriptions t \<and> deliveries s = deliveries t \<and>
     db.more s = db.more t"
  by (cases s; cases t) (simp add: same_tables_def tables_def)

lemma same_tables_faults [simp]: "same_tables (s\<lparr>faults := fs\<rparr>) s"
  by (simp add: same_tables_fields)

text \<open>A call that fails, or that only reads, leaves the tables as they were.\<close>

lemma sql_call_error_tables:
  assumes "sql_call f s = (Inl e, s')"
  shows "same_tables s' s"
  using assms by (auto simp: sql_call_def Let_def split: if_splits sum.splits)

lemma sql_write_error_tables: "sql_write fits f s = (Inl e, s') \<Longrightarrow> same_tables s' s"
  unfolding sql_write_def by (rule sql_call_error_tables)

lemma sql_read_tables: "sql_read f s = (r, s') \<Longrightarrow> same_tables s' s"
  by (auto simp: sql_read_def sql_call_def Let_def split: if_splits)

lemma sql_read_ok: "sql_read f s = (Inr a, s') \<Longrightarrow> a = f (s\<lparr>faults := tl (faults s)\<rparr>)"
  by (auto simp: sql_read_def sql_call_def Let_def split: if_splits)

lemma sql_write_ok:
  "sql_write fits f s = (Inr u, s') \<longleftrightarrow>
     \<not> (faults s \<noteq> [] \<and> hd (faults s)) \<and> fits \<and> s' = f (s\<lparr>faults := tl (faults s)\<rparr>)"
  by (auto simp: sql_write_def sql_call_def with_params_def Let_def split: if_splits)

lemma no_faults [simp]: "faults s = [] \<Longrightarrow> s\<lparr>faults := []\<rparr> = s"
  by (cases s) simp

lemma sql_write_working: "faults s = [] \<Longrightarrow> fits \<Longrightarrow> sql_write fits f s = (Inr (), f s)"
  by (simp add: sql_write_def sql_call_def with_params_def)

lemma sql_read_working: "faults s = [] \<Longrightarrow> sql_read f s = (Inr (f s), s)"
  by (simp add: sql_read_def sql_call_def Let_def)

lemma sql_call_working:
  "faults s = [] \<Longrightarrow>
     sql_call f s = (case f s of Inl e \<Rightarrow> (Inl e, s) | Inr (a, s') \<Rightarrow> (Inr a, s'))"
  by (simp add: sql_call_def Let_def)

lemmas sql_working = sql_write_working sql_read_working sql_call_working

text \<open>
  A property of the tables that the statement keeps is kept by the call, whatever its outcome.
\<close>

lemma sql_write_keeps:
  assumes "sql_write fits f s = (r, s')" and "P s" and "\<And>s. P s \<Longrightarrow> P (f s)"
    and "\<And>s fs. P s \<Longrightarrow> P (s\<lparr>faults := fs\<rparr>)"
  shows "P s'"
  using assms
  by (auto simp: sql_write_def sql_call_def with_params_def Let_def split: if_splits)

lemma sql_read_keeps:
  assumes "sql_read f s = (r, s')" and "P s" and "\<And>s fs. P s \<Longrightarrow> P (s\<lparr>faults := fs\<rparr>)"
  shows "P s'"
  using assms by (auto simp: sql_read_def sql_call_def Let_def split: if_splits)


lemma sql_write_maintains:
  assumes "\<And>s. P s \<Longrightarrow> P (f s)" and "\<And>s fs. P s \<Longrightarrow> P (s\<lparr>faults := fs\<rparr>)"
  shows "maintains P (sql_write fits f)"
  unfolding maintains_def by (metis assms sql_write_keeps prod.collapse)

lemma sql_read_maintains:
  assumes "\<And>s fs. P s \<Longrightarrow> P (s\<lparr>faults := fs\<rparr>)"
  shows "maintains P (sql_read f)"
  unfolding maintains_def by (metis assms sql_read_keeps prod.collapse)

lemma sql_call_maintains:
  assumes "\<And>s a s'. P s \<Longrightarrow> f s = Inr (a, s') \<Longrightarrow> P s'" and "\<And>s fs. P s \<Longrightarrow> P (s\<lparr>faults := fs\<rparr>)"
  shows "maintains P (sql_call f)"
proof -
  have "P (snd (sql_call f s))" if "P s" for s
  proof -
    let ?s = "s\<lparr>faults := tl (faults s)\<rparr>"
    have "P ?s" using assms(2) that .
    with assms(1) [of ?s] show ?thesis
      by (cases "f ?s") (auto simp: sql_call_def Let_def split: prod.splits)
  qed
  then show ?thesis by (simp add: maintains_def)
qed

end
