(* ===== verification/Storage.thy ===== *)
theory Storage
  imports Sqlite
begin

text \<open>
  \<open>crates/bridge-core/src/storage.rs\<close>: the table of paired devices and the event cursors. Every
  operation is the SQL statement of the source on the rows of \<^theory_text>\<open>Sqlite\<close>. The locale
  \<open>device_store\<close> is the contract the pairing manager relies on; it is interpreted on the operations
  of this file.
\<close>

section \<open>Operations\<close>

text \<open>
  \<open>INSERT ... ON CONFLICT(device_id) DO UPDATE\<close>: a row of the same device keeps its \<open>created_at\<close>,
  every other column is the new one.
\<close>

definition merge_device :: "device \<Rightarrow> device \<Rightarrow> device" where
  "merge_device old new = new\<lparr>dev_created_at := dev_created_at old\<rparr>"

definition insert_device :: "device \<Rightarrow> unit db_op" where
  "insert_device d =
     sql_write (fits_i64 (dev_created_at d) \<and> fits_i64 (last_seen_at d) \<and> fits_i64_opt (revoked_at d))
       (\<lambda>s. s\<lparr>devices := row_upsert device_id merge_device d (devices s)\<rparr>)"

definition revoke_device :: "string \<Rightarrow> u64 \<Rightarrow> unit db_op" where
  "revoke_device did at =
     sql_write (fits_i64 at)
       (\<lambda>s. s\<lparr>devices := row_update (\<lambda>d. device_id d = did) (\<lambda>d. d\<lparr>revoked_at := Some at\<rparr>)
                          (devices s)\<rparr>)"

definition device_by_id :: "string \<Rightarrow> device option db_op" where
  "device_by_id did = sql_read (\<lambda>s. row_lookup device_id did (devices s))"

definition active_devices :: "device list db_op" where
  "active_devices =
     sql_read (\<lambda>s. sort_key (\<lambda>d. (dev_created_at d, device_id d))
                      (filter (\<lambda>d. revoked_at d = None) (devices s)))"

definition record_event_cursor :: "string \<Rightarrow> string \<Rightarrow> u64 \<Rightarrow> unit db_op" where
  "record_event_cursor tid cur at =
     sql_write (fits_i64 at)
       (\<lambda>s. s\<lparr>event_cursors :=
          row_upsert cur_thread_id (\<lambda>old new. new)
            \<lparr>cur_thread_id = tid, cursor = cur, cur_updated_at = at\<rparr> (event_cursors s)\<rparr>)"

definition latest_event_cursor :: "string \<Rightarrow> string option db_op" where
  "latest_event_cursor tid =
     sql_read (\<lambda>s. map_option cursor (row_lookup cur_thread_id tid (event_cursors s)))"

section \<open>The contract of a device store\<close>

locale device_store =
  fixes lookup :: "'s \<Rightarrow> string \<Rightarrow> device option"
    and insert_dev :: "device \<Rightarrow> ('s, 'e, unit) action"
    and revoke :: "string \<Rightarrow> u64 \<Rightarrow> ('s, 'e, unit) action"
    and by_id :: "string \<Rightarrow> ('s, 'e, device option) action"
  assumes insert_ok: "insert_dev d s = (Inr (), s') \<Longrightarrow>
      lookup s' k =
        (if k = device_id d
         then Some (case lookup s k of None \<Rightarrow> d | Some old \<Rightarrow> merge_device old d)
         else lookup s k)"
    and insert_err: "insert_dev d s = (Inl e, s') \<Longrightarrow> lookup s' = lookup s"
    and revoke_ok: "revoke did at s = (Inr (), s') \<Longrightarrow>
      lookup s' k =
        (if k = did then map_option (\<lambda>d. d\<lparr>revoked_at := Some at\<rparr>) (lookup s k) else lookup s k)"
    and revoke_err: "revoke did at s = (Inl e, s') \<Longrightarrow> lookup s' = lookup s"
    and by_id_ok: "by_id did s = (Inr found, s') \<Longrightarrow> found = lookup s did"
    and by_id_frame: "by_id did s = (res, s') \<Longrightarrow> lookup s' = lookup s"
begin

definition is_active :: "'s \<Rightarrow> string \<Rightarrow> bool" where
  "is_active s did \<longleftrightarrow> (\<exists>d. lookup s did = Some d \<and> revoked_at d = None)"

definition is_revoked :: "'s \<Rightarrow> string \<Rightarrow> bool" where
  "is_revoked s did \<longleftrightarrow> (\<exists>d. lookup s did = Some d \<and> revoked_at d \<noteq> None)"

lemma active_not_revoked: "is_active s did \<Longrightarrow> \<not> is_revoked s did"
  by (auto simp: is_active_def is_revoked_def)

lemma insert_activates:
  assumes "insert_dev d s = (Inr (), s')" and "revoked_at d = None"
  shows "is_active s' (device_id d)"
  using assms insert_ok [OF assms(1), of "device_id d"]
  by (auto simp: is_active_def merge_device_def split: option.splits)

lemma insert_secret:
  assumes "insert_dev d s = (Inr (), s')"
  shows "map_option secret_hash (lookup s' (device_id d)) = Some (secret_hash d)"
  using insert_ok [OF assms, of "device_id d"]
  by (auto simp: merge_device_def split: option.splits)

lemma insert_frame:
  assumes "insert_dev d s = (Inr (), s')" and "k \<noteq> device_id d"
  shows "lookup s' k = lookup s k"
  using insert_ok [OF assms(1), of k] assms(2) by simp

lemma insert_keeps_created_at:
  assumes "insert_dev d s = (Inr (), s')" and "lookup s (device_id d) = Some old"
  shows "map_option dev_created_at (lookup s' (device_id d)) = Some (dev_created_at old)"
  using insert_ok [OF assms(1), of "device_id d"] assms(2) by (simp add: merge_device_def)

lemma revoke_revokes:
  assumes "revoke did at s = (Inr (), s')" and "lookup s did \<noteq> None"
  shows "is_revoked s' did"
  using revoke_ok [OF assms(1), of did] assms(2) by (auto simp: is_revoked_def)

lemma revoke_frame:
  assumes "revoke did at s = (r, s')" and "k \<noteq> did"
  shows "lookup s' k = lookup s k"
  using assms revoke_ok [of did at s s' k] revoke_err [of did at s _ s']
  by (cases r) auto

lemma revoke_unknown:
  assumes "revoke did at s = (r, s')" and "lookup s did = None"
  shows "lookup s' did = None"
  using assms revoke_ok [of did at s s' did] revoke_err [of did at s _ s']
  by (cases r) auto

end

section \<open>The tables keep the contract\<close>

definition device_lookup :: "db \<Rightarrow> string \<Rightarrow> device option" where
  "device_lookup s did = row_lookup device_id did (devices s)"

lemma device_lookup_same_tables: "same_tables s t \<Longrightarrow> device_lookup s = device_lookup t"
  by (auto simp: device_lookup_def same_tables_fields)

interpretation devs: device_store device_lookup insert_device revoke_device device_by_id
proof (unfold_locales, goal_cases)
  case (1 d s s' k)
  then show ?case
    by (simp add: insert_device_def sql_write_ok device_lookup_def row_lookup_upsert merge_device_def)
next
  case (2 d s e s')
  then show ?case
    unfolding insert_device_def by (rule device_lookup_same_tables [OF sql_write_error_tables])
next
  case (3 did at s s' k)
  then show ?case
    by (simp add: revoke_device_def sql_write_ok device_lookup_def row_lookup_update_key)
next
  case (4 did at s e s')
  then show ?case
    unfolding revoke_device_def by (rule device_lookup_same_tables [OF sql_write_error_tables])
next
  case (5 did s r s')
  then show ?case by (auto simp: device_by_id_def device_lookup_def dest: sql_read_ok)
next
  case (6 did s r s')
  then show ?case
    unfolding device_by_id_def by (rule device_lookup_same_tables [OF sql_read_tables])
qed

section \<open>Listing, keys and cursors\<close>

text \<open>The listing is sorted by creation time and then by id, and has exactly the active devices.\<close>

lemma active_devices_set:
  assumes "active_devices s = (Inr ds, s')"
  shows "set ds = {d \<in> set (devices s). revoked_at d = None}"
  using sql_read_ok [OF assms [unfolded active_devices_def]] by auto

lemma active_devices_sorted:
  assumes "active_devices s = (Inr ds, s')"
  shows "sorted (map (\<lambda>d. (dev_created_at d, device_id d)) ds)"
  using sql_read_ok [OF assms [unfolded active_devices_def]] by simp

lemma insert_device_keyed:
  assumes "insert_device d s = (r, s')" and "keyed device_id (devices s)"
  shows "keyed device_id (devices s')"
  using assms(1) unfolding insert_device_def
  by (rule sql_write_keeps [where P = "\<lambda>s. keyed device_id (devices s)"])
    (simp_all add: assms(2) keyed_upsert merge_device_def)

lemma revoke_device_keyed:
  assumes "revoke_device did at s = (r, s')" and "keyed device_id (devices s)"
  shows "keyed device_id (devices s')"
  using assms(1) unfolding revoke_device_def
  by (rule sql_write_keeps [where P = "\<lambda>s. keyed device_id (devices s)"])
    (simp_all add: assms(2) keyed_update)

text \<open>The latest recorded cursor of a thread is the one read back; other threads are not touched.\<close>

lemma event_cursor_read_back:
  assumes "record_event_cursor tid cur at s = (Inr (), s1)"
    and "latest_event_cursor k s1 = (Inr c, s2)"
  shows "c = (if k = tid then Some cur
              else map_option cursor (row_lookup cur_thread_id k (event_cursors s)))"
  using assms(1) sql_read_ok [OF assms(2) [unfolded latest_event_cursor_def]]
  by (auto simp: record_event_cursor_def sql_write_ok row_lookup_upsert split: option.splits)

end
