(* ===== verification/Pairing.thy ===== *)
theory Pairing
  imports Storage
begin

text \<open>
  \<open>crates/bridge-core/src/pairing.rs\<close>: one-time pairing tokens, device registration, session tokens
  and revocation. The manager holds the device store and two in-memory token maps. The clock and
  the random UUIDs the source reads are arguments (\<open>now\<close>, \<open>mint_now\<close>, \<open>uuid\<close>): where one method
  reads the clock twice, the model takes two readings. The digest of a secret (SHA-256 of an
  external crate) is the parameter \<open>hash\<close>. \<open>now + ttl\<close> is the release build's wrapping addition.
\<close>

definition DEFAULT_PAIRING_TOKEN_TTL_MS :: u64 where
  "DEFAULT_PAIRING_TOKEN_TTL_MS = 5 * 60 * 1000"

definition DEFAULT_SESSION_TOKEN_TTL_MS :: u64 where
  "DEFAULT_SESSION_TOKEN_TTL_MS = 24 * 60 * 60 * 1000"

record device_registration =
  reg_device_id :: string
  reg_session_token :: string
  reg_session_expires_at :: u64

datatype pairing_error =
    InvalidToken | ExpiredToken | TokenAlreadyUsed | DeviceRevoked | DeviceNotFound

record pairing_token =
  pt_expires_at :: u64
  pt_used :: bool

record session_token =
  st_device_id :: string
  st_expires_at :: u64

record pairing_manager =
  pm_store :: db
  pairing_token_ttl_ms :: u64
  session_token_ttl_ms :: u64
  pairing_tokens :: "string \<rightharpoonup> pairing_token"
  session_tokens :: "string \<rightharpoonup> session_token"

type_synonym 'a pairing_op = "(pairing_manager, pairing_error, 'a) action"

section \<open>Operations\<close>

definition with_clock_and_ttls :: "db \<Rightarrow> u64 \<Rightarrow> u64 \<Rightarrow> pairing_manager" where
  "with_clock_and_ttls s pairing_ttl session_ttl =
     \<lparr>pm_store = s, pairing_token_ttl_ms = pairing_ttl, session_token_ttl_ms = session_ttl,
      pairing_tokens = Map.empty, session_tokens = Map.empty\<rparr>"

definition with_clock :: "db \<Rightarrow> pairing_manager" where
  "with_clock s = with_clock_and_ttls s DEFAULT_PAIRING_TOKEN_TTL_MS DEFAULT_SESSION_TOKEN_TTL_MS"

text \<open>A call into the manager's store, its error replaced as \<open>map_err(|_| e)\<close> does.\<close>

definition on_store :: "pairing_error \<Rightarrow> 'a db_op \<Rightarrow> 'a pairing_op" where
  "on_store e m pm =
     (case m (pm_store pm) of
        (Inl _, s') \<Rightarrow> (Inl e, pm\<lparr>pm_store := s'\<rparr>)
      | (Inr a, s') \<Rightarrow> (Inr a, pm\<lparr>pm_store := s'\<rparr>))"

definition create_token :: "u64 \<Rightarrow> string \<Rightarrow> string pairing_op" where
  "create_token now uuid pm =
     (Inr uuid,
      pm\<lparr>pairing_tokens := (pairing_tokens pm)
           (uuid \<mapsto> \<lparr>pt_expires_at = now + pairing_token_ttl_ms pm, pt_used = False\<rparr>)\<rparr>)"

definition mint_session_token_for_device_id ::
  "u64 \<Rightarrow> string \<Rightarrow> string \<Rightarrow> device_registration pairing_op" where
  "mint_session_token_for_device_id now uuid did pm =
     (let expires_at = now + session_token_ttl_ms pm
      in (Inr \<lparr>reg_device_id = did, reg_session_token = uuid, reg_session_expires_at = expires_at\<rparr>,
          pm\<lparr>session_tokens := (session_tokens pm)
               (uuid \<mapsto> \<lparr>st_device_id = did, st_expires_at = expires_at\<rparr>)\<rparr>))"

definition mark_used :: "string \<Rightarrow> unit pairing_op" where
  "mark_used tok pm =
     (case pairing_tokens pm tok of
        None \<Rightarrow> (Inl InvalidToken, pm)
      | Some t \<Rightarrow>
          (Inr (), pm\<lparr>pairing_tokens := (pairing_tokens pm)(tok \<mapsto> t\<lparr>pt_used := True\<rparr>)\<rparr>))"

definition register_device_with_origin ::
  "(string \<Rightarrow> string) \<Rightarrow> u64 \<Rightarrow> u64 \<Rightarrow> string \<Rightarrow> string \<Rightarrow> string \<Rightarrow> string \<Rightarrow> string \<Rightarrow> string option \<Rightarrow>
   device_registration pairing_op" where
  "register_device_with_origin hash now mint_now uuid tok did name secret origin pm =
     (case pairing_tokens pm tok of
        None \<Rightarrow> (Inl InvalidToken, pm)
      | Some t \<Rightarrow>
          if pt_used t then (Inl TokenAlreadyUsed, pm)
          else if pt_expires_at t \<le> now then (Inl ExpiredToken, pm)
          else
            then_ok
              (on_store InvalidToken
                (insert_device
                  \<lparr>device_id = did, display_name = name, secret_hash = hash secret,
                   paired_origin = origin, dev_created_at = now, last_seen_at = now,
                   revoked_at = None\<rparr>))
              (then_ok (mark_used tok) (mint_session_token_for_device_id mint_now uuid did)) pm)"

definition register_device ::
  "(string \<Rightarrow> string) \<Rightarrow> u64 \<Rightarrow> u64 \<Rightarrow> string \<Rightarrow> string \<Rightarrow> string \<Rightarrow> string \<Rightarrow> string \<Rightarrow>
   device_registration pairing_op" where
  "register_device hash now mint_now uuid tok did name secret =
     register_device_with_origin hash now mint_now uuid tok did name secret None"

definition create_session ::
  "(string \<Rightarrow> string) \<Rightarrow> u64 \<Rightarrow> string \<Rightarrow> string \<Rightarrow> string \<Rightarrow> device_registration pairing_op" where
  "create_session hash now uuid did secret =
     bind_ok (on_store DeviceNotFound (device_by_id did))
       (\<lambda>found. case found of
          None \<Rightarrow> err DeviceNotFound
        | Some d \<Rightarrow>
            if revoked_at d \<noteq> None then err DeviceRevoked
            else if secret_hash d \<noteq> hash secret then err InvalidToken
            else mint_session_token_for_device_id now uuid did)"

definition create_session_token ::
  "(string \<Rightarrow> string) \<Rightarrow> u64 \<Rightarrow> string \<Rightarrow> string \<Rightarrow> string \<Rightarrow> string pairing_op" where
  "create_session_token hash now uuid did secret =
     bind_ok (create_session hash now uuid did secret) (\<lambda>r. ok (reg_session_token r))"

definition validate_session_token :: "u64 \<Rightarrow> string \<Rightarrow> string pairing_op" where
  "validate_session_token now tok pm =
     (case session_tokens pm tok of
        None \<Rightarrow> (Inl InvalidToken, pm)
      | Some t \<Rightarrow>
          if st_expires_at t \<le> now then (Inl ExpiredToken, pm)
          else
            bind_ok (on_store DeviceNotFound (device_by_id (st_device_id t)))
              (\<lambda>found. case found of
                 Some d \<Rightarrow>
                   if revoked_at d \<noteq> None then err DeviceRevoked else ok (st_device_id t)
               | None \<Rightarrow> err DeviceNotFound) pm)"

definition revoke_paired_device :: "u64 \<Rightarrow> string \<Rightarrow> unit pairing_op" where
  "revoke_paired_device now did =
     bind_ok (on_store DeviceNotFound (device_by_id did))
       (\<lambda>found. case found of
          Some _ \<Rightarrow> on_store DeviceNotFound (revoke_device did now)
        | None \<Rightarrow> err DeviceNotFound)"

definition active_paired_devices :: "device list pairing_op" where
  "active_paired_devices = on_store DeviceNotFound active_devices"

section \<open>Calls in sequence\<close>

text \<open>
  The calls the HTTP layer makes, each with the clock readings and the UUID it draws. A UUID the
  call inserts under is new, as \<open>Uuid::new_v4\<close> promises for practical purposes.
\<close>

datatype pairing_call =
    CreateToken u64 string
  | Register u64 u64 string string string string string "string option"
  | CreateSession u64 string string string
  | Validate u64 string
  | Revoke u64 string
  | ListActive

fun pairing_exec :: "(string \<Rightarrow> string) \<Rightarrow> pairing_call \<Rightarrow> pairing_manager \<Rightarrow> pairing_manager" where
  "pairing_exec hash (CreateToken now uuid) pm = snd (create_token now uuid pm)"
| "pairing_exec hash (Register now mint_now uuid tok did name secret origin) pm =
     snd (register_device_with_origin hash now mint_now uuid tok did name secret origin pm)"
| "pairing_exec hash (CreateSession now uuid did secret) pm =
     snd (create_session hash now uuid did secret pm)"
| "pairing_exec hash (Validate now tok) pm = snd (validate_session_token now tok pm)"
| "pairing_exec hash (Revoke now did) pm = snd (revoke_paired_device now did pm)"
| "pairing_exec hash ListActive pm = snd (active_paired_devices pm)"

fun fresh_call :: "pairing_call \<Rightarrow> pairing_manager \<Rightarrow> bool" where
  "fresh_call (CreateToken now uuid) pm = (pairing_tokens pm uuid = None)"
| "fresh_call (Register now mint_now uuid tok did name secret origin) pm =
     (session_tokens pm uuid = None)"
| "fresh_call (CreateSession now uuid did secret) pm = (session_tokens pm uuid = None)"
| "fresh_call _ pm = True"

fun pairing_run :: "(string \<Rightarrow> string) \<Rightarrow> pairing_call list \<Rightarrow> pairing_manager \<Rightarrow> pairing_manager" where
  "pairing_run hash [] pm = pm"
| "pairing_run hash (c # cs) pm = pairing_run hash cs (pairing_exec hash c pm)"

fun fresh_run :: "(string \<Rightarrow> string) \<Rightarrow> pairing_call list \<Rightarrow> pairing_manager \<Rightarrow> bool" where
  "fresh_run hash [] pm = True"
| "fresh_run hash (c # cs) pm = (fresh_call c pm \<and> fresh_run hash cs (pairing_exec hash c pm))"

fun registers :: "string \<Rightarrow> pairing_call \<Rightarrow> bool" where
  "registers did (Register _ _ _ _ did' _ _ _) = (did' = did)"
| "registers did _ = False"

lemmas pairing_op_defs =
  create_token_def mint_session_token_for_device_id_def mark_used_def
  register_device_with_origin_def create_session_def validate_session_token_def
  revoke_paired_device_def active_paired_devices_def

section \<open>Frames of the operations\<close>

lemma on_store_cases:
  obtains r s' where "m (pm_store pm) = (r, s')"
    and "on_store e m pm = ((case r of Inl _ \<Rightarrow> Inl e | Inr a \<Rightarrow> Inr a), pm\<lparr>pm_store := s'\<rparr>)"
proof -
  obtain r s' where m: "m (pm_store pm) = (r, s')" by fastforce
  then have "on_store e m pm =
      ((case r of Inl _ \<Rightarrow> Inl e | Inr a \<Rightarrow> Inr a), pm\<lparr>pm_store := s'\<rparr>)"
    by (cases r) (simp_all add: on_store_def)
  with m show thesis by (rule that)
qed

lemma on_store_tokens [simp]:
  "pairing_tokens (snd (on_store e m pm)) = pairing_tokens pm"
  "session_tokens (snd (on_store e m pm)) = session_tokens pm"
  "pairing_token_ttl_ms (snd (on_store e m pm)) = pairing_token_ttl_ms pm"
  "session_token_ttl_ms (snd (on_store e m pm)) = session_token_ttl_ms pm"
  by (simp_all add: on_store_def split: prod.splits sum.splits)

lemma on_store_lookup_device:
  assumes "on_store e (device_by_id did) pm = (r, pm')"
  shows "device_lookup (pm_store pm') = device_lookup (pm_store pm)"
    and "\<And>d. r = Inr d \<Longrightarrow> device_lookup (pm_store pm) did = d"
    and "pm' = pm\<lparr>pm_store := pm_store pm'\<rparr>"
  using assms
  by (auto simp: on_store_def split: prod.splits sum.splits
      dest: devs.by_id_frame devs.by_id_ok)

text \<open>The token maps only grow, and a used pairing token stays used.\<close>

definition tokens_persist :: "pairing_manager \<Rightarrow> pairing_manager \<Rightarrow> bool" where
  "tokens_persist pm pm' \<longleftrightarrow>
     session_tokens pm \<subseteq>\<^sub>m session_tokens pm' \<and>
     (\<forall>tok t. pairing_tokens pm tok = Some t \<longrightarrow>
        (\<exists>t'. pairing_tokens pm' tok = Some t' \<and> pt_expires_at t' = pt_expires_at t \<and>
              (pt_used t \<longrightarrow> pt_used t')))"

lemma tokens_persist_refl: "tokens_persist pm pm"
  by (simp add: tokens_persist_def)

lemma tokens_persist_trans:
  assumes "tokens_persist a b" and "tokens_persist b c"
  shows "tokens_persist a c"
proof -
  have "session_tokens a \<subseteq>\<^sub>m session_tokens c"
    using assms by (auto simp: tokens_persist_def intro: map_le_trans)
  moreover have "\<exists>t'. pairing_tokens c tok = Some t' \<and> pt_expires_at t' = pt_expires_at t \<and>
      (pt_used t \<longrightarrow> pt_used t')" if t: "pairing_tokens a tok = Some t" for tok t
  proof -
    obtain u where "pairing_tokens b tok = Some u" "pt_expires_at u = pt_expires_at t"
        "pt_used t \<longrightarrow> pt_used u"
      using assms(1) t unfolding tokens_persist_def by blast
    then show ?thesis using assms(2) unfolding tokens_persist_def by metis
  qed
  ultimately show ?thesis by (simp add: tokens_persist_def)
qed

lemma mint_persist:
  assumes "mint_session_token_for_device_id now uuid did pm = (r, pm')"
    and "session_tokens pm uuid = None"
  shows "tokens_persist pm pm'"
  using assms
  by (auto simp: mint_session_token_for_device_id_def tokens_persist_def map_le_def Let_def)

lemma mark_used_persist:
  assumes "mark_used tok pm = (r, pm')"
  shows "tokens_persist pm pm'"
  using assms
  by (auto simp: mark_used_def tokens_persist_def split: option.splits)

lemma on_store_persist: "on_store e m pm = (r, pm') \<Longrightarrow> tokens_persist pm pm'"
  by (auto simp: on_store_def tokens_persist_def split: prod.splits sum.splits)

lemma register_cases:
  assumes "register_device_with_origin hash now mint_now uuid tok did name secret origin pm = (r, pm')"
  obtains (refused) e where "r = Inl e" and "pm' = pm"
  | (store_failed) s' where "r = Inl InvalidToken" and "pm' = pm\<lparr>pm_store := s'\<rparr>"
      and "device_lookup s' = device_lookup (pm_store pm)"
  | (registered) t s' where "pairing_tokens pm tok = Some t" and "\<not> pt_used t"
      and "now < pt_expires_at t"
      and "insert_device \<lparr>device_id = did, display_name = name, secret_hash = hash secret,
             paired_origin = origin, dev_created_at = now, last_seen_at = now,
             revoked_at = None\<rparr> (pm_store pm) = (Inr (), s')"
      and "mint_session_token_for_device_id mint_now uuid did
             (pm\<lparr>pm_store := s',
                 pairing_tokens := (pairing_tokens pm)(tok \<mapsto> t\<lparr>pt_used := True\<rparr>)\<rparr>) = (r, pm')"
proof (cases "pairing_tokens pm tok")
  case None
  with assms show ?thesis by (intro refused) (auto simp: register_device_with_origin_def)
next
  case (Some t)
  let ?d = "\<lparr>device_id = did, display_name = name, secret_hash = hash secret,
             paired_origin = origin, dev_created_at = now, last_seen_at = now,
             revoked_at = None\<rparr>"
  show ?thesis
  proof (cases "pt_used t \<or> pt_expires_at t \<le> now")
    case True
    with assms Some show ?thesis
      by (intro refused [of "if pt_used t then TokenAlreadyUsed else ExpiredToken"])
        (auto simp: register_device_with_origin_def split: if_splits)
  next
    case False
    obtain q s' where ins: "insert_device ?d (pm_store pm) = (q, s')" by fastforce
    show ?thesis
    proof (cases q)
      case (Inl e)
      with assms Some False ins have "r = Inl InvalidToken" "pm' = pm\<lparr>pm_store := s'\<rparr>"
        by (auto simp: register_device_with_origin_def then_ok_run on_store_def)
      moreover have "device_lookup s' = device_lookup (pm_store pm)"
        using ins Inl by (auto dest: devs.insert_err)
      ultimately show ?thesis by (rule store_failed)
    next
      case (Inr u)
      with assms Some False ins show ?thesis
        by (intro registered [OF Some])
          (auto simp: register_device_with_origin_def then_ok_run on_store_def mark_used_def)
    qed
  qed
qed

lemma register_persist:
  assumes "register_device_with_origin hash now mint_now uuid tok did name secret origin pm = (r, pm')"
    and "session_tokens pm uuid = None"
  shows "tokens_persist pm pm'"
  using assms(1)
proof (cases rule: register_cases)
  case (registered t s')
  let ?mid = "pm\<lparr>pm_store := s', pairing_tokens := (pairing_tokens pm)(tok \<mapsto> t\<lparr>pt_used := True\<rparr>)\<rparr>"
  have "tokens_persist pm ?mid" using registered(1) by (simp add: tokens_persist_def)
  moreover have "tokens_persist ?mid pm'"
    using registered(5) by (rule mint_persist) (simp add: assms(2))
  ultimately show ?thesis by (rule tokens_persist_trans)
qed (simp_all add: tokens_persist_def)

lemma create_session_cases:
  assumes "create_session hash now uuid did secret pm = (r, pm')"
  obtains (failed) s' e where "r = Inl e" and "pm' = pm\<lparr>pm_store := s'\<rparr>"
      and "device_lookup s' = device_lookup (pm_store pm)"
  | (created) s' d where "device_lookup (pm_store pm) did = Some d" and "revoked_at d = None"
      and "secret_hash d = hash secret" and "device_lookup s' = device_lookup (pm_store pm)"
      and "mint_session_token_for_device_id now uuid did (pm\<lparr>pm_store := s'\<rparr>) = (r, pm')"
proof -
  obtain q pm1 where q: "on_store DeviceNotFound (device_by_id did) pm = (q, pm1)" by fastforce
  note st = on_store_lookup_device [OF q]
  show ?thesis
  proof (cases q)
    case (Inl e)
    with assms q st show ?thesis
      by (intro failed [of e "pm_store pm1"]) (auto simp: create_session_def bind_ok_run)
  next
    case (Inr found)
    show ?thesis
    proof (cases "\<exists>d. found = Some d \<and> revoked_at d = None \<and> secret_hash d = hash secret")
      case True
      then obtain d where "found = Some d" "revoked_at d = None" "secret_hash d = hash secret"
        by blast
      with assms q st Inr show ?thesis
        by (intro created [of d "pm_store pm1"]) (auto simp: create_session_def bind_ok_run)
    next
      case False
      with assms q st Inr have "\<exists>e. r = Inl e \<and> pm' = pm1"
        by (auto simp: create_session_def bind_ok_run err_run split: option.splits if_splits)
      with st show ?thesis by (metis failed)
    qed
  qed
qed


text \<open>What a single call does to the token maps and to the device table.\<close>

lemma validate_frame:
  assumes "validate_session_token now tok pm = (r, pm')"
  shows "pm' = pm\<lparr>pm_store := pm_store pm'\<rparr>"
    and "device_lookup (pm_store pm') = device_lookup (pm_store pm)"
proof -
  have "(\<exists>s'. pm' = pm\<lparr>pm_store := s'\<rparr>) \<and> device_lookup (pm_store pm') = device_lookup (pm_store pm)"
  proof (cases "session_tokens pm tok")
    case None
    with assms show ?thesis
      by (auto simp: validate_session_token_def intro: exI [of _ "pm_store pm"])
  next
    case (Some t)
    obtain q pm1 where q: "on_store DeviceNotFound (device_by_id (st_device_id t)) pm = (q, pm1)"
      by fastforce
    from assms Some q have "pm' = pm \<or> pm' = pm1"
      by (auto simp: validate_session_token_def bind_ok_run action_simps
          split: if_splits sum.splits option.splits)
    with on_store_lookup_device [OF q] show ?thesis
      by (auto intro: exI [of _ "pm_store pm"])
  qed
  then show "pm' = pm\<lparr>pm_store := pm_store pm'\<rparr>"
    and "device_lookup (pm_store pm') = device_lookup (pm_store pm)"
    by auto
qed

lemma revoke_paired_cases:
  assumes "revoke_paired_device now did pm = (r, pm')"
  obtains (failed) e where "r = Inl e" and "pm' = pm\<lparr>pm_store := pm_store pm'\<rparr>"
      and "device_lookup (pm_store pm') = device_lookup (pm_store pm)"
  | (revoked) s1 where "r = Inr ()" and "pm' = pm\<lparr>pm_store := pm_store pm'\<rparr>"
      and "device_lookup (pm_store pm) did \<noteq> None"
      and "device_lookup s1 = device_lookup (pm_store pm)"
      and "revoke_device did now s1 = (Inr (), pm_store pm')"
proof -
  obtain q pm1 where q: "on_store DeviceNotFound (device_by_id did) pm = (q, pm1)" by fastforce
  note st = on_store_lookup_device [OF q]
  show thesis
  proof (cases "\<exists>d. q = Inr (Some d)")
    case False
    with assms q have "\<exists>e. r = Inl e \<and> pm' = pm1"
      by (cases q) (auto simp: revoke_paired_device_def bind_ok_run err_run split: option.splits)
    with st show ?thesis by (metis failed)
  next
    case True
    then obtain d where d: "q = Inr (Some d)" by blast
    obtain w s2 where w: "revoke_device did now (pm_store pm1) = (w, s2)" by fastforce
    have "on_store DeviceNotFound (revoke_device did now) pm1 = (r, pm')"
      using assms q d by (simp add: revoke_paired_device_def bind_ok_run)
    moreover have "pm1\<lparr>pm_store := s2\<rparr> = pm\<lparr>pm_store := s2\<rparr>"
      by (subst st(3)) simp
    ultimately have pm': "pm' = pm\<lparr>pm_store := s2\<rparr>"
        "r = (case w of Inl _ \<Rightarrow> Inl DeviceNotFound | Inr a \<Rightarrow> Inr a)"
      using w by (auto simp: on_store_def split: sum.splits)
    show ?thesis
    proof (cases w)
      case (Inl e)
      with pm' w st show ?thesis by (intro failed) (auto dest: devs.revoke_err)
    next
      case (Inr u)
      with pm' w st d show ?thesis by (intro revoked [of "pm_store pm1"]) auto
    qed
  qed
qed

lemma pairing_exec_persist:
  assumes "fresh_call c pm"
  shows "tokens_persist pm (pairing_exec hash c pm)"
proof (cases c)
  case (CreateToken now uuid)
  with assms show ?thesis by (auto simp: create_token_def tokens_persist_def)
next
  case (Register now mint_now uuid tok did name secret origin)
  with assms show ?thesis by (auto intro: register_persist prod.collapse [symmetric])
next
  case (CreateSession now uuid did secret)
  obtain r pm' where c: "create_session hash now uuid did secret pm = (r, pm')" by fastforce
  have "tokens_persist pm pm'" using c
  proof (cases rule: create_session_cases)
    case (created s' d)
    have "tokens_persist (pm\<lparr>pm_store := s'\<rparr>) pm'"
      using created(5) assms CreateSession by (auto intro: mint_persist)
    then show ?thesis by (simp add: tokens_persist_def)
  qed (simp add: tokens_persist_def)
  with CreateSession c show ?thesis by simp
next
  case (Validate now tok)
  obtain r pm' where v: "validate_session_token now tok pm = (r, pm')" by fastforce
  have "tokens_persist pm (pm\<lparr>pm_store := pm_store pm'\<rparr>)" by (simp add: tokens_persist_def)
  with Validate v validate_frame(1) [OF v] show ?thesis by simp
next
  case (Revoke now did)
  obtain r pm' where v: "revoke_paired_device now did pm = (r, pm')" by fastforce
  have "tokens_persist pm (pm\<lparr>pm_store := pm_store pm'\<rparr>)" by (simp add: tokens_persist_def)
  moreover have "pm' = pm\<lparr>pm_store := pm_store pm'\<rparr>"
    using v by (cases rule: revoke_paired_cases)
  ultimately show ?thesis using v Revoke by simp
next
  case ListActive
  then show ?thesis
    by (auto simp: active_paired_devices_def intro: on_store_persist prod.collapse [symmetric])
qed

lemma pairing_run_persist:
  "fresh_run hash cs pm \<Longrightarrow> tokens_persist pm (pairing_run hash cs pm)"
proof (induction cs arbitrary: pm)
  case Nil
  then show ?case by (simp add: tokens_persist_refl)
next
  case (Cons c cs)
  then show ?case by (auto intro: tokens_persist_trans pairing_exec_persist)
qed

lemma pairing_exec_keeps_revoked:
  assumes "\<not> registers did c" and "devs.is_revoked (pm_store pm) did"
  shows "devs.is_revoked (pm_store (pairing_exec hash c pm)) did"
proof (cases c)
  case (CreateToken now uuid)
  with assms show ?thesis by (simp add: create_token_def)
next
  case (Register now mint_now uuid tok did' name secret origin)
  obtain r pm' where reg:
    "register_device_with_origin hash now mint_now uuid tok did' name secret origin pm = (r, pm')"
    by fastforce
  have "device_lookup (pm_store pm') did = device_lookup (pm_store pm) did" using reg
  proof (cases rule: register_cases)
    case (registered t s')
    have "device_lookup s' did = device_lookup (pm_store pm) did"
      using devs.insert_frame [OF registered(4)] assms(1) Register by simp
    with registered(5) show ?thesis
      by (auto simp: mint_session_token_for_device_id_def Let_def)
  qed simp_all
  with assms(2) Register reg show ?thesis by (simp add: devs.is_revoked_def)
next
  case (CreateSession now uuid did' secret)
  obtain r pm' where c: "create_session hash now uuid did' secret pm = (r, pm')" by fastforce
  then have "device_lookup (pm_store pm') = device_lookup (pm_store pm)"
    by (cases rule: create_session_cases)
      (auto simp: mint_session_token_for_device_id_def Let_def)
  with assms(2) CreateSession c show ?thesis by (simp add: devs.is_revoked_def)
next
  case (Validate now tok)
  obtain r pm' where v: "validate_session_token now tok pm = (r, pm')" by fastforce
  with assms(2) Validate validate_frame(2) [OF v] show ?thesis by (simp add: devs.is_revoked_def)
next
  case (Revoke now did')
  obtain r pm' where v: "revoke_paired_device now did' pm = (r, pm')" by fastforce
  then have "devs.is_revoked (pm_store pm') did"
  proof (cases rule: revoke_paired_cases)
    case failed
    with assms(2) show ?thesis by (simp add: devs.is_revoked_def)
  next
    case (revoked s1)
    have "device_lookup (pm_store pm') did =
        (if did = did' then map_option (\<lambda>d. d\<lparr>revoked_at := Some now\<rparr>) (device_lookup s1 did)
         else device_lookup s1 did)"
      using revoked(5) by (rule devs.revoke_ok)
    with revoked(4) assms(2) show ?thesis by (auto simp: devs.is_revoked_def)
  qed
  with Revoke v show ?thesis by simp
next
  case ListActive
  obtain r pm' where a: "on_store DeviceNotFound active_devices pm = (r, pm')" by fastforce
  then have "device_lookup (pm_store pm') = device_lookup (pm_store pm)"
    by (auto simp: on_store_def active_devices_def split: prod.splits sum.splits
        dest!: sql_read_tables device_lookup_same_tables)
  with assms(2) ListActive a show ?thesis
    by (simp add: devs.is_revoked_def active_paired_devices_def)
qed

lemma pairing_run_keeps_revoked:
  "\<forall>c \<in> set cs. \<not> registers did c \<Longrightarrow> devs.is_revoked (pm_store pm) did \<Longrightarrow>
     devs.is_revoked (pm_store (pairing_run hash cs pm)) did"
  by (induction cs arbitrary: pm) (simp_all add: pairing_exec_keeps_revoked)

lemma validate_ok_active:
  assumes "fst (validate_session_token now tok pm) = Inr did"
  shows "\<exists>t. session_tokens pm tok = Some t \<and> st_device_id t = did \<and> now < st_expires_at t \<and>
             devs.is_active (pm_store pm) did"
proof -
  obtain t where t: "session_tokens pm tok = Some t" "now < st_expires_at t"
    using assms by (auto simp: validate_session_token_def split: option.splits if_splits)
  obtain q pm1 where q: "on_store DeviceNotFound (device_by_id (st_device_id t)) pm = (q, pm1)"
    by fastforce
  from assms t q have "\<exists>d. q = Inr (Some d) \<and> revoked_at d = None \<and> st_device_id t = did"
    by (auto simp: validate_session_token_def action_simps split: sum.splits option.splits if_splits)
  with t on_store_lookup_device(2) [OF q] show ?thesis
    by (auto simp: devs.is_active_def)
qed


section \<open>Properties\<close>

text \<open>
  C1. A pairing token pairs at most once. After a registration with a token has succeeded, every
  later registration attempt with the same token, by any device and at any time, and after any
  sequence of calls in between, is refused with \<open>TokenAlreadyUsed\<close>.
\<close>

theorem pairing_token_single_use:
  assumes "register_device_with_origin hash now mint_now uuid tok did name secret origin pm
             = (Inr reg, pm1)"
    and "fresh_run hash cs pm1"
  shows "fst (register_device_with_origin hash now2 mint_now2 uuid2 tok did2 name2 secret2 origin2
           (pairing_run hash cs pm1)) = Inl TokenAlreadyUsed"
proof -
  have "\<exists>t. pairing_tokens pm1 tok = Some t \<and> pt_used t" using assms(1)
    by (cases rule: register_cases)
      (auto simp: mint_session_token_for_device_id_def Let_def)
  then have "\<exists>t. pairing_tokens (pairing_run hash cs pm1) tok = Some t \<and> pt_used t"
    using pairing_run_persist [OF assms(2)] unfolding tokens_persist_def by blast
  then show ?thesis by (auto simp: register_device_with_origin_def)
qed

theorem pairing_token_single_use_witness:
  "fst (register_device_with_origin (\<lambda>s. s) 20 20 ''s2'' ''t1'' ''tablet'' ''Tab'' ''k'' None
     (pairing_run (\<lambda>s. s) [Validate 15 ''s1'', Revoke 16 ''phone'']
       (snd (register_device_with_origin (\<lambda>s. s) 12 12 ''s1'' ''t1'' ''phone'' ''Phone'' ''k'' None
         (snd (create_token 10 ''t1'' (with_clock_and_ttls empty_db 100 1000)))))))
   = Inl TokenAlreadyUsed"
proof -
  let ?pm = "snd (create_token 10 ''t1'' (with_clock_and_ttls empty_db 100 1000))"
  have r: "register_device_with_origin (\<lambda>s. s) 12 12 ''s1'' ''t1'' ''phone'' ''Phone'' ''k'' None ?pm
      = (Inr \<lparr>reg_device_id = ''phone'', reg_session_token = ''s1'', reg_session_expires_at = 1012\<rparr>,
         snd (register_device_with_origin (\<lambda>s. s) 12 12 ''s1'' ''t1'' ''phone'' ''Phone'' ''k'' None ?pm))"
    by (simp add: pairing_op_defs with_clock_and_ttls_def empty_db_def insert_device_def on_store_def
        sql_working fits_i64_def fits_i64_opt_def action_simps Let_def)
  show ?thesis
    by (rule pairing_token_single_use [OF r]) simp
qed

text \<open>
  Revocation takes effect at once and lasts. After a device was revoked, and after any further
  calls that do not register this device again, no session token is accepted for it, and its
  secret no longer opens a session.
\<close>

lemma revocation_blocks_sessions:
  assumes "revoke_paired_device now did pm = (Inr (), pm1)"
    and "\<forall>c \<in> set cs. \<not> registers did c"
  shows "fst (validate_session_token now1 tok (pairing_run hash cs pm1)) \<noteq> Inr did \<and>
    (\<exists>e. fst (create_session hash now2 uuid did secret (pairing_run hash cs pm1)) = Inl e)"
proof -
  let ?pm = "pairing_run hash cs pm1"
  have "devs.is_revoked (pm_store pm1) did" using assms(1)
    by (cases rule: revoke_paired_cases)
      (auto intro: devs.revoke_revokes)
  then have rev: "devs.is_revoked (pm_store ?pm) did"
    using assms(2) by (rule pairing_run_keeps_revoked [rotated])
  then have "\<not> devs.is_active (pm_store ?pm) did" using devs.active_not_revoked by blast
  then have "fst (validate_session_token now1 tok ?pm) \<noteq> Inr did"
    using validate_ok_active by blast
  moreover
  obtain r pm' where c: "create_session hash now2 uuid did secret ?pm = (r, pm')" by fastforce
  then have "\<exists>e. r = Inl e"
    using rev by (cases rule: create_session_cases) (auto simp: devs.is_revoked_def)
  with c have "\<exists>e. fst (create_session hash now2 uuid did secret ?pm) = Inl e" by simp
  ultimately show ?thesis ..
qed


text \<open>A paired phone with one open session, for the witnesses.\<close>

definition demo_device :: device where
  "demo_device =
     \<lparr>device_id = ''phone'', display_name = ''Phone'', secret_hash = ''k'', paired_origin = None,
      dev_created_at = 12, last_seen_at = 12, revoked_at = None\<rparr>"

definition demo_manager :: pairing_manager where
  "demo_manager =
     \<lparr>pm_store = empty_db\<lparr>devices := [demo_device]\<rparr>, pairing_token_ttl_ms = 100,
      session_token_ttl_ms = 1000,
      pairing_tokens = [''t1'' \<mapsto> \<lparr>pt_expires_at = 110, pt_used = True\<rparr>,
                        ''t2'' \<mapsto> \<lparr>pt_expires_at = 210, pt_used = False\<rparr>],
      session_tokens = [''s1'' \<mapsto> \<lparr>st_device_id = ''phone'', st_expires_at = 1012\<rparr>]\<rparr>"

lemmas demo_simps =
  demo_manager_def demo_device_def empty_db_def pairing_op_defs on_store_def action_simps Let_def
  insert_device_def revoke_device_def device_by_id_def active_devices_def sql_working
  fits_i64_def fits_i64_opt_def row_lookup_Cons row_upsert_def row_update_def merge_device_def

lemma demo_revoke:
  "revoke_paired_device 20 ''phone'' demo_manager =
     (Inr (), demo_manager\<lparr>pm_store := empty_db\<lparr>devices := [demo_device\<lparr>revoked_at := Some 20\<rparr>]\<rparr>\<rparr>)"
  by (simp add: demo_simps)

text \<open>
  A session token is accepted for a device exactly when the token was issued for it, has not
  reached its expiry, and the device is registered and not revoked (with a working database).
\<close>

lemma session_valid_iff:
  assumes "faults (pm_store pm) = []"
  shows "fst (validate_session_token now tok pm) = Inr did \<longleftrightarrow>
    (\<exists>t. session_tokens pm tok = Some t \<and> st_device_id t = did \<and> now < st_expires_at t \<and>
         devs.is_active (pm_store pm) did)"
proof
  assume "fst (validate_session_token now tok pm) = Inr did"
  then show "\<exists>t. session_tokens pm tok = Some t \<and> st_device_id t = did \<and> now < st_expires_at t \<and>
      devs.is_active (pm_store pm) did"
    by (rule validate_ok_active)
next
  assume "\<exists>t. session_tokens pm tok = Some t \<and> st_device_id t = did \<and> now < st_expires_at t \<and>
      devs.is_active (pm_store pm) did"
  then obtain t d where t: "session_tokens pm tok = Some t" "st_device_id t = did"
      "now < st_expires_at t" and d: "device_lookup (pm_store pm) did = Some d" "revoked_at d = None"
    by (auto simp: devs.is_active_def)
  from assms d have "on_store DeviceNotFound (device_by_id did) pm = (Inr (Some d), pm)"
    by (simp add: on_store_def device_by_id_def sql_working device_lookup_def)
  with t d(2) show "fst (validate_session_token now tok pm) = Inr did"
    by (simp add: validate_session_token_def action_simps)
qed

text \<open>
  Pairing a revoked device id again revives the sessions it had before the revocation: their
  tokens were not deleted, so a session token issued earlier that has not expired is accepted again
  as soon as anyone registers the same device id.
\<close>

lemma reregistration_revives_old_sessions:
  assumes "session_tokens pm old = Some t" and "st_device_id t = did" and "now3 < st_expires_at t"
    and "revoke_paired_device now did pm = (Inr (), pm1)"
    and "register_device_with_origin hash now2 mint_now uuid tok did name secret origin pm1
           = (Inr reg, pm2)"
    and "session_tokens pm1 uuid = None" and "faults (pm_store pm2) = []"
  shows "fst (validate_session_token now3 old pm2) = Inr did"
proof -
  have "session_tokens pm1 = session_tokens pm" using assms(4)
    by (cases rule: revoke_paired_cases) (metis on_store_tokens pairing_manager.select_convs
        pairing_manager.surjective pairing_manager.update_convs(1))+
  then have "session_tokens pm2 old = Some t"
    using register_persist [OF assms(5,6)] assms(1)
    by (auto simp: tokens_persist_def map_le_def dom_def)
  moreover have "devs.is_active (pm_store pm2) did" using assms(5)
  proof (cases rule: register_cases)
    case (registered t' s')
    then show ?thesis using devs.insert_activates [OF registered(4)]
      by (auto simp: mint_session_token_for_device_id_def Let_def)
  qed simp_all
  ultimately show ?thesis using session_valid_iff [OF assms(7)] assms(2,3) by blast
qed

text \<open>The invariant of the manager: unique device ids, and every issued session names a known device.\<close>

definition pairing_inv :: "pairing_manager \<Rightarrow> bool" where
  "pairing_inv pm \<longleftrightarrow>
     keyed device_id (devices (pm_store pm)) \<and>
     (\<forall>tok t. session_tokens pm tok = Some t \<longrightarrow>
        device_lookup (pm_store pm) (st_device_id t) \<noteq> None)"

lemma pairing_inv_same_devices:
  assumes "pairing_inv pm" and "devices (pm_store pm') = devices (pm_store pm)"
    and "session_tokens pm' = session_tokens pm"
  shows "pairing_inv pm'"
  using assms by (simp add: pairing_inv_def device_lookup_def)

lemma on_store_read_inv:
  assumes "on_store e (sql_read f) pm = (r, pm')" and "pairing_inv pm"
  shows "pairing_inv pm'"
  using assms
  by (auto simp: on_store_def same_tables_fields split: prod.splits sum.splits
      dest!: sql_read_tables intro: pairing_inv_same_devices)

lemma mint_inv:
  assumes "mint_session_token_for_device_id now uuid did pm = (r, pm')" and "pairing_inv pm"
    and "device_lookup (pm_store pm) did \<noteq> None"
  shows "pairing_inv pm'"
  using assms
  by (auto simp: mint_session_token_for_device_id_def pairing_inv_def Let_def split: if_splits)

lemma sql_write_devices_inv:
  assumes "m (pm_store pm) = (r, s')" and "pairing_inv pm"
    and "keyed device_id (devices s')"
    and "\<And>k. device_lookup (pm_store pm) k \<noteq> None \<Longrightarrow> device_lookup s' k \<noteq> None"
  shows "pairing_inv (pm\<lparr>pm_store := s'\<rparr>)"
  using assms by (auto simp: pairing_inv_def)

lemma insert_device_grows:
  assumes "insert_device d s = (r, s')" and "device_lookup s k \<noteq> None"
  shows "device_lookup s' k \<noteq> None"
  using assms devs.insert_ok [of d s s' k] devs.insert_err [of d s _ s'] by (cases r) auto

lemma revoke_device_grows:
  assumes "revoke_device did at s = (r, s')" and "device_lookup s k \<noteq> None"
  shows "device_lookup s' k \<noteq> None"
  using assms devs.revoke_ok [of did at s s' k] devs.revoke_err [of did at s _ s'] by (cases r) auto

lemma register_inv:
  assumes "register_device_with_origin hash now mint_now uuid tok did name secret origin pm = (r, pm')"
    and "pairing_inv pm"
  shows "pairing_inv pm'"
proof -
  let ?d = "\<lparr>device_id = did, display_name = name, secret_hash = hash secret,
             paired_origin = origin, dev_created_at = now, last_seen_at = now, revoked_at = None\<rparr>"
  obtain q s' where ins: "insert_device ?d (pm_store pm) = (q, s')" by fastforce
  have k: "keyed device_id (devices s')"
    using ins assms(2) by (auto simp: pairing_inv_def intro: insert_device_keyed)
  have inv: "pairing_inv (pm\<lparr>pm_store := s'\<rparr>)"
    using ins assms(2) k by (rule sql_write_devices_inv) (rule insert_device_grows [OF ins])
  consider "r = Inl InvalidToken \<and> pm' = pm\<lparr>pm_store := s'\<rparr>" | "pm' = pm"
    | t where "q = Inr ()" "mint_session_token_for_device_id mint_now uuid did
        (pm\<lparr>pm_store := s', pairing_tokens := (pairing_tokens pm)(tok \<mapsto> t\<lparr>pt_used := True\<rparr>)\<rparr>) = (r, pm')"
    using assms(1) ins
    by (auto simp: register_device_with_origin_def then_ok_run on_store_def mark_used_def
        split: option.splits if_splits sum.splits)
  then show ?thesis
  proof cases
    case 3
    let ?mid = "pm\<lparr>pm_store := s', pairing_tokens := (pairing_tokens pm)(tok \<mapsto> t\<lparr>pt_used := True\<rparr>)\<rparr>"
    have "pairing_inv ?mid" using inv by (simp add: pairing_inv_def)
    moreover have "device_lookup (pm_store ?mid) did \<noteq> None"
      using devs.insert_secret [of ?d "pm_store pm" s'] ins 3(1) by auto
    ultimately show ?thesis using 3(2) mint_inv by blast
  qed (use inv assms(2) in auto)
qed


lemma pairing_exec_inv:
  assumes "pairing_inv pm"
  shows "pairing_inv (pairing_exec hash c pm)"
proof (cases c)
  case (CreateToken now uuid)
  with assms show ?thesis by (simp add: create_token_def pairing_inv_def)
next
  case (Register now mint_now uuid tok did name secret origin)
  with assms show ?thesis by (auto intro: register_inv prod.collapse [symmetric])
next
  case (CreateSession now uuid did secret)
  obtain q pm1 where q: "on_store DeviceNotFound (device_by_id did) pm = (q, pm1)" by fastforce
  have inv: "pairing_inv pm1"
    using q assms unfolding device_by_id_def by (rule on_store_read_inv)
  obtain r pm' where c: "create_session hash now uuid did secret pm = (r, pm')" by fastforce
  then consider "pm' = pm1"
    | d where "q = Inr (Some d)" "mint_session_token_for_device_id now uuid did pm1 = (r, pm')"
    using q by (auto simp: create_session_def bind_ok_run err_run
        split: sum.splits option.splits if_splits)
  then have "pairing_inv pm'"
  proof cases
    case 2
    then have "device_lookup (pm_store pm1) did \<noteq> None"
      using on_store_lookup_device(1,2) [OF q] by simp
    with 2 inv show ?thesis by (blast intro: mint_inv)
  qed (simp add: inv)
  with CreateSession c show ?thesis by simp
next
  case (Validate now tok)
  have "pairing_inv (snd (validate_session_token now tok pm))"
    using assms
    by (auto simp: validate_session_token_def bind_ok_run ok_run err_run device_by_id_def
        split: option.splits sum.splits prod.splits if_splits dest: on_store_read_inv)
  with Validate show ?thesis by simp
next
  case (Revoke now did)
  obtain q pm1 where q: "on_store DeviceNotFound (device_by_id did) pm = (q, pm1)" by fastforce
  have inv: "pairing_inv pm1"
    using q assms unfolding device_by_id_def by (rule on_store_read_inv)
  obtain w s' where w: "revoke_device did now (pm_store pm1) = (w, s')" by fastforce
  have "keyed device_id (devices s')"
    using w inv by (auto simp: pairing_inv_def intro: revoke_device_keyed)
  with w inv have "pairing_inv (pm1\<lparr>pm_store := s'\<rparr>)"
    by (rule sql_write_devices_inv) (rule revoke_device_grows [OF w])
  moreover have "snd (revoke_paired_device now did pm) \<in> {pm1, pm1\<lparr>pm_store := s'\<rparr>}"
    using q w by (auto simp: revoke_paired_device_def bind_ok_run err_run on_store_def
        split: sum.splits option.splits)
  ultimately show ?thesis using inv Revoke by auto
next
  case ListActive
  obtain r pm' where "on_store DeviceNotFound active_devices pm = (r, pm')" by fastforce
  with assms ListActive show ?thesis
    unfolding active_devices_def by (auto simp: active_paired_devices_def active_devices_def dest: on_store_read_inv)
qed

text \<open>
  In every state the manager reaches from a start on a database whose device ids are unique,
  the ids stay unique and every session token belongs to a device of the database, so a live
  session never dangles.
\<close>

lemma pairing_invariant:
  assumes "keyed device_id (devices s)"
  shows "pairing_inv (pairing_run hash cs (with_clock_and_ttls s pairing_ttl session_ttl))"
proof -
  have "pairing_inv pm \<Longrightarrow> pairing_inv (pairing_run hash cs pm)" for pm
    by (induction cs arbitrary: pm) (simp_all add: pairing_exec_inv)
  moreover have "pairing_inv (with_clock_and_ttls s pairing_ttl session_ttl)"
    using assms by (simp add: pairing_inv_def with_clock_and_ttls_def)
  ultimately show ?thesis by blast
qed

text \<open>
  A device opens further sessions with the secret it registered and with no other: after a
  registration, \<open>create_session\<close> for the device succeeds exactly for secrets with the same digest.
\<close>

lemma registered_secret_opens_session:
  assumes "register_device_with_origin hash now mint_now uuid tok did name secret origin pm
             = (Inr reg, pm1)"
    and "faults (pm_store pm1) = []"
  shows "(\<exists>r. fst (create_session hash now2 uuid2 did secret2 pm1) = Inr r) \<longleftrightarrow>
           hash secret2 = hash secret"
proof -
  have "\<exists>d. device_lookup (pm_store pm1) did = Some d \<and> revoked_at d = None \<and>
      secret_hash d = hash secret" using assms(1)
  proof (cases rule: register_cases)
    case (registered t s')
    have "pm_store pm1 = s'" using registered(5)
      by (auto simp: mint_session_token_for_device_id_def Let_def)
    then show ?thesis
      using devs.insert_activates [OF registered(4)] devs.insert_secret [OF registered(4)]
      by (auto simp: devs.is_active_def)
  qed simp_all
  then obtain d where d: "device_lookup (pm_store pm1) did = Some d" "revoked_at d = None"
      "secret_hash d = hash secret" by blast
  then have "on_store DeviceNotFound (device_by_id did) pm1 = (Inr (Some d), pm1)"
    using assms(2) by (simp add: on_store_def device_by_id_def sql_working device_lookup_def)
  with d show ?thesis
    by (auto simp: create_session_def bind_ok_run err_run mint_session_token_for_device_id_def Let_def)
qed

end
