(* ===== verification/Notification_Store.thy ===== *)
theory Notification_Store
  imports Storage
begin

text \<open>
  \<open>crates/bridge-core/src/notification_store.rs\<close>: notification settings, push subscriptions, the
  queue of push deliveries and the alert state of each thread, every method as its SQL on the rows
  of \<^theory_text>\<open>Sqlite\<close>. The text of the approval-id list (\<open>serde_json\<close> of a list of strings) is written
  and read by the parameters \<open>ids_to_json\<close> and \<open>ids_from_json\<close>; the host of an endpoint URL (the
  \<open>url\<close> crate) by \<open>host_of\<close>.
\<close>

section \<open>Data\<close>

datatype delivery_status = Pending | Sending | Sent | InvalidSubscription | Failed

type_synonym notification_delivery = "delivery_status delivery"

record push_subscription_diagnostic =
  subscription_state :: string
  endpoint_host :: string
  diag_last_success_at :: "u64 option"
  diag_last_error_category :: "string option"

fun delivery_status_as_str :: "delivery_status \<Rightarrow> string" where
  "delivery_status_as_str Pending = ''pending''"
| "delivery_status_as_str Sending = ''sending''"
| "delivery_status_as_str Sent = ''sent''"
| "delivery_status_as_str InvalidSubscription = ''invalid_subscription''"
| "delivery_status_as_str Failed = ''failed''"

definition delivery_status_from_str :: "string \<Rightarrow> db_error + delivery_status" where
  "delivery_status_from_str v =
     (if v = ''pending'' then Inr Pending
      else if v = ''sending'' then Inr Sending
      else if v = ''sent'' then Inr Sent
      else if v = ''invalid_subscription'' then Inr InvalidSubscription
      else if v = ''failed'' then Inr Failed
      else Inl InvalidQuery)"

lemma delivery_status_round_trip [simp]:
  "delivery_status_from_str (delivery_status_as_str st) = Inr st"
  by (cases st) (simp_all add: delivery_status_from_str_def)

lemma delivery_status_as_str_eq [simp]:
  "delivery_status_as_str a = delivery_status_as_str b \<longleftrightarrow> a = b"
  by (cases a; cases b) simp_all

definition default_alert_kind_settings :: alert_kind_settings where
  "default_alert_kind_settings =
     \<lparr>kind_completed = True, kind_approval_required = True, kind_input_required = True,
      kind_error = True\<rparr>"

definition defaults_for :: "string \<Rightarrow> device_notification_settings" where
  "defaults_for did =
     \<lparr>set_device_id = did, set_enabled = False, alert_kinds = default_alert_kind_settings,
      sound_enabled = True, vibration_enabled = True, set_updated_at = 0\<rparr>"

fun kind_enabled :: "device_notification_settings \<Rightarrow> alert_kind \<Rightarrow> bool" where
  "kind_enabled st Completed = kind_completed (alert_kinds st)"
| "kind_enabled st ApprovalRequired = kind_approval_required (alert_kinds st)"
| "kind_enabled st InputRequired = kind_input_required (alert_kinds st)"
| "kind_enabled st ErrorAlert = kind_error (alert_kinds st)"

section \<open>Opening: deliveries interrupted while sending become pending again\<close>

definition store_migrate :: "unit db_op" where
  "store_migrate =
     sql_write True
       (\<lambda>s. s\<lparr>deliveries := row_update (\<lambda>r. dl_status r = ''sending'')
                              (\<lambda>r. r\<lparr>dl_status := ''pending''\<rparr>) (deliveries s)\<rparr>)"

section \<open>Settings\<close>

definition settings_for_device :: "string \<Rightarrow> device_notification_settings db_op" where
  "settings_for_device did =
     sql_read (\<lambda>s. case row_lookup set_device_id did (device_settings s) of
                     Some st \<Rightarrow> st | None \<Rightarrow> defaults_for did)"

definition save_settings :: "device_notification_settings \<Rightarrow> unit db_op" where
  "save_settings st =
     sql_write (fits_i64 (set_updated_at st))
       (\<lambda>s. s\<lparr>device_settings :=
                row_upsert set_device_id (\<lambda>old new. new) st (device_settings s)\<rparr>)"

text \<open>The join with \<open>devices\<close> keeps the settings of devices that are registered and not revoked.\<close>

definition device_is_active :: "db \<Rightarrow> string \<Rightarrow> bool" where
  "device_is_active s did \<longleftrightarrow>
     (\<exists>d \<in> set (devices s). device_id d = did \<and> revoked_at d = None)"

definition enabled_rows :: "db \<Rightarrow> device_notification_settings list" where
  "enabled_rows s =
     sort_key set_device_id
       (filter (\<lambda>st. device_is_active s (set_device_id st) \<and> set_enabled st) (device_settings s))"

definition enabled_settings :: "device_notification_settings list db_op" where
  "enabled_settings = sql_read enabled_rows"

definition enabled_devices_for_kind :: "alert_kind \<Rightarrow> string list db_op" where
  "enabled_devices_for_kind k =
     bind_ok enabled_settings
       (\<lambda>sts. ok (map set_device_id (filter (\<lambda>st. kind_enabled st k) sts)))"

definition any_device_wants_approval_alerts :: "bool db_op" where
  "any_device_wants_approval_alerts =
     bind_ok enabled_settings
       (\<lambda>sts. ok (list_ex (\<lambda>st. kind_approval_required (alert_kinds st)) sts))"

definition delete_device_notification_data :: "string \<Rightarrow> unit db_op" where
  "delete_device_notification_data did =
     sql_write True
       (\<lambda>s. s\<lparr>device_settings := row_delete (\<lambda>r. set_device_id r = did) (device_settings s),
              push_subscriptions := row_delete (\<lambda>r. sub_device_id r = did) (push_subscriptions s),
              deliveries := row_delete (\<lambda>r. dl_device_id r = did) (deliveries s)\<rparr>)"

section \<open>Subscriptions\<close>

definition save_subscription :: "push_subscription \<Rightarrow> unit db_op" where
  "save_subscription sub =
     sql_write (fits_i64 (sub_created_at sub) \<and> fits_i64_opt (last_success_at sub) \<and>
                fits_i64_opt (invalidated_at sub))
       (\<lambda>s. s\<lparr>push_subscriptions :=
                row_upsert sub_device_id (\<lambda>old new. new) sub (push_subscriptions s)\<rparr>)"

definition subscription_for_device :: "string \<Rightarrow> push_subscription option db_op" where
  "subscription_for_device did =
     sql_read (\<lambda>s. row_lookup sub_device_id did (push_subscriptions s))"

definition active_subscription :: "string \<Rightarrow> push_subscription option db_op" where
  "active_subscription did =
     sql_read (\<lambda>s. find (\<lambda>r. sub_device_id r = did \<and> invalidated_at r = None)
                     (push_subscriptions s))"

definition invalidate_subscription :: "string \<Rightarrow> u64 \<Rightarrow> unit db_op" where
  "invalidate_subscription did at =
     sql_write (fits_i64 at)
       (\<lambda>s. s\<lparr>push_subscriptions := row_update (\<lambda>r. sub_device_id r = did)
                (\<lambda>r. r\<lparr>invalidated_at := Some at\<rparr>) (push_subscriptions s)\<rparr>)"

definition delete_subscription :: "string \<Rightarrow> unit db_op" where
  "delete_subscription did =
     sql_write True
       (\<lambda>s. s\<lparr>push_subscriptions := row_delete (\<lambda>r. sub_device_id r = did) (push_subscriptions s),
              deliveries := row_delete (\<lambda>r. dl_device_id r = did) (deliveries s)\<rparr>)"

text \<open>The subquery: the category of the device's latest delivery that has one.\<close>

definition latest_error_category :: "string \<Rightarrow> delivery_row list \<Rightarrow> string option" where
  "latest_error_category did rows =
     (case rev (sort_key dl_updated_at
        (filter (\<lambda>r. dl_device_id r = did \<and> last_error_category r \<noteq> None) rows)) of
        [] \<Rightarrow> None
      | r # _ \<Rightarrow> last_error_category r)"

definition push_subscription_diagnostics ::
  "(string \<Rightarrow> string option) \<Rightarrow> push_subscription_diagnostic list db_op" where
  "push_subscription_diagnostics host_of =
     sql_read (\<lambda>s. map (\<lambda>r.
         \<lparr>subscription_state = (if invalidated_at r \<noteq> None then ''needs_repair'' else ''active''),
          endpoint_host = (case host_of (endpoint r) of Some h \<Rightarrow> h | None \<Rightarrow> ''invalid-endpoint''),
          diag_last_success_at = last_success_at r,
          diag_last_error_category = latest_error_category (sub_device_id r) (deliveries s)\<rparr>)
       (rev (sort_key sub_created_at (push_subscriptions s))))"

section \<open>The delivery queue\<close>

definition delivery_key :: "'st delivery \<Rightarrow> string \<times> string" where
  "delivery_key r = (dl_event_id r, dl_device_id r)"

definition to_delivery_row :: "notification_delivery \<Rightarrow> delivery_row" where
  "to_delivery_row d =
     \<lparr>dl_event_id = dl_event_id d, dl_device_id = dl_device_id d, payload_json = payload_json d,
      dl_status = delivery_status_as_str (dl_status d), attempt_count = attempt_count d,
      next_attempt_at = next_attempt_at d, last_error_category = last_error_category d,
      dl_updated_at = dl_updated_at d\<rparr>"

definition delivery_from_row :: "delivery_row \<Rightarrow> db_error + notification_delivery" where
  "delivery_from_row r =
     (case delivery_status_from_str (dl_status r) of
        Inl e \<Rightarrow> Inl e
      | Inr st \<Rightarrow> Inr \<lparr>dl_event_id = dl_event_id r, dl_device_id = dl_device_id r,
                      payload_json = payload_json r, dl_status = st,
                      attempt_count = attempt_count r, next_attempt_at = next_attempt_at r,
                      last_error_category = last_error_category r,
                      dl_updated_at = dl_updated_at r\<rparr>)"

text \<open>\<open>INSERT OR IGNORE\<close>: a delivery whose key is taken is dropped, and the result says so.\<close>

definition enqueue_delivery :: "notification_delivery \<Rightarrow> bool db_op" where
  "enqueue_delivery d =
     sql_call (with_params (fits_i64 (next_attempt_at d) \<and> fits_i64 (dl_updated_at d))
       (\<lambda>s. if delivery_key d \<in> set (map delivery_key (deliveries s)) then (False, s)
            else (True, s\<lparr>deliveries := deliveries s @ [to_delivery_row d]\<rparr>)))"

definition is_due :: "u64 \<Rightarrow> delivery_row \<Rightarrow> bool" where
  "is_due now r \<longleftrightarrow> dl_status r = ''pending'' \<and> next_attempt_at r \<le> now"

definition claim_order :: "delivery_row \<Rightarrow> u64 \<times> u64 \<times> string \<times> string" where
  "claim_order r = (next_attempt_at r, dl_updated_at r, dl_event_id r, dl_device_id r)"

definition claim_next_due_delivery :: "u64 \<Rightarrow> notification_delivery option db_op" where
  "claim_next_due_delivery now =
     sql_call (\<lambda>s.
       if \<not> fits_i64 now then Inl ToSqlConversionFailure
       else case sort_key claim_order (filter (is_due now) (deliveries s)) of
         [] \<Rightarrow> Inr (None, s)
       | r # _ \<Rightarrow>
           (case delivery_from_row r of
              Inl e \<Rightarrow> Inl e
            | Inr d \<Rightarrow>
                let attempts = saturating_add (attempt_count d) 1;
                    d' = d\<lparr>dl_status := Sending, attempt_count := attempts, dl_updated_at := now\<rparr>
                in Inr (Some d',
                     s\<lparr>deliveries := row_update (\<lambda>q. delivery_key q = delivery_key d)
                         (\<lambda>q. q\<lparr>dl_status := ''sending'', attempt_count := attempts,
                                dl_updated_at := now\<rparr>) (deliveries s)\<rparr>)))"

definition next_delivery_due_at :: "u64 option db_op" where
  "next_delivery_due_at =
     sql_read (\<lambda>s. case map next_attempt_at (filter (\<lambda>r. dl_status r = ''pending'') (deliveries s)) of
                     [] \<Rightarrow> None
                   | x # xs \<Rightarrow> Some (fold min xs x))"

definition mark_delivery_sent :: "string \<Rightarrow> string \<Rightarrow> u64 \<Rightarrow> unit db_op" where
  "mark_delivery_sent eid did now =
     sql_write (fits_i64 now)
       (\<lambda>s. s\<lparr>deliveries := row_update (\<lambda>r. delivery_key r = (eid, did))
                (\<lambda>r. r\<lparr>dl_status := ''sent'', last_error_category := None, dl_updated_at := now\<rparr>)
                (deliveries s),
              push_subscriptions :=
                row_update (\<lambda>r. sub_device_id r = did \<and> invalidated_at r = None)
                  (\<lambda>r. r\<lparr>last_success_at := Some now\<rparr>) (push_subscriptions s)\<rparr>)"

definition update_delivery_status ::
  "string \<Rightarrow> string \<Rightarrow> delivery_status \<Rightarrow> u64 option \<Rightarrow> string option \<Rightarrow> u64 \<Rightarrow> unit db_op" where
  "update_delivery_status eid did st next category now =
     sql_write (fits_i64_opt next \<and> fits_i64 now)
       (\<lambda>s. s\<lparr>deliveries := row_update (\<lambda>r. delivery_key r = (eid, did))
                (\<lambda>r. r\<lparr>dl_status := delivery_status_as_str st,
                       next_attempt_at := (case next of Some n \<Rightarrow> n | None \<Rightarrow> next_attempt_at r),
                       last_error_category := category, dl_updated_at := now\<rparr>)
                (deliveries s)\<rparr>)"

definition mark_delivery_retry :: "string \<Rightarrow> string \<Rightarrow> u64 \<Rightarrow> string \<Rightarrow> u64 \<Rightarrow> unit db_op" where
  "mark_delivery_retry eid did next category now =
     update_delivery_status eid did Pending (Some next) (Some category) now"

definition mark_delivery_invalid_subscription :: "string \<Rightarrow> string \<Rightarrow> u64 \<Rightarrow> unit db_op" where
  "mark_delivery_invalid_subscription eid did now =
     update_delivery_status eid did InvalidSubscription None
       (Some ''push_invalid_subscription'') now"

definition mark_delivery_failed :: "string \<Rightarrow> string \<Rightarrow> string \<Rightarrow> u64 \<Rightarrow> unit db_op" where
  "mark_delivery_failed eid did category now =
     update_delivery_status eid did Failed None (Some category) now"

definition fail_pending_deliveries :: "string \<Rightarrow> u64 \<Rightarrow> nat db_op" where
  "fail_pending_deliveries category now =
     sql_call (with_params (fits_i64 now)
       (\<lambda>s. (length (filter (\<lambda>r. dl_status r \<in> {''pending'', ''sending''}) (deliveries s)),
             s\<lparr>deliveries := row_update (\<lambda>r. dl_status r \<in> {''pending'', ''sending''})
                 (\<lambda>r. r\<lparr>dl_status := ''failed'', last_error_category := Some category,
                        dl_updated_at := now\<rparr>) (deliveries s)\<rparr>)))"

definition delivery_for :: "string \<Rightarrow> string \<Rightarrow> notification_delivery option db_op" where
  "delivery_for eid did =
     sql_call (\<lambda>s. case row_lookup delivery_key (eid, did) (deliveries s) of
         None \<Rightarrow> Inr (None, s)
       | Some r \<Rightarrow> (case delivery_from_row r of Inl e \<Rightarrow> Inl e | Inr d \<Rightarrow> Inr (Some d, s)))"

definition delivery_count :: "string \<Rightarrow> u64 db_op" where
  "delivery_count did =
     sql_read (\<lambda>s. of_nat (length (filter (\<lambda>r. dl_device_id r = did) (deliveries s))))"

section \<open>The alert state of a thread\<close>

definition alert_state_from_row ::
  "(string \<Rightarrow> string list option) \<Rightarrow> alert_state_row \<Rightarrow> db_error + session_alert_state" where
  "alert_state_from_row ids_from_json r =
     (case session_status_from_json (as_status r) of
        None \<Rightarrow> Inl FromSqlConversionFailure
      | Some st \<Rightarrow>
          (case ids_from_json (known_approval_ids r) of
             None \<Rightarrow> Inl FromSqlConversionFailure
           | Some ids \<Rightarrow>
               Inr \<lparr>as_thread_id = as_thread_id r, as_status = st, as_updated_at = as_updated_at r,
                    state_cycle = state_cycle r, known_approval_ids = ids,
                    fallback_approval_cycle = fallback_approval_cycle r\<rparr>))"

definition alert_state_to_row ::
  "(string list \<Rightarrow> string) \<Rightarrow> session_alert_state \<Rightarrow> alert_state_row" where
  "alert_state_to_row ids_to_json st =
     \<lparr>as_thread_id = as_thread_id st, as_status = session_status_to_json (as_status st),
      as_updated_at = as_updated_at st, state_cycle = state_cycle st,
      known_approval_ids = ids_to_json (known_approval_ids st),
      fallback_approval_cycle = fallback_approval_cycle st\<rparr>"

definition alert_state_for_thread ::
  "(string \<Rightarrow> string list option) \<Rightarrow> string \<Rightarrow> session_alert_state option db_op" where
  "alert_state_for_thread ids_from_json tid =
     sql_call (\<lambda>s. case row_lookup as_thread_id tid (alert_states s) of
         None \<Rightarrow> Inr (None, s)
       | Some r \<Rightarrow>
           (case alert_state_from_row ids_from_json r of Inl e \<Rightarrow> Inl e | Inr st \<Rightarrow> Inr (Some st, s)))"

definition save_alert_state ::
  "(string list \<Rightarrow> string) \<Rightarrow> session_alert_state \<Rightarrow> unit db_op" where
  "save_alert_state ids_to_json st =
     sql_write (fits_i64 (as_updated_at st) \<and> fits_i64 (state_cycle st) \<and>
                fits_i64_opt (fallback_approval_cycle st))
       (\<lambda>s. s\<lparr>alert_states :=
                row_upsert as_thread_id (\<lambda>old new. new) (alert_state_to_row ids_to_json st)
                  (alert_states s)\<rparr>)"


section \<open>The invariant of the tables\<close>

text \<open>Primary keys are unique and the status column holds the text of a status.\<close>

definition valid_status :: "delivery_row \<Rightarrow> bool" where
  "valid_status r \<longleftrightarrow> (\<exists>st. dl_status r = delivery_status_as_str st)"

definition store_inv :: "db \<Rightarrow> bool" where
  "store_inv s \<longleftrightarrow>
     keyed set_device_id (device_settings s) \<and> keyed as_thread_id (alert_states s) \<and>
     keyed sub_device_id (push_subscriptions s) \<and> keyed delivery_key (deliveries s) \<and>
     (\<forall>r \<in> set (deliveries s). valid_status r)"

lemma store_inv_faults [simp]: "store_inv (s\<lparr>faults := fs\<rparr>) = store_inv s"
  by (simp add: store_inv_def)

lemma store_inv_empty: "store_inv empty_db"
  by (simp add: store_inv_def empty_db_def)

lemma valid_status_as_str [simp]: "dl_status r = delivery_status_as_str st \<Longrightarrow> valid_status r"
  by (auto simp: valid_status_def)

lemma valid_status_cases:
  "valid_status r \<longleftrightarrow>
     dl_status r \<in> {''pending'', ''sending'', ''sent'', ''invalid_subscription'', ''failed''}"
proof
  assume "valid_status r"
  then obtain st where "dl_status r = delivery_status_as_str st" by (auto simp: valid_status_def)
  then show "dl_status r \<in> {''pending'', ''sending'', ''sent'', ''invalid_subscription'', ''failed''}"
    by (cases st) simp_all
next
  assume "dl_status r \<in> {''pending'', ''sending'', ''sent'', ''invalid_subscription'', ''failed''}"
  then show "valid_status r"
    using delivery_status_as_str.simps unfolding valid_status_def by (metis empty_iff insert_iff)
qed

lemma valid_status_delivery_from_row:
  "valid_status r \<Longrightarrow> \<exists>d. delivery_from_row r = Inr d"
  by (auto simp: valid_status_def delivery_from_row_def)

lemma delivery_key_update [simp]:
  "delivery_key (r\<lparr>dl_status := a\<rparr>) = delivery_key r"
  "delivery_key (r\<lparr>attempt_count := b\<rparr>) = delivery_key r"
  "delivery_key (r\<lparr>next_attempt_at := c\<rparr>) = delivery_key r"
  "delivery_key (r\<lparr>last_error_category := e\<rparr>) = delivery_key r"
  "delivery_key (r\<lparr>dl_updated_at := f\<rparr>) = delivery_key r"
  by (simp_all add: delivery_key_def)

lemma delivery_key_to_row [simp]: "delivery_key (to_delivery_row d) = delivery_key d"
  by (simp add: delivery_key_def to_delivery_row_def)

lemma row_update_deliveries_inv:
  assumes "store_inv s" and "\<And>r. delivery_key (f r) = delivery_key r"
    and "\<And>r. valid_status r \<Longrightarrow> valid_status (f r)"
  shows "store_inv (s\<lparr>deliveries := row_update p f (deliveries s)\<rparr>)"
  using assms by (auto simp: store_inv_def keyed_update) (auto simp: row_update_def)

lemmas store_op_defs =
  store_migrate_def settings_for_device_def save_settings_def enabled_settings_def
  delete_device_notification_data_def save_subscription_def subscription_for_device_def
  active_subscription_def invalidate_subscription_def delete_subscription_def
  push_subscription_diagnostics_def enqueue_delivery_def next_delivery_due_at_def
  mark_delivery_sent_def update_delivery_status_def fail_pending_deliveries_def
  delivery_for_def delivery_count_def alert_state_for_thread_def save_alert_state_def

lemma store_migrate_inv [maintains_intros]: "maintains store_inv store_migrate"
  unfolding store_migrate_def
  by (intro sql_write_maintains row_update_deliveries_inv) (auto simp: valid_status_cases)

lemma save_settings_inv [maintains_intros]: "maintains store_inv (save_settings st)"
  unfolding save_settings_def
  by (rule sql_write_maintains) (simp_all add: store_inv_def keyed_upsert)

lemma settings_for_device_inv [maintains_intros]: "maintains store_inv (settings_for_device did)"
  unfolding settings_for_device_def by (rule sql_read_maintains) simp

lemma enabled_settings_inv [maintains_intros]: "maintains store_inv enabled_settings"
  unfolding enabled_settings_def by (rule sql_read_maintains) simp

lemma delete_device_notification_data_inv [maintains_intros]:
  "maintains store_inv (delete_device_notification_data did)"
  unfolding delete_device_notification_data_def
  by (rule sql_write_maintains) (auto simp: store_inv_def keyed_delete)

lemma save_subscription_inv [maintains_intros]: "maintains store_inv (save_subscription sub)"
  unfolding save_subscription_def
  by (rule sql_write_maintains) (simp_all add: store_inv_def keyed_upsert)

lemma active_subscription_inv [maintains_intros]: "maintains store_inv (active_subscription did)"
  unfolding active_subscription_def by (rule sql_read_maintains) simp

lemma invalidate_subscription_inv [maintains_intros]:
  "maintains store_inv (invalidate_subscription did at)"
  unfolding invalidate_subscription_def
  by (rule sql_write_maintains) (simp_all add: store_inv_def keyed_update)

lemma delete_subscription_inv [maintains_intros]: "maintains store_inv (delete_subscription did)"
  unfolding delete_subscription_def
  by (rule sql_write_maintains) (auto simp: store_inv_def keyed_delete)

lemma enqueue_delivery_inv [maintains_intros]: "maintains store_inv (enqueue_delivery d)"
  unfolding enqueue_delivery_def
  by (rule sql_call_maintains)
    (auto simp: with_params_def store_inv_def keyed_def to_delivery_row_def delivery_key_def
      valid_status_def split: if_splits)

lemma claim_next_due_delivery_inv [maintains_intros]:
  "maintains store_inv (claim_next_due_delivery now)"
  unfolding claim_next_due_delivery_def
  by (rule sql_call_maintains)
    (auto simp: Let_def valid_status_cases split: if_splits list.splits sum.splits
      intro!: row_update_deliveries_inv)

lemma mark_delivery_sent_inv [maintains_intros]: "maintains store_inv (mark_delivery_sent eid did now)"
proof -
  have "store_inv (s\<lparr>deliveries := row_update (\<lambda>r. delivery_key r = (eid, did))
          (\<lambda>r. r\<lparr>dl_status := ''sent'', last_error_category := None, dl_updated_at := now\<rparr>)
          (deliveries s)\<rparr>)" if "store_inv s" for s
    using that by (rule row_update_deliveries_inv) (auto simp: valid_status_cases)
  then show ?thesis unfolding mark_delivery_sent_def
    by (intro sql_write_maintains) (simp_all add: store_inv_def keyed_update)
qed

lemma update_delivery_status_inv [maintains_intros]:
  "maintains store_inv (update_delivery_status eid did st next category now)"
  unfolding update_delivery_status_def
  by (intro sql_write_maintains row_update_deliveries_inv) (auto simp: valid_status_def)

lemma mark_deliveries_inv [maintains_intros]:
  "maintains store_inv (mark_delivery_retry eid did next category now)"
  "maintains store_inv (mark_delivery_invalid_subscription eid did now)"
  "maintains store_inv (mark_delivery_failed eid did category now)"
  by (simp_all add: mark_delivery_retry_def mark_delivery_invalid_subscription_def
      mark_delivery_failed_def update_delivery_status_inv)

lemma fail_pending_deliveries_inv [maintains_intros]:
  "maintains store_inv (fail_pending_deliveries category now)"
  unfolding fail_pending_deliveries_def
  by (rule sql_call_maintains)
    (auto simp: with_params_def valid_status_cases split: if_splits intro!: row_update_deliveries_inv)

lemma save_alert_state_inv [maintains_intros]: "maintains store_inv (save_alert_state enc st)"
  unfolding save_alert_state_def
  by (rule sql_write_maintains) (simp_all add: store_inv_def keyed_upsert)

lemma alert_state_for_thread_inv [maintains_intros]:
  "maintains store_inv (alert_state_for_thread dec tid)"
  unfolding alert_state_for_thread_def
  by (rule sql_call_maintains) (auto split: option.splits sum.splits)


section \<open>The queue as a map from (event, device) to its delivery\<close>

definition queue_view :: "db \<Rightarrow> string \<times> string \<rightharpoonup> notification_delivery" where
  "queue_view s k =
     (case row_lookup delivery_key k (deliveries s) of
        None \<Rightarrow> None
      | Some r \<Rightarrow> (case delivery_from_row r of Inl _ \<Rightarrow> None | Inr d \<Rightarrow> Some d))"

definition due_keys :: "u64 \<Rightarrow> db \<Rightarrow> (string \<times> string) set" where
  "due_keys now s = delivery_key ` {r \<in> set (deliveries s). is_due now r}"

lemma due_keys_set: "due_keys now s = set (map delivery_key (filter (is_due now) (deliveries s)))"
  by (auto simp: due_keys_def)

lemma finite_due_keys [simp]: "finite (due_keys now s)"
  by (simp add: due_keys_def)

lemma due_keys_faults [simp]: "due_keys now (s\<lparr>faults := fs\<rparr>) = due_keys now s"
  by (simp add: due_keys_def)

lemma due_keys_subs [simp]: "due_keys now (s\<lparr>push_subscriptions := x\<rparr>) = due_keys now s"
  by (simp add: due_keys_def)

lemma due_keys_same_tables: "same_tables s t \<Longrightarrow> due_keys now s = due_keys now t"
  by (simp add: due_keys_def same_tables_fields)

lemma queue_view_faults [simp]: "queue_view (s\<lparr>faults := fs\<rparr>) = queue_view s"
  by (simp add: queue_view_def fun_eq_iff)

lemma queue_view_subs [simp]: "queue_view (s\<lparr>push_subscriptions := x\<rparr>) = queue_view s"
  by (simp add: queue_view_def fun_eq_iff)

lemma queue_view_same_tables: "same_tables s t \<Longrightarrow> queue_view s = queue_view t"
  by (simp add: queue_view_def same_tables_fields fun_eq_iff)

lemma due_keys_update:
  assumes "\<And>r. delivery_key (f r) = delivery_key r" and "\<And>r. \<not> is_due now (f r)"
  shows "due_keys now (s\<lparr>deliveries := row_update (\<lambda>r. delivery_key r = k) f (deliveries s)\<rparr>) =
           due_keys now s - {k}"
  using assms by (auto simp: due_keys_def row_update_def image_iff split: if_splits)

lemma queue_view_update:
  assumes "\<And>r. delivery_key (f r) = delivery_key r"
  shows "queue_view (s\<lparr>deliveries := row_update (\<lambda>r. delivery_key r = k) f (deliveries s)\<rparr>) k' =
           (if k' = k
            then (case row_lookup delivery_key k (deliveries s) of
                    None \<Rightarrow> None
                  | Some r \<Rightarrow> (case delivery_from_row (f r) of Inl _ \<Rightarrow> None | Inr d \<Rightarrow> Some d))
            else queue_view s k')"
  by (auto simp: queue_view_def row_lookup_update_key assms split: option.splits)

text \<open>The row the claim picks: a due one, the least in the order of the query.\<close>

definition claimed :: "u64 \<Rightarrow> 'st delivery \<Rightarrow> notification_delivery" where
  "claimed now r =
     \<lparr>dl_event_id = dl_event_id r, dl_device_id = dl_device_id r, payload_json = payload_json r,
      dl_status = Sending, attempt_count = saturating_add (attempt_count r) 1,
      next_attempt_at = next_attempt_at r, last_error_category = last_error_category r,
      dl_updated_at = now\<rparr>"

lemma claim_none:
  assumes "claim_next_due_delivery now s = (Inr None, s')"
  shows "due_keys now s = {}" and "same_tables s' s"
proof -
  have e: "sort_key claim_order (filter (is_due now) (deliveries s)) = []" and "same_tables s' s"
    using assms
    by (auto simp: claim_next_due_delivery_def sql_call_def Let_def
        split: if_splits list.splits sum.splits)
  then show "same_tables s' s" by simp
  have "set (filter (is_due now) (deliveries s)) = {}" using e by (metis set_empty set_sort)
  then show "due_keys now s = {}" by (auto simp: due_keys_def)
qed

lemma claim_some:
  assumes "claim_next_due_delivery now s = (Inr (Some d), s')" and "store_inv s"
  obtains r where "r \<in> set (deliveries s)" and "is_due now r" and "d = claimed now r"
    and "\<And>q. q \<in> set (deliveries s) \<Longrightarrow> is_due now q \<Longrightarrow> claim_order r \<le> claim_order q"
    and "same_tables s' (s\<lparr>deliveries := row_update (\<lambda>q. delivery_key q = delivery_key r)
           (\<lambda>q. q\<lparr>dl_status := ''sending'', attempt_count := saturating_add (attempt_count r) 1,
                  dl_updated_at := now\<rparr>) (deliveries s)\<rparr>)"
proof -
  obtain r rs where srt: "sort_key claim_order (filter (is_due now) (deliveries s)) = r # rs"
    using assms(1)
    by (auto simp: claim_next_due_delivery_def sql_call_def Let_def
        split: if_splits list.splits sum.splits)
  have r: "r \<in> set (deliveries s)" "is_due now r" using sort_key_hd_min(1) [OF srt] by auto
  have least: "claim_order r \<le> claim_order q" if "q \<in> set (deliveries s)" "is_due now q" for q
    using sort_key_hd_min(2) [OF srt] that by simp
  obtain d0 where d0: "delivery_from_row r = Inr d0"
    using assms(2) r(1) valid_status_delivery_from_row by (auto simp: store_inv_def)
  then have key: "delivery_key d0 = delivery_key r" "attempt_count d0 = attempt_count r"
    and cl: "d0\<lparr>dl_status := Sending, attempt_count := saturating_add (attempt_count r) 1,
                dl_updated_at := now\<rparr> = claimed now r"
    by (auto simp: delivery_from_row_def delivery_key_def claimed_def split: sum.splits)
  from assms(1) srt d0 key cl show thesis
    by (intro that [OF r _ least])
      (auto simp: claim_next_due_delivery_def sql_call_def Let_def same_tables_fields
        split: if_splits)
qed

lemma claim_some_due_keys:
  assumes "claim_next_due_delivery now s = (Inr (Some d), s')" and "store_inv s"
  shows "delivery_key d \<in> due_keys now s" and "due_keys now s' = due_keys now s - {delivery_key d}"
proof -
  obtain r where r: "r \<in> set (deliveries s)" "is_due now r" "d = claimed now r"
    and s': "same_tables s' (s\<lparr>deliveries := row_update (\<lambda>q. delivery_key q = delivery_key r)
           (\<lambda>q. q\<lparr>dl_status := ''sending'', attempt_count := saturating_add (attempt_count r) 1,
                  dl_updated_at := now\<rparr>) (deliveries s)\<rparr>)"
    using assms by (rule claim_some)
  have k: "delivery_key d = delivery_key r" by (simp add: r(3) claimed_def delivery_key_def)
  show "delivery_key d \<in> due_keys now s" using r(1,2) by (auto simp: k due_keys_def)
  show "due_keys now s' = due_keys now s - {delivery_key d}"
    unfolding k due_keys_same_tables [OF s']
    by (rule due_keys_update) (simp_all add: is_due_def delivery_key_def)
qed

lemma claim_effect:
  assumes "store_inv s" and "claim_next_due_delivery now s = (Inr (Some d), s')"
  obtains r where "r \<in> set (deliveries s)" and "is_due now r" and "d = claimed now r"
    and "\<forall>q \<in> set (deliveries s). is_due now q \<longrightarrow> claim_order r \<le> claim_order q"
    and "queue_view s' = (queue_view s)(delivery_key r \<mapsto> d)"
    and "due_keys now s' = due_keys now s - {delivery_key r}"
proof -
  let ?f = "\<lambda>r q :: delivery_row. q\<lparr>dl_status := ''sending'',
      attempt_count := saturating_add (attempt_count r) 1, dl_updated_at := now\<rparr>"
  obtain r where r: "r \<in> set (deliveries s)" "is_due now r" "d = claimed now r"
    and least: "\<And>q. q \<in> set (deliveries s) \<Longrightarrow> is_due now q \<Longrightarrow> claim_order r \<le> claim_order q"
    and s': "same_tables s' (s\<lparr>deliveries := row_update (\<lambda>q. delivery_key q = delivery_key r)
           (?f r) (deliveries s)\<rparr>)"
    using claim_some [OF assms(2,1)] by metis
  have k: "delivery_key d = delivery_key r" by (simp add: r(3) claimed_def delivery_key_def)
  have lk: "row_lookup delivery_key (delivery_key r) (deliveries s) = Some r"
    using assms(1) r(1) by (auto simp: store_inv_def intro: row_lookup_mem)
  have "delivery_from_row (?f r r) = Inr d"
    by (simp add: delivery_from_row_def delivery_status_from_str_def r(3) claimed_def)
  then have "queue_view s' = (queue_view s)(delivery_key r \<mapsto> d)"
    unfolding queue_view_same_tables [OF s']
    by (auto simp: fun_eq_iff queue_view_update lk)
  with r least k claim_some_due_keys(2) [OF assms(2,1)] show thesis by (intro that) auto
qed

text \<open>A row of the table, seen through the queue.\<close>

lemma queue_view_row:
  assumes "store_inv s" and "r \<in> set (deliveries s)"
  shows "\<exists>d. queue_view s (delivery_key r) = Some d \<and> claimed now d = claimed now r"
proof -
  have "row_lookup delivery_key (delivery_key r) (deliveries s) = Some r"
    using assms by (auto simp: store_inv_def intro: row_lookup_mem)
  moreover obtain d where "delivery_from_row r = Inr d"
    using assms valid_status_delivery_from_row by (auto simp: store_inv_def)
  moreover from this have "claimed now d = claimed now r"
    by (auto simp: delivery_from_row_def claimed_def split: sum.splits)
  ultimately show ?thesis by (simp add: queue_view_def)
qed

section \<open>The contract of the delivery queue\<close>

locale delivery_queue =
  fixes inv :: "'s \<Rightarrow> bool"
    and due :: "u64 \<Rightarrow> 's \<Rightarrow> 'k set"
    and claim :: "u64 \<Rightarrow> ('s, 'e, 'd option) action"
    and dkey :: "'d \<Rightarrow> 'k"
  assumes finite_due: "finite (due now s)"
    and claim_keeps_inv: "maintains inv (claim now)"
    and claim_nothing: "inv s \<Longrightarrow> claim now s = (Inr None, s') \<Longrightarrow> due now s = {}"
    and claim_one: "inv s \<Longrightarrow> claim now s = (Inr (Some d), s') \<Longrightarrow>
      dkey d \<in> due now s \<and> due now s' = due now s - {dkey d}"
begin

lemma claim_decreases:
  assumes "inv s" and "claim now s = (Inr (Some d), s')"
  shows "card (due now s') < card (due now s)"
  using claim_one [OF assms] finite_due by (metis card_Diff1_less)

end

interpretation queue: delivery_queue store_inv due_keys claim_next_due_delivery delivery_key
  by unfold_locales
    (simp_all add: claim_next_due_delivery_inv claim_none(1) claim_some_due_keys)


section \<open>What the marks do to the queue\<close>

lemma mark_delivery_sent_ok:
  assumes "mark_delivery_sent eid did now s = (Inr (), s')"
  shows "due_keys now' s' = due_keys now' s - {(eid, did)}"
    and "k \<noteq> (eid, did) \<Longrightarrow> queue_view s' k = queue_view s k"
    and "queue_view s (eid, did) = Some d \<Longrightarrow>
           queue_view s' (eid, did) =
             Some (d\<lparr>dl_status := Sent, last_error_category := None, dl_updated_at := now\<rparr>)"
proof -
  let ?f = "\<lambda>r :: delivery_row. r\<lparr>dl_status := ''sent'', last_error_category := None, dl_updated_at := now\<rparr>"
  let ?t = "s\<lparr>deliveries := row_update (\<lambda>r. delivery_key r = (eid, did)) ?f (deliveries s)\<rparr>"
  have s': "deliveries s' = deliveries ?t"
    using assms by (auto simp: mark_delivery_sent_def sql_write_ok)
  have f: "delivery_key (?f r) = delivery_key r" "\<not> is_due now' (?f r)" for r
    by (simp_all add: is_due_def)
  have "due_keys now' s' = due_keys now' ?t" by (simp add: due_keys_def s')
  also have "\<dots> = due_keys now' s - {(eid, did)}" using f by (rule due_keys_update)
  finally show "due_keys now' s' = due_keys now' s - {(eid, did)}" .
  have v: "queue_view s' k = queue_view ?t k" for k by (simp add: queue_view_def s')
  show "k \<noteq> (eid, did) \<Longrightarrow> queue_view s' k = queue_view s k"
    unfolding v using queue_view_update [where f = ?f and s = s and k = "(eid, did)" and k' = k, OF f(1)] by simp
  show "queue_view s' (eid, did) =
      Some (d\<lparr>dl_status := Sent, last_error_category := None, dl_updated_at := now\<rparr>)"
    if "queue_view s (eid, did) = Some d"
    unfolding v using queue_view_update [where f = ?f and s = s and k = "(eid, did)" and k' = "(eid, did)", OF f(1)] that
    by (auto simp: queue_view_def delivery_from_row_def delivery_status_from_str_def
        split: option.splits sum.splits)
qed

lemma update_delivery_status_ok:
  assumes "update_delivery_status eid did st next category now s = (Inr (), s')"
  shows "st \<noteq> Pending \<or> (\<exists>n. next = Some n \<and> now' < n) \<Longrightarrow>
           due_keys now' s' = due_keys now' s - {(eid, did)}"
    and "k \<noteq> (eid, did) \<Longrightarrow> queue_view s' k = queue_view s k"
    and "queue_view s (eid, did) = Some d \<Longrightarrow>
           queue_view s' (eid, did) =
             Some (d\<lparr>dl_status := st,
                     next_attempt_at := (case next of Some n \<Rightarrow> n | None \<Rightarrow> next_attempt_at d),
                     last_error_category := category, dl_updated_at := now\<rparr>)"
proof -
  let ?f = "\<lambda>r :: delivery_row. r\<lparr>dl_status := delivery_status_as_str st,
      next_attempt_at := (case next of Some n \<Rightarrow> n | None \<Rightarrow> next_attempt_at r),
      last_error_category := category, dl_updated_at := now\<rparr>"
  let ?t = "s\<lparr>deliveries := row_update (\<lambda>r. delivery_key r = (eid, did)) ?f (deliveries s)\<rparr>"
  have s': "deliveries s' = deliveries ?t"
    using assms by (auto simp: update_delivery_status_def sql_write_ok)
  have key: "delivery_key (?f r) = delivery_key r" for r by simp
  show "due_keys now' s' = due_keys now' s - {(eid, did)}"
    if "st \<noteq> Pending \<or> (\<exists>n. next = Some n \<and> now' < n)"
  proof -
    have "\<not> is_due now' (?f r)" for r
      using that delivery_status_as_str_eq [of st Pending]
      by (auto simp: is_due_def simp del: delivery_status_as_str_eq)
    with key have "due_keys now' ?t = due_keys now' s - {(eid, did)}" by (rule due_keys_update)
    then show ?thesis by (simp add: due_keys_def s')
  qed
  have v: "queue_view s' k = queue_view ?t k" for k by (simp add: queue_view_def s')
  show "k \<noteq> (eid, did) \<Longrightarrow> queue_view s' k = queue_view s k"
    unfolding v using queue_view_update [where f = ?f and s = s and k = "(eid, did)" and k' = k, OF key] by simp
  show "queue_view s' (eid, did) =
      Some (d\<lparr>dl_status := st,
              next_attempt_at := (case next of Some n \<Rightarrow> n | None \<Rightarrow> next_attempt_at d),
              last_error_category := category, dl_updated_at := now\<rparr>)"
    if "queue_view s (eid, did) = Some d"
    unfolding v using queue_view_update [where f = ?f and s = s and k = "(eid, did)" and k' = "(eid, did)", OF key] that
    by (auto simp: queue_view_def delivery_from_row_def split: option.splits sum.splits)
qed

lemma enqueue_delivery_ok:
  assumes "enqueue_delivery d s = (Inr b, s')"
  shows "b \<longleftrightarrow> delivery_key d \<notin> delivery_key ` set (deliveries s)"
    and "b \<Longrightarrow> queue_view s' = (queue_view s)(delivery_key d \<mapsto> d)"
    and "\<not> b \<Longrightarrow> same_tables s' s"
proof -
  show b: "b \<longleftrightarrow> delivery_key d \<notin> delivery_key ` set (deliveries s)"
    and "\<not> b \<Longrightarrow> same_tables s' s"
    using assms by (auto simp: enqueue_delivery_def sql_call_def with_params_def Let_def
        split: if_splits)
  show "queue_view s' = (queue_view s)(delivery_key d \<mapsto> d)" if b
  proof -
    have s': "deliveries s' = deliveries s @ [to_delivery_row d]"
      using assms that by (auto simp: enqueue_delivery_def sql_call_def with_params_def Let_def
          split: if_splits)
    have "delivery_from_row (to_delivery_row d) = Inr d"
      by (simp add: delivery_from_row_def to_delivery_row_def)
    moreover have "row_lookup delivery_key (delivery_key d) (deliveries s) = None"
      using b that by (simp add: row_lookup_None_iff)
    ultimately show ?thesis
      by (auto simp: queue_view_def s' fun_eq_iff row_lookup_append row_lookup_Cons
          split: option.splits)
  qed
qed

section \<open>Sequences of calls\<close>

datatype store_call =
    Migrate
  | SaveSettings device_notification_settings
  | DeleteDeviceData string
  | SaveSubscription push_subscription
  | InvalidateSubscription string u64
  | DeleteSubscription string
  | Enqueue notification_delivery
  | Claim u64
  | MarkSent string string u64
  | MarkRetry string string u64 string u64
  | MarkInvalidSubscription string string u64
  | MarkFailed string string string u64
  | FailPending string u64
  | SaveAlertState session_alert_state

fun store_exec :: "(string list \<Rightarrow> string) \<Rightarrow> store_call \<Rightarrow> db \<Rightarrow> db" where
  "store_exec enc Migrate s = snd (store_migrate s)"
| "store_exec enc (SaveSettings st) s = snd (save_settings st s)"
| "store_exec enc (DeleteDeviceData did) s = snd (delete_device_notification_data did s)"
| "store_exec enc (SaveSubscription sub) s = snd (save_subscription sub s)"
| "store_exec enc (InvalidateSubscription did at) s = snd (invalidate_subscription did at s)"
| "store_exec enc (DeleteSubscription did) s = snd (delete_subscription did s)"
| "store_exec enc (Enqueue d) s = snd (enqueue_delivery d s)"
| "store_exec enc (Claim now) s = snd (claim_next_due_delivery now s)"
| "store_exec enc (MarkSent eid did now) s = snd (mark_delivery_sent eid did now s)"
| "store_exec enc (MarkRetry eid did next cat now) s = snd (mark_delivery_retry eid did next cat now s)"
| "store_exec enc (MarkInvalidSubscription eid did now) s =
     snd (mark_delivery_invalid_subscription eid did now s)"
| "store_exec enc (MarkFailed eid did cat now) s = snd (mark_delivery_failed eid did cat now s)"
| "store_exec enc (FailPending cat now) s = snd (fail_pending_deliveries cat now s)"
| "store_exec enc (SaveAlertState st) s = snd (save_alert_state enc st s)"

definition store_run :: "(string list \<Rightarrow> string) \<Rightarrow> store_call list \<Rightarrow> db \<Rightarrow> db" where
  "store_run enc cs s = fold (store_exec enc) cs s"

fun deletes_data_of :: "string \<Rightarrow> store_call \<Rightarrow> bool" where
  "deletes_data_of did (DeleteDeviceData did') = (did' = did)"
| "deletes_data_of did (DeleteSubscription did') = (did' = did)"
| "deletes_data_of did _ = False"

lemma store_exec_inv: "store_inv s \<Longrightarrow> store_inv (store_exec enc c s)"
  by (cases c) (use maintains_intros in \<open>auto simp: maintains_def\<close>)

lemma store_run_inv: "store_inv s \<Longrightarrow> store_inv (store_run enc cs s)"
  by (induction cs arbitrary: s) (simp_all add: store_run_def store_exec_inv)

definition queued :: "string \<times> string \<Rightarrow> db \<Rightarrow> bool" where
  "queued k s \<longleftrightarrow> k \<in> set (map delivery_key (deliveries s))"

lemma queued_faults [simp]: "queued k (s\<lparr>faults := fs\<rparr>) = queued k s"
  by (simp add: queued_def)

lemma queued_update:
  "(\<And>r. delivery_key (f r) = delivery_key r) \<Longrightarrow>
     queued k (s\<lparr>deliveries := row_update p f (deliveries s)\<rparr>) = queued k s"
  by (simp add: queued_def row_update_keys del: set_map)


lemma store_exec_queued:
  assumes "\<not> deletes_data_of (snd k) c" and "queued k s"
  shows "queued k (store_exec enc c s)"
proof -
  have "maintains (queued k) (sql_write fits f)" if "\<And>s. queued k s \<Longrightarrow> queued k (f s)" for fits f
    using that by (rule sql_write_maintains) simp_all
  note w = this
  have m: "maintains (queued k) store_migrate" "maintains (queued k) (save_settings st)"
    "maintains (queued k) (save_subscription sub)"
    "maintains (queued k) (invalidate_subscription did at)"
    "maintains (queued k) (mark_delivery_sent eid did at)"
    "maintains (queued k) (update_delivery_status eid did dst nx category at)"
    "maintains (queued k) (save_alert_state enc ast)" for st sub did at eid dst nx category ast
    unfolding store_op_defs
    by (rule w; simp add: queued_def row_update_keys del: set_map; fail)+
  have d: "maintains (queued k) (delete_device_notification_data did)"
    "maintains (queued k) (delete_subscription did)" if "did \<noteq> snd k" for did
    unfolding store_op_defs using that
    by (auto intro!: w simp: queued_def delivery_key_def)
  have c: "maintains (queued k) (enqueue_delivery q)"
    "maintains (queued k) (claim_next_due_delivery at)"
    "maintains (queued k) (fail_pending_deliveries category at)" for q at category
    unfolding enqueue_delivery_def claim_next_due_delivery_def fail_pending_deliveries_def
    by (rule sql_call_maintains;
        auto simp: with_params_def queued_def row_update_keys Let_def simp del: set_map
          split: if_splits list.splits sum.splits; fail)+
  show ?thesis
    using assms m d c
    by (cases c) (auto simp: maintains_def mark_delivery_retry_def
        mark_delivery_invalid_subscription_def mark_delivery_failed_def)
qed

lemma store_run_queued:
  "\<forall>c \<in> set cs. \<not> deletes_data_of (snd k) c \<Longrightarrow> queued k s \<Longrightarrow> queued k (store_run enc cs s)"
  by (induction cs arbitrary: s) (simp_all add: store_run_def store_exec_queued)

section \<open>Properties\<close>

text \<open>
  C2. A delivery is queued at most once. Once a delivery for an event and a device was accepted,
  then whatever happens to it afterwards (claims, retries, failures, restarts, other devices'
  data being deleted), queueing the same event for the same device again is ignored and changes no
  table, unless the device's own data was deleted.
\<close>

theorem delivery_queued_once:
  assumes "enqueue_delivery d s = (Inr True, s1)"
    and "\<forall>c \<in> set cs. \<not> deletes_data_of (dl_device_id d) c"
    and "delivery_key d' = delivery_key d"
    and "enqueue_delivery d' (store_run enc cs s1) = (Inr b, s2)"
  shows "\<not> b \<and> same_tables s2 (store_run enc cs s1)"
proof -
  have "queued (delivery_key d) s1"
    using assms(1) by (auto simp: enqueue_delivery_def sql_call_def with_params_def Let_def
        queued_def split: if_splits)
  then have "queued (delivery_key d) (store_run enc cs s1)"
    using assms(2) by (intro store_run_queued) (simp_all add: delivery_key_def)
  with assms(3) have "\<not> b"
    using enqueue_delivery_ok(1) [OF assms(4)] by (simp add: queued_def)
  then show ?thesis using enqueue_delivery_ok(3) [OF assms(4)] by blast
qed

definition demo_delivery :: notification_delivery where
  "demo_delivery =
     \<lparr>dl_event_id = ''e1'', dl_device_id = ''phone'', payload_json = ''p'', dl_status = Pending,
      attempt_count = 0, next_attempt_at = 5, last_error_category = None, dl_updated_at = 5\<rparr>"

lemmas store_eval =
  demo_delivery_def empty_db_def sql_working sql_call_def with_params_def fits_i64_def
  fits_i64_opt_def delivery_key_def to_delivery_row_def delivery_from_row_def
  delivery_status_from_str_def is_due_def claim_order_def row_lookup_Cons row_update_def
  row_upsert_def row_delete_def Let_def

theorem delivery_queued_once_witness:
  "same_tables
     (snd (enqueue_delivery demo_delivery
       (store_run (\<lambda>ids. []) [Claim 6, MarkSent ''e1'' ''phone'' 7]
         (snd (enqueue_delivery demo_delivery empty_db)))))
     (store_run (\<lambda>ids. []) [Claim 6, MarkSent ''e1'' ''phone'' 7]
       (snd (enqueue_delivery demo_delivery empty_db)))"
proof -
  let ?s1 = "snd (enqueue_delivery demo_delivery empty_db)"
  let ?run = "store_run (\<lambda>ids. []) [Claim 6, MarkSent ''e1'' ''phone'' 7] ?s1"
  have 1: "enqueue_delivery demo_delivery empty_db = (Inr True, ?s1)"
    by (simp add: enqueue_delivery_def store_eval)
  have 2: "enqueue_delivery demo_delivery ?run = (Inr False, snd (enqueue_delivery demo_delivery ?run))"
    by (simp add: store_run_def enqueue_delivery_def claim_next_due_delivery_def
        mark_delivery_sent_def store_eval)
  show ?thesis
    by (rule conjunct2 [OF delivery_queued_once [OF 1 _ refl 2]]) simp
qed

text \<open>
  \<open>claim_next_due_delivery\<close> hands out the due delivery that comes first in the order (due time,
  last update, event, device), marked as being sent with one more attempt, and writes exactly this
  change to the queue: no other delivery changes, and this one is no longer due.
\<close>

lemma claim_takes_first_due:
  assumes "store_inv s" and "claim_next_due_delivery now s = (Inr (Some d), s')"
  shows "\<exists>r \<in> set (deliveries s). is_due now r \<and> d = claimed now r \<and>
           (\<forall>q \<in> set (deliveries s). is_due now q \<longrightarrow> claim_order r \<le> claim_order q) \<and>
           queue_view s' = (queue_view s)(delivery_key r \<mapsto> d) \<and>
           due_keys now s' = due_keys now s - {delivery_key r}"
proof -
  obtain r :: delivery_row where "r \<in> set (deliveries s)" "is_due now r" "d = claimed now r"
    "\<forall>q \<in> set (deliveries s). is_due now q \<longrightarrow> claim_order r \<le> claim_order q"
    "queue_view s' = (queue_view s)(delivery_key r \<mapsto> d)"
    "due_keys now s' = due_keys now s - {delivery_key r}"
    using assms by (rule claim_effect)
  then show ?thesis by blast
qed


definition demo_later :: notification_delivery where
  "demo_later =
     \<lparr>dl_event_id = ''e0'', dl_device_id = ''phone'', payload_json = ''q'', dl_status = Pending,
      attempt_count = 0, next_attempt_at = 6, last_error_category = None, dl_updated_at = 6\<rparr>"

definition demo_queue :: db where
  "demo_queue = empty_db\<lparr>deliveries := [to_delivery_row demo_later, to_delivery_row demo_delivery]\<rparr>"

lemma demo_queue_inv: "store_inv demo_queue"
  by (simp add: demo_queue_def store_inv_def empty_db_def keyed_def demo_later_def demo_delivery_def
      to_delivery_row_def delivery_key_def valid_status_cases)

lemma demo_queue_claim:
  "claim_next_due_delivery 7 demo_queue =
     (Inr (Some (claimed 7 demo_delivery)), snd (claim_next_due_delivery 7 demo_queue))"
  by (simp add: claim_next_due_delivery_def demo_queue_def demo_later_def claimed_def store_eval)

text \<open>
  Opening the store recovers the deliveries that were in flight when the bridge stopped: each
  delivery that was being sent is pending again, with its attempt count and due time, and every
  other delivery is as it was.
\<close>

lemma reopening_recovers_in_flight:
  assumes "store_inv s" and "store_migrate s = (Inr (), s')"
  shows "queue_view s' k =
           map_option (\<lambda>d. if dl_status d = Sending then d\<lparr>dl_status := Pending\<rparr> else d)
             (queue_view s k)"
proof -
  let ?f = "\<lambda>r :: delivery_row. r\<lparr>dl_status := ''pending''\<rparr>"
  have s': "deliveries s' = row_update (\<lambda>r. dl_status r = ''sending'') ?f (deliveries s)"
    using assms(2) by (auto simp: store_migrate_def sql_write_ok)
  have "row_lookup delivery_key k (deliveries s') =
      map_option (\<lambda>r. if dl_status r = ''sending'' then ?f r else r)
        (row_lookup delivery_key k (deliveries s))"
    unfolding s' by (rule row_lookup_update) simp
  moreover have "valid_status r" if "row_lookup delivery_key k (deliveries s) = Some r" for r
    using that assms(1) by (auto simp: store_inv_def dest: row_lookup_SomeD)
  ultimately show ?thesis
    by (auto simp: queue_view_def delivery_from_row_def delivery_status_from_str_def
        valid_status_cases split: option.splits)
qed

text \<open>
  Alerts of a kind go exactly to the devices that are registered and not revoked, have
  notifications on and have this kind on, each listed once and in order.
\<close>

lemma alert_targets_exact:
  assumes "store_inv s" and "enabled_devices_for_kind k s = (Inr ds, s')"
  shows "distinct ds \<and> sorted ds \<and>
         set ds = {did. \<exists>st \<in> set (device_settings s). set_device_id st = did \<and> set_enabled st \<and>
                     kind_enabled st k \<and> device_is_active s did}"
proof -
  let ?rows = "filter (\<lambda>st. kind_enabled st k) (enabled_rows s)"
  obtain sts s1 where e: "enabled_settings s = (Inr sts, s1)"
      and ds: "ds = map set_device_id (filter (\<lambda>st. kind_enabled st k) sts)"
    using assms(2) unfolding enabled_devices_for_kind_def
    by (auto elim!: bind_ok_okE simp: ok_def)
  have "sts = enabled_rows s"
    using sql_read_ok [OF e [unfolded enabled_settings_def]]
    by (simp add: enabled_rows_def device_is_active_def)
  then have ds': "ds = map set_device_id ?rows" by (simp add: ds)
  have "distinct (map set_device_id (filter (\<lambda>st. device_is_active s (set_device_id st) \<and> set_enabled st)
          (device_settings s)))"
    using assms(1) by (simp add: store_inv_def keyed_def distinct_map_filter)
  then have "distinct (map set_device_id (enabled_rows s))"
    by (auto simp: enabled_rows_def distinct_map)
  then have "distinct ds" by (simp add: ds' distinct_map_filter)
  moreover have "sorted (map set_device_id (enabled_rows s))" by (simp add: enabled_rows_def)
  then have "sorted ds" by (simp add: ds' sorted_filter)
  moreover have "set ds = {did. \<exists>st \<in> set (device_settings s). set_device_id st = did \<and>
      set_enabled st \<and> kind_enabled st k \<and> device_is_active s did}"
    by (auto simp: ds' enabled_rows_def)
  ultimately show ?thesis by blast
qed

definition demo_settings :: "string \<Rightarrow> bool \<Rightarrow> device_notification_settings" where
  "demo_settings did on = (defaults_for did)\<lparr>set_enabled := on\<rparr>"

definition demo_device_row :: "string \<Rightarrow> u64 option \<Rightarrow> device" where
  "demo_device_row did gone =
     \<lparr>device_id = did, display_name = did, secret_hash = ''k'', paired_origin = None,
      dev_created_at = 1, last_seen_at = 1, revoked_at = gone\<rparr>"

definition demo_targets :: db where
  "demo_targets = empty_db\<lparr>
     devices := [demo_device_row ''a'' None, demo_device_row ''b'' (Some 3), demo_device_row ''c'' None],
     device_settings := [demo_settings ''c'' True, demo_settings ''b'' True, demo_settings ''a'' True]\<rparr>"

end
