(* ===== verification/Alert_Detector.thy ===== *)
theory Alert_Detector
  imports Notification_Store
begin

text \<open>
  \<open>crates/bridge-core/src/alert_detector.rs\<close>: what changed between the stored alert state of a
  thread and a new snapshot, and which alerts this raises. The digest (SHA-256 of an external
  crate, in hexadecimal) is the parameter \<open>sha\<close>. The second half states the detector's abstract
  specification, a list of labels, and shows that the code renders exactly these.
\<close>

record detection_result =
  next_state :: session_alert_state
  det_events :: "alert_event list"
  ignored_as_stale :: bool

section \<open>Event identifiers\<close>

text \<open>\<open>u64::to_be_bytes\<close>: eight bytes, most significant first.\<close>

definition to_be_bytes :: "u64 \<Rightarrow> string" where
  "to_be_bytes x = map (\<lambda>i. char_of ((unat x div 256 ^ i) mod 256)) [7, 6, 5, 4, 3, 2, 1, 0]"

definition hashed_parts :: "string list \<Rightarrow> string" where
  "hashed_parts parts = concat (map (\<lambda>p. to_be_bytes (of_nat (length p)) @ p) parts)"

definition stable_event_id :: "(string \<Rightarrow> string) \<Rightarrow> string list \<Rightarrow> string" where
  "stable_event_id sha parts = ''alert-'' @ sha (hashed_parts parts)"

definition alert :: "session_snapshot \<Rightarrow> alert_kind \<Rightarrow> string \<Rightarrow> alert_event" where
  "alert snap kind eid =
     \<lparr>al_event_id = eid, al_kind = kind, al_thread_id = snap_thread_id snap,
      al_thread_title = snap_title snap, al_occurred_at = snap_updated_at snap\<rparr>"

fun alert_kind_name :: "alert_kind \<Rightarrow> string" where
  "alert_kind_name Completed = ''completed''"
| "alert_kind_name ApprovalRequired = ''approval_required''"
| "alert_kind_name InputRequired = ''input_required''"
| "alert_kind_name ErrorAlert = ''error''"

definition cycle_alert ::
  "(string \<Rightarrow> string) \<Rightarrow> session_snapshot \<Rightarrow> alert_kind \<Rightarrow> u64 \<Rightarrow> alert_event" where
  "cycle_alert sha snap kind cycle =
     alert snap kind
       (stable_event_id sha [alert_kind_name kind, snap_thread_id snap, u64_to_string cycle])"

section \<open>The detector\<close>

definition push_unknown :: "string list \<Rightarrow> string list \<Rightarrow> string list" where
  "push_unknown known ids = foldl (\<lambda>acc i. if i \<in> set acc then acc else acc @ [i]) known ids"

definition keep_latest_256 :: "string list \<Rightarrow> string list" where
  "keep_latest_256 ids = (if length ids > 256 then drop (length ids - 256) ids else ids)"

definition next_cycle :: "session_alert_state option \<Rightarrow> session_snapshot \<Rightarrow> u64" where
  "next_cycle prev snap =
     (case prev of
        None \<Rightarrow> 0
      | Some p \<Rightarrow> state_cycle p + (if as_status p \<noteq> snap_status snap then 1 else 0))"

definition previously_known :: "session_alert_state option \<Rightarrow> string list" where
  "previously_known prev = (case prev of None \<Rightarrow> [] | Some p \<Rightarrow> known_approval_ids p)"

definition observed_state ::
  "session_alert_state option \<Rightarrow> session_snapshot \<Rightarrow> string list \<Rightarrow> session_alert_state" where
  "observed_state prev snap native =
     \<lparr>as_thread_id = snap_thread_id snap, as_status = snap_status snap,
      as_updated_at = snap_updated_at snap, state_cycle = next_cycle prev snap,
      known_approval_ids = keep_latest_256 (push_unknown (previously_known prev) native),
      fallback_approval_cycle =
        (if snap_status snap \<noteq> WaitingForApproval then None
         else case prev of None \<Rightarrow> None | Some p \<Rightarrow> fallback_approval_cycle p)\<rparr>"

definition detect_alerts ::
  "(string \<Rightarrow> string) \<Rightarrow> session_alert_state option \<Rightarrow> session_snapshot \<Rightarrow> string list \<Rightarrow>
   detection_result" where
  "detect_alerts sha previous snap native =
     (case previous of
        None \<Rightarrow>
          \<lparr>next_state = observed_state None snap native, det_events = [], ignored_as_stale = False\<rparr>
      | Some p \<Rightarrow>
          if snap_updated_at snap < as_updated_at p then
            \<lparr>next_state = p, det_events = [], ignored_as_stale = True\<rparr>
          else
            let cycle = next_cycle previous snap;
                new_native = filter (\<lambda>i. i \<notin> set (known_approval_ids p)) native;
                st = observed_state previous snap native;
                absorb_late_native_ids =
                  (as_status p = WaitingForApproval \<and>
                   fallback_approval_cycle p = Some (state_cycle p) \<and>
                   known_approval_ids p = [] \<and> new_native \<noteq> []);
                native_events =
                  (if absorb_late_native_ids then []
                   else map (\<lambda>i. alert snap ApprovalRequired
                          (stable_event_id sha [''approval_required'', snap_thread_id snap, i])) new_native);
                completed = (as_status p = Running \<and> snap_status snap = Idle);
                input_required =
                  (as_status p \<noteq> WaitingForInput \<and> snap_status snap = WaitingForInput);
                error = (as_status p \<noteq> StatusError \<and> snap_status snap = StatusError);
                fallback_approval =
                  (as_status p \<noteq> WaitingForApproval \<and> snap_status snap = WaitingForApproval \<and>
                   new_native = [])
            in \<lparr>next_state =
                   (if fallback_approval then st\<lparr>fallback_approval_cycle := Some cycle\<rparr> else st),
                det_events =
                  native_events @
                  (if completed
                   then [alert snap Completed
                           (stable_event_id sha [''completed'', snap_thread_id snap,
                              u64_to_string (as_updated_at p), u64_to_string (snap_updated_at snap)])]
                   else []) @
                  (if input_required then [cycle_alert sha snap InputRequired cycle] else []) @
                  (if error then [cycle_alert sha snap ErrorAlert cycle] else []) @
                  (if fallback_approval then [cycle_alert sha snap ApprovalRequired cycle] else []),
                ignored_as_stale = False\<rparr>)"

text \<open>
  A run of the detector over the observations of one thread, as the monitor drives it: the state it
  returns is the one it is given next.
\<close>

fun detect_run ::
  "(string \<Rightarrow> string) \<Rightarrow> session_alert_state option \<Rightarrow> (session_snapshot \<times> string list) list \<Rightarrow>
   alert_event list" where
  "detect_run sha prev [] = []"
| "detect_run sha prev ((snap, native) # obs) =
     (let r = detect_alerts sha prev snap native
      in det_events r @ detect_run sha (Some (next_state r)) obs)"

section \<open>Identifiers are injective encodings of their parts\<close>

lemma length_to_be_bytes [simp]: "length (to_be_bytes x) = 8"
  by (simp add: to_be_bytes_def)

lemma to_be_bytes_nonempty [simp]: "to_be_bytes x \<noteq> []"
  by (simp add: to_be_bytes_def)

definition big_endian_positions :: "nat list" where
  "big_endian_positions = [7, 6, 5, 4, 3, 2, 1, 0]"

lemma big_endian_positions_mem: "i < 8 \<Longrightarrow> i \<in> set big_endian_positions"
  by (auto simp: big_endian_positions_def)

lemma of_char_char_of_byte: "(of_char (char_of (n mod 256 :: nat)) :: nat) = n mod 256"
  by simp

lemma digits_256_unique:
  assumes "\<And>i. i < n \<Longrightarrow> a div 256 ^ i mod 256 = b div 256 ^ i mod (256 :: nat)"
  shows "a mod 256 ^ n = b mod 256 ^ n"
  using assms
proof (induction n)
  case 0
  then show ?case by simp
next
  case (Suc n)
  have "x mod 256 ^ Suc n = 256 ^ n * (x div 256 ^ n mod 256) + x mod 256 ^ n" for x :: nat
    by (simp add: mod_mult2_eq mult.commute [of 256])
  with Suc show ?case by simp
qed

lemma to_be_bytes_eq [simp]: "to_be_bytes a = to_be_bytes b \<longleftrightarrow> a = b"
proof
  assume eq: "to_be_bytes a = to_be_bytes b"
  have "unat a div 256 ^ i mod 256 = unat b div 256 ^ i mod 256" if i: "i < 8" for i
  proof -
    have "map (\<lambda>i. char_of (unat a div 256 ^ i mod 256) :: char) big_endian_positions =
          map (\<lambda>i. char_of (unat b div 256 ^ i mod 256)) big_endian_positions"
      using eq unfolding to_be_bytes_def big_endian_positions_def .
    then have "(char_of (unat a div 256 ^ i mod 256) :: char) = char_of (unat b div 256 ^ i mod 256)"
      unfolding map_eq_conv using big_endian_positions_mem [OF i] by blast
    then show ?thesis by (metis of_char_char_of_byte)
  qed
  then have "unat a mod 256 ^ 8 = unat b mod 256 ^ 8" by (rule digits_256_unique)
  moreover have "unat a < 256 ^ 8" "unat b < 256 ^ 8"
    using unsigned_less [of a] unsigned_less [of b] by simp_all
  ultimately have "unat a = unat b" by simp
  then show "a = b" by (simp only: unsigned_word_eqI)
qed simp




section \<open>The abstract specification\<close>

text \<open>
  What an observation announces, without identifiers: approvals not seen before, a state entered in
  a new cycle, a run that finished.
\<close>

datatype alert_label =
    NativeApproval string
  | Entered alert_kind u64
  | FinishedBetween u64 u64

fun label_kind :: "alert_label \<Rightarrow> alert_kind" where
  "label_kind (NativeApproval _) = ApprovalRequired"
| "label_kind (Entered k _) = k"
| "label_kind (FinishedBetween _ _) = Completed"

fun label_parts :: "string \<Rightarrow> alert_label \<Rightarrow> string list" where
  "label_parts tid (NativeApproval i) = [''approval_required'', tid, i]"
| "label_parts tid (Entered k c) = [alert_kind_name k, tid, u64_to_string c]"
| "label_parts tid (FinishedBetween a b) = [''completed'', tid, u64_to_string a, u64_to_string b]"

definition render :: "(string \<Rightarrow> string) \<Rightarrow> session_snapshot \<Rightarrow> alert_label \<Rightarrow> alert_event" where
  "render sha snap l =
     alert snap (label_kind l) (stable_event_id sha (label_parts (snap_thread_id snap) l))"

text \<open>Entering a status from another one.\<close>

fun entry_labels :: "session_status \<Rightarrow> u64 \<Rightarrow> bool \<Rightarrow> alert_label list" where
  "entry_labels WaitingForInput c _ = [Entered InputRequired c]"
| "entry_labels StatusError c _ = [Entered ErrorAlert c]"
| "entry_labels WaitingForApproval c no_native = (if no_native then [Entered ApprovalRequired c] else [])"
| "entry_labels _ _ _ = []"

text \<open>
  A thread that was already announced as waiting for an approval, without ids, and whose ids arrive
  later in the same cycle: these ids are not announced again.
\<close>

definition announced_without_ids :: "session_alert_state \<Rightarrow> bool" where
  "announced_without_ids p \<longleftrightarrow>
     as_status p = WaitingForApproval \<and> fallback_approval_cycle p = Some (state_cycle p) \<and>
     known_approval_ids p = []"

definition new_approvals :: "session_alert_state \<Rightarrow> string list \<Rightarrow> string list" where
  "new_approvals p native = filter (\<lambda>i. i \<notin> set (known_approval_ids p)) native"

definition announced ::
  "session_alert_state \<Rightarrow> session_snapshot \<Rightarrow> string list \<Rightarrow> alert_label list" where
  "announced p snap native =
     (if announced_without_ids p then [] else map NativeApproval (new_approvals p native)) @
     (if as_status p = snap_status snap then []
      else (if as_status p = Running \<and> snap_status snap = Idle
            then [FinishedBetween (as_updated_at p) (snap_updated_at snap)] else []) @
           entry_labels (snap_status snap) (state_cycle p + 1) (new_approvals p native = []))"

fun alert_spec ::
  "session_alert_state option \<Rightarrow> session_snapshot \<Rightarrow> string list \<Rightarrow> alert_label list" where
  "alert_spec None snap native = []"
| "alert_spec (Some p) snap native =
     (if snap_updated_at snap < as_updated_at p then [] else announced p snap native)"

lemma detector_renders_spec:
  "det_events (detect_alerts sha prev snap native) = map (render sha snap) (alert_spec prev snap native)"
proof (cases prev)
  case None
  then show ?thesis by (simp add: detect_alerts_def)
next
  case (Some p)
  show ?thesis
  proof (cases "snap_updated_at snap < as_updated_at p")
    case True
    with Some show ?thesis by (simp add: detect_alerts_def)
  next
    case False
    with Some show ?thesis
      by (cases "as_status p"; cases "snap_status snap")
        (simp_all add: detect_alerts_def Let_def announced_def announced_without_ids_def
          new_approvals_def render_def cycle_alert_def next_cycle_def comp_def)
  qed
qed

lemma detect_next_state:
  "next_state (detect_alerts sha (Some p) snap native) =
     (if snap_updated_at snap < as_updated_at p then p
      else (observed_state (Some p) snap native)
             \<lparr>fallback_approval_cycle :=
                (if as_status p \<noteq> WaitingForApproval \<and> snap_status snap = WaitingForApproval \<and>
                    new_approvals p native = []
                 then Some (next_cycle (Some p) snap)
                 else fallback_approval_cycle (observed_state (Some p) snap native))\<rparr>)"
  by (simp add: detect_alerts_def Let_def new_approvals_def)

lemma detect_first_state:
  "next_state (detect_alerts sha None snap native) = observed_state None snap native"
  by (simp add: detect_alerts_def)

lemma set_push_unknown: "set (push_unknown known ids) = set known \<union> set ids"
  by (induction ids arbitrary: known) (auto simp: push_unknown_def)

lemma distinct_push_unknown: "distinct known \<Longrightarrow> distinct (push_unknown known ids)"
  by (induction ids arbitrary: known) (auto simp: push_unknown_def)

lemma push_unknown_known: "set ids \<subseteq> set known \<Longrightarrow> push_unknown known ids = known"
  by (induction ids) (simp_all add: push_unknown_def)

lemma keep_latest_256_id: "length ids \<le> 256 \<Longrightarrow> keep_latest_256 ids = ids"
  by (simp add: keep_latest_256_def)

lemma length_keep_latest_256: "length (keep_latest_256 ids) \<le> 256"
  by (simp add: keep_latest_256_def)


section \<open>Runs\<close>

fun spec_run ::
  "(string \<Rightarrow> string) \<Rightarrow> session_alert_state option \<Rightarrow> (session_snapshot \<times> string list) list \<Rightarrow>
   alert_label list" where
  "spec_run sha prev [] = []"
| "spec_run sha prev ((snap, native) # obs) =
     alert_spec prev snap native @
     spec_run sha (Some (next_state (detect_alerts sha prev snap native))) obs"



text \<open>
  The approvals a run can see, at most as many as the state remembers; while this bound holds no id
  is forgotten.
\<close>

definition remembers :: "string set \<Rightarrow> session_alert_state \<Rightarrow> bool" where
  "remembers A p \<longleftrightarrow> distinct (known_approval_ids p) \<and> set (known_approval_ids p) \<subseteq> A"

lemma push_unknown_bounded:
  assumes "distinct known" and "set known \<subseteq> A" and "set ids \<subseteq> A" and "finite A" and "card A \<le> 256"
  shows "keep_latest_256 (push_unknown known ids) = push_unknown known ids"
proof -
  have "distinct (push_unknown known ids)" using assms(1) by (rule distinct_push_unknown)
  then have "length (push_unknown known ids) = card (set (push_unknown known ids))"
    by (simp add: distinct_card)
  also have "\<dots> \<le> card A"
    using assms by (intro card_mono) (auto simp: set_push_unknown)
  finally show ?thesis using assms(5) by (intro keep_latest_256_id) simp
qed

lemma remembers_next:
  assumes "remembers A p" and "set native \<subseteq> A" and "finite A" and "card A \<le> 256"
  shows "remembers A (next_state (detect_alerts sha (Some p) snap native))"
    and "\<not> snap_updated_at snap < as_updated_at p \<Longrightarrow>
           set (known_approval_ids (next_state (detect_alerts sha (Some p) snap native))) =
             set (known_approval_ids p) \<union> set native"
  using assms push_unknown_bounded [of "known_approval_ids p" A native]
  by (auto simp: remembers_def detect_next_state observed_state_def previously_known_def
      set_push_unknown distinct_push_unknown)

lemma state_cycle_next:
  "state_cycle (next_state (detect_alerts sha (Some p) snap native)) =
     (if snap_updated_at snap < as_updated_at p then state_cycle p
      else state_cycle p + (if as_status p \<noteq> snap_status snap then 1 else 0))"
  by (simp add: detect_next_state observed_state_def next_cycle_def)











section \<open>Histories\<close>

text \<open>
  What an observation announces, told by the observations made before it alone, without the detector's
  state: the status of the last one, the approvals named so far, and how often the status changed.
\<close>

type_synonym observation = "session_snapshot \<times> string list"

definition observed_status :: "observation \<Rightarrow> session_status" where
  "observed_status ob = snap_status (fst ob)"

definition approvals_named :: "observation list \<Rightarrow> string list" where
  "approvals_named h = concat (map snd h)"

definition status_changes :: "observation list \<Rightarrow> nat" where
  "status_changes h = length (remdups_adj (map observed_status h)) - 1"

text \<open>The thread was seen to start waiting for an approval, and no approval was named until now.\<close>

definition waits_unnamed :: "observation list \<Rightarrow> bool" where
  "waits_unnamed h \<longleftrightarrow>
     observed_status (last h) = WaitingForApproval \<and> approvals_named h = [] \<and>
     list_ex (\<lambda>ob. observed_status ob \<noteq> WaitingForApproval) h"

definition history_labels :: "observation list \<Rightarrow> session_snapshot \<Rightarrow> string list \<Rightarrow> alert_label list" where
  "history_labels h snap native =
     (if h = [] then []
      else let before = observed_status (last h); now = snap_status snap;
               first_named = filter (\<lambda>i. i \<notin> set (approvals_named h)) native in
        (if waits_unnamed h then [] else map NativeApproval first_named) @
        (if before = Running \<and> now = Idle
         then [FinishedBetween (snap_updated_at (fst (last h))) (snap_updated_at snap)] else []) @
        (if before \<noteq> now
         then entry_labels now (of_nat (status_changes (h @ [(snap, native)]))) (first_named = [])
         else []))"

text \<open>An observation that is older than the last one counts for nothing.\<close>

fun history_run :: "observation list \<Rightarrow> observation list \<Rightarrow> (session_snapshot \<times> alert_label) list" where
  "history_run h [] = []"
| "history_run h ((snap, native) # obs) =
     (if h \<noteq> [] \<and> snap_updated_at snap < snap_updated_at (fst (last h)) then history_run h obs
      else map (Pair snap) (history_labels h snap native) @ history_run (h @ [(snap, native)]) obs)"

text \<open>The detector's state is what it has to know of the history.\<close>

definition tracks :: "string set \<Rightarrow> session_alert_state \<Rightarrow> observation list \<Rightarrow> bool" where
  "tracks A p h \<longleftrightarrow>
     h \<noteq> [] \<and> as_status p = observed_status (last h) \<and>
     as_updated_at p = snap_updated_at (fst (last h)) \<and> state_cycle p = of_nat (status_changes h) \<and>
     remembers A p \<and> set (known_approval_ids p) = set (approvals_named h) \<and>
     (fallback_approval_cycle p = Some (state_cycle p) \<and> as_status p = WaitingForApproval
        \<and> known_approval_ids p = [] \<longleftrightarrow> waits_unnamed h)"

lemma status_changes_snoc:
  assumes "h \<noteq> []"
  shows "status_changes (h @ [ob]) =
    status_changes h + (if observed_status ob = observed_status (last h) then 0 else 1)"
proof -
  obtain xs x where h: "h = xs @ [x]" using assms by (metis append_butlast_last_id)
  have "remdups_adj (map observed_status (h @ [ob])) = remdups_adj (map observed_status h)
      @ (if observed_status x = observed_status ob then [] else [observed_status ob])"
    by (simp add: h remdups_adj_append_two)
  moreover have "0 < length (remdups_adj (map observed_status h))" using h by simp
  ultimately show ?thesis by (auto simp: status_changes_def h)
qed

lemma tracks_labels:
  assumes "tracks A p h"
  shows "history_labels h snap native = announced p snap native"
proof -
  have cycle: "of_nat (status_changes (h @ [(snap, native)])) = state_cycle p + 1"
    if "as_status p \<noteq> snap_status snap"
    using that assms by (auto simp: tracks_def status_changes_snoc observed_status_def)
  have quiet: "announced_without_ids p \<longleftrightarrow> waits_unnamed h"
    using assms by (auto simp: tracks_def announced_without_ids_def)
  have known: "new_approvals p native = filter (\<lambda>i. i \<notin> set (approvals_named h)) native"
    using assms by (simp add: tracks_def new_approvals_def)
  show ?thesis
    using assms cycle
    by (auto simp: history_labels_def announced_def quiet known tracks_def Let_def)
qed

lemma tracks_next:
  assumes t: "tracks A p h" and "set native \<subseteq> A" and "finite A" and "card A \<le> 256"
    and fresh: "\<not> snap_updated_at snap < as_updated_at p"
  shows "tracks A (next_state (detect_alerts sha (Some p) snap native)) (h @ [(snap, native)])"
proof -
  let ?q = "next_state (detect_alerts sha (Some p) snap native)"
  have h: "h \<noteq> []" and rem: "remembers A p" using t by (auto simp: tracks_def)
  note ids = remembers_next [OF rem assms(2-4), where sha = sha and snap = snap]
  have named: "approvals_named (h @ [(snap, native)]) = approvals_named h @ native"
    by (simp add: approvals_named_def)
  have known: "set (known_approval_ids ?q) = set (approvals_named h @ native)"
    using ids(2) [OF fresh] t by (simp add: tracks_def)
  have cycle: "state_cycle ?q = of_nat (status_changes (h @ [(snap, native)]))"
    using t fresh by (auto simp: tracks_def state_cycle_next status_changes_snoc observed_status_def)
  have status: "as_status ?q = snap_status snap" "as_updated_at ?q = snap_updated_at snap"
    using fresh by (simp_all add: detect_next_state observed_state_def)
  have other: "list_ex (\<lambda>ob. observed_status ob \<noteq> WaitingForApproval) h"
    if "as_status p \<noteq> WaitingForApproval"
    using that t h by (auto simp: tracks_def list_ex_iff intro!: bexI [of _ "last h"])
  have none: "known_approval_ids ?q = [] \<longleftrightarrow> approvals_named h = [] \<and> native = []"
    using known by (metis append_is_Nil_conv set_empty)
  have old: "known_approval_ids p = [] \<longleftrightarrow> approvals_named h = []"
    using t by (metis tracks_def set_empty)
  have "fallback_approval_cycle ?q = Some (state_cycle ?q) \<and> as_status ?q = WaitingForApproval
      \<and> known_approval_ids ?q = [] \<longleftrightarrow> waits_unnamed (h @ [(snap, native)])"
  proof (cases "snap_status snap = WaitingForApproval \<and> approvals_named h = [] \<and> native = []")
    case False
    then show ?thesis using status none by (auto simp: waits_unnamed_def observed_status_def named)
  next
    case True
    show ?thesis
    proof (cases "as_status p = WaitingForApproval")
      case True: True
      with \<open>snap_status snap = WaitingForApproval \<and> approvals_named h = [] \<and> native = []\<close>
      have "fallback_approval_cycle ?q = fallback_approval_cycle p" "state_cycle ?q = state_cycle p"
        using fresh by (simp_all add: detect_next_state observed_state_def next_cycle_def)
      with True \<open>snap_status snap = WaitingForApproval \<and> approvals_named h = [] \<and> native = []\<close> t old none
        status show ?thesis
        by (auto simp: tracks_def waits_unnamed_def approvals_named_def observed_status_def)
    next
      case False
      with \<open>snap_status snap = WaitingForApproval \<and> approvals_named h = [] \<and> native = []\<close>
      have "fallback_approval_cycle ?q = Some (state_cycle ?q)"
        using fresh by (simp add: detect_next_state observed_state_def next_cycle_def new_approvals_def)
      with \<open>snap_status snap = WaitingForApproval \<and> approvals_named h = [] \<and> native = []\<close> False none status
        other show ?thesis
        by (auto simp: waits_unnamed_def approvals_named_def observed_status_def)
    qed
  qed
  with ids(1) known cycle status named show ?thesis
    by (simp add: tracks_def observed_status_def)
qed

lemma tracks_first:
  assumes "set native \<subseteq> A" and "finite A" and "card A \<le> 256"
  shows "tracks A (next_state (detect_alerts sha None snap native)) [(snap, native)]"
  using push_unknown_bounded [of "[]" A native] assms
  by (auto simp: tracks_def detect_first_state observed_state_def previously_known_def remembers_def
      set_push_unknown distinct_push_unknown approvals_named_def observed_status_def next_cycle_def
      status_changes_def waits_unnamed_def)

lemma detect_run_tracks:
  assumes "finite A" and "card A \<le> 256" and "\<forall>(snap, native) \<in> set obs. set native \<subseteq> A"
    and "tracks A p h"
  shows "detect_run sha (Some p) obs = map (\<lambda>(snap, l). render sha snap l) (history_run h obs) \<and>
    spec_run sha (Some p) obs = map snd (history_run h obs)"
  using assms(3,4)
proof (induction obs arbitrary: p h)
  case (Cons ob obs)
  obtain snap native where ob: "ob = (snap, native)" by fastforce
  let ?q = "next_state (detect_alerts sha (Some p) snap native)"
  have nat: "set native \<subseteq> A" and rest: "\<forall>(snap, native) \<in> set obs. set native \<subseteq> A"
    using Cons.prems(1) ob by auto
  have h: "h \<noteq> []" and upd: "as_updated_at p = snap_updated_at (fst (last h))"
    using Cons.prems(2) by (simp_all add: tracks_def)
  show ?case
  proof (cases "snap_updated_at snap < as_updated_at p")
    case True
    then have "?q = p" by (simp add: detect_next_state)
    with True ob h upd Cons.IH [OF rest Cons.prems(2)] show ?thesis
      by (simp add: Let_def detector_renders_spec)
  next
    case False
    from Cons.IH [OF rest tracks_next [OF Cons.prems(2) nat assms(1,2) False]] False ob upd
      tracks_labels [OF Cons.prems(2), of snap native]
    show ?thesis by (simp add: Let_def detector_renders_spec comp_def)
  qed
qed simp

lemma detect_run_history:
  assumes "finite A" and "card A \<le> 256" and "\<forall>(snap, native) \<in> set obs. set native \<subseteq> A"
  shows "detect_run sha None obs = map (\<lambda>(snap, l). render sha snap l) (history_run [] obs)"
    and "spec_run sha None obs = map snd (history_run [] obs)"
proof -
  have "detect_run sha None obs = map (\<lambda>(snap, l). render sha snap l) (history_run [] obs) \<and>
    spec_run sha None obs = map snd (history_run [] obs)"
  proof (cases obs)
    case (Cons ob rest)
    obtain snap native where ob: "ob = (snap, native)" by fastforce
    have nat: "set native \<subseteq> A" and rest: "\<forall>(snap, native) \<in> set rest. set native \<subseteq> A"
      using assms(3) Cons ob by auto
    from detect_run_tracks [OF assms(1,2) rest tracks_first [OF nat assms(1,2)],
        where sha = sha]
    show ?thesis
      by (simp add: Cons ob Let_def detector_renders_spec history_labels_def)
  qed simp
  then show "detect_run sha None obs = map (\<lambda>(snap, l). render sha snap l) (history_run [] obs)"
    "spec_run sha None obs = map snd (history_run [] obs)" by simp_all
qed

section \<open>Properties\<close>

text \<open>
  C3. The alerts of a whole run are told by the history of the thread alone. The first observation
  raises none, and one older than the last counts for nothing. An approval is announced when it is named
  for the first time, unless the thread was already announced as waiting while no approval was ever
  named; entering the wait for input, an error, or the wait for an approval that is not named is
  announced under the number of status changes so far; a run that was seen running and is now idle is
  announced as completed, once for the two times. This holds as long as at most 256 different
  approvals are named.
\<close>

theorem detector_refines_spec:
  assumes "finite A" and "card A \<le> 256" and "\<forall>(snap, native) \<in> set obs. set native \<subseteq> A"
  shows "detect_run sha None obs = map (\<lambda>(snap, l). render sha snap l) (history_run [] obs)"
  by (rule detect_run_history(1) [OF assms])


text \<open>A concrete thread, its snapshots and a digest without collisions.\<close>

definition sample_snapshot :: "session_status \<Rightarrow> u64 \<Rightarrow> session_snapshot" where
  "sample_snapshot st t =
     \<lparr>snap_thread_id = ''t1'', snap_title = ''Thread'', snap_cwd = None,
      snap_model_provider = None, snap_preview = None, snap_updated_at = t, snap_status = st,
      snap_pending_approval_ids = []\<rparr>"

definition sample_run :: "(session_snapshot \<times> string list) list" where
  "sample_run =
     [(sample_snapshot Idle 10, []), (sample_snapshot WaitingForApproval 20, [''a'']),
      (sample_snapshot StatusError 30, [''a'', ''b'']), (sample_snapshot StatusError 31, [''b''])]"

theorem detector_refines_spec_witness:
  "detect_run (\<lambda>s. s) None sample_run =
     map (\<lambda>(snap, l). render (\<lambda>s. s) snap l)
       [(sample_snapshot WaitingForApproval 20, NativeApproval ''a''),
        (sample_snapshot StatusError 30, NativeApproval ''b''),
        (sample_snapshot StatusError 30, Entered ErrorAlert 2)]"
proof -
  have "history_run [] sample_run =
      [(sample_snapshot WaitingForApproval 20, NativeApproval ''a''),
       (sample_snapshot StatusError 30, NativeApproval ''b''),
       (sample_snapshot StatusError 30, Entered ErrorAlert 2)]"
    by (simp add: sample_run_def sample_snapshot_def history_labels_def waits_unnamed_def
        approvals_named_def observed_status_def status_changes_def Let_def)
  moreover have "detect_run (\<lambda>s. s) None sample_run =
      map (\<lambda>(snap, l). render (\<lambda>s. s) snap l) (history_run [] sample_run)"
    by (rule detector_refines_spec [of "{''a'', ''b''}"]) (simp_all add: sample_run_def)
  ultimately show ?thesis by (simp only:)
qed


text \<open>
  Observing the same snapshot and approvals again raises nothing: as long as the remembered
  approvals fit, a second detection on the state the first one returned has no events.
\<close>

lemma detector_idempotent:
  assumes "length (push_unknown (previously_known prev) native) \<le> 256"
    and "\<not> ignored_as_stale (detect_alerts sha prev snap native)"
  shows "det_events (detect_alerts sha
           (Some (next_state (detect_alerts sha prev snap native))) snap native) = []"
proof -
  let ?q = "next_state (detect_alerts sha prev snap native)"
  have "as_status ?q = snap_status snap \<and>
      known_approval_ids ?q = push_unknown (previously_known prev) native"
    using assms
    by (cases prev) (auto simp: detect_alerts_def observed_state_def Let_def
        keep_latest_256_id previously_known_def split: if_splits)
  then have "announced ?q snap native = []"
    by (auto simp: announced_def new_approvals_def set_push_unknown)
  then show ?thesis by (simp add: detector_renders_spec)
qed

text \<open>
  A native approval whose request id is a number can take the identifier of an alert already
  raised. The thread waits for an approval whose id is not known yet (announced under its cycle
  number, 1), runs on, and asks again with the native request id 1: both alerts carry the same event
  identifier, whatever the digest, so a delivery queue keyed by it drops the second one.
\<close>

lemma approval_identifiers_collide:
  "map al_kind (detect_run sha None
     [(sample_snapshot Idle 10, []), (sample_snapshot WaitingForApproval 20, []),
      (sample_snapshot Running 30, []), (sample_snapshot WaitingForApproval 40, [''1''])]) =
     [ApprovalRequired, ApprovalRequired] \<and>
   \<not> distinct (map al_event_id (detect_run sha None
     [(sample_snapshot Idle 10, []), (sample_snapshot WaitingForApproval 20, []),
      (sample_snapshot Running 30, []), (sample_snapshot WaitingForApproval 40, [''1''])]))"
proof -
  have "decimal 1 = ''1''" by (subst decimal.simps) (simp add: digit_char_def char_of_def bit_0)
  then show ?thesis
    by (simp add: sample_snapshot_def detect_alerts_def observed_state_def previously_known_def
        next_cycle_def push_unknown_def keep_latest_256_def Let_def cycle_alert_def alert_def
        u64_to_string_def)
qed

end
