(* ===== verification/Web_Push.thy ===== *)
theory Web_Push
  imports Notification_Store
begin

text \<open>
  \<open>crates/bridge-core/src/web_push.rs\<close>: the payload of a push, the sender, and the classes its
  failures fall into. The push library (\<open>web_push\<close>: signing, encryption, the HTTP client) is the
  parameter record \<open>push_library\<close>; \<open>serde_json::to_vec\<close> of a payload is the parameter \<open>to_json\<close>.
\<close>

definition PUSH_TTL_SECONDS :: u32 where
  "PUSH_TTL_SECONDS = 300"

definition PUSH_SEND_TIMEOUT_MS :: u64 where
  "PUSH_SEND_TIMEOUT_MS = 10000"

record push_payload =
  pp_event_id :: string
  pp_kind :: alert_kind
  pp_thread_id :: string
  pp_thread_title :: string
  pp_occurred_at :: u64
  pp_vibration_enabled :: bool
  vibration_pattern :: "u16 list"
  silent :: bool
  force_system_notification :: bool

record delivery_hints =
  hint_sound_enabled :: bool
  hint_vibration_enabled :: bool
  hint_force_system_notification :: bool

fun kind_vibration :: "alert_kind \<Rightarrow> u16 list" where
  "kind_vibration Completed = [80]"
| "kind_vibration ApprovalRequired = [80, 60, 80]"
| "kind_vibration InputRequired = [45, 40, 45]"
| "kind_vibration ErrorAlert = [150, 80, 150]"

definition payload_for_event :: "alert_event \<Rightarrow> delivery_hints \<Rightarrow> push_payload" where
  "payload_for_event ev hints =
     \<lparr>pp_event_id = al_event_id ev, pp_kind = al_kind ev, pp_thread_id = al_thread_id ev,
      pp_thread_title = al_thread_title ev, pp_occurred_at = al_occurred_at ev,
      pp_vibration_enabled = hint_vibration_enabled hints,
      vibration_pattern = (if hint_vibration_enabled hints then kind_vibration (al_kind ev) else []),
      silent = (\<not> hint_sound_enabled hints),
      force_system_notification = hint_force_system_notification hints\<rparr>"

section \<open>Failures\<close>

datatype push_failure_class = PushInvalidSubscription | Retryable | Permanent

fun push_failure_as_str :: "push_failure_class \<Rightarrow> string" where
  "push_failure_as_str PushInvalidSubscription = ''push_invalid_subscription''"
| "push_failure_as_str Retryable = ''push_retryable''"
| "push_failure_as_str Permanent = ''push_permanent''"

datatype transport_error =
    HttpStatus u16 | PushTimeout | PushNetwork | InvalidSubscriptionMaterial | InvalidVapidKey
  | PayloadTooLarge

text \<open>The patterns \<open>404 | 410\<close>, \<open>408 | 429 | 500..=599\<close> and the rest.\<close>

fun classify_web_push_error :: "transport_error \<Rightarrow> push_failure_class" where
  "classify_web_push_error (HttpStatus code) =
     (if code = 404 \<or> code = 410 then PushInvalidSubscription
      else if code = 408 \<or> code = 429 \<or> (500 \<le> code \<and> code \<le> 599) then Retryable
      else Permanent)"
| "classify_web_push_error InvalidSubscriptionMaterial = PushInvalidSubscription"
| "classify_web_push_error PushTimeout = Retryable"
| "classify_web_push_error PushNetwork = Retryable"
| "classify_web_push_error InvalidVapidKey = Permanent"
| "classify_web_push_error PayloadTooLarge = Permanent"

text \<open>
  The errors of the push library, as \<open>map_send_error\<close> lists them all; the ones that answer for an
  HTTP response carry its status code.
\<close>

datatype web_push_error =
    EndpointNotFound u16 | EndpointNotValid u16 | WpUnauthorized u16 | BadRequest u16
  | NotImplemented u16 | OtherStatus u16 | ServerStatus u16 | WpPayloadTooLarge | InvalidUri
  | MissingCryptoKeys | InvalidCryptoKeys | InvalidClaims | Unspecified | WpIo | InvalidResponse
  | ResponseTooLarge | InvalidPackageName | InvalidTtl | InvalidTopic

fun map_vapid_error :: "web_push_error \<Rightarrow> transport_error" where
  "map_vapid_error InvalidUri = InvalidSubscriptionMaterial"
| "map_vapid_error WpPayloadTooLarge = PayloadTooLarge"
| "map_vapid_error _ = InvalidVapidKey"

fun map_message_error :: "web_push_error \<Rightarrow> transport_error" where
  "map_message_error WpPayloadTooLarge = PayloadTooLarge"
| "map_message_error InvalidUri = InvalidSubscriptionMaterial"
| "map_message_error MissingCryptoKeys = InvalidSubscriptionMaterial"
| "map_message_error InvalidCryptoKeys = InvalidSubscriptionMaterial"
| "map_message_error _ = PushNetwork"

fun map_send_error :: "web_push_error \<Rightarrow> transport_error" where
  "map_send_error (EndpointNotFound code) = HttpStatus code"
| "map_send_error (EndpointNotValid code) = HttpStatus code"
| "map_send_error (WpUnauthorized code) = HttpStatus code"
| "map_send_error (BadRequest code) = HttpStatus code"
| "map_send_error (NotImplemented code) = HttpStatus code"
| "map_send_error (OtherStatus code) = HttpStatus code"
| "map_send_error (ServerStatus code) = HttpStatus code"
| "map_send_error WpPayloadTooLarge = PayloadTooLarge"
| "map_send_error InvalidUri = InvalidSubscriptionMaterial"
| "map_send_error MissingCryptoKeys = InvalidSubscriptionMaterial"
| "map_send_error InvalidCryptoKeys = InvalidSubscriptionMaterial"
| "map_send_error InvalidClaims = InvalidVapidKey"
| "map_send_error Unspecified = PushNetwork"
| "map_send_error WpIo = PushNetwork"
| "map_send_error InvalidResponse = PushNetwork"
| "map_send_error ResponseTooLarge = PushNetwork"
| "map_send_error InvalidPackageName = HttpStatus 400"
| "map_send_error InvalidTtl = HttpStatus 400"
| "map_send_error InvalidTopic = HttpStatus 400"

section \<open>Sending\<close>

text \<open>
  The steps of the push library, in the order the transport takes them: sign for a subscription,
  finish the signature, build the message (with its time to live and payload), and send it; sending
  may not answer within the time limit (\<open>None\<close>).
\<close>

record ('builder, 'signature, 'message) push_library =
  vapid_from_base64 :: "string \<Rightarrow> push_subscription \<Rightarrow> web_push_error + 'builder"
  vapid_build :: "'builder \<Rightarrow> web_push_error + 'signature"
  message_build :: "push_subscription \<Rightarrow> u32 \<Rightarrow> string \<Rightarrow> 'signature \<Rightarrow> web_push_error + 'message"
  client_send :: "'message \<Rightarrow> u64 \<Rightarrow> (web_push_error + unit) option"

definition transport_send ::
  "('b, 's, 'm) push_library \<Rightarrow> push_subscription \<Rightarrow> string \<Rightarrow> string \<Rightarrow> transport_error + unit" where
  "transport_send lib sub payload key =
     (case vapid_from_base64 lib key sub of
        Inl e \<Rightarrow> Inl (map_vapid_error e)
      | Inr builder \<Rightarrow>
          (case vapid_build lib builder of
             Inl e \<Rightarrow> Inl (map_vapid_error e)
           | Inr signature \<Rightarrow>
               (case message_build lib sub PUSH_TTL_SECONDS payload signature of
                  Inl e \<Rightarrow> Inl (map_message_error e)
                | Inr message \<Rightarrow>
                    (case client_send lib message PUSH_SEND_TIMEOUT_MS of
                       None \<Rightarrow> Inl PushTimeout
                     | Some (Inl e) \<Rightarrow> Inl (map_send_error e)
                     | Some (Inr _) \<Rightarrow> Inr ()))))"

text \<open>
  \<open>WebPushSender::send\<close>: the transport (any implementation of the trait) gets the payload's JSON
  text and the bridge's key, and its error is classified.
\<close>

definition sender_send ::
  "(push_payload \<Rightarrow> string option) \<Rightarrow> string \<Rightarrow>
   (push_subscription \<Rightarrow> string \<Rightarrow> string \<Rightarrow> transport_error + unit) \<Rightarrow>
   push_subscription \<Rightarrow> push_payload \<Rightarrow> push_failure_class + unit" where
  "sender_send to_json key transport sub payload =
     (case to_json payload of
        None \<Rightarrow> Inl Permanent
      | Some bytes \<Rightarrow>
          (case transport sub bytes key of
             Inl e \<Rightarrow> Inl (classify_web_push_error e)
           | Inr _ \<Rightarrow> Inr ()))"

section \<open>Properties\<close>

text \<open>The status a failed send carries, when the push service answered.\<close>

fun response_code :: "web_push_error \<Rightarrow> u16 option" where
  "response_code (EndpointNotFound code) = Some code"
| "response_code (EndpointNotValid code) = Some code"
| "response_code (WpUnauthorized code) = Some code"
| "response_code (BadRequest code) = Some code"
| "response_code (NotImplemented code) = Some code"
| "response_code (OtherStatus code) = Some code"
| "response_code (ServerStatus code) = Some code"
| "response_code _ = None"

lemma response_codes_classified:
  assumes "response_code e = Some code"
  shows "classify_web_push_error (map_send_error e) = classify_web_push_error (HttpStatus code)"
  using assms by (cases e) simp_all

text \<open>
  What a failed push means. With a key and material the library accepts, a push fails for good
  as an invalid subscription exactly when the push service answered 404 or 410 or the library
  rejects the subscription's address or keys, and is worth a retry exactly when the request timed
  out, the network failed, or the service answered 408, 429 or 5xx.
\<close>

lemma push_failure_meaning:
  assumes "to_json payload = Some bytes" and "vapid_from_base64 lib key sub = Inr b"
    and "vapid_build lib b = Inr sg" and "message_build lib sub PUSH_TTL_SECONDS bytes sg = Inr m"
  defines "answer \<equiv> client_send lib m PUSH_SEND_TIMEOUT_MS"
    and "result \<equiv> sender_send to_json key (transport_send lib) sub payload"
  shows "(result = Inr () \<longleftrightarrow> answer = Some (Inr ())) \<and>
         (result = Inl PushInvalidSubscription \<longleftrightarrow>
            (\<exists>e. answer = Some (Inl e) \<and>
              (response_code e \<in> {Some 404, Some 410} \<or>
               e \<in> {InvalidUri, MissingCryptoKeys, InvalidCryptoKeys}))) \<and>
         (result = Inl Retryable \<longleftrightarrow>
            answer = None \<or>
            (\<exists>e. answer = Some (Inl e) \<and>
              (e \<in> {Unspecified, WpIo, InvalidResponse, ResponseTooLarge} \<or>
               (\<exists>code. response_code e = Some code \<and>
                  (code = 408 \<or> code = 429 \<or> 500 \<le> code \<and> code \<le> 599)))))"
proof (cases answer)
  case None
  then show ?thesis
    using assms(1-4) by (simp add: result_def answer_def sender_send_def transport_send_def)
next
  case (Some r)
  show ?thesis
  proof (cases r)
    case (Inr u)
    with Some show ?thesis
      using assms(1-4) by (simp add: result_def answer_def sender_send_def transport_send_def)
  next
    case (Inl e)
    have "result = Inl (classify_web_push_error (map_send_error e))"
      using assms(1-4) Some Inl
      by (simp add: result_def answer_def sender_send_def transport_send_def)
    with Some Inl show ?thesis by (cases e) auto
  qed
qed

text \<open>A push library that signs and builds everything and whose service answers 410.\<close>

definition demo_library :: "(unit, unit, unit) push_library" where
  "demo_library =
     \<lparr>vapid_from_base64 = (\<lambda>_ _. Inr ()), vapid_build = (\<lambda>_. Inr ()),
      message_build = (\<lambda>_ _ _ _. Inr ()), client_send = (\<lambda>_ _. Some (Inl (EndpointNotValid 410)))\<rparr>"

definition demo_subscription :: push_subscription where
  "demo_subscription =
     \<lparr>sub_device_id = ''phone'', sub_origin = ''https://a.example'', endpoint = ''https://push'',
      p256dh = ''k'', auth = ''a'', sub_created_at = 1, last_success_at = None,
      invalidated_at = None\<rparr>"

definition demo_alert :: alert_event where
  "demo_alert =
     \<lparr>al_event_id = ''e1'', al_kind = ErrorAlert, al_thread_id = ''t'', al_thread_title = ''T'',
      al_occurred_at = 9\<rparr>"

definition demo_payload :: push_payload where
  "demo_payload = payload_for_event demo_alert
     \<lparr>hint_sound_enabled = True, hint_vibration_enabled = True, hint_force_system_notification = False\<rparr>"

end
