(* ===== verification/Event_Hub.thy ===== *)
theory Event_Hub
  imports Protocol_Types
begin

text \<open>
  \<open>crates/bridge-core/src/event_hub.rs\<close>: the snapshots of the threads and the broadcast of events
  to the connected phones. The broadcast channel is \<open>tokio\<close>'s: what the hub hands to it is the log
  \<open>sent\<close>, how many receivers it reports is \<open>receivers\<close>, and what a receiver gets out of it is a
  list of outcomes given to the subscriber, so that lagging and closing are part of the input.
\<close>

definition DEFAULT_EVENT_BUFFER_CAPACITY :: nat where
  "DEFAULT_EVENT_BUFFER_CAPACITY = 256"

datatype 'json published_event =
    Envelope "string option" "'json server_envelope"
  | DisconnectDevice string

datatype event_receive_error = DeviceDisconnected | EventsLagged u64 | EventsClosed

text \<open>
  The snapshot map is keyed by thread; it is held as the rows of its values, in any order.
\<close>

record 'json event_hub =
  snapshots :: "session_snapshot list"
  sent :: "'json published_event list"
  receivers :: nat
  capacity :: nat

definition hub_with_capacity :: "nat \<Rightarrow> 'json event_hub" where
  "hub_with_capacity cap = \<lparr>snapshots = [], sent = [], receivers = 0, capacity = cap\<rparr>"

definition new_hub :: "'json event_hub" where
  "new_hub = hub_with_capacity DEFAULT_EVENT_BUFFER_CAPACITY"

text \<open>
  \<open>send\<close> fails when nobody listens, which the hub reports as zero deliveries; a value sent to no
  receiver is dropped, and later receivers start behind it.
\<close>

definition hub_send :: "'json published_event \<Rightarrow> 'json event_hub \<Rightarrow> nat \<times> 'json event_hub" where
  "hub_send e h = (receivers h, h\<lparr>sent := sent h @ [e]\<rparr>)"

definition publish :: "'json server_envelope \<Rightarrow> 'json event_hub \<Rightarrow> nat \<times> 'json event_hub" where
  "publish envelope = hub_send (Envelope None envelope)"

definition publish_to_device ::
  "string \<Rightarrow> 'json server_envelope \<Rightarrow> 'json event_hub \<Rightarrow> nat \<times> 'json event_hub" where
  "publish_to_device did envelope = hub_send (Envelope (Some did) envelope)"

definition disconnect_device :: "string \<Rightarrow> 'json event_hub \<Rightarrow> nat \<times> 'json event_hub" where
  "disconnect_device did = hub_send (DisconnectDevice did)"

definition store_snapshot :: "session_snapshot \<Rightarrow> session_snapshot list \<Rightarrow> session_snapshot list" where
  "store_snapshot snap rows = row_upsert snap_thread_id (\<lambda>old new. new) snap rows"

definition set_snapshot :: "session_snapshot \<Rightarrow> 'json event_hub \<Rightarrow> nat \<times> 'json event_hub" where
  "set_snapshot snap h =
     publish (SessionSnapshot snap) (h\<lparr>snapshots := store_snapshot snap (snapshots h)\<rparr>)"

definition snapshot_for_thread :: "string \<Rightarrow> 'json event_hub \<Rightarrow> session_snapshot option" where
  "snapshot_for_thread tid h = row_lookup snap_thread_id tid (snapshots h)"

text \<open>Newest first, threads updated at the same time by id.\<close>

definition newest_first :: "session_snapshot \<Rightarrow> u64 \<times> string" where
  "newest_first s = (- 1 - snap_updated_at s, snap_thread_id s)"

definition sorted_snapshots :: "session_snapshot list \<Rightarrow> session_snapshot list" where
  "sorted_snapshots rows = sort_key newest_first rows"

definition all_snapshots :: "'json event_hub \<Rightarrow> session_snapshot list" where
  "all_snapshots h = sorted_snapshots (snapshots h)"

section \<open>Subscribers\<close>

datatype 'json recv_outcome =
    Received "'json published_event" | RecvLagged u64 | RecvClosed

record 'json event_subscriber =
  replay :: "'json server_envelope list"
  incoming :: "'json recv_outcome list"
  es_device :: "string option"

definition subscribe_with_device ::
  "string option \<Rightarrow> 'json recv_outcome list \<Rightarrow> 'json event_hub \<Rightarrow> 'json event_subscriber" where
  "subscribe_with_device did inc h =
     \<lparr>replay = map SessionSnapshot (all_snapshots h), incoming = inc, es_device = did\<rparr>"

text \<open>
  The receive loop: an envelope for everyone or for this device is returned, a disconnect of this
  device ends it with an error, other events are skipped. \<open>None\<close> means the loop waits for an event
  that has not come.
\<close>

fun recv_loop ::
  "string option \<Rightarrow> 'json recv_outcome list \<Rightarrow>
   (event_receive_error + 'json server_envelope) option \<times> 'json recv_outcome list" where
  "recv_loop did [] = (None, [])"
| "recv_loop did (Received (Envelope None envelope) # inc) = (Some (Inr envelope), inc)"
| "recv_loop did (Received (Envelope (Some target) envelope) # inc) =
     (if did = Some target then (Some (Inr envelope), inc) else recv_loop did inc)"
| "recv_loop did (Received (DisconnectDevice target) # inc) =
     (if did = Some target then (Some (Inl DeviceDisconnected), inc) else recv_loop did inc)"
| "recv_loop did (RecvLagged n # inc) = (Some (Inl (EventsLagged n)), inc)"
| "recv_loop did (RecvClosed # inc) = (Some (Inl EventsClosed), inc)"

definition recv ::
  "'json event_subscriber \<Rightarrow>
   (event_receive_error + 'json server_envelope) option \<times> 'json event_subscriber" where
  "recv sub =
     (case replay sub of
        envelope # rest \<Rightarrow> (Some (Inr envelope), sub\<lparr>replay := rest\<rparr>)
      | [] \<Rightarrow> (case recv_loop (es_device sub) (incoming sub) of
                 (r, inc) \<Rightarrow> (r, sub\<lparr>incoming := inc\<rparr>)))"

text \<open>
  A connection's loop: it takes envelopes until the first error or until nothing has come; the
  fuel bounds the number of receives.
\<close>

fun recv_all ::
  "nat \<Rightarrow> 'json event_subscriber \<Rightarrow> 'json server_envelope list \<times> event_receive_error option" where
  "recv_all 0 sub = ([], None)"
| "recv_all (Suc n) sub =
     (case recv sub of
        (None, _) \<Rightarrow> ([], None)
      | (Some (Inl e), _) \<Rightarrow> ([], Some e)
      | (Some (Inr envelope), sub') \<Rightarrow>
          (case recv_all n sub' of (envs, e) \<Rightarrow> (envelope # envs, e)))"

section \<open>What a device sees\<close>

text \<open>The abstract view of a stream: the part before the first event that ends it, filtered.\<close>

fun ends_stream :: "string option \<Rightarrow> 'json recv_outcome \<Rightarrow> event_receive_error option" where
  "ends_stream did (Received (DisconnectDevice target)) =
     (if did = Some target then Some DeviceDisconnected else None)"
| "ends_stream did (RecvLagged n) = Some (EventsLagged n)"
| "ends_stream did RecvClosed = Some EventsClosed"
| "ends_stream did (Received (Envelope _ _)) = None"

fun visible :: "string option \<Rightarrow> 'json recv_outcome \<Rightarrow> 'json server_envelope option" where
  "visible did (Received (Envelope None envelope)) = Some envelope"
| "visible did (Received (Envelope (Some target) envelope)) =
     (if did = Some target then Some envelope else None)"
| "visible did _ = None"

definition stream_view ::
  "string option \<Rightarrow> 'json recv_outcome list \<Rightarrow>
   'json server_envelope list \<times> event_receive_error option" where
  "stream_view did inc =
     (List.map_filter (visible did) (takeWhile (\<lambda>x. ends_stream did x = None) inc),
      (case dropWhile (\<lambda>x. ends_stream did x = None) inc of [] \<Rightarrow> None | x # _ \<Rightarrow> ends_stream did x))"

lemma stream_view_Nil [simp]: "stream_view did [] = ([], None)"
  by (simp add: stream_view_def map_filter_def)

lemma stream_view_skip:
  "ends_stream did ev = None \<Longrightarrow> visible did ev = None \<Longrightarrow>
     stream_view did (ev # inc) = stream_view did inc"
  by (simp add: stream_view_def map_filter_def)

lemma stream_view_envelope:
  "ends_stream did ev = None \<Longrightarrow> visible did ev = Some env \<Longrightarrow>
     stream_view did (ev # inc) = (env # fst (stream_view did inc), snd (stream_view did inc))"
  by (simp add: stream_view_def map_filter_def)

lemma stream_view_end:
  "ends_stream did ev = Some e \<Longrightarrow> stream_view did (ev # inc) = ([], Some e)"
  by (simp add: stream_view_def map_filter_def)

lemma recv_loop_view:
  "case recv_loop did inc of
     (None, _) \<Rightarrow> stream_view did inc = ([], None)
   | (Some (Inl e), _) \<Rightarrow> stream_view did inc = ([], Some e)
   | (Some (Inr env), inc') \<Rightarrow> length inc' < length inc \<and>
       stream_view did inc = (env # fst (stream_view did inc'), snd (stream_view did inc'))"
proof (induction did inc rule: recv_loop.induct)
  case (3 did target envelope inc)
  then show ?case
    by (cases "did = Some target")
      (auto simp: stream_view_envelope stream_view_skip split: prod.splits option.splits sum.splits)
next
  case (4 did target inc)
  then show ?case
    by (cases "did = Some target")
      (auto simp: stream_view_end stream_view_skip split: prod.splits option.splits sum.splits)
qed (simp_all add: stream_view_envelope stream_view_end)

lemma recv_all_stream:
  assumes "replay sub = []" and "length (incoming sub) < n"
  shows "recv_all n sub = stream_view (es_device sub) (incoming sub)"
  using assms
proof (induction n arbitrary: sub)
  case (Suc n)
  obtain r inc' where r: "recv_loop (es_device sub) (incoming sub) = (r, inc')" by fastforce
  show ?case
  proof (cases r)
    case None
    with r Suc.prems(1) recv_loop_view [of "es_device sub" "incoming sub"] show ?thesis
      by (simp add: recv_def)
  next
    case (Some res)
    show ?thesis
    proof (cases res)
      case (Inl e)
      with Some r Suc.prems(1) recv_loop_view [of "es_device sub" "incoming sub"] show ?thesis
        by (simp add: recv_def)
    next
      case (Inr env)
      with Some r recv_loop_view [of "es_device sub" "incoming sub"]
      have v: "length inc' < length (incoming sub)"
        "stream_view (es_device sub) (incoming sub) =
           (env # fst (stream_view (es_device sub) inc'), snd (stream_view (es_device sub) inc'))"
        by auto
      have "recv_all n (sub\<lparr>incoming := inc'\<rparr>) = stream_view (es_device sub) inc'"
        using Suc.IH [of "sub\<lparr>incoming := inc'\<rparr>"] Suc.prems v(1) by simp
      with Some Inr r Suc.prems(1) v(2) show ?thesis by (simp add: recv_def split: prod.splits)
    qed
  qed
qed simp

lemma recv_all_view:
  assumes "length (replay sub) + length (incoming sub) < n"
  shows "recv_all n sub =
           (replay sub @ fst (stream_view (es_device sub) (incoming sub)),
            snd (stream_view (es_device sub) (incoming sub)))"
  using assms
proof (induction n arbitrary: sub)
  case (Suc n)
  show ?case
  proof (cases "replay sub")
    case Nil
    with Suc.prems show ?thesis by (subst recv_all_stream) simp_all
  next
    case (Cons env rest)
    with Suc.IH [of "sub\<lparr>replay := rest\<rparr>"] Suc.prems show ?thesis by (simp add: recv_def)
  qed
qed simp

section \<open>The order of the snapshots\<close>

lemma newest_first_le:
  "newest_first a \<le> newest_first b \<longleftrightarrow>
     snap_updated_at b < snap_updated_at a \<or>
     (snap_updated_at b = snap_updated_at a \<and> snap_thread_id a \<le> snap_thread_id b)"
proof -
  have "unat (- 1 - w) = 2 ^ 64 - 1 - unat w" for w :: u64
  proof -
    have "unat w \<le> unat (- 1 :: u64)" by (simp add: word_le_nat_alt [symmetric])
    then show ?thesis by (simp add: unat_sub word_le_nat_alt unsigned_minus_1_eq_mask mask_eq_exp_minus_1)
  qed
  then have "- 1 - v < - 1 - w \<longleftrightarrow> w < v" for v w :: u64
  proof -
    have "unat v < 2 ^ 64" "unat w < 2 ^ 64" using unsigned_less [of v] unsigned_less [of w] by simp_all
    moreover have "unat (- 1 - v) = 2 ^ 64 - 1 - unat v" "unat (- 1 - w) = 2 ^ 64 - 1 - unat w"
      by fact+
    ultimately show ?thesis unfolding word_less_nat_alt by linarith
  qed
  moreover from this have "- 1 - v \<le> - 1 - w \<longleftrightarrow> w \<le> v" for v w :: u64
    unfolding not_less [symmetric] by simp
  ultimately show ?thesis by (auto simp: newest_first_def less_eq_prod_def)
qed

lemma newest_first_inj: "inj_on newest_first A \<longleftrightarrow> inj_on (\<lambda>s. (snap_updated_at s, snap_thread_id s)) A"
  by (simp add: newest_first_def inj_on_def)

lemma set_sorted_snapshots [simp]: "set (sorted_snapshots rows) = set rows"
  by (simp add: sorted_snapshots_def)

text \<open>The hash map's own order does not matter.\<close>

lemma sorted_snapshots_unique:
  assumes "keyed snap_thread_id rows" and "keyed snap_thread_id rows'" and "set rows = set rows'"
  shows "sorted_snapshots rows = sorted_snapshots rows'"
proof -
  have inj: "inj_on newest_first (set rows)"
    using assms(1) by (auto simp: newest_first_def inj_on_def keyed_def distinct_map)
  have d: "distinct (map newest_first (sorted_snapshots xs))"
    if "keyed snap_thread_id xs" for xs
    using that by (auto simp: sorted_snapshots_def newest_first_def keyed_def distinct_map inj_on_def)
  have "map newest_first (sorted_snapshots rows) = map newest_first (sorted_snapshots rows')"
    using d assms by (intro sorted_distinct_set_unique) (auto simp: sorted_snapshots_def)
  then show ?thesis
    using inj assms(3) by (intro map_inj_on [of newest_first]) auto
qed

section \<open>Writers and a new subscriber, interleaved\<close>

text \<open>
  The atomic steps of the concurrent tasks: \<open>set_snapshot\<close> writes the map and later publishes (the
  snapshots written and not yet published are \<open>unpublished\<close>); a new connection first registers its
  receiver, at a position of the log, and later reads the map for its replay; any other event is
  sent at any time.
\<close>

datatype connection =
    Unsubscribed
  | Listening nat
  | Subscribed nat "session_snapshot list"

record 'json hub_system =
  hub :: "'json event_hub"
  unpublished :: "session_snapshot list"
  connection :: connection

definition initial_system :: "'json hub_system" where
  "initial_system = \<lparr>hub = new_hub, unpublished = [], connection = Unsubscribed\<rparr>"

inductive hub_step :: "'json hub_system \<Rightarrow> 'json hub_system \<Rightarrow> bool" where
  write_map:
    "hub_step st (st\<lparr>hub := (hub st)\<lparr>snapshots := store_snapshot snap (snapshots (hub st))\<rparr>,
                    unpublished := snap # unpublished st\<rparr>)"
| write_publish:
    "snap \<in> set (unpublished st) \<Longrightarrow>
     hub_step st (st\<lparr>hub := snd (publish (SessionSnapshot snap) (hub st)),
                    unpublished := remove1 snap (unpublished st)\<rparr>)"
| other_event:
    "hub_step st (st\<lparr>hub := snd (hub_send e (hub st))\<rparr>)"
| register:
    "connection st = Unsubscribed \<Longrightarrow>
     hub_step st (st\<lparr>connection := Listening (length (sent (hub st)))\<rparr>)"
| read_map:
    "connection st = Listening n \<Longrightarrow>
     hub_step st (st\<lparr>connection := Subscribed n (all_snapshots (hub st))\<rparr>)"

inductive_cases hub_stepE: "hub_step st st'"

definition covers :: "'json hub_system \<Rightarrow> bool" where
  "covers st \<longleftrightarrow>
     (case connection st of
        Unsubscribed \<Rightarrow> True
      | Listening n \<Rightarrow> n \<le> length (sent (hub st))
      | Subscribed n snaps \<Rightarrow> n \<le> length (sent (hub st)) \<and>
          (\<forall>snap \<in> set (snapshots (hub st)).
             snap \<in> set snaps \<or> snap \<in> set (unpublished st) \<or>
             Envelope None (SessionSnapshot snap) \<in> set (drop n (sent (hub st)))))"

lemma set_store_snapshot: "set (store_snapshot snap rows) \<subseteq> insert snap (set rows)"
  by (auto simp: store_snapshot_def row_upsert_def row_update_def split: if_splits)

lemma in_remove1: "x \<in> set xs \<Longrightarrow> x = y \<or> x \<in> set (remove1 y xs)"
  by (induction xs) auto

lemma covers_step:
  assumes "hub_step st st'" and "covers st"
  shows "covers st'"
  using assms
proof (cases rule: hub_step.cases)
  case (write_map snap)
  with assms(2) show ?thesis
    using set_store_snapshot [of snap "snapshots (hub st)"]
    by (auto simp: covers_def split: connection.splits)
next
  case (write_publish snap)
  show ?thesis
  proof (cases "connection st")
    case (Subscribed n snaps)
    have "x = snap \<or> x \<in> set (remove1 snap (unpublished st))" if "x \<in> set (unpublished st)" for x
      using that by (rule in_remove1)
    with assms(2) write_publish Subscribed show ?thesis
      by (fastforce simp: covers_def publish_def hub_send_def)
  qed (use assms(2) write_publish in \<open>auto simp: covers_def publish_def hub_send_def\<close>)
next
  case (other_event e)
  with assms(2) show ?thesis by (auto simp: covers_def hub_send_def split: connection.splits)
next
  case register
  then show ?thesis by (simp add: covers_def)
next
  case (read_map n)
  with assms(2) show ?thesis by (auto simp: covers_def all_snapshots_def)
qed

lemma covers_initial: "covers initial_system"
  by (simp add: covers_def initial_system_def)

lemma covers_reachable: "hub_step\<^sup>*\<^sup>* initial_system st \<Longrightarrow> covers st"
  by (induction rule: rtranclp_induct) (simp_all add: covers_initial covers_step)

text \<open>The subscriber of a connection whose channel delivered the log without loss.\<close>

definition connection_subscriber ::
  "string option \<Rightarrow> 'json hub_system \<Rightarrow> nat \<Rightarrow> session_snapshot list \<Rightarrow> 'json event_subscriber" where
  "connection_subscriber did st n snaps =
     \<lparr>replay = map SessionSnapshot snaps, incoming = map Received (drop n (sent (hub st))),
      es_device = did\<rparr>"

lemma stream_view_log:
  assumes "\<And>t. did = Some t \<Longrightarrow> DisconnectDevice t \<notin> set evs"
  shows "Envelope None env \<in> set evs \<Longrightarrow> env \<in> set (fst (stream_view did (map Received evs)))"
  using assms
proof (induction evs)
  case (Cons ev evs)
  have e: "ends_stream did (Received ev) = None"
    using Cons.prems(2) by (cases ev) auto
  show ?case
    using Cons e
    by (cases "visible did (Received ev)") (auto simp: stream_view_skip stream_view_envelope)
qed simp

section \<open>Properties\<close>

text \<open>
  C5. What a connected phone sees. Receiving until nothing is left gives the replay of all
  snapshots, then exactly the broadcast envelopes and the ones addressed to this device, in order,
  up to the first disconnect of this device, lag or close, which is the error the connection ends
  with. So no envelope addressed to another device ever reaches it.
\<close>

theorem subscriber_view_exact:
  assumes "length (snapshots h) + length inc < n"
  shows "recv_all n (subscribe_with_device did inc h) =
           (map SessionSnapshot (all_snapshots h) @ fst (stream_view did inc),
            snd (stream_view did inc)) \<and>
         (\<forall>env \<in> set (fst (recv_all n (subscribe_with_device did inc h))).
            env \<in> SessionSnapshot ` set (snapshots h) \<or> Received (Envelope None env) \<in> set inc \<or>
            (\<exists>t. did = Some t \<and> Received (Envelope (Some t) env) \<in> set inc))"
proof -
  let ?sub = "subscribe_with_device did inc h"
  have r: "recv_all n ?sub =
      (map SessionSnapshot (all_snapshots h) @ fst (stream_view did inc), snd (stream_view did inc))"
    using recv_all_view [of ?sub n] assms
    by (simp add: subscribe_with_device_def all_snapshots_def sorted_snapshots_def)
  have "Received (Envelope None env) \<in> set inc \<or>
      (\<exists>t. did = Some t \<and> Received (Envelope (Some t) env) \<in> set inc)"
    if "env \<in> set (fst (stream_view did inc))" for env
  proof -
    have "\<exists>x \<in> set inc. visible did x = Some env"
      using that by (fastforce simp: stream_view_def map_filter_def dest: set_takeWhileD)
    then obtain x where "x \<in> set inc" "visible did x = Some env" by blast
    then show ?thesis by (cases "(did, x)" rule: visible.cases) (auto split: if_splits)
  qed
  with r show ?thesis by (auto simp: all_snapshots_def)
qed

definition demo_snapshot :: "string \<Rightarrow> u64 \<Rightarrow> session_snapshot" where
  "demo_snapshot tid at =
     \<lparr>snap_thread_id = tid, snap_title = tid, snap_cwd = None, snap_model_provider = None,
      snap_preview = None, snap_updated_at = at, snap_status = Running,
      snap_pending_approval_ids = []\<rparr>"

definition demo_hub :: "unit event_hub" where
  "demo_hub = snd (set_snapshot (demo_snapshot ''b'' 7) (snd (set_snapshot (demo_snapshot ''a'' 5) new_hub)))"

lemma demo_hub_snapshots: "snapshots demo_hub = [demo_snapshot ''a'' 5, demo_snapshot ''b'' 7]"
  by (simp add: demo_hub_def set_snapshot_def publish_def hub_send_def new_hub_def
      hub_with_capacity_def store_snapshot_def row_upsert_def demo_snapshot_def)

definition demo_incoming :: "unit recv_outcome list" where
  "demo_incoming =
     [Received (Envelope (Some ''other'') (ServerError ''x'')),
      Received (Envelope (Some ''phone'') (ServerError ''y'')),
      Received (DisconnectDevice ''phone''), Received (Envelope None (ServerError ''z''))]"

theorem subscriber_view_exact_witness:
  "recv_all 7 (subscribe_with_device (Some ''phone'') demo_incoming demo_hub) =
     ([SessionSnapshot (demo_snapshot ''b'' 7), SessionSnapshot (demo_snapshot ''a'' 5),
       ServerError ''y''], Some DeviceDisconnected)"
proof -
  have "length (snapshots demo_hub) + length demo_incoming < 7"
    by (simp add: demo_hub_snapshots demo_incoming_def)
  from subscriber_view_exact [OF this, of "Some ''phone''"] show ?thesis
    by (simp add: all_snapshots_def sorted_snapshots_def demo_hub_snapshots newest_first_def
        demo_snapshot_def stream_view_def map_filter_def demo_incoming_def)
qed

text \<open>
  C6. A new connection misses no snapshot. In every interleaving of snapshot writers, other events
  and a connection that registers and then reads the map, once the writers have published, every
  current snapshot reaches a subscriber that loses no event and is not disconnected.
\<close>

theorem subscriber_misses_no_snapshot:
  assumes "hub_step\<^sup>*\<^sup>* initial_system st" and "connection st = Subscribed n snaps"
    and "unpublished st = []" and "snap \<in> set (snapshots (hub st))"
    and "\<And>t. did = Some t \<Longrightarrow> DisconnectDevice t \<notin> set (drop n (sent (hub st)))"
    and "length snaps + length (sent (hub st)) < fuel"
  shows "SessionSnapshot snap \<in> set (fst (recv_all fuel (connection_subscriber did st n snaps)))"
proof -
  let ?sub = "connection_subscriber did st n snaps"
  have "covers st" using assms(1) by (rule covers_reachable)
  with assms(2,3,4) have c: "snap \<in> set snaps \<or>
      Envelope None (SessionSnapshot snap) \<in> set (drop n (sent (hub st)))"
    by (auto simp: covers_def)
  have "recv_all fuel ?sub = (map SessionSnapshot snaps @
      fst (stream_view did (map Received (drop n (sent (hub st))))),
      snd (stream_view did (map Received (drop n (sent (hub st))))))"
    using recv_all_view [of ?sub fuel] assms(6) by (simp add: connection_subscriber_def)
  with c stream_view_log [OF assms(5)] show ?thesis by auto
qed

definition demo_system :: "unit hub_system" where
  "demo_system =
     \<lparr>hub = snd (set_snapshot (demo_snapshot ''a'' 5) new_hub), unpublished = [],
      connection = Subscribed 0 []\<rparr>"

lemma demo_system_reachable: "hub_step\<^sup>*\<^sup>* initial_system demo_system"
proof -
  let ?a = "demo_snapshot ''a'' 5"
  let ?s0 = "initial_system :: unit hub_system"
  let ?s1 = "?s0\<lparr>connection := Listening (length (sent (hub ?s0)))\<rparr>"
  let ?s2 = "?s1\<lparr>connection := Subscribed (length (sent (hub ?s0))) (all_snapshots (hub ?s1))\<rparr>"
  let ?s3 = "?s2\<lparr>hub := (hub ?s2)\<lparr>snapshots := store_snapshot ?a (snapshots (hub ?s2))\<rparr>,
      unpublished := ?a # unpublished ?s2\<rparr>"
  let ?s4 = "?s3\<lparr>hub := snd (publish (SessionSnapshot ?a) (hub ?s3)),
      unpublished := remove1 ?a (unpublished ?s3)\<rparr>"
  have "hub_step ?s0 ?s1" by (rule register) (simp add: initial_system_def)
  moreover have "hub_step ?s1 ?s2" by (rule read_map) simp
  moreover have "hub_step ?s2 ?s3" by (rule write_map)
  moreover have "hub_step ?s3 ?s4" by (rule write_publish) simp
  moreover have "?s4 = demo_system"
    by (simp add: demo_system_def initial_system_def set_snapshot_def publish_def hub_send_def
        new_hub_def hub_with_capacity_def store_snapshot_def row_upsert_def all_snapshots_def
        sorted_snapshots_def)
  ultimately show ?thesis
    by (auto intro!: rtranclp.rtrancl_into_rtrancl [where b = ?s3]
        rtranclp.rtrancl_into_rtrancl [where b = ?s2] rtranclp.rtrancl_into_rtrancl [where b = ?s1]
        rtranclp.rtrancl_into_rtrancl [where b = ?s0] simp del: rtranclp.simps)
qed

theorem subscriber_misses_no_snapshot_witness:
  "SessionSnapshot (demo_snapshot ''a'' 5) \<in>
     set (fst (recv_all 5 (connection_subscriber (Some ''phone'') demo_system 0 [])))"
proof (rule subscriber_misses_no_snapshot [OF demo_system_reachable])
  show "connection demo_system = Subscribed 0 []" "unpublished demo_system = []"
    by (simp_all add: demo_system_def)
  show "demo_snapshot ''a'' 5 \<in> set (snapshots (hub demo_system))"
    by (simp add: demo_system_def set_snapshot_def publish_def hub_send_def new_hub_def
        hub_with_capacity_def store_snapshot_def row_upsert_def)
qed (simp_all add: demo_system_def set_snapshot_def publish_def hub_send_def new_hub_def
    hub_with_capacity_def)

text \<open>
  Two writers of the same thread can publish in the other order than they wrote. Then the map
  holds the newer snapshot, nothing is left to publish, and the last snapshot a subscriber receives
  is the older one: the write and the publication are not one atomic step.
\<close>

lemma snapshots_published_out_of_order:
  "\<exists>st :: unit hub_system. hub_step\<^sup>*\<^sup>* initial_system st \<and> unpublished st = [] \<and>
     connection st = Subscribed 0 [] \<and>
     snapshot_for_thread ''a'' (hub st) = Some (demo_snapshot ''a'' 9) \<and>
     last (fst (recv_all 9 (connection_subscriber (Some ''phone'') st 0 []))) =
       SessionSnapshot (demo_snapshot ''a'' 5)"
proof -
  let ?old = "demo_snapshot ''a'' 5" and ?new = "demo_snapshot ''a'' 9"
  let ?sys = "\<lambda>snaps log pend con. \<lparr>hub = (new_hub :: unit event_hub)\<lparr>snapshots := snaps, sent := log\<rparr>,
      unpublished = pend, connection = con\<rparr> :: unit hub_system"
  let ?con = "Subscribed 0 []"
  let ?final = "?sys [?new] [Envelope None (SessionSnapshot ?new), Envelope None (SessionSnapshot ?old)] [] ?con"
  note defs = new_hub_def hub_with_capacity_def publish_def hub_send_def store_snapshot_def
    row_upsert_def row_update_def demo_snapshot_def all_snapshots_def sorted_snapshots_def
  have 1: "hub_step initial_system (?sys [] [] [] (Listening 0))"
    using register [of "initial_system :: unit hub_system"] by (simp add: initial_system_def defs)
  have 2: "hub_step (?sys [] [] [] (Listening 0)) (?sys [] [] [] ?con)"
    using read_map [of "?sys [] [] [] (Listening 0)" 0] by (simp add: defs)
  have 3: "hub_step (?sys [] [] [] ?con) (?sys [?old] [] [?old] ?con)"
    using write_map [of "?sys [] [] [] ?con" ?old] by (simp add: defs)
  have 4: "hub_step (?sys [?old] [] [?old] ?con) (?sys [?new] [] [?new, ?old] ?con)"
    using write_map [of "?sys [?old] [] [?old] ?con" ?new] by (simp add: defs)
  have 5: "hub_step (?sys [?new] [] [?new, ?old] ?con)
      (?sys [?new] [Envelope None (SessionSnapshot ?new)] [?old] ?con)"
    using write_publish [of ?new "?sys [?new] [] [?new, ?old] ?con"] by (simp add: defs)
  have 6: "hub_step (?sys [?new] [Envelope None (SessionSnapshot ?new)] [?old] ?con) ?final"
    using write_publish [of ?old "?sys [?new] [Envelope None (SessionSnapshot ?new)] [?old] ?con"]
    by (simp add: defs)
  have "hub_step\<^sup>*\<^sup>* initial_system ?final"
    using 1 2 3 4 5 6 by (meson rtranclp.rtrancl_into_rtrancl rtranclp.rtrancl_refl)
  moreover have "snapshot_for_thread ''a'' (hub ?final) = Some ?new"
    by (simp add: snapshot_for_thread_def row_lookup_Cons demo_snapshot_def)
  moreover have "last (fst (recv_all 9 (connection_subscriber (Some ''phone'') ?final 0 []))) =
      SessionSnapshot ?old"
    by (simp add: connection_subscriber_def numeral_eq_Suc recv_def)
  ultimately show ?thesis by (intro exI [of _ ?final]) simp
qed

end
