(* ===== verification/Rust_Text.thy ===== *)
theory Rust_Text
  imports Prelude "HOL-Library.Sublist"
begin

text \<open>
  The operations of Rust's \<open>str\<close> and \<open>Path\<close> that the bridge uses, on strings as lists of UTF-8 bytes.
  A Rust string is valid UTF-8, so its characters are a lead byte with the continuation bytes after
  it.
\<close>

section \<open>Bytes and prefixes\<close>

definition byte_of :: "char \<Rightarrow> nat" where
  "byte_of c = of_char c"

definition starts_with :: "string \<Rightarrow> string \<Rightarrow> bool" where
  "starts_with s t \<longleftrightarrow> take (length t) s = t"

definition ends_with :: "string \<Rightarrow> string \<Rightarrow> bool" where
  "ends_with s t \<longleftrightarrow> suffix t s"

lemma ends_with_code [code]:
  "ends_with s t \<longleftrightarrow> length t \<le> length s \<and> drop (length s - length t) s = t"
  by (auto simp: ends_with_def suffix_def) (metis append_take_drop_id)

lemma starts_with_prefix: "starts_with s t \<longleftrightarrow> prefix t s"
  by (auto simp: starts_with_def prefix_def) (metis append_take_drop_id)

definition to_ascii_lowercase_char :: "char \<Rightarrow> char" where
  "to_ascii_lowercase_char c =
     (if 65 \<le> byte_of c \<and> byte_of c \<le> 90 then char_of (byte_of c + 32) else c)"

definition to_ascii_uppercase_char :: "char \<Rightarrow> char" where
  "to_ascii_uppercase_char c =
     (if 97 \<le> byte_of c \<and> byte_of c \<le> 122 then char_of (byte_of c - 32) else c)"

definition to_ascii_lowercase :: "string \<Rightarrow> string" where
  "to_ascii_lowercase s = map to_ascii_lowercase_char s"

definition eq_ignore_ascii_case :: "string \<Rightarrow> string \<Rightarrow> bool" where
  "eq_ignore_ascii_case s t \<longleftrightarrow> to_ascii_lowercase s = to_ascii_lowercase t"

definition is_ascii_digit :: "char \<Rightarrow> bool" where
  "is_ascii_digit c \<longleftrightarrow> 48 \<le> byte_of c \<and> byte_of c \<le> 57"

definition is_ascii_alphabetic :: "char \<Rightarrow> bool" where
  "is_ascii_alphabetic c \<longleftrightarrow>
     (65 \<le> byte_of c \<and> byte_of c \<le> 90) \<or> (97 \<le> byte_of c \<and> byte_of c \<le> 122)"

definition is_ascii_alphanumeric :: "char \<Rightarrow> bool" where
  "is_ascii_alphanumeric c \<longleftrightarrow> is_ascii_digit c \<or> is_ascii_alphabetic c"

section \<open>Searching and replacing\<close>

fun find_text :: "string \<Rightarrow> string \<Rightarrow> nat option" where
  "find_text pat [] = (if pat = [] then Some 0 else None)"
| "find_text pat (c # s) =
     (if starts_with (c # s) pat then Some 0 else map_option Suc (find_text pat s))"

definition contains :: "string \<Rightarrow> string \<Rightarrow> bool" where
  "contains s pat \<longleftrightarrow> find_text pat s \<noteq> None"

lemma contains_iff: "contains s pat \<longleftrightarrow> sublist pat s"
  unfolding contains_def
  by (induction s) (auto simp: starts_with_prefix sublist_Cons_right)

text \<open>\<open>str::replace\<close> for a pattern that is not empty: left to right, without overlaps.\<close>

function replace_text :: "string \<Rightarrow> string \<Rightarrow> string \<Rightarrow> string" where
  "replace_text pat new s =
     (if pat = [] then s
      else case s of
        [] \<Rightarrow> []
      | c # s' \<Rightarrow>
          if starts_with s pat then new @ replace_text pat new (drop (length pat) s)
          else c # replace_text pat new s')"
  by pat_completeness auto

termination
  by (relation "measure (\<lambda>(pat, new, s). length s)") auto

declare replace_text.simps [simp del]

lemma replace_text_absent: "\<not> contains s pat \<Longrightarrow> replace_text pat new s = s"
proof (induction s)
  case Nil
  then show ?case by (simp add: replace_text.simps)
next
  case (Cons c s)
  then show ?case
    by (subst replace_text.simps) (auto simp: contains_iff starts_with_prefix sublist_Cons_right)
qed

section \<open>Characters\<close>

definition is_continuation :: "char \<Rightarrow> bool" where
  "is_continuation c \<longleftrightarrow> 128 \<le> byte_of c \<and> byte_of c \<le> 191"

type_synonym scalar = string

function utf8_chars :: "string \<Rightarrow> scalar list" where
  "utf8_chars [] = []"
| "utf8_chars (b # bs) =
     (b # takeWhile is_continuation bs) # utf8_chars (dropWhile is_continuation bs)"
  by pat_completeness auto

termination
  by (relation "measure length") (auto simp: less_Suc_eq_le length_dropWhile_le)

lemma concat_utf8_chars [simp]: "concat (utf8_chars s) = s"
  by (induction s rule: utf8_chars.induct) simp_all

text \<open>The Unicode property \<open>White_Space\<close>, on the bytes of a character.\<close>

definition is_whitespace :: "scalar \<Rightarrow> bool" where
  "is_whitespace c \<longleftrightarrow>
     (case map byte_of c of
        [b] \<Rightarrow> (9 \<le> b \<and> b \<le> 13) \<or> b = 32
      | [b1, b2] \<Rightarrow> b1 = 194 \<and> (b2 = 133 \<or> b2 = 160)
      | [b1, b2, b3] \<Rightarrow>
          (b1 = 225 \<and> b2 = 154 \<and> b3 = 128) \<or>
          (b1 = 226 \<and> b2 = 128 \<and> ((128 \<le> b3 \<and> b3 \<le> 138) \<or> b3 = 168 \<or> b3 = 169 \<or> b3 = 175)) \<or>
          (b1 = 226 \<and> b2 = 129 \<and> b3 = 159) \<or>
          (b1 = 227 \<and> b2 = 128 \<and> b3 = 128)
      | _ \<Rightarrow> False)"

text \<open>\<open>s.trim().is_empty()\<close>.\<close>

definition blank :: "string \<Rightarrow> bool" where
  "blank s \<longleftrightarrow> list_all is_whitespace (utf8_chars s)"

definition trim :: "string \<Rightarrow> string" where
  "trim s =
     concat (rev (dropWhile is_whitespace (rev (dropWhile is_whitespace (utf8_chars s)))))"

definition space :: scalar where
  "space = '' ''"

definition ellipsis :: scalar where
  "ellipsis = [CHR 0xE2, CHR 0x80, CHR 0xA6]"

definition middle_dot :: scalar where
  "middle_dot = [CHR 0xC2, CHR 0xB7]"

text \<open>\<open>split\<close> by a predicate on characters, and the parts that are not empty.\<close>

fun split_on :: "('c \<Rightarrow> bool) \<Rightarrow> 'c list \<Rightarrow> 'c list list" where
  "split_on P [] = [[]]"
| "split_on P (c # cs) =
     (if P c then [] # split_on P cs
      else case split_on P cs of [] \<Rightarrow> [[c]] | w # ws \<Rightarrow> (c # w) # ws)"

definition words_by :: "('c \<Rightarrow> bool) \<Rightarrow> 'c list \<Rightarrow> 'c list list" where
  "words_by P cs = filter (\<lambda>w. w \<noteq> []) (split_on P cs)"

fun join_with :: "'c list \<Rightarrow> 'c list list \<Rightarrow> 'c list" where
  "join_with sep [] = []"
| "join_with sep [w] = w"
| "join_with sep (w # v # ws) = w @ sep @ join_with sep (v # ws)"

definition split_whitespace :: "string \<Rightarrow> string list" where
  "split_whitespace s = map concat (words_by is_whitespace (utf8_chars s))"

text \<open>\<open>split_once\<close> at a character of one byte.\<close>

definition split_once :: "char \<Rightarrow> string \<Rightarrow> (string \<times> string) option" where
  "split_once c s =
     (case dropWhile (\<lambda>x. x \<noteq> c) s of [] \<Rightarrow> None | _ # rest \<Rightarrow> Some (takeWhile (\<lambda>x. x \<noteq> c) s, rest))"

text \<open>\<open>str::replace\<close>: an empty pattern is found before every character and at the end.\<close>

definition str_replace :: "string \<Rightarrow> string \<Rightarrow> string \<Rightarrow> string" where
  "str_replace pat new s =
     (if pat = [] then new @ concat (map (\<lambda>c. c @ new) (utf8_chars s)) else replace_text pat new s)"

section \<open>Paths\<close>

definition is_absolute_path :: "string \<Rightarrow> bool" where
  "is_absolute_path p \<longleftrightarrow> starts_with p ''/''"

definition path_parts :: "string \<Rightarrow> string list" where
  "path_parts p = filter (\<lambda>w. w \<noteq> [] \<and> w \<noteq> ''.'') (split_on (\<lambda>c. c = CHR ''/'') p)"

text \<open>\<open>Path::file_name\<close>: the last component, if it is a normal one.\<close>

definition file_name :: "string \<Rightarrow> string option" where
  "file_name p =
     (case rev (path_parts p) of [] \<Rightarrow> None | w # _ \<Rightarrow> if w = ''..'' then None else Some w)"

section \<open>Words\<close>

lemma split_on_nonempty [simp]: "split_on P cs \<noteq> []"
  by (induction cs) (auto split: list.splits)

lemma split_on_append:
  "P s \<Longrightarrow> split_on P (xs @ s # ys) = split_on P xs @ split_on P ys"
proof (induction xs)
  case (Cons x xs)
  then show ?case
    using split_on_nonempty [of P xs] by (auto split: list.splits)
qed simp

lemma split_on_free: "\<forall>c \<in> set cs. \<not> P c \<Longrightarrow> split_on P cs = [cs]"
  by (induction cs) auto

lemma words_by_append: "P s \<Longrightarrow> words_by P (xs @ s # ys) = words_by P xs @ words_by P ys"
  by (simp add: words_by_def split_on_append)

lemma words_by_free:
  "\<forall>c \<in> set cs. \<not> P c \<Longrightarrow> words_by P cs = (if cs = [] then [] else [cs])"
  by (simp add: words_by_def split_on_free)

lemma words_by_Nil [simp]: "words_by P [] = []"
  by (simp add: words_by_def)

text \<open>A list is free of separators, or starts with a part that is.\<close>

lemma separator_cases:
  assumes "\<forall>c \<in> set cs. \<not> P c \<Longrightarrow> thesis"
    and "\<And>xs s ys. cs = xs @ s # ys \<Longrightarrow> \<forall>c \<in> set xs. \<not> P c \<Longrightarrow> P s \<Longrightarrow> thesis"
  shows thesis
  using assms split_list_first_prop [of cs P] by blast

lemma join_with_Cons: "join_with sep (w # ws) = w @ (if ws = [] then [] else sep @ join_with sep ws)"
  by (cases ws) simp_all

text \<open>Splitting at white space and joining with one space keeps the words of a finer separator.\<close>

lemma words_by_renormalised:
  assumes "\<And>c. W c \<Longrightarrow> P c" and "P sp"
  shows "words_by P (join_with [sp] (words_by W cs)) = words_by P cs"
proof (induction cs rule: length_induct)
  case (1 cs)
  show ?case
  proof (rule separator_cases [of cs W])
    assume free: "\<forall>c \<in> set cs. \<not> W c"
    then show ?thesis by (simp add: words_by_free)
  next
    fix xs s ys assume cs: "cs = xs @ s # ys" and free: "\<forall>c \<in> set xs. \<not> W c" and s: "W s"
    have IH: "words_by P (join_with [sp] (words_by W ys)) = words_by P ys" using 1 cs by simp
    have w: "words_by W cs = (if xs = [] then [] else [xs]) @ words_by W ys"
      by (simp add: cs words_by_append [of W, OF s] words_by_free [OF free])
    have c: "words_by P cs = words_by P xs @ words_by P ys"
      by (simp add: cs words_by_append [of P, OF assms(1) [OF s]])
    show ?thesis
    proof (cases "words_by W ys = []")
      case True
      then have "words_by P ys = []" using IH by simp
      with True w c show ?thesis by simp
    next
      case False
      with w c IH show ?thesis
        by (simp add: join_with_Cons words_by_append [of P, OF assms(2), simplified])
    qed
  qed
qed

text \<open>The words of a cut list are beginnings of words; a character added at the end extends one.\<close>

lemma words_by_take:
  "w \<in> set (words_by P (take n cs)) \<Longrightarrow> \<exists>v \<in> set (words_by P cs). prefix w v"
proof (induction cs arbitrary: n rule: length_induct)
  case (1 cs)
  show ?case
  proof (rule separator_cases [of cs P])
    assume free: "\<forall>c \<in> set cs. \<not> P c"
    then have "\<forall>c \<in> set (take n cs). \<not> P c" by (auto dest: in_set_takeD)
    with 1(2) free show ?thesis by (auto simp: words_by_free take_is_prefix split: if_splits)
  next
    fix xs s ys assume cs: "cs = xs @ s # ys" and free: "\<forall>c \<in> set xs. \<not> P c" and s: "P s"
    note app = words_by_append [of P s, OF s]
    show ?thesis
    proof (cases "n \<le> length xs")
      case True
      have "\<forall>c \<in> set (take n xs). \<not> P c" using free by (auto dest: in_set_takeD)
      then show ?thesis
        using 1(2) True by (auto simp: cs app words_by_free free take_is_prefix split: if_splits)
    next
      case False
      then have "take n cs = xs @ s # take (n - Suc (length xs)) ys"
        by (simp add: cs take_Cons' Suc_diff_Suc)
      then have "w \<in> set (words_by P xs) \<or> w \<in> set (words_by P (take (n - Suc (length xs)) ys))"
        using 1(2) by (simp add: app)
      then show ?thesis
        using 1(1) [rule_format, of ys "n - Suc (length xs)"] by (auto simp: cs app)
    qed
  qed
qed

lemma words_by_snoc:
  "\<not> P e \<Longrightarrow> w \<in> set (words_by P (cs @ [e])) \<Longrightarrow>
     w \<in> set (words_by P cs) \<or> w = [e] \<or> (\<exists>v \<in> set (words_by P cs). w = v @ [e])"
proof (induction cs rule: length_induct)
  case (1 cs)
  show ?case
  proof (rule separator_cases [of cs P])
    assume free: "\<forall>c \<in> set cs. \<not> P c"
    then have "words_by P (cs @ [e]) = [cs @ [e]]" using 1(2) by (simp add: words_by_free)
    with 1(3) free show ?thesis by (auto simp: words_by_free)
  next
    fix xs s ys assume cs: "cs = xs @ s # ys" and s: "P s"
    note app = words_by_append [of P s, OF s]
    have "w \<in> set (words_by P xs) \<or> w \<in> set (words_by P (ys @ [e]))"
      using 1(3) app [of xs "ys @ [e]"] by (simp add: cs)
    then show ?thesis using 1(1) [rule_format, of ys] 1(2) by (auto simp: cs app)
  qed
qed

section \<open>Characters of a concatenation\<close>

definition scalar_like :: "scalar \<Rightarrow> bool" where
  "scalar_like c \<longleftrightarrow> (case c of [] \<Rightarrow> False | b # bs \<Rightarrow> list_all is_continuation bs)"

definition starts_scalar :: "scalar \<Rightarrow> bool" where
  "starts_scalar c \<longleftrightarrow> (case c of [] \<Rightarrow> False | b # _ \<Rightarrow> \<not> is_continuation b)"

lemma utf8_chars_scalar: "c \<in> set (utf8_chars s) \<Longrightarrow> scalar_like c"
  by (induction s rule: utf8_chars.induct)
    (auto simp: scalar_like_def list_all_iff dest: set_takeWhileD)

lemma utf8_chars_concat:
  assumes "\<forall>c \<in> set cs. scalar_like c" and "\<forall>c \<in> set (tl cs). starts_scalar c"
  shows "utf8_chars (concat cs) = cs"
  using assms
proof (induction cs)
  case (Cons c cs)
  obtain b bs where c: "c = b # bs" "list_all is_continuation bs"
    using Cons.prems(1) by (cases c) (auto simp: scalar_like_def)
  have next_start: "concat cs = [] \<or> (\<exists>x xs. concat cs = x # xs \<and> \<not> is_continuation x)"
  proof (cases cs)
    case (Cons d ds)
    then have "starts_scalar d" using Cons.prems(2) by simp
    with Cons show ?thesis by (cases d) (auto simp: starts_scalar_def)
  qed simp
  have t: "takeWhile is_continuation (bs @ concat cs) = bs"
    "dropWhile is_continuation (bs @ concat cs) = concat cs"
    using c(2) next_start
    by (auto simp: takeWhile_append list_all_iff dropWhile_append simp del: concat_eq_Nil_conv)
  have "utf8_chars (concat cs) = cs"
    using Cons by (cases cs) auto
  with c t show ?case by simp
qed simp

lemma utf8_chars_tl_starts: "c \<in> set (tl (utf8_chars s)) \<Longrightarrow> starts_scalar c"
proof (induction s rule: utf8_chars.induct)
  case (2 b bs)
  show ?case
  proof (cases "dropWhile is_continuation bs")
    case Nil
    with 2 show ?thesis by simp
  next
    case (Cons x xs)
    then have "\<not> is_continuation x" by (metis dropWhile_eq_Cons_conv)
    with 2 Cons show ?thesis by (auto simp: starts_scalar_def)
  qed
qed simp

lemma utf8_chars_take: "utf8_chars (concat (take n (utf8_chars s))) = take n (utf8_chars s)"
  by (rule utf8_chars_concat)
    (auto simp: tl_take dest!: in_set_takeD intro: utf8_chars_scalar utf8_chars_tl_starts)

lemma utf8_chars_sublist:
  assumes "utf8_chars s = xs @ cs @ ys"
  shows "utf8_chars (concat cs) = cs"
proof (rule utf8_chars_concat)
  show "\<forall>c \<in> set cs. scalar_like c"
    using utf8_chars_scalar [of _ s] by (auto simp: assms)
  show "\<forall>c \<in> set (tl cs). starts_scalar c"
    using utf8_chars_tl_starts [of _ s] by (cases xs; cases cs) (auto simp: assms)
qed

text \<open>Trimming twice is trimming once.\<close>

definition trim_chars :: "scalar list \<Rightarrow> scalar list" where
  "trim_chars cs = rev (dropWhile is_whitespace (rev (dropWhile is_whitespace cs)))"

lemma trim_eq: "trim s = concat (trim_chars (utf8_chars s))"
  by (simp add: trim_def trim_chars_def)

lemma trim_chars_part: "\<exists>xs ys. cs = xs @ trim_chars cs @ ys"
proof -
  obtain xs where "cs = xs @ dropWhile is_whitespace cs"
    using takeWhile_dropWhile_id by metis
  moreover obtain ys where "rev (dropWhile is_whitespace cs) =
      ys @ dropWhile is_whitespace (rev (dropWhile is_whitespace cs))"
    using takeWhile_dropWhile_id by metis
  then have "dropWhile is_whitespace cs = trim_chars cs @ rev ys"
    unfolding trim_chars_def by (metis rev_append rev_rev_ident)
  ultimately show ?thesis by metis
qed

lemma utf8_chars_trim [simp]: "utf8_chars (trim s) = trim_chars (utf8_chars s)"
proof -
  obtain xs ys where "utf8_chars s = xs @ trim_chars (utf8_chars s) @ ys"
    using trim_chars_part by blast
  then show ?thesis unfolding trim_eq by (rule utf8_chars_sublist)
qed

lemma dropWhile_twice [simp]: "dropWhile P (dropWhile P xs) = dropWhile P xs"
  by (induction xs) simp_all

lemma dropWhile_rev_dropWhile:
  "dropWhile P (rev (dropWhile P (rev (dropWhile P xs)))) = rev (dropWhile P (rev (dropWhile P xs)))"
proof (cases "dropWhile P xs")
  case (Cons y ys)
  then have y: "\<not> P y" by (metis dropWhile_eq_Cons_conv)
  have "dropWhile P (rev ys @ [y]) = dropWhile P (rev ys) @ [y]"
    using y by (induction "rev ys" arbitrary: ys rule: list.induct)
      (auto simp: dropWhile_append)
  with Cons y show ?thesis by simp
qed (simp del: dropWhile_eq_Nil_conv)

lemma trim_chars_twice [simp]: "trim_chars (trim_chars cs) = trim_chars cs"
  unfolding trim_chars_def dropWhile_rev_dropWhile by simp

lemma trim_twice [simp]: "trim (trim s) = trim s"
  unfolding trim_eq [of "trim s"] utf8_chars_trim trim_chars_twice by (rule trim_eq [symmetric])

text \<open>Lower case commutes with the division into characters, and with trimming.\<close>

lemma byte_of_lowercase:
  "byte_of (to_ascii_lowercase_char c) =
     (if 65 \<le> byte_of c \<and> byte_of c \<le> 90 then byte_of c + 32 else byte_of c)"
  by (simp add: to_ascii_lowercase_char_def byte_of_def)

lemma byte_of_inject: "byte_of c = byte_of d \<longleftrightarrow> c = d"
  by (simp add: byte_of_def)

lemma to_ascii_lowercase_char_twice [simp]:
  "to_ascii_lowercase_char (to_ascii_lowercase_char c) = to_ascii_lowercase_char c"
  unfolding byte_of_inject [symmetric] by (simp add: byte_of_lowercase)

lemma to_ascii_lowercase_twice [simp]: "to_ascii_lowercase (to_ascii_lowercase s) = to_ascii_lowercase s"
  by (simp add: to_ascii_lowercase_def)

lemma byte_of_lowercase_iff:
  "byte_of (to_ascii_lowercase_char c) = k \<longleftrightarrow> byte_of c = k" if "k < 65 \<or> 122 < k" for k
  by (use that in \<open>auto simp: byte_of_lowercase\<close>)

lemma byte_of_lowercase_le:
  "k < 65 \<or> 122 < k \<Longrightarrow> byte_of (to_ascii_lowercase_char c) \<le> k \<longleftrightarrow> byte_of c \<le> k"
  "k < 65 \<or> 122 < k \<Longrightarrow> k \<le> byte_of (to_ascii_lowercase_char c) \<longleftrightarrow> k \<le> byte_of c"
  by (auto simp: byte_of_lowercase)

lemma lowercase_continuation [simp]:
  "is_continuation (to_ascii_lowercase_char c) = is_continuation c"
  by (simp add: is_continuation_def byte_of_lowercase_le)

lemma lowercase_whitespace [simp]:
  "is_whitespace (map to_ascii_lowercase_char w) = is_whitespace w"
proof -
  consider "w = []" | a where "w = [a]" | a b where "w = [a, b]" | a b c where "w = [a, b, c]"
    | a b c d r where "w = a # b # c # d # r"
    by (metis list.exhaust)
  then show ?thesis
    by cases (simp_all add: is_whitespace_def byte_of_lowercase_iff byte_of_lowercase_le)
qed

lemma utf8_chars_lowercase:
  "utf8_chars (map to_ascii_lowercase_char s) = map (map to_ascii_lowercase_char) (utf8_chars s)"
  by (induction s rule: utf8_chars.induct) (simp_all add: takeWhile_map dropWhile_map comp_def)

lemma trim_lowercase: "trim (to_ascii_lowercase s) = to_ascii_lowercase (trim s)"
  by (simp add: trim_def to_ascii_lowercase_def utf8_chars_lowercase dropWhile_map comp_def rev_map
      map_concat)

lemma takeWhile_dropWhile_append_start:
  "ys = [] \<or> \<not> Q (hd ys) \<Longrightarrow>
     takeWhile Q (xs @ ys) = takeWhile Q xs \<and> dropWhile Q (xs @ ys) = dropWhile Q xs @ ys"
  by (induction xs) (cases ys, auto)+

lemma utf8_chars_append:
  "ys = [] \<or> \<not> is_continuation (hd ys) \<Longrightarrow> utf8_chars (xs @ ys) = utf8_chars xs @ utf8_chars ys"
proof (induction xs rule: utf8_chars.induct)
  case (2 b bs)
  then show ?case using takeWhile_dropWhile_append_start [of ys is_continuation bs] by simp
qed simp

end
