(* ===== verification/Public_Access.thy ===== *)
theory Public_Access
  imports Rust_Text
begin

text \<open>
  \<open>crates/bridge-core/src/public_access.rs\<close>: how the bridge is reachable (local network, quick
  tunnel, named tunnel) and which capabilities follow. The parser of the \<open>url\<close> crate is the
  parameter \<open>parse_url\<close>; a parsed URL is the record of what the code reads of it.
\<close>

datatype public_access_mode = Local | Quick | Named

record public_access_context =
  mode :: public_access_mode
  public_origin :: "string option"

definition default_access :: public_access_context where
  "default_access = \<lparr>mode = Local, public_origin = None\<rparr>"

datatype delivery_mode = ForegroundOnly | WebPush

record notification_capabilities =
  cap_delivery_mode :: delivery_mode
  fixed_https :: bool
  system_notifications :: bool
  foreground_sound :: bool
  foreground_vibration :: bool
  vibration_controlled_by_system :: bool

text \<open>What \<open>url::Url\<close> gives of a parsed URL.\<close>

record url =
  scheme :: string
  ascii_origin :: string
  url_path :: string
  query :: "string option"
  fragment :: "string option"
  host_str :: "string option"

type_synonym url_parser = "string \<Rightarrow> url option"

datatype access_error = OriginRequired | NotAUrl | NotAnHttpsOrigin | NotAQuickTunnel

definition validate_context :: "url_parser \<Rightarrow> public_access_context \<Rightarrow> access_error + unit" where
  "validate_context parse_url ctx =
     (if mode ctx = Local then Inr ()
      else case public_origin ctx of
        None \<Rightarrow> Inl OriginRequired
      | Some origin \<Rightarrow>
          (case parse_url origin of
             None \<Rightarrow> Inl NotAUrl
           | Some u \<Rightarrow>
               if scheme u \<noteq> ''https'' \<or> ascii_origin u \<noteq> origin \<or> url_path u \<noteq> ''/'' \<or>
                  query u \<noteq> None \<or> fragment u \<noteq> None
               then Inl NotAnHttpsOrigin
               else if mode ctx = Quick \<and>
                       \<not> ends_with (case host_str u of Some h \<Rightarrow> h | None \<Rightarrow> '''') ''trycloudflare.com''
               then Inl NotAQuickTunnel
               else Inr ()))"

text \<open>The shared state holds a context; an update that does not validate leaves it.\<close>

definition update_access ::
  "url_parser \<Rightarrow> public_access_context \<Rightarrow> (public_access_context, access_error, unit) action" where
  "update_access parse_url ctx st =
     (case validate_context parse_url ctx of Inl e \<Rightarrow> (Inl e, st) | Inr _ \<Rightarrow> (Inr (), ctx))"

definition capabilities_of :: "public_access_context \<Rightarrow> notification_capabilities" where
  "capabilities_of ctx =
     \<lparr>cap_delivery_mode = ForegroundOnly,
      fixed_https = (mode ctx = Named \<and>
        (case public_origin ctx of None \<Rightarrow> False | Some origin \<Rightarrow> starts_with origin ''https://'')),
      system_notifications = False, foreground_sound = True, foreground_vibration = True,
      vibration_controlled_by_system = False\<rparr>"

text \<open>The contexts the state can hold: what was validated, and the initial one.\<close>

definition valid_context :: "url_parser \<Rightarrow> public_access_context \<Rightarrow> bool" where
  "valid_context parse_url ctx \<longleftrightarrow> validate_context parse_url ctx = Inr ()"

definition access_run :: "url_parser \<Rightarrow> public_access_context list \<Rightarrow> public_access_context" where
  "access_run parse_url cs = fold (\<lambda>c st. snd (update_access parse_url c st)) cs default_access"

lemma valid_default [simp]: "valid_context parse_url default_access"
  by (simp add: valid_context_def validate_context_def default_access_def)

lemma update_access_valid [maintains_intros]:
  "maintains (valid_context parse_url) (update_access parse_url ctx)"
  by (auto simp: maintains_def update_access_def valid_context_def split: sum.splits)

lemma access_run_valid: "valid_context parse_url (access_run parse_url cs)"
proof -
  have "valid_context parse_url st \<Longrightarrow>
      valid_context parse_url (fold (\<lambda>c st. snd (update_access parse_url c st)) cs st)" for st
    using update_access_valid by (induction cs arbitrary: st) (auto simp: maintains_def)
  then show ?thesis by (simp add: access_run_def)
qed

lemma valid_context_origin:
  assumes "valid_context parse_url ctx" and "mode ctx \<noteq> Local"
  obtains origin u where "public_origin ctx = Some origin" and "parse_url origin = Some u"
    and "scheme u = ''https''" and "ascii_origin u = origin"
  using assms
  by (auto simp: valid_context_def validate_context_def split: option.splits if_splits)

text \<open>
  The check of a quick tunnel compares the end of the host only, so a host that merely ends in the
  letters of the tunnel's domain passes it.
\<close>

lemma quick_accepts_lookalike:
  assumes "parse_url ''https://eviltrycloudflare.com'' =
      Some \<lparr>scheme = ''https'', ascii_origin = ''https://eviltrycloudflare.com'', url_path = ''/'',
            query = None, fragment = None, host_str = Some ''eviltrycloudflare.com''\<rparr>"
  shows "valid_context parse_url
           \<lparr>mode = Quick, public_origin = Some ''https://eviltrycloudflare.com''\<rparr>"
  using assms by (simp add: valid_context_def validate_context_def ends_with_code)

text \<open>
  The reachable public-access states. After any sequence of updates, accepted or refused, a mode
  other than local comes with an origin that parses as an \<open>https\<close> URL and is its own origin (so it
  has no path, query or fragment), and the phone is told it has a fixed HTTPS address exactly in the
  named mode. The parser is asked that the origin of an \<open>https\<close> URL starts with \<open>https://\<close>.
\<close>

lemma public_access_invariant:
  assumes "\<And>s u. parse_url s = Some u \<Longrightarrow> scheme u = ''https'' \<Longrightarrow>
             starts_with (ascii_origin u) ''https://''"
  shows "(mode (access_run parse_url cs) \<noteq> Local \<longrightarrow>
            (\<exists>origin u. public_origin (access_run parse_url cs) = Some origin \<and>
               parse_url origin = Some u \<and> scheme u = ''https'' \<and> ascii_origin u = origin)) \<and>
         (fixed_https (capabilities_of (access_run parse_url cs)) \<longleftrightarrow>
            mode (access_run parse_url cs) = Named)"
proof -
  let ?ctx = "access_run parse_url cs"
  have v: "valid_context parse_url ?ctx" by (rule access_run_valid)
  have o: "\<exists>origin u. public_origin ?ctx = Some origin \<and> parse_url origin = Some u \<and>
      scheme u = ''https'' \<and> ascii_origin u = origin" if "mode ?ctx \<noteq> Local"
    using valid_context_origin [OF v that] by metis
  moreover have "fixed_https (capabilities_of ?ctx)" if "mode ?ctx = Named"
    using o that assms by (auto simp: capabilities_of_def)
  ultimately show ?thesis by (auto simp: capabilities_of_def)
qed

text \<open>A small parser, of one host and no path, for the concrete instances.\<close>

definition demo_parse_url :: url_parser where
  "demo_parse_url s =
     (if starts_with s ''https://''
      then Some \<lparr>scheme = ''https'', ascii_origin = s, url_path = ''/'', query = None,
                 fragment = None, host_str = Some (drop 8 s)\<rparr>
      else None)"

end
