(* ===== verification/Notification_Dispatcher.thy ===== *)
theory Notification_Dispatcher
  imports Web_Push Event_Hub Public_Access
begin

text \<open>
  \<open>crates/bridge-core/src/notification_dispatcher.rs\<close>: an alert goes to every device that wants
  it, over the event hub and, with a named tunnel and a subscription made for its address, into the
  queue of push deliveries. The shared state is the record \<open>bridge\<close>; the clock reading taken while
  queueing for a device is \<open>now\<close> at that device, the JSON text of a payload is \<open>to_json\<close>.
\<close>

record 'json bridge =
  store_db :: db
  alert_hub :: "'json event_hub"
  access :: public_access_context
  wakes :: nat

datatype bridge_error = StoreError db_error | JsonError

text \<open>A call of the locked store from the bridge.\<close>

definition on_notification_store :: "'a db_op \<Rightarrow> ('json bridge, bridge_error, 'a) action" where
  "on_notification_store f w = (case f (store_db w) of
     (Inl e, s) \<Rightarrow> (Inl (StoreError e), w\<lparr>store_db := s\<rparr>)
   | (Inr a, s) \<Rightarrow> (Inr a, w\<lparr>store_db := s\<rparr>))"

definition send_alert :: "string \<Rightarrow> alert_event \<Rightarrow> ('json bridge, bridge_error, nat) action" where
  "send_alert did ev w =
     (case publish_to_device did (AlertEvent ev) (alert_hub w) of
        (n, h) \<Rightarrow> (Inr n, w\<lparr>alert_hub := h\<rparr>))"

text \<open>
  \<open>current_push_access\<close>: \<open>has_runtime\<close> says whether the dispatcher was given a push runtime.
\<close>

definition current_push_access :: "bool \<Rightarrow> 'json bridge \<Rightarrow> public_access_context option" where
  "current_push_access has_runtime w = (if has_runtime then Some (access w) else None)"

definition push_hints :: "device_notification_settings \<Rightarrow> bool \<Rightarrow> delivery_hints" where
  "push_hints st forced =
     \<lparr>hint_sound_enabled = sound_enabled st, hint_vibration_enabled = vibration_enabled st,
      hint_force_system_notification = forced\<rparr>"

definition new_delivery :: "alert_event \<Rightarrow> string \<Rightarrow> string \<Rightarrow> u64 \<Rightarrow> notification_delivery" where
  "new_delivery ev did payload at =
     \<lparr>dl_event_id = al_event_id ev, dl_device_id = did, payload_json = payload,
      dl_status = Pending, attempt_count = 0, next_attempt_at = at, last_error_category = None,
      dl_updated_at = at\<rparr>"

definition enqueue_push ::
  "(push_payload \<Rightarrow> string option) \<Rightarrow> u64 \<Rightarrow> bool \<Rightarrow> device_notification_settings \<Rightarrow> alert_event \<Rightarrow>
   bool \<Rightarrow> public_access_context option \<Rightarrow> ('json bridge, bridge_error, bool) action" where
  "enqueue_push to_json now has_runtime st ev forced acc =
     (if \<not> has_runtime then ok False
      else case acc of
        None \<Rightarrow> ok False
      | Some ctx \<Rightarrow>
          if mode ctx \<noteq> Named then ok False
          else (case public_origin ctx of
            None \<Rightarrow> ok False
          | Some origin \<Rightarrow>
              bind_ok (on_notification_store (active_subscription (set_device_id st))) (\<lambda>found.
                case found of
                  None \<Rightarrow> ok False
                | Some sub \<Rightarrow>
                    if sub_origin sub \<noteq> origin then ok False
                    else (case to_json (payload_for_event ev (push_hints st forced)) of
                      None \<Rightarrow> err JsonError
                    | Some payload \<Rightarrow>
                        bind_ok (on_notification_store (enqueue_delivery
                            (new_delivery ev (set_device_id st) payload now))) (\<lambda>enqueued w.
                          (Inr enqueued, if enqueued then w\<lparr>wakes := wakes w + 1\<rparr> else w))))))"

text \<open>The loop of \<open>dispatch\<close> over the targets, adding up the deliveries.\<close>

primrec dispatch_loop ::
  "(push_payload \<Rightarrow> string option) \<Rightarrow> (string \<Rightarrow> u64) \<Rightarrow> bool \<Rightarrow> alert_event \<Rightarrow>
   public_access_context option \<Rightarrow> device_notification_settings list \<Rightarrow> nat \<Rightarrow>
   ('json bridge, bridge_error, nat) action" where
  "dispatch_loop to_json now has_runtime ev acc [] n = ok n"
| "dispatch_loop to_json now has_runtime ev acc (st # sts) n =
     bind_ok (send_alert (set_device_id st) ev) (\<lambda>k.
       bind_ok (enqueue_push to_json (now (set_device_id st)) has_runtime st ev False acc) (\<lambda>_.
         dispatch_loop to_json now has_runtime ev acc sts (n + k)))"

definition dispatch ::
  "(push_payload \<Rightarrow> string option) \<Rightarrow> (string \<Rightarrow> u64) \<Rightarrow> bool \<Rightarrow> alert_event \<Rightarrow>
   ('json bridge, bridge_error, nat) action" where
  "dispatch to_json now has_runtime ev w =
     (let acc = current_push_access has_runtime w
      in bind_ok (on_notification_store enabled_settings) (\<lambda>sts.
           dispatch_loop to_json now has_runtime ev acc
             (filter (\<lambda>st. kind_enabled st (al_kind ev)) sts) 0) w)"

definition dispatch_test_to_device ::
  "(push_payload \<Rightarrow> string option) \<Rightarrow> u64 \<Rightarrow> bool \<Rightarrow> string \<Rightarrow> alert_event \<Rightarrow>
   ('json bridge, bridge_error, nat) action" where
  "dispatch_test_to_device to_json now has_runtime did ev w =
     (let acc = current_push_access has_runtime w
      in bind_ok (on_notification_store (settings_for_device did)) (\<lambda>st.
           bind_ok (enqueue_push to_json now has_runtime st ev True acc) (\<lambda>queued.
             if queued then ok 0 else send_alert did ev)) w)"

section \<open>What queueing for one device does\<close>

lemma on_notification_store_ok:
  "on_notification_store f w = (Inr a, w') \<longleftrightarrow> (\<exists>s. f (store_db w) = (Inr a, s) \<and> w' = w\<lparr>store_db := s\<rparr>)"
  by (auto simp: on_notification_store_def split: prod.splits sum.splits)

text \<open>
  A device gets a push when the bridge has a named address and the device's valid subscription was
  made for it.
\<close>

definition push_wanted :: "db \<Rightarrow> bool \<Rightarrow> public_access_context option \<Rightarrow> string \<Rightarrow> bool" where
  "push_wanted s has_runtime acc did \<longleftrightarrow>
     has_runtime \<and>
     (\<exists>ctx origin sub. acc = Some ctx \<and> mode ctx = Named \<and> public_origin ctx = Some origin \<and>
        find (\<lambda>r. sub_device_id r = did \<and> invalidated_at r = None) (push_subscriptions s) = Some sub \<and>
        sub_origin sub = origin)"

definition push_for ::
  "(push_payload \<Rightarrow> string option) \<Rightarrow> u64 \<Rightarrow> device_notification_settings \<Rightarrow> alert_event \<Rightarrow> bool \<Rightarrow>
   notification_delivery" where
  "push_for to_json now st ev forced =
     new_delivery ev (set_device_id st) (the (to_json (payload_for_event ev (push_hints st forced)))) now"

definition untouched :: "'json bridge \<Rightarrow> 'json bridge \<Rightarrow> bool" where
  "untouched w w' \<longleftrightarrow>
     push_subscriptions (store_db w') = push_subscriptions (store_db w) \<and>
     device_settings (store_db w') = device_settings (store_db w) \<and>
     devices (store_db w') = devices (store_db w) \<and>
     alert_states (store_db w') = alert_states (store_db w) \<and>
     access w' = access w"

lemma untouched_trans [trans]: "untouched w w' \<Longrightarrow> untouched w' w'' \<Longrightarrow> untouched w w''"
  by (simp add: untouched_def)

lemma new_delivery_key [simp]: "delivery_key (new_delivery ev did p at) = (al_event_id ev, did)"
  by (simp add: new_delivery_def delivery_key_def)

lemma push_for_key [simp]: "delivery_key (push_for to_json now st ev forced) = (al_event_id ev, set_device_id st)"
  by (simp add: push_for_def)

lemma enqueue_delivery_frame:
  assumes "enqueue_delivery d s = (Inr b, s')"
  shows "push_subscriptions s' = push_subscriptions s \<and> device_settings s' = device_settings s \<and>
         devices s' = devices s \<and> alert_states s' = alert_states s"
  using assms by (auto simp: enqueue_delivery_def sql_call_def with_params_def Let_def split: if_splits)

lemma same_tables_frame:
  "same_tables s' s \<Longrightarrow> push_subscriptions s' = push_subscriptions s \<and>
     device_settings s' = device_settings s \<and> devices s' = devices s \<and>
     alert_states s' = alert_states s \<and> deliveries s' = deliveries s"
  by (simp add: same_tables_fields)

text \<open>
  The effect of queueing for one device: the delivery is new exactly when a push is wanted and none
  is queued for the event and the device; nothing else of the queue or the other state changes.
\<close>

definition push_effect ::
  "(push_payload \<Rightarrow> string option) \<Rightarrow> u64 \<Rightarrow> bool \<Rightarrow> device_notification_settings \<Rightarrow> alert_event \<Rightarrow>
   bool \<Rightarrow> public_access_context option \<Rightarrow> 'json bridge \<Rightarrow> bool \<Rightarrow> 'json bridge \<Rightarrow> bool" where
  "push_effect to_json now has_runtime st ev forced acc w b w' \<longleftrightarrow>
     (let k = (al_event_id ev, set_device_id st);
          wanted = push_wanted (store_db w) has_runtime acc (set_device_id st)
      in (b \<longleftrightarrow> wanted \<and> \<not> queued k (store_db w)) \<and>
         (wanted \<longrightarrow> to_json (payload_for_event ev (push_hints st forced)) \<noteq> None) \<and>
         queue_view (store_db w') =
           (if b then (queue_view (store_db w))(k \<mapsto> push_for to_json now st ev forced)
            else queue_view (store_db w)) \<and>
         (\<forall>k'. queued k' (store_db w') \<longleftrightarrow> queued k' (store_db w) \<or> (b \<and> k' = k)) \<and>
         wakes w' = wakes w + (if b then 1 else 0) \<and> alert_hub w' = alert_hub w \<and> untouched w w')"

lemma enqueue_queued:
  assumes "enqueue_delivery d s = (Inr b, s')"
  shows "queued k' s' \<longleftrightarrow> queued k' s \<or> (b \<and> k' = delivery_key d)"
  using assms by (auto simp: enqueue_delivery_def sql_call_def with_params_def Let_def queued_def
      split: if_splits)

lemma enqueue_push_effect:
  assumes "enqueue_push to_json now has_runtime st ev forced acc w = (Inr b, w')"
  shows "push_effect to_json now has_runtime st ev forced acc w b w'"
proof (cases "has_runtime \<and> (\<exists>ctx origin. acc = Some ctx \<and> mode ctx = Named \<and>
      public_origin ctx = Some origin)")
  case False
  then have "\<not> push_wanted (store_db w) has_runtime acc (set_device_id st)"
    by (auto simp: push_wanted_def)
  moreover have "b = False \<and> w' = w"
    using assms False by (auto simp: enqueue_push_def ok_def split: if_splits option.splits)
  ultimately show ?thesis by (simp add: push_effect_def untouched_def)
next
  case True
  then obtain ctx origin where acc: "has_runtime" "acc = Some ctx" "mode ctx = Named"
    "public_origin ctx = Some origin" by auto
  let ?find = "find (\<lambda>r. sub_device_id r = set_device_id st \<and> invalidated_at r = None)
      (push_subscriptions (store_db w))"
  let ?wanted = "push_wanted (store_db w) has_runtime acc (set_device_id st)"
  let ?json = "to_json (payload_for_event ev (push_hints st forced))"
  from assms acc obtain found s1 where
    a: "active_subscription (set_device_id st) (store_db w) = (Inr found, s1)"
    and rest: "(case found of None \<Rightarrow> ok False | Some sub \<Rightarrow>
        if sub_origin sub \<noteq> origin then ok False
        else (case ?json of
          None \<Rightarrow> err JsonError
        | Some payload \<Rightarrow> bind_ok (on_notification_store (enqueue_delivery
              (new_delivery ev (set_device_id st) payload now))) (\<lambda>enqueued w.
            (Inr enqueued, if enqueued then w\<lparr>wakes := wakes w + 1\<rparr> else w))))
        (w\<lparr>store_db := s1\<rparr>) = (Inr b, w')"
    by (auto simp: enqueue_push_def on_notification_store_ok elim!: bind_ok_okE)
  have found: "found = ?find" using sql_read_ok [OF a [unfolded active_subscription_def]] by simp
  have s1: "same_tables s1 (store_db w)"
    using sql_read_tables [OF a [unfolded active_subscription_def]] .
  note fr = same_tables_frame [OF s1] and q1 = queue_view_same_tables [OF s1]
  have qu1: "queued k s1 = queued k (store_db w)" for k using fr by (simp add: queued_def)
  show ?thesis
  proof (cases ?wanted)
    case False
    then have "found = None \<or> (\<exists>sub. found = Some sub \<and> sub_origin sub \<noteq> origin)"
      using acc found by (cases found) (auto simp: push_wanted_def)
    then have "b = False \<and> w' = w\<lparr>store_db := s1\<rparr>" using rest by (auto simp: ok_def)
    with False fr q1 qu1 show ?thesis by (simp add: push_effect_def untouched_def)
  next
    case True
    then obtain sub where sub: "found = Some sub" "sub_origin sub = origin"
      using acc found by (auto simp: push_wanted_def)
    then obtain payload where p: "?json = Some payload"
      using rest by (cases ?json) (auto simp: err_def)
    obtain s2 where e: "enqueue_delivery (new_delivery ev (set_device_id st) payload now) s1 = (Inr b, s2)"
      and w': "w' = (if b then w\<lparr>store_db := s2, wakes := wakes w + 1\<rparr> else w\<lparr>store_db := s2\<rparr>)"
      using rest sub p by (auto simp: on_notification_store_ok elim!: bind_ok_okE split: if_splits)
    have k: "b \<longleftrightarrow> \<not> queued (al_event_id ev, set_device_id st) (store_db w)"
      using enqueue_delivery_ok(1) [OF e] fr by (simp add: queued_def)
    moreover have "b \<Longrightarrow> queue_view s2 =
        (queue_view (store_db w))((al_event_id ev, set_device_id st) \<mapsto> push_for to_json now st ev forced)"
      using enqueue_delivery_ok(2) [OF e] q1 p by (simp add: push_for_def)
    moreover have "\<not> b \<Longrightarrow> queue_view s2 = queue_view (store_db w)"
      using enqueue_delivery_ok(3) [OF e] q1 queue_view_same_tables by metis
    ultimately show ?thesis
      using True p w' fr enqueue_delivery_frame [OF e] enqueue_queued [OF e] qu1
      by (auto simp: push_effect_def untouched_def)
  qed
qed

section \<open>What a dispatch does\<close>

definition alert_envelope :: "alert_event \<Rightarrow> device_notification_settings \<Rightarrow> 'json published_event" where
  "alert_envelope ev st = Envelope (Some (set_device_id st)) (AlertEvent ev)"

text \<open>The queue after a dispatch to some targets, from the queue before it.\<close>

definition queue_after ::
  "(push_payload \<Rightarrow> string option) \<Rightarrow> (string \<Rightarrow> u64) \<Rightarrow> bool \<Rightarrow> alert_event \<Rightarrow>
   public_access_context option \<Rightarrow> device_notification_settings list \<Rightarrow> db \<Rightarrow>
   string \<times> string \<rightharpoonup> notification_delivery" where
  "queue_after to_json now has_runtime ev acc sts s k =
     (case find (\<lambda>st. k = (al_event_id ev, set_device_id st)) sts of
        None \<Rightarrow> queue_view s k
      | Some st \<Rightarrow>
          if push_wanted s has_runtime acc (set_device_id st) \<and> \<not> queued k s
          then Some (push_for to_json (now (set_device_id st)) st ev False)
          else queue_view s k)"

lemma push_wanted_untouched:
  "untouched w w' \<Longrightarrow> push_wanted (store_db w') rt acc did = push_wanted (store_db w) rt acc did"
  by (simp add: push_wanted_def untouched_def)

lemma dispatch_loop_effect:
  assumes "distinct (map set_device_id sts)"
    and "dispatch_loop to_json now has_runtime ev acc sts n w = (Inr m, w')"
  shows "alert_hub w' = (alert_hub w)\<lparr>sent := sent (alert_hub w) @ map (alert_envelope ev) sts\<rparr> \<and>
         m = n + length sts * receivers (alert_hub w) \<and>
         queue_view (store_db w') = queue_after to_json now has_runtime ev acc sts (store_db w) \<and>
         untouched w w'"
  using assms
proof (induction sts arbitrary: n w)
  case Nil
  then show ?case by (simp add: ok_def queue_after_def fun_eq_iff untouched_def)
next
  case (Cons st sts)
  let ?w1 = "w\<lparr>alert_hub := snd (publish_to_device (set_device_id st) (AlertEvent ev) (alert_hub w))\<rparr>"
  from Cons.prems(2) obtain b w2 where
    e: "enqueue_push to_json (now (set_device_id st)) has_runtime st ev False acc ?w1 = (Inr b, w2)"
    and l: "dispatch_loop to_json now has_runtime ev acc sts (n + receivers (alert_hub w)) w2 = (Inr m, w')"
    by (auto simp: send_alert_def publish_to_device_def hub_send_def elim!: bind_ok_okE)
  note eff = enqueue_push_effect [OF e, unfolded push_effect_def Let_def]
  have hub2: "alert_hub w2 = (alert_hub w)\<lparr>sent := sent (alert_hub w) @ [alert_envelope ev st]\<rparr>"
    using eff by (simp add: publish_to_device_def hub_send_def alert_envelope_def)
  have u2: "untouched w w2" using eff by (simp add: untouched_def)
  have IH: "alert_hub w' = (alert_hub w2)\<lparr>sent := sent (alert_hub w2) @ map (alert_envelope ev) sts\<rparr> \<and>
      m = n + receivers (alert_hub w) + length sts * receivers (alert_hub w2) \<and>
      queue_view (store_db w') = queue_after to_json now has_runtime ev acc sts (store_db w2) \<and>
      untouched w2 w'"
    using Cons.IH [OF _ l] Cons.prems(1) by simp
  have q: "queue_after to_json now has_runtime ev acc sts (store_db w2) k =
      queue_after to_json now has_runtime ev acc (st # sts) (store_db w) k" for k
  proof (cases "k = (al_event_id ev, set_device_id st)")
    case True
    then have "find (\<lambda>st. k = (al_event_id ev, set_device_id st)) sts = None"
      using Cons.prems(1) by (auto simp: find_None_iff)
    with True eff show ?thesis by (simp add: queue_after_def)
  next
    case False
    have "queue_view (store_db w2) k = queue_view (store_db w) k"
      using eff False by (cases b) auto
    moreover have "queued k (store_db w2) = queued k (store_db w)"
      using eff False by (cases k) auto
    ultimately show ?thesis
      using False push_wanted_untouched [OF u2] by (simp add: queue_after_def split: option.split)
  qed
  show ?case
    using IH hub2 untouched_trans [OF u2] q by (simp add: fun_eq_iff)
qed

section \<open>Properties\<close>

text \<open>
  What a successful dispatch does. The hub is sent one envelope per device that wants the kind
  of alert, addressed to that device, in the order of the targets, and nothing else; the result
  counts their receivers. The queue gains exactly one pending delivery for each of these devices
  that has a push subscription for the bridge's current named address and no delivery for this event
  yet; every other delivery, and settings, subscriptions and devices stay as they were.
\<close>

lemma dispatch_exact:
  assumes "store_inv (store_db w)" and "dispatch to_json now has_runtime ev w = (Inr n, w')"
  defines "targets \<equiv> filter (\<lambda>st. kind_enabled st (al_kind ev)) (enabled_rows (store_db w))"
  shows "alert_hub w' = (alert_hub w)\<lparr>sent := sent (alert_hub w) @ map (alert_envelope ev) targets\<rparr> \<and>
         n = length targets * receivers (alert_hub w) \<and>
         queue_view (store_db w') =
           queue_after to_json now has_runtime ev (current_push_access has_runtime w) targets (store_db w) \<and>
         untouched w w'"
proof -
  let ?acc = "current_push_access has_runtime w"
  obtain sts s1 where e: "enabled_settings (store_db w) = (Inr sts, s1)"
    and l: "dispatch_loop to_json now has_runtime ev ?acc
        (filter (\<lambda>st. kind_enabled st (al_kind ev)) sts) 0 (w\<lparr>store_db := s1\<rparr>) = (Inr n, w')"
    using assms(2) by (auto simp: dispatch_def on_notification_store_ok elim!: bind_ok_okE)
  have sts: "sts = enabled_rows (store_db w)"
    using sql_read_ok [OF e [unfolded enabled_settings_def]]
    by (simp add: enabled_rows_def device_is_active_def)
  have s1: "same_tables s1 (store_db w)" using sql_read_tables [OF e [unfolded enabled_settings_def]] .
  note fr = same_tables_frame [OF s1] and qv = queue_view_same_tables [OF s1]
  have "distinct (map set_device_id (filter (\<lambda>st. device_is_active (store_db w) (set_device_id st) \<and>
      set_enabled st) (device_settings (store_db w))))"
    using assms(1) by (simp add: store_inv_def keyed_def distinct_map_filter)
  then have "distinct (map set_device_id (enabled_rows (store_db w)))"
    by (auto simp: enabled_rows_def distinct_map)
  then have d: "distinct (map set_device_id targets)" by (simp add: targets_def distinct_map_filter)
  have qa: "queue_after to_json now has_runtime ev ?acc targets s1 =
      queue_after to_json now has_runtime ev ?acc targets (store_db w)"
    using fr qv by (auto simp: fun_eq_iff queue_after_def push_wanted_def queued_def split: option.splits)
  show ?thesis
    using dispatch_loop_effect [OF d l [folded sts [symmetric], unfolded sts, folded targets_def]] qa fr
    by (auto simp: untouched_def)
qed

definition demo_bridge :: "unit bridge" where
  "demo_bridge =
     \<lparr>store_db = demo_targets\<lparr>push_subscriptions := [demo_subscription\<lparr>sub_device_id := ''c''\<rparr>]\<rparr>,
      alert_hub = new_hub\<lparr>receivers := 2\<rparr>,
      access = \<lparr>mode = Named, public_origin = Some ''https://a.example''\<rparr>, wakes = 0\<rparr>"

lemma demo_bridge_inv: "store_inv (store_db demo_bridge)"
  by (simp add: demo_bridge_def demo_targets_def store_inv_def empty_db_def keyed_def
      demo_settings_def defaults_for_def)

lemmas dispatch_eval =
  dispatch_def on_notification_store_def enabled_settings_def action_simps enabled_rows_def device_is_active_def
  demo_bridge_def demo_targets_def demo_settings_def demo_device_row_def defaults_for_def
  default_alert_kind_settings_def current_push_access_def send_alert_def publish_to_device_def
  hub_send_def new_hub_def hub_with_capacity_def enqueue_push_def active_subscription_def
  demo_subscription_def demo_alert_def enqueue_delivery_def new_delivery_def store_eval

end
