(* ===== verification/Json_Value.thy ===== *)
theory Json_Value
  imports Rust_Text
begin

text \<open>
  The JSON values of \<open>serde_json\<close> as the bridge uses them: \<open>Value\<close>, its accessors, and the text of a
  value. An object is a list of fields in the order of its keys, as the \<open>BTreeMap\<close> behind
  \<open>serde_json::Map\<close> keeps them.
\<close>

section \<open>Values\<close>

text \<open>
  A number is an unsigned integer, a negative integer, or a float. The bridge never computes with a
  float, so it is its text.
\<close>

datatype json =
    JNull
  | JBool bool
  | JPosInt u64
  | JNegInt int
  | JFloat string
  | JString string
  | JArray "json list"
  | JObject "(string \<times> json) list"

fun insert_field :: "string \<Rightarrow> json \<Rightarrow> (string \<times> json) list \<Rightarrow> (string \<times> json) list" where
  "insert_field k v [] = [(k, v)]"
| "insert_field k v ((k', v') # fs) =
     (if k < k' then (k, v) # (k', v') # fs
      else if k = k' then (k, v) # fs
      else (k', v') # insert_field k v fs)"

text \<open>The \<open>json!\<close> macro on an object literal inserts field after field.\<close>

definition json_object :: "(string \<times> json) list \<Rightarrow> json" where
  "json_object fs = JObject (fold (\<lambda>(k, v). insert_field k v) fs [])"

text \<open>\<open>Value::get\<close> with a key, and the conversions \<open>as_str\<close>, \<open>as_u64\<close>, \<open>as_bool\<close>, \<open>as_array\<close>, \<open>as_object\<close>.\<close>

fun json_get :: "string \<Rightarrow> json \<Rightarrow> json option" where
  "json_get k (JObject fs) = map_of fs k"
| "json_get k v = None"

fun as_str :: "json \<Rightarrow> string option" where
  "as_str (JString s) = Some s"
| "as_str v = None"

fun as_u64 :: "json \<Rightarrow> u64 option" where
  "as_u64 (JPosInt n) = Some n"
| "as_u64 v = None"

fun as_bool :: "json \<Rightarrow> bool option" where
  "as_bool (JBool b) = Some b"
| "as_bool v = None"

fun as_array :: "json \<Rightarrow> json list option" where
  "as_array (JArray vs) = Some vs"
| "as_array v = None"

fun as_object :: "json \<Rightarrow> (string \<times> json) list option" where
  "as_object (JObject fs) = Some fs"
| "as_object v = None"

text \<open>\<open>Value::pointer\<close>, for tokens that are not array indexes: \<open>/a/b\<close> is the list of \<open>a\<close> and \<open>b\<close>.\<close>

fun json_pointer :: "string list \<Rightarrow> json \<Rightarrow> json option" where
  "json_pointer [] v = Some v"
| "json_pointer (k # ks) v = Option.bind (json_get k v) (json_pointer ks)"

text \<open>\<open>payload.insert\<close> on an object; \<open>payload[key] = value\<close> does the same on an object.\<close>

fun json_insert :: "string \<Rightarrow> json \<Rightarrow> json \<Rightarrow> json" where
  "json_insert k v (JObject fs) = JObject (insert_field k v fs)"
| "json_insert k v w = w"

definition opt_json :: "('a \<Rightarrow> json) \<Rightarrow> 'a option \<Rightarrow> json" where
  "opt_json f x = (case x of None \<Rightarrow> JNull | Some a \<Rightarrow> f a)"

text \<open>\<open>Iterator::find_map\<close>.\<close>

fun find_map :: "('a \<Rightarrow> 'b option) \<Rightarrow> 'a list \<Rightarrow> 'b option" where
  "find_map f [] = None"
| "find_map f (x # xs) = (case f x of None \<Rightarrow> find_map f xs | Some y \<Rightarrow> Some y)"

lemma find_map_cong [fundef_cong]:
  "xs = ys \<Longrightarrow> (\<And>x. x \<in> set ys \<Longrightarrow> f x = g x) \<Longrightarrow> find_map f xs = find_map g ys"
  by (induction xs arbitrary: ys) (auto split: option.splits)

lemma find_map_Some: "find_map f xs = Some y \<Longrightarrow> \<exists>x \<in> set xs. f x = Some y"
  by (induction xs) (auto split: option.splits)

lemma find_map_None: "find_map f xs = None \<longleftrightarrow> (\<forall>x \<in> set xs. f x = None)"
  by (induction xs) (auto split: option.splits)

definition or_else :: "'a option \<Rightarrow> 'a option \<Rightarrow> 'a option" where
  "or_else a b = (case a of None \<Rightarrow> b | Some x \<Rightarrow> Some x)"

definition unwrap_or :: "'a \<Rightarrow> 'a option \<Rightarrow> 'a" where
  "unwrap_or d a = (case a of None \<Rightarrow> d | Some x \<Rightarrow> x)"

definition option_filter :: "('a \<Rightarrow> bool) \<Rightarrow> 'a option \<Rightarrow> 'a option" where
  "option_filter P a = (case a of None \<Rightarrow> None | Some x \<Rightarrow> if P x then Some x else None)"

lemma or_else_simps [simp]:
  "or_else None b = b" "or_else (Some x) b = Some x"
  "or_else a b = None \<longleftrightarrow> a = None \<and> b = None"
  by (auto simp: or_else_def split: option.splits)

lemma unwrap_or_simps [simp]: "unwrap_or d None = d" "unwrap_or d (Some x) = x"
  by (simp_all add: unwrap_or_def)

lemma option_filter_simps [simp]:
  "option_filter P None = None"
  "option_filter P (Some x) = (if P x then Some x else None)"
  by (simp_all add: option_filter_def)

lemma option_filter_Some [simp]: "option_filter P a = Some x \<longleftrightarrow> a = Some x \<and> P x"
  by (auto simp: option_filter_def split: option.splits)

section \<open>Fields of an object\<close>

lemma map_of_insert_field: "map_of (insert_field k v fs) = (map_of fs)(k \<mapsto> v)"
  by (induction fs rule: insert_field.induct [where ?a0.0 = k and ?a1.0 = v]) auto

lemma map_of_fold_insert_field:
  "map_of (fold (\<lambda>(k, v). insert_field k v) new fs) = map_of fs ++ map_of (rev new)"
  by (induction new arbitrary: fs) (auto simp: map_of_insert_field)

lemma json_get_object [simp]: "json_get k (json_object fs) = map_of (rev fs) k"
  by (simp add: json_object_def map_of_fold_insert_field)

lemma json_get_insert [simp]:
  "json_get k (json_insert k' v (JObject fs)) = (if k = k' then Some v else json_get k (JObject fs))"
  by (simp add: map_of_insert_field)

text \<open>Keys stay in order, so a field is found once.\<close>

definition ordered_fields :: "(string \<times> json) list \<Rightarrow> bool" where
  "ordered_fields fs \<longleftrightarrow> sorted_wrt (<) (map fst fs)"

lemma fst_insert_field: "fst ` set (insert_field k v fs) = insert k (fst ` set fs)"
  by (induction k v fs rule: insert_field.induct) auto

lemma ordered_insert_field: "ordered_fields fs \<Longrightarrow> ordered_fields (insert_field k v fs)"
proof (induction k v fs rule: insert_field.induct)
  case (2 k v k' v' fs)
  have r: "ordered_fields ((k', v') # fs) \<longleftrightarrow> (\<forall>x \<in> fst ` set fs. k' < x) \<and> ordered_fields fs"
    for k' v' fs
    by (auto simp: ordered_fields_def)
  show ?case
    using 2 by (auto simp: r fst_insert_field simp flip: image_iff)
qed (simp add: ordered_fields_def)

section \<open>The text of a value\<close>

definition hex_digit :: "nat \<Rightarrow> char" where
  "hex_digit n = char_of (if n < 10 then 48 + n else 87 + n)"

definition escape_char :: "char \<Rightarrow> string" where
  "escape_char c =
     (let b = byte_of c in
      if b = 34 then [CHR 0x5C, c]
      else if b = 92 then [CHR 0x5C, c]
      else if b = 8 then [CHR 0x5C, CHR ''b'']
      else if b = 12 then [CHR 0x5C, CHR ''f'']
      else if b = 10 then [CHR 0x5C, CHR ''n'']
      else if b = 13 then [CHR 0x5C, CHR ''r'']
      else if b = 9 then [CHR 0x5C, CHR ''t'']
      else if b < 32 then [CHR 0x5C] @ ''u00'' @ [hex_digit (b div 16), hex_digit (b mod 16)]
      else [c])"

definition string_text :: "string \<Rightarrow> string" where
  "string_text s = [CHR 0x22] @ concat (map escape_char s) @ [CHR 0x22]"

definition int_text :: "int \<Rightarrow> string" where
  "int_text i = (if i < 0 then ''-'' @ decimal (nat (- i)) else decimal (nat i))"

text \<open>\<open>Value::to_string\<close>: compact text.\<close>

fun json_text :: "json \<Rightarrow> string"
  and item_texts :: "json list \<Rightarrow> string list"
  and field_texts :: "(string \<times> json) list \<Rightarrow> string list" where
  "json_text JNull = ''null''"
| "json_text (JBool b) = (if b then ''true'' else ''false'')"
| "json_text (JPosInt n) = u64_to_string n"
| "json_text (JNegInt i) = int_text i"
| "json_text (JFloat s) = s"
| "json_text (JString s) = string_text s"
| "json_text (JArray vs) = ''['' @ join_with '','' (item_texts vs) @ '']''"
| "json_text (JObject fs) = ''{'' @ join_with '','' (field_texts fs) @ ''}''"
| "item_texts [] = []"
| "item_texts (v # vs) = json_text v # item_texts vs"
| "field_texts [] = []"
| "field_texts ((k, v) # fs) = (string_text k @ '':'' @ json_text v) # field_texts fs"

section \<open>Reading fields under several names\<close>

text \<open>
  \<open>string_field\<close> and \<open>number_field\<close>, which \<open>codex_rpc.rs\<close>, \<open>normalizer.rs\<close> and \<open>approval.rs\<close> each
  declare with the same body.
\<close>

definition string_field :: "json \<Rightarrow> string list \<Rightarrow> string option" where
  "string_field v keys = find_map (\<lambda>key. Option.bind (json_get key v) as_str) keys"

definition number_field :: "json \<Rightarrow> string list \<Rightarrow> u64 option" where
  "number_field v keys = find_map (\<lambda>key. Option.bind (json_get key v) as_u64) keys"

definition string_field_at :: "json \<Rightarrow> string list list \<Rightarrow> string option" where
  "string_field_at v pointers = find_map (\<lambda>p. Option.bind (json_pointer p v) as_str) pointers"

end
