(* ===== verification/Codex_Rpc.thy ===== *)
theory Codex_Rpc
  imports Protocol_Types Json_Value
begin

text \<open>
  The JSON-RPC client of the Codex app server, \<open>crates/bridge-core/src/codex_rpc.rs\<close>: the records of
  threads and turns, the mapping of the server's answers to them, and the operations of
  \<open>CodexAdapter\<close>. The transport is a parameter \<open>tr\<close>: its answer may depend on all requests sent
  before. The client's state is its two counters and the requests it has sent.
\<close>

section \<open>Data\<close>

definition THREAD_LIST_PAGE_SIZE :: u32 where
  "THREAD_LIST_PAGE_SIZE = 100"

definition MAX_THREAD_LIST_PAGES :: nat where
  "MAX_THREAD_LIST_PAGES = 20"

definition MAX_THREAD_LIST_ITEMS :: nat where
  "MAX_THREAD_LIST_ITEMS = unat THREAD_LIST_PAGE_SIZE * MAX_THREAD_LIST_PAGES"

record codex_thread =
  ct_id :: string
  ct_title :: "string option"
  ct_cwd :: "string option"
  ct_model_provider :: "string option"
  ct_preview :: "string option"
  ct_created_at :: "u64 option"
  ct_updated_at :: "u64 option"
  ct_raw :: json

record codex_turn =
  tn_id :: "string option"
  tn_thread_id :: "string option"
  tn_created_at :: "u64 option"
  tn_updated_at :: "u64 option"
  tn_raw :: json

record codex_turn_page =
  pg_turns :: "codex_turn list"
  pg_next_cursor :: "string option"
  pg_backwards_cursor :: "string option"

record codex_raw_event =
  re_method :: string
  re_params :: json

record codex_pending_approval =
  pa_thread_id :: string
  pa_request_id :: string
  pa_method :: string
  pa_params :: json

record user_image_attachment =
  ia_path :: string

datatype codex_rpc_error =
    Transport string
  | InvalidResponse string string
  | Unsupported string

record json_rpc_request =
  rq_jsonrpc :: string
  rq_id :: u64
  rq_method :: string
  rq_params :: json

record rpc_client =
  next_request_id :: u64
  next_client_message_id :: u64
  sent_requests :: "json_rpc_request list"

type_synonym transport = "json_rpc_request list \<Rightarrow> json_rpc_request \<Rightarrow> codex_rpc_error + json"

type_synonym 'a rpc = "(rpc_client, codex_rpc_error, 'a) action"

definition new_client :: rpc_client where
  "new_client = \<lparr>next_request_id = 1, next_client_message_id = 1, sent_requests = []\<rparr>"

text \<open>\<open>fetch_add\<close> wraps around.\<close>

definition call :: "transport \<Rightarrow> string \<Rightarrow> json \<Rightarrow> json rpc" where
  "call tr mth params c =
     (let r = \<lparr>rq_jsonrpc = ''2.0'', rq_id = next_request_id c, rq_method = mth,
               rq_params = params\<rparr>
      in (tr (sent_requests c) r,
          c\<lparr>next_request_id := next_request_id c + 1, sent_requests := sent_requests c @ [r]\<rparr>))"

datatype cdp_rpc_response_mode = Full | CompactThread | Acknowledge

definition response_mode :: "string \<Rightarrow> cdp_rpc_response_mode" where
  "response_mode mth =
     (if mth = ''thread/resume'' then CompactThread
      else if mth = ''turn/start'' \<or> mth = ''codex-mobile/respond-approval'' then Acknowledge
      else Full)"

section \<open>Reading an answer\<close>

fun extract_array :: "json \<Rightarrow> string list \<Rightarrow> json list option" where
  "extract_array (JArray items) keys = Some items"
| "extract_array v keys = find_map (\<lambda>key. Option.bind (json_get key v) as_array) keys"

definition thread_id_keys :: "string list" where
  "thread_id_keys = [''id'', ''threadId'', ''thread_id'']"

definition extract_thread_value :: "json \<Rightarrow> json option" where
  "extract_thread_value v =
     (let identified = option_filter (\<lambda>w. string_field w thread_id_keys \<noteq> None) in
      or_else (identified (Some v))
      (or_else (identified (json_get ''data'' v))
      (or_else (identified (json_get ''result'' v))
      (or_else (json_get ''thread'' v)
      (or_else (json_pointer [''data'', ''thread''] v)
      (or_else (json_pointer [''result'', ''thread''] v)
      (json_get ''conversation'' v)))))))"

definition extract_turn_values :: "json \<Rightarrow> json list option" where
  "extract_turn_values v =
     (let array_at = (\<lambda>p. Option.bind (json_pointer p v) as_array) in
      or_else (extract_array v [''data'', ''turns'', ''messages''])
      (or_else (array_at [''thread'', ''turns''])
      (or_else (array_at [''data'', ''turns''])
      (or_else (array_at [''conversation'', ''turns''])
      (map_option (\<lambda>items. [json_object
           [(''items'', JArray items),
            (''createdAt'', unwrap_or JNull (json_get ''createdAt'' v)),
            (''updatedAt'', unwrap_or JNull (json_get ''updatedAt'' v))]])
        (array_at [''items''] ))))))"

definition cursor_field :: "json \<Rightarrow> string list \<Rightarrow> string option" where
  "cursor_field v keys =
     or_else (string_field v keys)
       (Option.bind (json_get ''result'' v) (\<lambda>result. string_field result keys))"

definition map_thread :: "json \<Rightarrow> codex_rpc_error + codex_thread" where
  "map_thread v =
     (case string_field v thread_id_keys of
        None \<Rightarrow> Inl (InvalidResponse ''thread/list'' ''thread id is missing'')
      | Some i \<Rightarrow> Inr
          \<lparr>ct_id = i,
           ct_title = string_field v [''title'', ''name''],
           ct_cwd = string_field v [''cwd'', ''workingDirectory'', ''working_directory''],
           ct_model_provider = string_field v [''modelProvider'', ''model_provider''],
           ct_preview = string_field v [''preview'', ''summary''],
           ct_created_at = number_field v [''createdAt'', ''created_at''],
           ct_updated_at =
             number_field v [''recencyAt'', ''recency_at'', ''updatedAt'', ''updated_at''],
           ct_raw = v\<rparr>)"

definition map_turn :: "json \<Rightarrow> codex_turn" where
  "map_turn v =
     \<lparr>tn_id = string_field v [''id'', ''turnId'', ''turn_id''],
      tn_thread_id = string_field v [''threadId'', ''thread_id''],
      tn_created_at = number_field v [''createdAt'', ''created_at'', ''startedAt'', ''started_at''],
      tn_updated_at =
        number_field v [''updatedAt'', ''updated_at'', ''completedAt'', ''completed_at''],
      tn_raw = v\<rparr>"

section \<open>Listing the threads\<close>

text \<open>The loop over the items of a page; the flag says that the list is full.\<close>

fun collect_threads ::
  "json list \<Rightarrow> string set \<Rightarrow> codex_thread list
    \<Rightarrow> codex_rpc_error + (bool \<times> string set \<times> codex_thread list)" where
  "collect_threads [] seen ts = Inr (False, seen, ts)"
| "collect_threads (item # items) seen ts =
     (case map_thread item of
        Inl e \<Rightarrow> Inl e
      | Inr t \<Rightarrow>
          if ct_id t \<in> seen then collect_threads items seen ts
          else if length (ts @ [t]) = MAX_THREAD_LIST_ITEMS
          then Inr (True, insert (ct_id t) seen, ts @ [t])
          else collect_threads items (insert (ct_id t) seen) (ts @ [t]))"

definition thread_list_params :: "string option \<Rightarrow> json" where
  "thread_list_params cursor =
     (let params = json_object
        [(''limit'', JPosInt (ucast THREAD_LIST_PAGE_SIZE)),
         (''sortKey'', JString ''recency_at''),
         (''sortDirection'', JString ''desc'')]
      in case cursor of None \<Rightarrow> params | Some c \<Rightarrow> json_insert ''cursor'' (JString c) params)"

definition thread_items :: "json \<Rightarrow> json list option" where
  "thread_items result = extract_array result [''data'', ''threads'', ''items'']"

definition next_page_cursor :: "json \<Rightarrow> string option" where
  "next_page_cursor result =
     option_filter (\<lambda>c. c \<noteq> []) (cursor_field result [''nextCursor'', ''next_cursor''])"

text \<open>The loop over the pages, with the number of pages it may still ask for.\<close>

fun list_pages ::
  "transport \<Rightarrow> nat \<Rightarrow> string option \<Rightarrow> string set \<Rightarrow> string set \<Rightarrow> codex_thread list
    \<Rightarrow> codex_thread list rpc" where
  "list_pages tr 0 cursor seen_cursors seen ts = ok ts"
| "list_pages tr (Suc n) cursor seen_cursors seen ts =
     bind_ok (call tr ''thread/list'' (thread_list_params cursor)) (\<lambda>result.
       case thread_items result of
         None \<Rightarrow> err (InvalidResponse ''thread/list'' ''missing thread array'')
       | Some items \<Rightarrow>
           (case collect_threads items seen ts of
              Inl e \<Rightarrow> err e
            | Inr (full, seen', ts') \<Rightarrow>
                if full then ok ts'
                else (case next_page_cursor result of
                   None \<Rightarrow> ok ts'
                 | Some c \<Rightarrow>
                     if c \<in> seen_cursors then ok ts'
                     else list_pages tr n (Some c) (insert c seen_cursors) seen' ts')))"

definition list_threads :: "transport \<Rightarrow> codex_thread list rpc" where
  "list_threads tr = list_pages tr MAX_THREAD_LIST_PAGES None {} {} []"

section \<open>The other operations\<close>

definition resume_thread :: "transport \<Rightarrow> string \<Rightarrow> codex_thread option rpc" where
  "resume_thread tr thread_id =
     bind_ok (call tr ''thread/resume'' (json_object [(''threadId'', JString thread_id)]))
       (\<lambda>result. case extract_thread_value result of
            None \<Rightarrow> ok None
          | Some v \<Rightarrow> (case map_thread v of Inl e \<Rightarrow> err e | Inr t \<Rightarrow> ok (Some t)))"

definition image_inputs :: "user_image_attachment list \<Rightarrow> json list" where
  "image_inputs attachments =
     map (\<lambda>a. json_object [(''type'', JString ''localImage''), (''path'', JString (ia_path a))])
       attachments"

definition turn_start_input :: "string \<Rightarrow> user_image_attachment list \<Rightarrow> json list" where
  "turn_start_input text attachments =
     (if blank text then []
      else [json_object [(''type'', JString ''text''), (''text'', JString text)]])
     @ image_inputs attachments"

definition host_conversation_input :: "string \<Rightarrow> user_image_attachment list \<Rightarrow> json list" where
  "host_conversation_input text attachments =
     (if blank text then []
      else [json_object [(''type'', JString ''text''), (''text'', JString text),
                         (''text_elements'', JArray [])]])
     @ image_inputs attachments"

definition start_thread ::
  "transport \<Rightarrow> string \<Rightarrow> string \<Rightarrow> user_image_attachment list \<Rightarrow> codex_thread rpc" where
  "start_thread tr cwd text attachments =
     bind_ok (call tr ''codex-mobile/start-conversation'' (json_object
       [(''input'', JArray (host_conversation_input text attachments)),
        (''cwd'', JString cwd),
        (''workspaceRoots'', JArray [JString cwd]),
        (''workspaceKind'', JString ''project''),
        (''collaborationMode'', JNull),
        (''serviceTier'', JNull),
        (''threadSource'', JString ''user''),
        (''approvalsReviewer'', JString ''user'')]))
     (\<lambda>result. case extract_thread_value result of
          None \<Rightarrow> err (InvalidResponse ''codex-mobile/start-conversation'' ''missing thread'')
        | Some v \<Rightarrow> (case map_thread v of Inl e \<Rightarrow> err e | Inr t \<Rightarrow> ok t))"

definition list_turns_page :: "transport \<Rightarrow> string \<Rightarrow> string option \<Rightarrow> codex_turn_page rpc" where
  "list_turns_page tr thread_id cursor =
     (let params = json_object [(''threadId'', JString thread_id)];
          params' = (case cursor of None \<Rightarrow> params
                     | Some c \<Rightarrow> json_insert ''cursor'' (JString c) params)
      in bind_ok (call tr ''thread/turns/list'' params') (\<lambda>result.
           case extract_turn_values result of
             None \<Rightarrow> err (InvalidResponse ''thread/turns/list'' ''missing turn array'')
           | Some items \<Rightarrow> ok
               \<lparr>pg_turns = map map_turn items,
                pg_next_cursor = cursor_field result [''nextCursor'', ''next_cursor''],
                pg_backwards_cursor =
                  cursor_field result [''backwardsCursor'', ''backwards_cursor'']\<rparr>))"

definition list_turns :: "transport \<Rightarrow> string \<Rightarrow> codex_turn list rpc" where
  "list_turns tr thread_id =
     bind_ok (list_turns_page tr thread_id None) (\<lambda>page. ok (pg_turns page))"

definition start_turn_without_resume ::
  "transport \<Rightarrow> string \<Rightarrow> string \<Rightarrow> user_image_attachment list \<Rightarrow> unit rpc" where
  "start_turn_without_resume tr thread_id text attachments =
     (\<lambda>c. let n = next_client_message_id c in
       bind_ok (call tr ''turn/start'' (json_object
         [(''threadId'', JString thread_id),
          (''clientUserMessageId'', JString (''codex-mobile-'' @ u64_to_string n)),
          (''input'', JArray (turn_start_input text attachments))]))
       (\<lambda>_. ok ()) (c\<lparr>next_client_message_id := n + 1\<rparr>))"

definition send_user_message ::
  "transport \<Rightarrow> string \<Rightarrow> string \<Rightarrow> user_image_attachment list \<Rightarrow> unit rpc" where
  "send_user_message tr thread_id text attachments =
     bind_ok (resume_thread tr thread_id)
       (\<lambda>_. start_turn_without_resume tr thread_id text attachments)"

text \<open>The decoder of a pending approval (\<open>serde_json::from_value\<close>) is a parameter.\<close>

fun decode_all :: "(json \<Rightarrow> codex_pending_approval option) \<Rightarrow> json list
    \<Rightarrow> codex_rpc_error + codex_pending_approval list" where
  "decode_all dec [] = Inr []"
| "decode_all dec (v # vs) =
     (case dec v of
        None \<Rightarrow> Inl (InvalidResponse ''codex-mobile/list-pending-approvals''
                       ''invalid pending approval'')
      | Some p \<Rightarrow> (case decode_all dec vs of Inl e \<Rightarrow> Inl e | Inr ps \<Rightarrow> Inr (p # ps)))"

definition list_pending_approvals ::
  "(json \<Rightarrow> codex_pending_approval option) \<Rightarrow> transport \<Rightarrow> codex_pending_approval list rpc" where
  "list_pending_approvals dec tr =
     bind_ok (call tr ''codex-mobile/list-pending-approvals'' (json_object [])) (\<lambda>result.
       case extract_array result [''approvals'', ''items''] of
         None \<Rightarrow> err (InvalidResponse ''codex-mobile/list-pending-approvals''
                        ''missing approval array'')
       | Some items \<Rightarrow> (case decode_all dec items of Inl e \<Rightarrow> err e | Inr ps \<Rightarrow> ok ps))"

definition subscribe_events :: "string option \<Rightarrow> unit rpc" where
  "subscribe_events thread_id = err (Unsupported ''subscribe_events'')"

fun decision_name :: "decision_kind \<Rightarrow> string" where
  "decision_name Approve = ''approve''"
| "decision_name Reject = ''reject''"

definition respond_approval :: "transport \<Rightarrow> string \<Rightarrow> approval_decision \<Rightarrow> unit rpc" where
  "respond_approval tr approval_id decision =
     bind_ok (call tr ''codex-mobile/respond-approval'' (json_object
       [(''approvalId'', JString approval_id),
        (''decision'', JString (decision_name (dec_decision decision)))]))
     (\<lambda>_. ok ())"

definition probe_turn_start :: "transport \<Rightarrow> string \<Rightarrow> unit rpc" where
  "probe_turn_start tr thread_id =
     bind_ok (call tr ''turn/start'' (json_object
       [(''threadId'', JString thread_id),
        (''clientUserMessageId'', JString ''codex-mobile-healthcheck''),
        (''input'', JArray []),
        (''dryRun'', JBool True)]))
     (\<lambda>_. ok ())"

section \<open>What a listing of threads returns\<close>

text \<open>The answers of the transport to a sequence of requests.\<close>

fun answers_of ::
  "transport \<Rightarrow> json_rpc_request list \<Rightarrow> json_rpc_request list \<Rightarrow> (codex_rpc_error + json) list" where
  "answers_of tr sent [] = []"
| "answers_of tr sent (r # rs) = tr sent r # answers_of tr (sent @ [r]) rs"

text \<open>The first thread of each identifier that is not in a set.\<close>

fun first_of_each :: "string set \<Rightarrow> codex_thread list \<Rightarrow> codex_thread list" where
  "first_of_each seen [] = []"
| "first_of_each seen (t # ts) =
     (if ct_id t \<in> seen then first_of_each seen ts
      else t # first_of_each (insert (ct_id t) seen) ts)"

definition thread_ids :: "codex_thread list \<Rightarrow> string set" where
  "thread_ids ts = ct_id ` set ts"

definition all_items :: "json list \<Rightarrow> json list" where
  "all_items answers = concat (map (\<lambda>a. unwrap_or [] (thread_items a)) answers)"

lemma thread_ids_simps [simp]:
  "thread_ids [] = {}" "thread_ids (t # ts) = insert (ct_id t) (thread_ids ts)"
  "thread_ids (ts @ us) = thread_ids ts \<union> thread_ids us"
  by (auto simp: thread_ids_def)

lemma first_of_each_append:
  "first_of_each seen (xs @ ys) = first_of_each seen xs @ first_of_each (seen \<union> thread_ids xs) ys"
  by (induction seen xs rule: first_of_each.induct) (auto simp: insert_absorb)

lemma first_of_each_ids: "seen \<union> thread_ids (first_of_each seen xs) = seen \<union> thread_ids xs"
  by (induction seen xs rule: first_of_each.induct) auto

lemma first_of_each_distinct:
  "distinct (map ct_id (first_of_each seen xs)) \<and> thread_ids (first_of_each seen xs) \<inter> seen = {}"
  by (induction seen xs rule: first_of_each.induct) (auto simp: thread_ids_def)

lemma collect_threads_exact:
  assumes "collect_threads items (thread_ids ts) ts = Inr (full, seen', ts')"
    and "length ts < MAX_THREAD_LIST_ITEMS"
  shows "\<exists>ms. map Inr ms = map map_thread (take (length ms) items)
    \<and> ts' = ts @ first_of_each (thread_ids ts) ms \<and> seen' = thread_ids ts'
    \<and> length ms \<le> length items
    \<and> (if full then length ts' = MAX_THREAD_LIST_ITEMS
       else length ts' < MAX_THREAD_LIST_ITEMS \<and> length ms = length items)"
  using assms
proof (induction items arbitrary: ts)
  case (Cons item items)
  obtain t where t: "map_thread item = Inr t"
    using Cons.prems(1) by (cases "map_thread item") auto
  consider (seen) "ct_id t \<in> thread_ids ts"
    | (full) "ct_id t \<notin> thread_ids ts" "length (ts @ [t]) = MAX_THREAD_LIST_ITEMS"
    | (more) "ct_id t \<notin> thread_ids ts" "length (ts @ [t]) \<noteq> MAX_THREAD_LIST_ITEMS"
    by blast
  then show ?case
  proof cases
    case seen
    with Cons.prems t have "collect_threads items (thread_ids ts) ts = Inr (full, seen', ts')"
      by simp
    from Cons.IH [OF this Cons.prems(2)] obtain ms where
      ms: "map Inr ms = map map_thread (take (length ms) items)"
        "ts' = ts @ first_of_each (thread_ids ts) ms" "seen' = thread_ids ts'"
        "length ms \<le> length items"
        "if full then length ts' = MAX_THREAD_LIST_ITEMS
         else length ts' < MAX_THREAD_LIST_ITEMS \<and> length ms = length items"
      by blast
    with seen t show ?thesis by (intro exI [of _ "t # ms"]) (auto split: if_splits)
  next
    case full
    with Cons.prems t show ?thesis by (intro exI [of _ "[t]"]) auto
  next
    case more
    have "collect_threads items (thread_ids (ts @ [t])) (ts @ [t]) = Inr (full, seen', ts')"
      using Cons.prems(1) t more by simp
    from Cons.IH [OF this] more Cons.prems(2) obtain ms where
      ms: "map Inr ms = map map_thread (take (length ms) items)"
        "ts' = (ts @ [t]) @ first_of_each (thread_ids (ts @ [t])) ms" "seen' = thread_ids ts'"
        "length ms \<le> length items"
        "if full then length ts' = MAX_THREAD_LIST_ITEMS
         else length ts' < MAX_THREAD_LIST_ITEMS \<and> length ms = length items"
      by fastforce
    with more t show ?thesis by (intro exI [of _ "t # ms"]) (auto split: if_splits)
  qed
qed simp

text \<open>The requests of a listing: one for each page, at most as many as the loop may ask for.\<close>

lemma call_run: "call tr mth params c = (r, c') \<Longrightarrow>
    \<exists>q. rq_id q = next_request_id c \<and> rq_method q = mth \<and> rq_params q = params
      \<and> sent_requests c' = sent_requests c @ [q] \<and> next_request_id c' = next_request_id c + 1
      \<and> r = tr (sent_requests c) q"
  by (auto simp: call_def Let_def)

definition asked :: "json_rpc_request list \<Rightarrow> bool" where
  "asked qs \<longleftrightarrow> (\<forall>q \<in> set qs. rq_method q = ''thread/list'')"

lemma list_pages_requests:
  "list_pages tr n cursor seen_cursors seen ts c = (r, c') \<Longrightarrow>
     \<exists>qs. sent_requests c' = sent_requests c @ qs \<and> length qs \<le> n \<and> asked qs
       \<and> next_request_id c' = next_request_id c + of_nat (length qs)"
proof (induction n arbitrary: cursor seen_cursors seen ts c)
  case 0
  then show ?case by (simp add: action_simps asked_def)
next
  case (Suc n)
  obtain a c1 where call: "call tr ''thread/list'' (thread_list_params cursor) c = (a, c1)"
    by fastforce
  obtain q where q: "rq_method q = ''thread/list''" "sent_requests c1 = sent_requests c @ [q]"
      "next_request_id c1 = next_request_id c + 1"
    using call_run [OF call] by blast
  have one: "\<exists>qs. sent_requests c1 = sent_requests c @ qs \<and> length qs \<le> Suc n \<and> asked qs
       \<and> next_request_id c1 = next_request_id c + of_nat (length qs)"
    using q by (intro exI [of _ "[q]"]) (simp add: asked_def)
  have more: "\<exists>qs. sent_requests c' = sent_requests c @ qs \<and> length qs \<le> Suc n \<and> asked qs
       \<and> next_request_id c' = next_request_id c + of_nat (length qs)"
    if "list_pages tr n cursor' sc' seen' ts' c1 = (r, c')" for cursor' sc' seen' ts'
  proof -
    from Suc.IH [OF that] obtain qs where
      "sent_requests c' = sent_requests c1 @ qs" "length qs \<le> n" "asked qs"
      "next_request_id c' = next_request_id c1 + of_nat (length qs)" by blast
    with q show ?thesis by (intro exI [of _ "q # qs"]) (auto simp: asked_def)
  qed
  show ?case
    using Suc.prems call one more
    by (auto simp: action_simps split: sum.splits option.splits if_splits)
qed

text \<open>
  A listing reads a chain of pages: each answer after the first is to a request with the cursor of
  the answer before it, no cursor is followed twice, and the chain ends where the list is full,
  where there is no new cursor, or where the loop may not ask again.
\<close>

definition page_chain ::
  "transport \<Rightarrow> json_rpc_request list \<Rightarrow> string option \<Rightarrow> string set
    \<Rightarrow> json_rpc_request list \<Rightarrow> json list \<Rightarrow> bool" where
  "page_chain tr sent cursor followed qs as \<longleftrightarrow>
     answers_of tr sent qs = map Inr as \<and> as \<noteq> [] \<and>
     map rq_params qs = map thread_list_params (cursor # map next_page_cursor (butlast as)) \<and>
     None \<notin> set (map next_page_cursor (butlast as)) \<and>
     distinct (map next_page_cursor (butlast as)) \<and>
     set (map next_page_cursor (butlast as)) \<inter> Some ` followed = {}"

definition chain_ends :: "string set \<Rightarrow> json list \<Rightarrow> bool" where
  "chain_ends followed as \<longleftrightarrow>
     next_page_cursor (last as) = None \<or>
     next_page_cursor (last as) \<in> Some ` followed \<union> set (map next_page_cursor (butlast as))"

lemma page_chain_one:
  "tr sent q = Inr a \<Longrightarrow> rq_params q = thread_list_params cursor \<Longrightarrow>
     page_chain tr sent cursor followed [q] [a]"
  by (simp add: page_chain_def)

lemma page_chain_Cons:
  assumes "tr sent q = Inr a" and "rq_params q = thread_list_params cursor"
    and "next_page_cursor a = Some c" and "c \<notin> followed"
    and "page_chain tr (sent @ [q]) (Some c) (insert c followed) qs as"
  shows "page_chain tr sent cursor followed (q # qs) (a # as)"
  using assms by (auto simp: page_chain_def)

lemma chain_ends_Cons:
  assumes "next_page_cursor a = Some c" and "as \<noteq> []"
    and "chain_ends (insert c followed) as"
  shows "chain_ends followed (a # as)"
  using assms by (auto simp: chain_ends_def)

lemma list_pages_exact:
  assumes "list_pages tr n cursor followed (thread_ids ts) ts c = (Inr r, c')"
    and "length ts < MAX_THREAD_LIST_ITEMS" and "0 < n"
  shows "\<exists>qs as ms. sent_requests c' = sent_requests c @ qs
    \<and> page_chain tr (sent_requests c) cursor followed qs as
    \<and> map Inr ms = map map_thread (take (length ms) (all_items as))
    \<and> r = ts @ first_of_each (thread_ids ts) ms \<and> length r \<le> MAX_THREAD_LIST_ITEMS
    \<and> (length r = MAX_THREAD_LIST_ITEMS \<or>
       length ms = length (all_items as) \<and> (length qs = n \<or> chain_ends followed as))"
  using assms
proof (induction n arbitrary: cursor followed ts c)
  case (Suc n)
  obtain a c1 where call: "call tr ''thread/list'' (thread_list_params cursor) c = (Inr a, c1)"
    using Suc.prems(1) by (auto simp: action_simps split: prod.splits sum.splits)
  obtain q where q: "rq_params q = thread_list_params cursor"
      "sent_requests c1 = sent_requests c @ [q]" "tr (sent_requests c) q = Inr a"
    using call_run [OF call] by metis
  obtain items full seen' ts' where it: "thread_items a = Some items"
      and col: "collect_threads items (thread_ids ts) ts = Inr (full, seen', ts')"
    using Suc.prems(1) call
    by (auto simp: action_simps split: option.splits sum.splits)
  obtain ms where ms: "map Inr ms = map map_thread (take (length ms) items)"
      "ts' = ts @ first_of_each (thread_ids ts) ms" "seen' = thread_ids ts'"
      "length ms \<le> length items"
      "if full then length ts' = MAX_THREAD_LIST_ITEMS
       else length ts' < MAX_THREAD_LIST_ITEMS \<and> length ms = length items"
    using collect_threads_exact [OF col Suc.prems(2)] by blast
  have one: "page_chain tr (sent_requests c) cursor followed [q] [a]"
    by (rule page_chain_one) (fact q(3), fact q(1))
  have here: ?case if "r = ts'" and "c' = c1" and "full \<or> chain_ends followed [a]"
    using that q(2) one ms it
    by (intro exI [of _ "[q]"] exI [of _ "[a]"] exI [of _ ms])
      (auto simp: all_items_def split: if_splits)
  show ?case
  proof (cases "full \<or> chain_ends followed [a]")
    case True
    then have "r = ts' \<and> c' = c1"
      using Suc.prems(1) call it col
      by (auto simp: action_simps chain_ends_def split: option.splits if_splits)
    with True here show ?thesis by blast
  next
    case False
    then obtain d where d: "next_page_cursor a = Some d" "d \<notin> followed" "\<not> full"
      by (auto simp: chain_ends_def)
    with Suc.prems(1) call it col ms(3)
    have run: "list_pages tr n (Some d) (insert d followed) (thread_ids ts') ts' c1 = (Inr r, c')"
      by (auto simp: action_simps)
    show ?thesis
    proof (cases n)
      case 0
      with run have "r = ts' \<and> c' = c1" by (simp add: action_simps)
      with 0 q(2) one ms it d show ?thesis
        by (intro exI [of _ "[q]"] exI [of _ "[a]"] exI [of _ ms]) (auto simp: all_items_def)
    next
      case (Suc m)
      have pre: "length ts' < MAX_THREAD_LIST_ITEMS" "0 < n" using ms(5) d(3) Suc by simp_all
      obtain qs as ms' where
        rest: "sent_requests c' = sent_requests c1 @ qs"
          "page_chain tr (sent_requests c1) (Some d) (insert d followed) qs as"
          "map Inr ms' = map map_thread (take (length ms') (all_items as))"
          "r = ts' @ first_of_each (thread_ids ts') ms'" "length r \<le> MAX_THREAD_LIST_ITEMS"
          "length r = MAX_THREAD_LIST_ITEMS \<or>
           length ms' = length (all_items as) \<and> (length qs = n \<or> chain_ends (insert d followed) as)"
        using Suc.IH [OF run pre] by blast
      have ne: "as \<noteq> []" using rest(2) by (simp add: page_chain_def)
      have len: "length ms = length items" "map Inr ms = map map_thread items"
        using ms d by simp_all
      have ids: "thread_ids ts' = thread_ids ts \<union> thread_ids ms"
        using ms(2) by (simp add: first_of_each_ids)
      have "page_chain tr (sent_requests c) cursor followed (q # qs) (a # as)"
        by (rule page_chain_Cons [of tr "sent_requests c" q a cursor d])
          (use q d rest(2) in simp_all)
      moreover have "chain_ends followed (a # as)" if "chain_ends (insert d followed) as"
        using chain_ends_Cons [OF d(1) ne that] .
      moreover have "all_items (a # as) = items @ all_items as"
        using it by (simp add: all_items_def)
      moreover have "r = ts @ first_of_each (thread_ids ts) (ms @ ms')"
        using rest(4) ms(2) ids by (simp add: first_of_each_append)
      ultimately show ?thesis
        using rest q(2) len by (intro exI [of _ "q # qs"] exI [of _ "a # as"] exI [of _ "ms @ ms'"]) auto
    qed
  qed
qed simp

text \<open>
  A successful listing of the threads asks for at most 20 pages along the chain of cursors the
  answers give, without following a cursor twice, and stops before the 20th only where the chain
  ends or the list is full. Its result is exactly the first thread of each identifier, in the order
  of the pages, of the items it read: no identifier twice, at most 2000 threads, and no item left
  out unless there are 2000.
\<close>

lemma list_threads_exact:
  assumes "list_threads tr c = (Inr ts, c')"
  shows "\<exists>qs as ms. sent_requests c' = sent_requests c @ qs \<and> length qs \<le> 20 \<and> asked qs
    \<and> page_chain tr (sent_requests c) None {} qs as
    \<and> map Inr ms = map map_thread (take (length ms) (all_items as))
    \<and> ts = first_of_each {} ms \<and> distinct (map ct_id ts) \<and> length ts \<le> 2000
    \<and> (length ts = 2000 \<or>
       length ms = length (all_items as) \<and> (length qs = 20 \<or> chain_ends {} as))"
proof -
  have m: "MAX_THREAD_LIST_ITEMS = 2000" "MAX_THREAD_LIST_PAGES = 20"
    by (simp_all add: MAX_THREAD_LIST_ITEMS_def MAX_THREAD_LIST_PAGES_def THREAD_LIST_PAGE_SIZE_def)
  have run: "list_pages tr 20 None {} (thread_ids []) [] c = (Inr ts, c')"
    using assms by (simp add: list_threads_def m)
  obtain qs as ms where l: "sent_requests c' = sent_requests c @ qs"
      "page_chain tr (sent_requests c) None {} qs as"
      "map Inr ms = map map_thread (take (length ms) (all_items as))"
      "ts = first_of_each {} ms" "length ts \<le> 2000"
      "length ts = 2000 \<or>
       length ms = length (all_items as) \<and> (length qs = 20 \<or> chain_ends {} as)"
    using list_pages_exact [OF run] by (auto simp: m)
  moreover have "length qs \<le> 20 \<and> asked qs"
    using list_pages_requests [OF run] l(1) by auto
  moreover have "distinct (map ct_id ts)" using first_of_each_distinct l(4) by blast
  ultimately show ?thesis by blast
qed

definition listed :: "string \<Rightarrow> json" where
  "listed i = JObject [(''id'', JString i)]"

definition two_pages :: transport where
  "two_pages sent q =
     (if sent = [] then Inr (JObject [(''data'', JArray [listed ''a'', listed ''b'']),
                                      (''nextCursor'', JString ''n'')])
      else Inr (JObject [(''data'', JArray [listed ''b'', listed ''c'']),
                         (''nextCursor'', JString ''n'')]))"

end
