(* ===== verification/Alert_Monitor.thy ===== *)
theory Alert_Monitor
  imports Alert_Detector Notification_Dispatcher Codex_Rpc
begin

text \<open>
  \<open>crates/bridge-core/src/alert_monitor.rs\<close>: the loop that reads the threads from Codex, runs the
  detector on each against its stored state, stores the new state and dispatches the alerts. What
  the Codex adapter answers is a parameter of the cycle (\<open>threads\<close>, \<open>approvals\<close>), and so is
  \<open>snapshot_of\<close>, the normaliser's snapshot of a thread.
\<close>

record alert_monitor_config =
  active_poll :: nat
  idle_poll :: nat
  max_error_backoff :: nat

text \<open>Durations in milliseconds.\<close>

definition default_monitor_config :: alert_monitor_config where
  "default_monitor_config =
     \<lparr>active_poll = 5000, idle_poll = 30000, max_error_backoff = 30000\<rparr>"

datatype monitor_error = AdapterFailed | BridgeFailed bridge_error

record 'thread codex_answers =
  threads :: "monitor_error + 'thread list"
  approvals :: "monitor_error + codex_pending_approval list"

definition approvals_by_thread :: "codex_pending_approval list \<Rightarrow> string \<Rightarrow> string list" where
  "approvals_by_thread as tid = map pa_request_id (filter (\<lambda>a. pa_thread_id a = tid) as)"

definition is_active_status :: "session_status \<Rightarrow> bool" where
  "is_active_status st \<longleftrightarrow> st \<in> {Running, WaitingForInput, WaitingForApproval, StatusError}"

text \<open>What the parameters of the store and the dispatcher are, together.\<close>

record codecs =
  sha256_hex :: "string \<Rightarrow> string"
  ids_to_json :: "string list \<Rightarrow> string"
  ids_from_json :: "string \<Rightarrow> string list option"
  payload_to_json :: "push_payload \<Rightarrow> string option"

text \<open>The locked part of one thread: read, detect, store.\<close>

definition observe_thread ::
  "codecs \<Rightarrow> session_snapshot \<Rightarrow> string list \<Rightarrow> ('json bridge, bridge_error, alert_event list) action" where
  "observe_thread c snap native =
     bind_ok (on_notification_store (alert_state_for_thread (ids_from_json c) (snap_thread_id snap))) (\<lambda>previous.
       let r = detect_alerts (sha256_hex c) previous snap native
       in if ignored_as_stale r then ok (det_events r)
          else then_ok (on_notification_store (save_alert_state (ids_to_json c) (next_state r))) (ok (det_events r)))"

primrec dispatch_all ::
  "codecs \<Rightarrow> (string \<Rightarrow> u64) \<Rightarrow> bool \<Rightarrow> alert_event list \<Rightarrow> ('json bridge, bridge_error, unit) action" where
  "dispatch_all c now has_runtime [] = ok ()"
| "dispatch_all c now has_runtime (ev # evs) =
     bind_ok (dispatch (payload_to_json c) now has_runtime ev) (\<lambda>_. dispatch_all c now has_runtime evs)"

primrec observe_all ::
  "codecs \<Rightarrow> (string \<Rightarrow> u64) \<Rightarrow> bool \<Rightarrow> (string \<Rightarrow> string list) \<Rightarrow> session_snapshot list \<Rightarrow>
   ('json bridge, bridge_error, unit) action" where
  "observe_all c now has_runtime native [] = ok ()"
| "observe_all c now has_runtime native (snap # snaps) =
     bind_ok (observe_thread c snap (native (snap_thread_id snap))) (\<lambda>evs.
       then_ok (dispatch_all c now has_runtime evs) (observe_all c now has_runtime native snaps))"

text \<open>A cycle in two parts: the settings of the enabled devices, and the rest, which needs one.\<close>

definition enabled_cycle ::
  "codecs \<Rightarrow> ('thread \<Rightarrow> session_snapshot) \<Rightarrow> alert_monitor_config \<Rightarrow> (string \<Rightarrow> u64) \<Rightarrow> bool \<Rightarrow>
   'thread codex_answers \<Rightarrow> device_notification_settings list \<Rightarrow>
   ('json bridge, monitor_error, nat) action" where
  "enabled_cycle c snapshot_of cfg now has_runtime answers enabled =
     (case threads answers of
        Inl e \<Rightarrow> err e
      | Inr ts \<Rightarrow>
          (case (if list_ex (\<lambda>st. kind_approval_required (alert_kinds st)) enabled
                 then approvals answers else Inr []) of
             Inl e \<Rightarrow> err e
           | Inr as \<Rightarrow>
               let snaps = map snapshot_of ts
               in then_ok (map_err BridgeFailed
                    (observe_all c now has_runtime (approvals_by_thread as) snaps))
                  (ok (if list_ex (\<lambda>s. is_active_status (snap_status s)) snaps
                       then active_poll cfg else idle_poll cfg))))"

definition run_cycle ::
  "codecs \<Rightarrow> ('thread \<Rightarrow> session_snapshot) \<Rightarrow> alert_monitor_config \<Rightarrow> (string \<Rightarrow> u64) \<Rightarrow> bool \<Rightarrow>
   'thread codex_answers \<Rightarrow> ('json bridge, monitor_error, nat) action" where
  "run_cycle c snapshot_of cfg now has_runtime answers =
     bind_ok (map_err BridgeFailed (on_notification_store enabled_settings)) (\<lambda>enabled.
       if enabled = [] then ok (idle_poll cfg)
       else enabled_cycle c snapshot_of cfg now has_runtime answers enabled)"

text \<open>One turn of \<open>run\<close>: the count of failures in a row, and the delay before the next turn.\<close>

definition after_cycle :: "alert_monitor_config \<Rightarrow> monitor_error + nat \<Rightarrow> u32 \<Rightarrow> u32 \<times> nat" where
  "after_cycle cfg outcome failures =
     (case outcome of
        Inr delay \<Rightarrow> (0, delay)
      | Inl _ \<Rightarrow>
          let failures' = saturating_add failures 1;
              seconds = saturating_mul (5 :: u64)
                (push_bit (min (unat (saturating_sub failures' 1)) 3) 1)
          in (failures', min (unat seconds * 1000) (max_error_backoff cfg)))"

section \<open>The monitor against a map of alert states\<close>

text \<open>The abstract monitor: the stored states as a map, no database, no failures.\<close>

definition remember ::
  "detection_result \<Rightarrow> string \<Rightarrow> (string \<rightharpoonup> session_alert_state) \<Rightarrow> (string \<rightharpoonup> session_alert_state)" where
  "remember r tid m = (if ignored_as_stale r then m else m(tid \<mapsto> next_state r))"

fun observe_spec ::
  "(string \<Rightarrow> string) \<Rightarrow> (string \<Rightarrow> string list) \<Rightarrow> session_snapshot list \<Rightarrow>
   (string \<rightharpoonup> session_alert_state) \<Rightarrow> alert_event list \<times> (string \<rightharpoonup> session_alert_state)" where
  "observe_spec sha native [] m = ([], m)"
| "observe_spec sha native (snap # snaps) m =
     (let tid = snap_thread_id snap; r = detect_alerts sha (m tid) snap (native tid)
      in case observe_spec sha native snaps (remember r tid m) of
           (evs, m') \<Rightarrow> (det_events r @ evs, m'))"

definition alert_view :: "codecs \<Rightarrow> db \<Rightarrow> string \<rightharpoonup> session_alert_state" where
  "alert_view c s tid =
     (case row_lookup as_thread_id tid (alert_states s) of
        None \<Rightarrow> None
      | Some r \<Rightarrow> (case alert_state_from_row (ids_from_json c) r of Inl _ \<Rightarrow> None | Inr st \<Rightarrow> Some st))"

text \<open>What the JSON codec of a list of strings promises.\<close>

definition codec_ok :: "codecs \<Rightarrow> bool" where
  "codec_ok c \<longleftrightarrow> (\<forall>ids. ids_from_json c (ids_to_json c ids) = Some ids)"

lemma alert_state_row_round_trip:
  assumes "codec_ok c"
  shows "alert_state_from_row (ids_from_json c) (alert_state_to_row (ids_to_json c) st) = Inr st"
  using assms by (simp add: codec_ok_def alert_state_from_row_def alert_state_to_row_def)

lemma alert_state_for_thread_ok:
  assumes "alert_state_for_thread (ids_from_json c) tid s = (Inr previous, s')"
  shows "previous = alert_view c s tid" and "same_tables s' s"
  using assms
  by (auto simp: alert_state_for_thread_def sql_call_def Let_def alert_view_def
      split: if_splits option.splits sum.splits)

lemma save_alert_state_ok:
  assumes "save_alert_state (ids_to_json c) st s = (Inr (), s')" and "codec_ok c"
  shows "alert_view c s' = (alert_view c s)(as_thread_id st \<mapsto> st)"
    and "devices s' = devices s" and "device_settings s' = device_settings s"
  using assms alert_state_row_round_trip [OF assms(2), of st]
  by (auto simp: save_alert_state_def sql_write_ok alert_view_def fun_eq_iff row_lookup_upsert
      alert_state_to_row_def split: option.splits)

lemma alert_view_states: "alert_states s = alert_states t \<Longrightarrow> alert_view c s = alert_view c t"
  by (simp add: alert_view_def fun_eq_iff)

lemma detect_thread_id:
  "\<not> ignored_as_stale (detect_alerts sha p snap native) \<Longrightarrow>
     as_thread_id (next_state (detect_alerts sha p snap native)) = snap_thread_id snap"
  by (auto simp: detect_alerts_def observed_state_def Let_def split: option.splits if_splits)

lemma on_notification_store_maintains [maintains_intros]:
  "maintains P f \<Longrightarrow> maintains (\<lambda>w. P (store_db w)) (on_notification_store f)"
  by (auto simp: maintains_def on_notification_store_def split: prod.splits sum.splits)

text \<open>A property of the database that its three statements keep is kept by a dispatch.\<close>

lemma enqueue_push_store:
  assumes "\<And>did. maintains P (active_subscription did)" and "\<And>d. maintains P (enqueue_delivery d)"
  shows "maintains (\<lambda>w. P (store_db w)) (enqueue_push to_json now rt st ev forced acc)"
proof -
  have "maintains (\<lambda>w :: 'a bridge. P (store_db w))
      (\<lambda>w. (Inr enqueued, if enqueued then w\<lparr>wakes := wakes w + 1\<rparr> else w))" for enqueued
    by (simp add: maintains_def)
  then show ?thesis unfolding enqueue_push_def
    by (auto intro!: maintains_intros assms split: option.split)
qed

lemma send_alert_store: "maintains (\<lambda>w. P (store_db w)) (send_alert did ev)"
  by (auto simp: maintains_def send_alert_def split: prod.splits)

lemma dispatch_loop_store:
  assumes "\<And>did. maintains P (active_subscription did)" and "\<And>d. maintains P (enqueue_delivery d)"
  shows "maintains (\<lambda>w. P (store_db w)) (dispatch_loop to_json now rt ev acc sts n)"
  by (induction sts arbitrary: n)
    (auto intro!: maintains_intros enqueue_push_store send_alert_store assms)

lemma dispatch_store:
  assumes "maintains P enabled_settings"
    and "\<And>did. maintains P (active_subscription did)" and "\<And>d. maintains P (enqueue_delivery d)"
  shows "maintains (\<lambda>w. P (store_db w)) (dispatch to_json now rt ev)"
proof -
  have "maintains (\<lambda>w :: 'a bridge. P (store_db w))
      (bind_ok (on_notification_store enabled_settings) (\<lambda>sts. dispatch_loop to_json now rt ev acc
        (filter (\<lambda>st. kind_enabled st (al_kind ev)) sts) 0))" for acc
    by (intro maintains_intros dispatch_loop_store assms)
  then show ?thesis by (simp add: maintains_def dispatch_def Let_def)
qed

lemma dispatch_inv [maintains_intros]:
  "maintains (\<lambda>w. store_inv (store_db w)) (dispatch to_json now rt ev)"
  by (intro dispatch_store maintains_intros)

text \<open>The envelopes that a list of alerts sends, to the devices that want each of them.\<close>

definition alert_log :: "db \<Rightarrow> alert_event list \<Rightarrow> 'json published_event list" where
  "alert_log s evs =
     concat (map (\<lambda>ev. map (alert_envelope ev)
       (filter (\<lambda>st. kind_enabled st (al_kind ev)) (enabled_rows s))) evs)"

lemma alert_log_append: "alert_log s (xs @ ys) = alert_log s xs @ alert_log s ys"
  by (simp add: alert_log_def)

lemma enabled_rows_cong:
  "devices s = devices t \<Longrightarrow> device_settings s = device_settings t \<Longrightarrow> enabled_rows s = enabled_rows t"
  by (simp add: enabled_rows_def device_is_active_def)

lemma alert_log_cong:
  "devices s = devices t \<Longrightarrow> device_settings s = device_settings t \<Longrightarrow> alert_log s evs = alert_log t evs"
  by (simp add: alert_log_def enabled_rows_cong [of s t])

lemma dispatch_all_effect:
  assumes "store_inv (store_db w)" and "dispatch_all c now rt evs w = (Inr (), w')"
  shows "store_inv (store_db w') \<and> untouched w w' \<and>
         sent (alert_hub w') = sent (alert_hub w) @ alert_log (store_db w) evs"
  using assms
proof (induction evs arbitrary: w)
  case Nil
  then show ?case by (simp add: ok_def untouched_def alert_log_def)
next
  case (Cons ev evs)
  obtain n w1 where d: "dispatch (payload_to_json c) now rt ev w = (Inr n, w1)"
    and rest: "dispatch_all c now rt evs w1 = (Inr (), w')"
    using Cons.prems(2) by (auto elim!: bind_ok_okE)
  have inv1: "store_inv (store_db w1)"
    using maintainsD [OF dispatch_inv d] Cons.prems(1) by simp
  note eff = dispatch_exact [OF Cons.prems(1) d]
  have u: "untouched w w1" using eff by blast
  note IH = Cons.IH [OF inv1 rest]
  have "alert_log (store_db w1) evs = alert_log (store_db w) evs"
    using u by (intro alert_log_cong) (simp_all add: untouched_def)
  with IH eff untouched_trans [OF u] show ?case by (simp add: alert_log_def)
qed

lemma observe_thread_effect:
  assumes "store_inv (store_db w)" and "codec_ok c"
    and "observe_thread c snap native w = (Inr evs, w')"
  defines "r \<equiv> detect_alerts (sha256_hex c) (alert_view c (store_db w) (snap_thread_id snap)) snap native"
  shows "evs = det_events r"
    and "alert_view c (store_db w') = remember r (snap_thread_id snap) (alert_view c (store_db w))"
    and "store_inv (store_db w')" and "alert_hub w' = alert_hub w"
    and "devices (store_db w') = devices (store_db w)"
    and "device_settings (store_db w') = device_settings (store_db w)"
proof -
  obtain previous s1 where
    g: "alert_state_for_thread (ids_from_json c) (snap_thread_id snap) (store_db w) = (Inr previous, s1)"
    and rest: "(let r = detect_alerts (sha256_hex c) previous snap native
       in if ignored_as_stale r then ok (det_events r)
          else then_ok (on_notification_store (save_alert_state (ids_to_json c) (next_state r))) (ok (det_events r)))
       (w\<lparr>store_db := s1\<rparr>) = (Inr evs, w')"
    using assms(3) by (auto simp: observe_thread_def on_notification_store_ok elim!: bind_ok_okE)
  have p: "previous = alert_view c (store_db w) (snap_thread_id snap)"
    and s1: "same_tables s1 (store_db w)"
    using alert_state_for_thread_ok [OF g] by simp_all
  note fr = same_tables_frame [OF s1]
  have v1: "alert_view c s1 = alert_view c (store_db w)" using fr by (intro alert_view_states) simp
  have inv1: "store_inv s1" using maintainsD [OF alert_state_for_thread_inv g] assms(1) .
  have r: "detect_alerts (sha256_hex c) previous snap native = r" by (simp add: r_def p)
  have "evs = det_events r \<and>
      alert_view c (store_db w') = remember r (snap_thread_id snap) (alert_view c (store_db w)) \<and>
      store_inv (store_db w') \<and> alert_hub w' = alert_hub w \<and>
      devices (store_db w') = devices (store_db w) \<and>
      device_settings (store_db w') = device_settings (store_db w)"
  proof (cases "ignored_as_stale r")
    case True
    then have "evs = det_events r" "w' = w\<lparr>store_db := s1\<rparr>" using rest by (auto simp: Let_def r ok_def)
    then show ?thesis using True v1 inv1 fr by (simp add: remember_def)
  next
    case False
    then obtain s2 where sv: "save_alert_state (ids_to_json c) (next_state r) s1 = (Inr (), s2)"
      and w': "evs = det_events r" "w' = w\<lparr>store_db := s2\<rparr>"
      using rest by (auto simp: Let_def r on_notification_store_ok ok_def elim!: then_ok_okE)
    have "as_thread_id (next_state r) = snap_thread_id snap"
      using False unfolding r_def by (rule detect_thread_id)
    then have "alert_view c s2 = (alert_view c (store_db w))(snap_thread_id snap \<mapsto> next_state r)"
      using save_alert_state_ok(1) [OF sv assms(2)] v1 by simp
    moreover have "store_inv s2" using maintainsD [OF save_alert_state_inv sv] inv1 .
    ultimately show ?thesis
      using False w' fr save_alert_state_ok(2,3) [OF sv assms(2)] by (simp add: remember_def)
  qed
  then show "evs = det_events r"
    "alert_view c (store_db w') = remember r (snap_thread_id snap) (alert_view c (store_db w))"
    "store_inv (store_db w')" "alert_hub w' = alert_hub w"
    "devices (store_db w') = devices (store_db w)"
    "device_settings (store_db w') = device_settings (store_db w)" by blast+
qed

lemma observe_all_effect:
  assumes "codec_ok c" and "store_inv (store_db w)"
    and "observe_all c now rt native snaps w = (Inr (), w')"
    and "observe_spec (sha256_hex c) native snaps (alert_view c (store_db w)) = (evs, m)"
  shows "alert_view c (store_db w') = m \<and>
         sent (alert_hub w') = sent (alert_hub w) @ alert_log (store_db w) evs"
  using assms(2-)
proof (induction snaps arbitrary: w evs)
  case Nil
  then show ?case by (simp add: ok_def alert_log_def)
next
  case (Cons snap snaps)
  let ?tid = "snap_thread_id snap"
  let ?r = "detect_alerts (sha256_hex c) (alert_view c (store_db w) ?tid) snap (native ?tid)"
  obtain evs1 w1 w2 where o: "observe_thread c snap (native ?tid) w = (Inr evs1, w1)"
    and d: "dispatch_all c now rt evs1 w1 = (Inr (), w2)"
    and rest: "observe_all c now rt native snaps w2 = (Inr (), w')"
    using Cons.prems(2) by (auto elim!: bind_ok_okE then_ok_okE)
  note oe = observe_thread_effect [OF Cons.prems(1) assms(1) o]
  note de = dispatch_all_effect [OF oe(3) d]
  have v2: "alert_view c (store_db w2) = remember ?r ?tid (alert_view c (store_db w))"
    using de oe(2) alert_view_states [of "store_db w2" "store_db w1" c] by (simp add: untouched_def)
  obtain evs2 where e2: "observe_spec (sha256_hex c) native snaps (alert_view c (store_db w2)) = (evs2, m)"
    and evs: "evs = evs1 @ evs2"
    using Cons.prems(3) oe(1) v2 by (auto simp: Let_def split: prod.splits)
  have t: "devices (store_db w1) = devices (store_db w)"
    "device_settings (store_db w1) = device_settings (store_db w)"
    "devices (store_db w2) = devices (store_db w)"
    "device_settings (store_db w2) = device_settings (store_db w)"
    using oe(5,6) de by (simp_all add: untouched_def)
  from Cons.IH [OF _ rest e2] de oe(4) evs show ?case
    by (simp add: alert_log_append alert_log_cong [OF t(1,2)] alert_log_cong [OF t(3,4)])
qed

lemma map_err_on_notification_store_ok:
  "map_err BridgeFailed (on_notification_store f) w = (Inr a, w') \<Longrightarrow>
     \<exists>s. f (store_db w) = (Inr a, s) \<and> w' = w\<lparr>store_db := s\<rparr>"
  by (auto simp: map_err_run on_notification_store_def split: prod.splits sum.splits)

lemma map_err_ok: "map_err g m s = (Inr a, s') \<Longrightarrow> m s = (Inr a, s')"
  by (auto simp: map_err_run split: prod.splits sum.splits)

lemma enabled_cycle_ok:
  assumes "enabled_cycle c snapshot_of cfg now rt answers enabled w = (Inr delay, w')"
  obtains ts as where "threads answers = Inr ts"
    and "(if \<exists>st \<in> set enabled. kind_approval_required (alert_kinds st) then approvals answers else Inr []) = Inr as"
    and "observe_all c now rt (approvals_by_thread as) (map snapshot_of ts) w = (Inr (), w')"
    and "delay = (if \<exists>t \<in> set ts. is_active_status (snap_status (snapshot_of t))
              then active_poll cfg else idle_poll cfg)"
proof (cases "threads answers")
  case (Inl e)
  with assms show thesis by (simp add: enabled_cycle_def err_def)
next
  case (Inr ts)
  show thesis
  proof (cases "if list_ex (\<lambda>st. kind_approval_required (alert_kinds st)) enabled
      then approvals answers else Inr []")
    case (Inl e)
    with assms Inr show thesis by (simp add: enabled_cycle_def err_def)
  next
    case (Inr as)
    with assms \<open>threads answers = Inr ts\<close> show thesis
      by (intro that [of ts as])
        (auto simp: enabled_cycle_def Let_def ok_def list_ex_iff elim!: then_ok_okE dest!: map_err_ok
          split: if_splits)
  qed
qed

section \<open>Properties\<close>

text \<open>
  C7. The monitor implements the abstract monitor. A successful cycle over the threads Codex
  reported, with at least one device that wants alerts, and over the approvals Codex listed where one of
  the devices wants approval alerts, over none where no device does, leaves in the database exactly the
  alert states of the abstract map-based monitor, and the hub is sent, in order, the abstract monitor's
  alerts to the devices that want them; the next poll is the active one exactly when some thread is
  running, waiting or failed.
\<close>

theorem monitor_cycle_refines:
  assumes "store_inv (store_db w)" and "codec_ok c" and "enabled_rows (store_db w) \<noteq> []"
    and "run_cycle c snapshot_of cfg now rt answers w = (Inr delay, w')"
  shows "\<exists>ts as evs m. threads answers = Inr ts \<and>
     (if \<exists>st \<in> set (enabled_rows (store_db w)). kind_approval_required (alert_kinds st)
      then approvals answers = Inr as else as = []) \<and>
     observe_spec (sha256_hex c) (approvals_by_thread as) (map snapshot_of ts)
       (alert_view c (store_db w)) = (evs, m) \<and>
     alert_view c (store_db w') = m \<and>
     sent (alert_hub w') = sent (alert_hub w) @ alert_log (store_db w) evs \<and>
     delay = (if \<exists>t \<in> set ts. is_active_status (snap_status (snapshot_of t))
              then active_poll cfg else idle_poll cfg)"
proof -
  obtain sts w1 where a: "map_err BridgeFailed (on_notification_store enabled_settings) w = (Inr sts, w1)"
    and rest: "(if sts = [] then ok (idle_poll cfg)
       else enabled_cycle c snapshot_of cfg now rt answers sts) w1 = (Inr delay, w')"
    using assms(4) unfolding run_cycle_def by (rule bind_ok_okE)
  obtain s1 where e: "enabled_settings (store_db w) = (Inr sts, s1)"
    and w1: "w1 = w\<lparr>store_db := s1\<rparr>" using map_err_on_notification_store_ok [OF a] by blast
  have sts: "sts = enabled_rows (store_db w)"
    using sql_read_ok [OF e [unfolded enabled_settings_def]]
    by (simp add: enabled_rows_def device_is_active_def)
  have s1: "same_tables s1 (store_db w)" using sql_read_tables [OF e [unfolded enabled_settings_def]] .
  note fr = same_tables_frame [OF s1]
  have "enabled_cycle c snapshot_of cfg now rt answers sts (w\<lparr>store_db := s1\<rparr>) = (Inr delay, w')"
    using rest assms(3) sts w1 by simp
  then obtain ts as where ts: "threads answers = Inr ts"
    and as': "(if \<exists>st \<in> set sts. kind_approval_required (alert_kinds st) then approvals answers else Inr []) = Inr as"
    and o: "observe_all c now rt (approvals_by_thread as) (map snapshot_of ts) (w\<lparr>store_db := s1\<rparr>) = (Inr (), w')"
    and delay: "delay = (if \<exists>t \<in> set ts. is_active_status (snap_status (snapshot_of t))
              then active_poll cfg else idle_poll cfg)"
    by (rule enabled_cycle_ok)
  have as: "if \<exists>st \<in> set (enabled_rows (store_db w)). kind_approval_required (alert_kinds st)
      then approvals answers = Inr as else as = []"
    using as' unfolding sts
    by (cases "\<exists>st \<in> set (enabled_rows (store_db w)). kind_approval_required (alert_kinds st)") simp_all
  obtain evs m where sp: "observe_spec (sha256_hex c) (approvals_by_thread as) (map snapshot_of ts)
      (alert_view c (store_db w)) = (evs, m)" by fastforce
  have "alert_view c s1 = alert_view c (store_db w)" using fr by (intro alert_view_states) simp
  with sp have "observe_spec (sha256_hex c) (approvals_by_thread as) (map snapshot_of ts)
      (alert_view c (store_db (w\<lparr>store_db := s1\<rparr>))) = (evs, m)" by simp
  moreover have "store_inv (store_db (w\<lparr>store_db := s1\<rparr>))"
    using maintainsD [OF enabled_settings_inv e] assms(1) by simp
  ultimately have "alert_view c (store_db w') = m \<and>
      sent (alert_hub w') = sent (alert_hub w) @ alert_log s1 evs"
    using observe_all_effect [OF assms(2) _ o] by simp
  moreover have "devices s1 = devices (store_db w)" "device_settings s1 = device_settings (store_db w)"
    using fr by simp_all
  ultimately have "alert_view c (store_db w') = m \<and>
      sent (alert_hub w') = sent (alert_hub w) @ alert_log (store_db w) evs"
    by (simp add: alert_log_cong [of s1 "store_db w"])
  then show ?thesis
    by (intro exI [of _ ts] exI [of _ as] exI [of _ evs] exI [of _ m])
      (use ts as sp delay in simp)
qed

text \<open>A codec of lists of strings with a mark before every character and one after every string.\<close>

definition demo_encode :: "string list \<Rightarrow> string" where
  "demo_encode ids = concat (map (\<lambda>s. concat (map (\<lambda>c. [CHR ''c'', c]) s) @ ''.'') ids)"

fun demo_decode :: "string \<Rightarrow> string list option" where
  "demo_decode [] = Some []"
| "demo_decode (m # rest) =
     (if m = CHR ''.'' then map_option (\<lambda>xs. [] # xs) (demo_decode rest)
      else case rest of
        [] \<Rightarrow> None
      | c # rest' \<Rightarrow>
          (case demo_decode rest' of Some (x # xs) \<Rightarrow> Some ((c # x) # xs) | _ \<Rightarrow> None))"

lemma demo_decode_string:
  "demo_decode rest = Some xs \<Longrightarrow>
     demo_decode (concat (map (\<lambda>c. [CHR ''c'', c]) s) @ ''.'' @ rest) = Some (s # xs)"
  by (induction s) simp_all

lemma demo_decode_encode: "demo_decode (demo_encode ids) = Some ids"
  by (induction ids) (simp_all add: demo_encode_def demo_decode_string [simplified])

definition demo_codecs :: codecs where
  "demo_codecs =
     \<lparr>sha256_hex = (\<lambda>s. ''h''), ids_to_json = demo_encode, ids_from_json = demo_decode,
      payload_to_json = (\<lambda>p. Some ''{}'')\<rparr>"

lemma demo_codecs_ok: "codec_ok demo_codecs"
  by (simp add: codec_ok_def demo_codecs_def demo_decode_encode)

text \<open>A thread seen running, which Codex now reports as idle.\<close>

definition demo_monitored :: "bool list \<Rightarrow> unit bridge" where
  "demo_monitored fs =
     \<lparr>store_db = demo_targets\<lparr>faults := fs, alert_states :=
        [alert_state_to_row demo_encode (observed_state None (sample_snapshot Running 10) [])]\<rparr>,
      alert_hub = new_hub\<lparr>receivers := 2\<rparr>, access = default_access, wakes = 0\<rparr>"

definition demo_answers :: "session_snapshot codex_answers" where
  "demo_answers = \<lparr>threads = Inr [sample_snapshot Idle 20], approvals = Inr []\<rparr>"

definition demo_cycle :: "unit bridge \<Rightarrow> (monitor_error + nat) \<times> unit bridge" where
  "demo_cycle = run_cycle demo_codecs (\<lambda>t. t) default_monitor_config (\<lambda>d. 20) False demo_answers"

lemmas monitor_eval =
  demo_cycle_def run_cycle_def enabled_cycle_def demo_codecs_def demo_monitored_def demo_answers_def
  default_monitor_config_def observe_thread_def alert_state_for_thread_def save_alert_state_def
  alert_state_from_row_def alert_state_to_row_def demo_decode_encode observed_state_def
  sample_snapshot_def detect_alerts_def next_cycle_def previously_known_def push_unknown_def
  keep_latest_256_def alert_def approvals_by_thread_def is_active_status_def dispatch_eval

lemma demo_monitored_inv: "store_inv (store_db (demo_monitored []))"
  by (simp add: demo_monitored_def demo_targets_def store_inv_def empty_db_def keyed_def
      demo_settings_def defaults_for_def alert_state_to_row_def)

theorem monitor_cycle_refines_witness:
  "fst (demo_cycle (demo_monitored [])) = Inr 30000 \<and>
   map_option as_status (alert_view demo_codecs
     (store_db (snd (demo_cycle (demo_monitored [])))) ''t1'') = Some Idle"
proof -
  let ?w' = "snd (demo_cycle (demo_monitored []))"
  have f: "fst (demo_cycle (demo_monitored [])) = Inr 30000" by (simp add: monitor_eval)
  then have run: "run_cycle demo_codecs (\<lambda>t. t) default_monitor_config (\<lambda>d. 20) False demo_answers
      (demo_monitored []) = (Inr 30000, ?w')"
    unfolding demo_cycle_def by (metis prod.collapse)
  have on: "enabled_rows (store_db (demo_monitored [])) \<noteq> []" by (simp add: monitor_eval)
  obtain as evs m where
    sp: "observe_spec (sha256_hex demo_codecs) (approvals_by_thread as) [sample_snapshot Idle 20]
       (alert_view demo_codecs (store_db (demo_monitored []))) = (evs, m)"
    and v: "alert_view demo_codecs (store_db ?w') = m"
    using monitor_cycle_refines [OF demo_monitored_inv demo_codecs_ok on run]
    by (auto simp: demo_answers_def)
  have "map_option as_status (m ''t1'') = Some Idle"
    using sp by (auto simp: remember_def Let_def alert_view_def monitor_eval)
  with f v show ?thesis by simp
qed

text \<open>
  An alert is lost when its dispatch fails. A thread was running and has finished. The
  database fails once, at the fourth call of the cycle, after the new alert state was stored: the
  cycle ends with an error, the next cycle succeeds and no alert is ever sent, while the same cycle
  without the failure sends one to each device.
\<close>

lemma alert_lost_when_dispatch_fails:
  "fst (demo_cycle (demo_monitored [False, False, False, True])) =
     Inl (BridgeFailed (StoreError ConnectionFailure)) \<and>
   fst (demo_cycle (snd (demo_cycle (demo_monitored [False, False, False, True])))) = Inr 30000 \<and>
   sent (alert_hub (snd (demo_cycle (snd (demo_cycle (demo_monitored [False, False, False, True])))))) = [] \<and>
   length (sent (alert_hub (snd (demo_cycle (demo_monitored []))))) = 2"
  by (simp add: monitor_eval sql_read_def sql_write_def)

text \<open>The counter after some failed cycles in a row.\<close>

definition failures_after :: "nat \<Rightarrow> u32" where
  "failures_after n = ((\<lambda>f. fst (after_cycle default_monitor_config (Inl AdapterFailed) f)) ^^ n) 0"

lemma unat_failures_after: "unat (failures_after n) = min n (2 ^ 32 - 1)"
proof (induction n)
  case 0
  then show ?case by (simp add: failures_after_def)
next
  case (Suc n)
  have "failures_after (Suc n) = saturating_add (failures_after n) 1"
    by (simp add: failures_after_def after_cycle_def Let_def)
  with Suc show ?case by (simp add: unat_saturating_add min_def)
qed

text \<open>
  The error backoff. After any number of failed cycles in a row, also beyond the range of the
  counter, the delay is five seconds doubled with every failure up to forty, cut at the configured
  maximum; a successful cycle resets it.
\<close>

lemma backoff_delay:
  "snd (after_cycle cfg (Inl e) (failures_after n)) = min (5000 * 2 ^ min n 3) (max_error_backoff cfg) \<and>
   after_cycle cfg (Inr d) f = (0, d)"
proof -
  have "unat (saturating_sub (saturating_add (failures_after n) 1) 1) = min n (2 ^ 32 - 2)"
    by (simp add: unat_saturating_sub unat_saturating_add unat_failures_after min_def)
  then have k: "min (unat (saturating_sub (saturating_add (failures_after n) 1) 1)) 3 = min n 3"
    by (simp add: min_def)
  have "unat (saturating_mul (5 :: u64) (push_bit (min n 3) 1)) = 5 * 2 ^ min n 3"
  proof -
    have "min n 3 \<in> {0, 1, 2, 3}" by auto
    then show ?thesis by (auto simp: unat_saturating_mul)
  qed
  with k show ?thesis by (simp add: after_cycle_def Let_def)
qed

end
