(* ===== verification/Push_Delivery_Worker.thy ===== *)
theory Push_Delivery_Worker
  imports Web_Push Public_Access
begin

text \<open>
  \<open>crates/bridge-core/src/push_delivery_worker.rs\<close>: the loop that claims due deliveries and pushes
  them. The requests handed to the push transport are logged in \<open>requests\<close>, and the transport's
  answer to the n-th of them is \<open>answers n\<close>, so that a network that fails and recovers is an
  input. The public-access context, which another task may change at any time, is read anew where
  the code reads it: \<open>access_at n\<close> is the reading taken for the n-th delivery of a drain, and
  \<open>access_at 0\<close> the one before the loop.
\<close>

definition MAX_IDLE_WAIT :: u64 where
  "MAX_IDLE_WAIT = 30000"

definition RETRY_DELAYS_MS :: "u64 list" where
  "RETRY_DELAYS_MS = [1000, 2000, 4000]"

record push_request =
  req_subscription :: push_subscription
  req_payload :: push_payload

record worker =
  w_db :: db
  requests :: "push_request list"
  answers :: "nat \<Rightarrow> push_failure_class + unit"

datatype worker_error = WorkerStoreError db_error | RetryIndexPanic

definition w_store :: "'a db_op \<Rightarrow> (worker, worker_error, 'a) action" where
  "w_store f w = (case f (w_db w) of
     (Inl e, s) \<Rightarrow> (Inl (WorkerStoreError e), w\<lparr>w_db := s\<rparr>)
   | (Inr a, s) \<Rightarrow> (Inr a, w\<lparr>w_db := s\<rparr>))"

definition push :: "push_subscription \<Rightarrow> push_payload \<Rightarrow> (worker, worker_error, push_failure_class + unit) action" where
  "push sub payload w =
     (Inr (answers w (length (requests w))),
      w\<lparr>requests := requests w @ [\<lparr>req_subscription = sub, req_payload = payload\<rparr>]\<rparr>)"

text \<open>What follows the push: the branches of the \<open>match\<close> on its result.\<close>

definition record_result ::
  "notification_delivery \<Rightarrow> u64 \<Rightarrow> push_failure_class + unit \<Rightarrow> (worker, worker_error, unit) action" where
  "record_result d now result =
     (let eid = dl_event_id d; did = dl_device_id d
      in case result of
        Inr _ \<Rightarrow> w_store (mark_delivery_sent eid did now)
      | Inl PushInvalidSubscription \<Rightarrow>
          then_ok (w_store (invalidate_subscription did now))
            (w_store (mark_delivery_invalid_subscription eid did now))
      | Inl class \<Rightarrow>
          if class = Retryable \<and> attempt_count d \<le> 3 then
            let retry_index = unat (saturating_sub (attempt_count d) 1)
            in if retry_index < length RETRY_DELAYS_MS then
                 w_store (mark_delivery_retry eid did
                   (saturating_add now (RETRY_DELAYS_MS ! retry_index))
                   (push_failure_as_str Retryable) now)
               else err RetryIndexPanic
          else w_store (mark_delivery_failed eid did (push_failure_as_str class) now))"

definition origin_matches :: "public_access_context \<Rightarrow> push_subscription \<Rightarrow> bool" where
  "origin_matches ctx sub \<longleftrightarrow> mode ctx = Named \<and> public_origin ctx = Some (sub_origin sub)"

definition process_delivery ::
  "(string \<Rightarrow> push_payload option) \<Rightarrow> public_access_context \<Rightarrow> notification_delivery \<Rightarrow> u64 \<Rightarrow>
   (worker, worker_error, unit) action" where
  "process_delivery from_json latest_access d now =
     (case from_json (payload_json d) of
        None \<Rightarrow>
          w_store (mark_delivery_failed (dl_event_id d) (dl_device_id d) ''invalid_push_payload'' now)
      | Some payload \<Rightarrow>
          bind_ok (w_store (active_subscription (dl_device_id d))) (\<lambda>found.
            case found of
              None \<Rightarrow> w_store (mark_delivery_invalid_subscription (dl_event_id d) (dl_device_id d) now)
            | Some sub \<Rightarrow>
                if \<not> origin_matches latest_access sub then
                  then_ok (w_store (invalidate_subscription (dl_device_id d) now))
                    (w_store (mark_delivery_invalid_subscription (dl_event_id d) (dl_device_id d) now))
                else bind_ok (push sub payload) (record_result d now)))"

text \<open>The drain loop; \<open>n\<close> counts the deliveries processed. It may not end, so its value is an option.\<close>

partial_function (option) drain_loop ::
  "(string \<Rightarrow> push_payload option) \<Rightarrow> (nat \<Rightarrow> public_access_context) \<Rightarrow> u64 \<Rightarrow> nat \<Rightarrow> worker \<Rightarrow>
   ((worker_error + nat) \<times> worker) option" where
  "drain_loop from_json access_at now n w =
     (case w_store (claim_next_due_delivery now) w of
        (Inl e, w') \<Rightarrow> Some (Inl e, w')
      | (Inr None, w') \<Rightarrow> Some (Inr n, w')
      | (Inr (Some d), w') \<Rightarrow>
          (case process_delivery from_json (access_at (Suc n)) d now w' of
             (Inl e, w'') \<Rightarrow> Some (Inl e, w'')
           | (Inr _, w'') \<Rightarrow> drain_loop from_json access_at now (Suc n) w''))"

definition drain_due_once_at ::
  "(string \<Rightarrow> push_payload option) \<Rightarrow> (nat \<Rightarrow> public_access_context) \<Rightarrow> u64 \<Rightarrow> worker \<Rightarrow>
   ((worker_error + nat) \<times> worker) option" where
  "drain_due_once_at from_json access_at now w =
     (if mode (access_at 0) \<noteq> Named then Some (Inr 0, w)
      else drain_loop from_json access_at now 0 w)"

text \<open>How long \<open>run\<close> sleeps before it looks again, unless it is woken.\<close>

definition next_wait :: "public_access_context \<Rightarrow> u64 \<Rightarrow> worker \<Rightarrow> u64 \<times> worker" where
  "next_wait ctx now w =
     (if mode ctx \<noteq> Named then (MAX_IDLE_WAIT, w)
      else case w_store next_delivery_due_at w of
        (Inr (Some due_at), w') \<Rightarrow> (min (saturating_sub due_at now) MAX_IDLE_WAIT, w')
      | (_, w') \<Rightarrow> (MAX_IDLE_WAIT, w'))"

section \<open>The queue during a drain\<close>

lemma w_store_ok:
  "w_store f w = (Inr a, w') \<longleftrightarrow> (\<exists>s. f (w_db w) = (Inr a, s) \<and> w' = w\<lparr>w_db := s\<rparr>)"
  by (auto simp: w_store_def split: prod.splits sum.splits)

lemma w_store_maintains [maintains_intros]:
  "maintains P f \<Longrightarrow> maintains (\<lambda>w. P (w_db w)) (w_store f)"
  by (auto simp: maintains_def w_store_def split: prod.splits sum.splits)

lemma push_maintains [maintains_intros]: "maintains (\<lambda>w. P (w_db w)) (push sub payload)"
  by (simp add: maintains_def push_def)

lemma record_result_inv [maintains_intros]:
  "maintains (\<lambda>w. store_inv (w_db w)) (record_result d now result)"
  unfolding record_result_def Let_def
  by (auto intro!: maintains_intros split: sum.split push_failure_class.split)

lemma process_delivery_inv [maintains_intros]:
  "maintains (\<lambda>w. store_inv (w_db w)) (process_delivery from_json ctx d now)"
  unfolding process_delivery_def
  by (auto intro!: maintains_intros split: option.split)

lemma due_keys_invalidate:
  assumes "invalidate_subscription did at s = (Inr (), s')"
  shows "due_keys now s' = due_keys now s" and "queue_view s' = queue_view s"
  using assms
  by (auto simp: invalidate_subscription_def sql_write_ok due_keys_def queue_view_def fun_eq_iff)

lemma active_subscription_due:
  assumes "active_subscription did s = (Inr found, s')"
  shows "due_keys now s' = due_keys now s" and "queue_view s' = queue_view s"
    and "push_subscriptions s' = push_subscriptions s"
    and "found = find (\<lambda>r. sub_device_id r = did \<and> invalidated_at r = None) (push_subscriptions s)"
proof -
  have t: "same_tables s' s" using sql_read_tables [OF assms [unfolded active_subscription_def]] .
  show "due_keys now s' = due_keys now s" "queue_view s' = queue_view s"
    "push_subscriptions s' = push_subscriptions s"
    using due_keys_same_tables [OF t] queue_view_same_tables [OF t] t by (simp_all add: same_tables_fields)
  show "found = find (\<lambda>r. sub_device_id r = did \<and> invalidated_at r = None) (push_subscriptions s)"
    using sql_read_ok [OF assms [unfolded active_subscription_def]] by simp
qed

lemma retry_is_later:
  assumes "fits_i64 now" and "i < length RETRY_DELAYS_MS"
  shows "now < saturating_add now (RETRY_DELAYS_MS ! i)"
proof -
  have "i \<in> {0, 1, 2}" using assms(2) by (auto simp: RETRY_DELAYS_MS_def)
  then have r: "unat (RETRY_DELAYS_MS ! i) \<in> {1000, 2000, 4000}" by (auto simp: RETRY_DELAYS_MS_def)
  have "unat now < 2 ^ 63" using assms(1) by (simp add: fits_i64_def word_less_nat_alt)
  with r show ?thesis by (auto simp: word_less_nat_alt unat_saturating_add min_def)
qed

text \<open>
  How a claimed delivery is left: sent, dropped for good, or waiting for a later attempt, with its
  identity, payload and attempt count.
\<close>

definition settles :: "u64 \<Rightarrow> notification_delivery \<Rightarrow> notification_delivery \<Rightarrow> bool" where
  "settles now d d' \<longleftrightarrow>
     delivery_key d' = delivery_key d \<and> payload_json d' = payload_json d \<and>
     attempt_count d' = attempt_count d \<and>
     (dl_status d' \<in> {Sent, InvalidSubscription, Failed} \<or>
      (dl_status d' = Pending \<and> attempt_count d \<le> 3 \<and> now < next_attempt_at d'))"

text \<open>One step settles one delivery and leaves the rest of the queue.\<close>

definition settles_in_queue :: "u64 \<Rightarrow> notification_delivery \<Rightarrow> db \<Rightarrow> db \<Rightarrow> bool" where
  "settles_in_queue now d s s' \<longleftrightarrow>
     due_keys now s' = due_keys now s - {delivery_key d} \<and>
     (\<forall>k. k \<noteq> delivery_key d \<longrightarrow> queue_view s' k = queue_view s k) \<and>
     (queue_view s (delivery_key d) = Some d \<longrightarrow>
        (\<exists>d'. queue_view s' (delivery_key d) = Some d' \<and> settles now d d'))"

lemma settles_in_queue_cong:
  assumes "due_keys now t = due_keys now s" and "queue_view t = queue_view s"
    and "settles_in_queue now d t s'"
  shows "settles_in_queue now d s s'"
  using assms by (simp add: settles_in_queue_def)

lemma key_parts: "delivery_key d = (dl_event_id d, dl_device_id d)"
  by (simp add: delivery_key_def)

lemma mark_sent_settles:
  assumes "mark_delivery_sent (dl_event_id d) (dl_device_id d) now s = (Inr (), s')"
  shows "settles_in_queue now d s s'"
  unfolding settles_in_queue_def key_parts
  using mark_delivery_sent_ok [OF assms] by (auto simp: settles_def delivery_key_def)

lemma update_status_settles:
  assumes "update_delivery_status (dl_event_id d) (dl_device_id d) st later category now s = (Inr (), s')"
    and "st \<in> {InvalidSubscription, Failed} \<or>
         (st = Pending \<and> attempt_count d \<le> 3 \<and> (\<exists>n. later = Some n \<and> now < n))"
  shows "settles_in_queue now d s s'"
proof -
  have "st \<noteq> Pending \<or> (\<exists>n. later = Some n \<and> now < n)" using assms(2) by auto
  note k = update_delivery_status_ok(1) [OF assms(1) this]
    and o = update_delivery_status_ok(2,3) [OF assms(1)]
  show ?thesis
    unfolding settles_in_queue_def key_parts
    using k o assms(2) by (auto simp: settles_def delivery_key_def)
qed

lemma mark_failed_settles:
  assumes "mark_delivery_failed (dl_event_id d) (dl_device_id d) category now s = (Inr (), s')"
  shows "settles_in_queue now d s s'"
  using assms unfolding mark_delivery_failed_def by (rule update_status_settles) simp

lemma mark_invalid_settles:
  assumes "mark_delivery_invalid_subscription (dl_event_id d) (dl_device_id d) now s = (Inr (), s')"
  shows "settles_in_queue now d s s'"
  using assms unfolding mark_delivery_invalid_subscription_def by (rule update_status_settles) simp

lemma invalidate_and_mark_settles:
  assumes "then_ok (w_store (invalidate_subscription (dl_device_id d) now))
      (w_store (mark_delivery_invalid_subscription (dl_event_id d) (dl_device_id d) now)) w = (Inr (), w')"
  shows "settles_in_queue now d (w_db w) (w_db w')"
proof -
  obtain s1 s2 where i: "invalidate_subscription (dl_device_id d) now (w_db w) = (Inr (), s1)"
    and m: "mark_delivery_invalid_subscription (dl_event_id d) (dl_device_id d) now s1 = (Inr (), s2)"
    and w': "w_db w' = s2"
    using assms by (auto simp: w_store_ok elim!: then_ok_okE)
  show ?thesis
    using settles_in_queue_cong [OF due_keys_invalidate [OF i] mark_invalid_settles [OF m]] w' by simp
qed

lemma retry_index_in_range:
  "attempt_count d \<le> 3 \<Longrightarrow> unat (saturating_sub (attempt_count d) 1) < length RETRY_DELAYS_MS"
  by (simp add: RETRY_DELAYS_MS_def unat_saturating_sub word_le_nat_alt)

lemma mark_fits: "update_delivery_status eid did st later category now s = (Inr (), s') \<Longrightarrow> fits_i64 now"
  by (simp add: update_delivery_status_def sql_write_ok)

lemma record_result_settles:
  assumes "record_result d now result w = (Inr (), w')"
  shows "settles_in_queue now d (w_db w) (w_db w')"
proof (cases result)
  case (Inr u)
  with assms show ?thesis
    by (auto simp: record_result_def Let_def w_store_ok intro: mark_sent_settles)
next
  case (Inl fc)
  show ?thesis
  proof (cases fc)
    case PushInvalidSubscription
    with assms Inl show ?thesis
      by (intro invalidate_and_mark_settles) (simp add: record_result_def Let_def)
  next
    case Permanent
    with assms Inl show ?thesis
      by (auto simp: record_result_def Let_def w_store_ok intro: mark_failed_settles)
  next
    case Retryable
    show ?thesis
    proof (cases "attempt_count d \<le> 3")
      case True
      let ?i = "unat (saturating_sub (attempt_count d) 1)"
      obtain s where m: "update_delivery_status (dl_event_id d) (dl_device_id d) Pending
          (Some (saturating_add now (RETRY_DELAYS_MS ! ?i))) (Some (push_failure_as_str Retryable))
          now (w_db w) = (Inr (), s)" and w': "w_db w' = s"
        using assms Inl Retryable True retry_index_in_range [OF True]
        by (auto simp: record_result_def Let_def w_store_ok mark_delivery_retry_def)
      have "now < saturating_add now (RETRY_DELAYS_MS ! ?i)"
        using retry_is_later [OF mark_fits [OF m] retry_index_in_range [OF True]] .
      then show ?thesis using update_status_settles [OF m] True w' by simp
    next
      case False
      with assms Inl Retryable show ?thesis
        by (auto simp: record_result_def Let_def w_store_ok intro: mark_failed_settles)
    qed
  qed
qed

lemma record_result_no_panic: "fst (record_result d now result w) \<noteq> Inl RetryIndexPanic"
proof (cases result)
  case (Inl fc)
  then show ?thesis
    using retry_index_in_range [of d]
    by (cases fc) (auto simp: record_result_def Let_def w_store_def then_ok_run
        split: prod.splits sum.splits)
qed (auto simp: record_result_def Let_def w_store_def split: prod.splits sum.splits)

text \<open>No action indexes the delays out of range.\<close>

definition no_panic :: "(worker, worker_error, 'a) action \<Rightarrow> bool" where
  "no_panic m \<longleftrightarrow> (\<forall>w. fst (m w) \<noteq> Inl RetryIndexPanic)"

named_theorems no_panic_intros \<open>rules that compose actions that do not panic\<close>

lemma no_panicD: "no_panic m \<Longrightarrow> m w = (Inl e, w') \<Longrightarrow> e \<noteq> RetryIndexPanic"
  by (metis fst_conv no_panic_def)

lemma w_store_no_panic [no_panic_intros]: "no_panic (w_store f)"
  by (auto simp: no_panic_def w_store_def split: prod.splits sum.splits)

lemma push_no_panic [no_panic_intros]: "no_panic (push sub payload)"
  by (simp add: no_panic_def push_def)

lemma record_result_no_panic' [no_panic_intros]: "no_panic (record_result d now result)"
  by (simp add: no_panic_def record_result_no_panic)

lemma bind_ok_no_panic [no_panic_intros]:
  assumes "no_panic m" and "\<And>a. no_panic (f a)"
  shows "no_panic (bind_ok m f)"
  unfolding no_panic_def
proof
  fix w
  obtain r w' where r: "m w = (r, w')" by fastforce
  show "fst (bind_ok m f w) \<noteq> Inl RetryIndexPanic"
  proof (cases r)
    case (Inl e)
    with r no_panicD [OF assms(1)] show ?thesis by (simp add: bind_ok_def)
  next
    case (Inr a)
    with r assms(2) show ?thesis by (simp add: bind_ok_def no_panic_def)
  qed
qed

lemma then_ok_no_panic [no_panic_intros]: "no_panic m \<Longrightarrow> no_panic n \<Longrightarrow> no_panic (then_ok m n)"
  by (simp add: then_ok_def bind_ok_no_panic)

lemma process_delivery_no_panic: "no_panic (process_delivery from_json ctx d now)"
  unfolding process_delivery_def
  by (auto intro!: no_panic_intros split: option.split)

lemma process_delivery_settles:
  assumes "process_delivery from_json ctx d now w = (Inr (), w')"
  shows "settles_in_queue now d (w_db w) (w_db w')"
proof (cases "from_json (payload_json d)")
  case None
  with assms show ?thesis
    by (auto simp: process_delivery_def w_store_ok intro: mark_failed_settles)
next
  case (Some payload)
  obtain found s1 where a: "active_subscription (dl_device_id d) (w_db w) = (Inr found, s1)"
    and rest: "(case found of
        None \<Rightarrow> w_store (mark_delivery_invalid_subscription (dl_event_id d) (dl_device_id d) now)
      | Some sub \<Rightarrow>
          if \<not> origin_matches ctx sub then
            then_ok (w_store (invalidate_subscription (dl_device_id d) now))
              (w_store (mark_delivery_invalid_subscription (dl_event_id d) (dl_device_id d) now))
          else bind_ok (push sub payload) (record_result d now)) (w\<lparr>w_db := s1\<rparr>) = (Inr (), w')"
    using assms Some by (auto simp: process_delivery_def w_store_ok elim!: bind_ok_okE)
  note eq = active_subscription_due [OF a]
  have st: "settles_in_queue now d s1 (w_db w')"
  proof (cases found)
    case None
    with rest show ?thesis by (auto simp: w_store_ok intro: mark_invalid_settles)
  next
    case (Some sub)
    show ?thesis
    proof (cases "origin_matches ctx sub")
      case False
      with rest Some show ?thesis using invalidate_and_mark_settles [of d now "w\<lparr>w_db := s1\<rparr>" w'] by simp
    next
      case True
      with rest Some have "bind_ok (push sub payload) (record_result d now) (w\<lparr>w_db := s1\<rparr>) = (Inr (), w')"
        by simp
      then obtain result w2 where p: "push sub payload (w\<lparr>w_db := s1\<rparr>) = (Inr result, w2)"
        and r: "record_result d now result w2 = (Inr (), w')" by (rule bind_ok_okE)
      have "w_db w2 = s1" using p by (auto simp: push_def)
      with record_result_settles [OF r] show ?thesis by simp
    qed
  qed
  show ?thesis by (rule settles_in_queue_cong [OF eq(1,2) st])
qed

section \<open>The drain ends\<close>

text \<open>
  For any queue that keeps the contract of \<^theory_text>\<open>delivery_queue\<close>: a claim followed by a step that
  makes nothing new due leaves fewer due deliveries.
\<close>

context delivery_queue begin

lemma step_decreases:
  assumes "inv s" and "claim now s = (Inr (Some d), s')" and "due now s'' \<subseteq> due now s'"
  shows "card (due now s'') < card (due now s)"
  using claim_decreases [OF assms(1,2)] card_mono [OF finite_due assms(3)] by simp

lemma claims_at_most_due:
  assumes "inv s" and "claim now s = (Inr (Some d), s')" and "due now s'' = due now s' - {dkey d}"
  shows "card (due now s) = Suc (card (due now s''))"
  using claim_one [OF assms(1,2)] finite_due assms(3) by (metis Diff_idemp card.remove)

end

lemma claim_in_worker:
  assumes "w_store (claim_next_due_delivery now) w = (Inr (Some d), w')" and "store_inv (w_db w)"
  shows "claim_next_due_delivery now (w_db w) = (Inr (Some d), w_db w')" and "store_inv (w_db w')"
    and "requests w' = requests w" and "answers w' = answers w"
proof -
  show c: "claim_next_due_delivery now (w_db w) = (Inr (Some d), w_db w')"
    and "requests w' = requests w" "answers w' = answers w"
    using assms(1) by (auto simp: w_store_ok)
  show "store_inv (w_db w')" using maintainsD [OF claim_next_due_delivery_inv c assms(2)] .
qed

text \<open>
  The invariant of the loop, for the deliveries that were due at its start: how the result relates
  to the state, for a drain from a state whose tables are consistent.
\<close>

definition drained :: "u64 \<Rightarrow> db \<Rightarrow> db \<Rightarrow> bool" where
  "drained now s s' \<longleftrightarrow>
     due_keys now s' = {} \<and>
     (\<forall>k. k \<notin> due_keys now s \<longrightarrow> queue_view s' k = queue_view s k) \<and>
     (\<forall>k \<in> due_keys now s. \<exists>d d'. queue_view s k = Some d \<and> queue_view s' k = Some d' \<and>
        settles now (claimed now d) d')"

lemma drained_step:
  assumes "store_inv s" and "claim_next_due_delivery now s = (Inr (Some d), s1)"
    and "settles_in_queue now d s1 s2" and "drained now s2 s3"
  shows "drained now s s3"
proof -
  obtain r :: delivery_row where r: "r \<in> set (deliveries s)" "is_due now r" "d = claimed now r"
    and v1: "queue_view s1 = (queue_view s)(delivery_key r \<mapsto> d)"
    and d1: "due_keys now s1 = due_keys now s - {delivery_key r}"
    using assms(1,2) by (rule claim_effect)
  let ?k = "delivery_key r"
  have k: "delivery_key d = ?k" using r(3) by (simp add: claimed_def delivery_key_def)
  have rk: "?k \<in> due_keys now s" using r(1,2) by (auto simp: due_keys_def)
  have d2: "due_keys now s2 = due_keys now s - {?k}"
    using assms(3) d1 k by (simp add: settles_in_queue_def)
  have v2: "queue_view s2 k' = queue_view s k'" if "k' \<noteq> ?k" for k'
    using assms(3) v1 k that by (simp add: settles_in_queue_def del: split_paired_All)
  obtain d' where d': "queue_view s2 ?k = Some d'" "settles now d d'"
    using assms(3) v1 k by (auto simp: settles_in_queue_def)
  obtain d0 where d0: "queue_view s ?k = Some d0" "claimed now d0 = d"
    using queue_view_row [OF assms(1) r(1)] r(3) by blast
  have e: "due_keys now s3 = {}" "\<And>k'. k' \<notin> due_keys now s2 \<Longrightarrow> queue_view s3 k' = queue_view s2 k'"
    "\<And>k'. k' \<in> due_keys now s2 \<Longrightarrow> \<exists>q q'. queue_view s2 k' = Some q \<and> queue_view s3 k' = Some q' \<and>
       settles now (claimed now q) q'"
    using assms(4) unfolding drained_def by blast+
  have "\<exists>q q'. queue_view s k' = Some q \<and> queue_view s3 k' = Some q' \<and> settles now (claimed now q) q'"
    if "k' \<in> due_keys now s" for k'
  proof (cases "k' = ?k")
    case True
    with e(2) [of ?k] d2 d' d0 show ?thesis by simp
  next
    case False
    with e(3) [of k'] d2 that v2 show ?thesis by simp
  qed
  moreover have "queue_view s3 k' = queue_view s k'" if "k' \<notin> due_keys now s" for k'
    using e(2) [of k'] d2 v2 [of k'] that rk by auto
  ultimately show ?thesis unfolding drained_def using e(1) by blast
qed

lemma drain_loop_ends:
  assumes "store_inv (w_db w)"
  shows "\<exists>r w'. drain_loop from_json access_at now n w = Some (r, w') \<and> r \<noteq> Inl RetryIndexPanic \<and>
           store_inv (w_db w') \<and>
           (\<forall>m. r = Inr m \<longrightarrow> m = n + card (due_keys now (w_db w)) \<and> drained now (w_db w) (w_db w'))"
  using assms
proof (induction "card (due_keys now (w_db w))" arbitrary: n w rule: less_induct)
  case less
  obtain c w1 where c: "w_store (claim_next_due_delivery now) w = (c, w1)" by fastforce
  have inv1: "store_inv (w_db w1)"
    using maintainsD [OF w_store_maintains [OF claim_next_due_delivery_inv] c less.prems] .
  show ?case
  proof (cases c)
    case (Inl e)
    then have "e \<noteq> RetryIndexPanic" using c by (auto simp: w_store_def split: prod.splits sum.splits)
    with Inl c inv1 show ?thesis by (subst drain_loop.simps) simp
  next
    case (Inr claim)
    show ?thesis
    proof (cases claim)
      case None
      have q: "claim_next_due_delivery now (w_db w) = (Inr None, w_db w1)"
        using c Inr None by (auto simp: w_store_ok)
      have "due_keys now (w_db w) = {}" "same_tables (w_db w1) (w_db w)"
        using claim_none [OF q] by simp_all
      then have "drained now (w_db w) (w_db w1)"
        using due_keys_same_tables queue_view_same_tables by (simp add: drained_def)
      with None Inr c inv1 \<open>due_keys now (w_db w) = {}\<close> show ?thesis
        by (subst drain_loop.simps) simp
    next
      case (Some d)
      have cw: "claim_next_due_delivery now (w_db w) = (Inr (Some d), w_db w1)"
        using claim_in_worker(1) c Inr Some less.prems by blast
      obtain p w2 where p: "process_delivery from_json (access_at (Suc n)) d now w1 = (p, w2)"
        by fastforce
      have inv2: "store_inv (w_db w2)" using maintainsD [OF process_delivery_inv p inv1] .
      show ?thesis
      proof (cases p)
        case (Inl e)
        have "e \<noteq> RetryIndexPanic" using no_panicD [OF process_delivery_no_panic] p Inl by blast
        with Inl p Some Inr c inv2 show ?thesis by (subst drain_loop.simps) simp
      next
        case (Inr u)
        then have st: "settles_in_queue now d (w_db w1) (w_db w2)"
          using process_delivery_settles p by simp
        have d2: "due_keys now (w_db w2) = due_keys now (w_db w1) - {delivery_key d}"
          using st by (simp add: settles_in_queue_def)
        have "card (due_keys now (w_db w)) = Suc (card (due_keys now (w_db w2)))"
          by (rule queue.claims_at_most_due [OF less.prems cw d2])
        moreover from this obtain r w' where
          r: "drain_loop from_json access_at now (Suc n) w2 = Some (r, w')" "r \<noteq> Inl RetryIndexPanic"
          "store_inv (w_db w')"
          "\<forall>m. r = Inr m \<longrightarrow> m = Suc n + card (due_keys now (w_db w2)) \<and> drained now (w_db w2) (w_db w')"
          using less.hyps [of w2 "Suc n"] inv2 by auto
        moreover have "drain_loop from_json access_at now n w = Some (r, w')"
          using r(1) c \<open>c = Inr claim\<close> Some p Inr by (subst drain_loop.simps) simp
        ultimately show ?thesis using drained_step [OF less.prems cw st] by auto
      qed
    qed
  qed
qed

section \<open>The requests of a drain\<close>

lemma w_store_requests: "requests (snd (w_store f w)) = requests w"
  by (auto simp: w_store_def split: prod.splits sum.splits)

lemma then_ok_requests:
  assumes "\<And>w. requests (snd (m w)) = requests w" and "\<And>w. requests (snd (n w)) = requests w"
  shows "requests (snd (then_ok m n w)) = requests w"
proof (cases "m w")
  case (Pair r w1)
  with assms(1) [of w] assms(2) [of w1] show ?thesis by (cases r) (simp_all add: then_ok_run)
qed

lemma record_result_requests: "requests (snd (record_result d now result w)) = requests w"
proof (cases result)
  case (Inl fc)
  then show ?thesis
    by (cases fc) (simp_all add: record_result_def Let_def w_store_requests then_ok_requests err_def)
qed (simp add: record_result_def Let_def w_store_requests)

text \<open>
  The order in which a drain comes to the deliveries: by due time, then by last update, event and
  device.
\<close>

definition queue_place :: "notification_delivery \<Rightarrow> u64 \<times> u64 \<times> string \<times> string" where
  "queue_place d = (next_attempt_at d, dl_updated_at d, delivery_key d)"

definition due_order :: "u64 \<Rightarrow> db \<Rightarrow> (u64 \<times> u64 \<times> string \<times> string) list" where
  "due_order now s = sorted_list_of_set ((\<lambda>k. queue_place (the (queue_view s k))) ` due_keys now s)"

definition nth_due :: "u64 \<Rightarrow> db \<Rightarrow> nat \<Rightarrow> notification_delivery option" where
  "nth_due now s i = queue_view s (snd (snd (due_order now s ! i)))"

lemma due_order_cong:
  assumes "due_keys now t = due_keys now s"
    and "\<And>k. k \<in> due_keys now s \<Longrightarrow> queue_view t k = queue_view s k"
  shows "due_order now t = due_order now s"
proof -
  have "(\<lambda>k. queue_place (the (queue_view t k))) ` due_keys now t =
      (\<lambda>k. queue_place (the (queue_view s k))) ` due_keys now s"
    unfolding assms(1) using assms(2) by (intro image_cong) simp_all
  then show ?thesis by (simp add: due_order_def)
qed

lemma queue_view_place:
  assumes "store_inv s" and "r \<in> set (deliveries s)"
  shows "queue_place (the (queue_view s (delivery_key r))) = claim_order r"
proof -
  have "row_lookup delivery_key (delivery_key r) (deliveries s) = Some r"
    using assms by (auto simp: store_inv_def intro: row_lookup_mem)
  moreover obtain d where "delivery_from_row r = Inr d"
    using assms valid_status_delivery_from_row by (auto simp: store_inv_def)
  moreover from this have "queue_place d = claim_order r"
    by (auto simp: delivery_from_row_def queue_place_def claim_order_def delivery_key_def split: sum.splits)
  ultimately show ?thesis by (simp add: queue_view_def)
qed

lemma due_order_claim:
  assumes "store_inv s" and "claim_next_due_delivery now s = (Inr (Some d), s1)"
  obtains x d0 where "due_order now s = x # due_order now s1" and "snd (snd x) = delivery_key d"
    and "queue_view s (delivery_key d) = Some d0" and "payload_json d0 = payload_json d"
    and "\<And>k. k \<noteq> delivery_key d \<Longrightarrow> queue_view s1 k = queue_view s k"
    and "due_keys now s1 = due_keys now s - {delivery_key d}"
    and "delivery_key d \<in> due_keys now s"
proof -
  obtain r :: delivery_row where r: "r \<in> set (deliveries s)" "is_due now r" "d = claimed now r"
    and least: "\<forall>q \<in> set (deliveries s). is_due now q \<longrightarrow> claim_order r \<le> claim_order q"
    and v1: "queue_view s1 = (queue_view s)(delivery_key r \<mapsto> d)"
    and d1: "due_keys now s1 = due_keys now s - {delivery_key r}"
    using assms by (rule claim_effect)
  let ?k = "delivery_key r" and ?x = "claim_order r"
  let ?A = "(\<lambda>k. queue_place (the (queue_view s k))) ` due_keys now s"
  have k: "delivery_key d = ?k" using r(3) by (simp add: claimed_def delivery_key_def)
  have A: "?A = claim_order ` {q \<in> set (deliveries s). is_due now q}"
    unfolding due_keys_def image_image using queue_view_place [OF assms(1)] by (intro image_cong) auto
  have key: "snd (snd (claim_order q)) = delivery_key q" for q by (simp add: claim_order_def delivery_key_def)
  have x: "?x \<in> ?A" unfolding A using r(1,2) by blast
  have m: "Min ?A = ?x" by (rule Min_eqI) (use x A least in auto)
  have rk: "?k \<in> due_keys now s" using r(1,2) by (auto simp: due_keys_def)
  have B: "(\<lambda>k. queue_place (the (queue_view s1 k))) ` due_keys now s1 = ?A - {?x}"
  proof -
    have "(\<lambda>k. queue_place (the (queue_view s1 k))) ` due_keys now s1 =
        (\<lambda>k. queue_place (the (queue_view s k))) ` (due_keys now s - {?k})"
      unfolding d1 v1 by (intro image_cong) auto
    also have "\<dots> = ?A - (\<lambda>k. queue_place (the (queue_view s k))) ` {?k}"
    proof (rule inj_on_image_set_diff)
      show "inj_on (\<lambda>k. queue_place (the (queue_view s k))) (due_keys now s)"
      proof (rule inj_onI)
        fix a b assume "a \<in> due_keys now s" "b \<in> due_keys now s"
          and e: "queue_place (the (queue_view s a)) = queue_place (the (queue_view s b))"
        then obtain q q' where "q \<in> set (deliveries s)" "q' \<in> set (deliveries s)"
          "a = delivery_key q" "b = delivery_key q'" by (auto simp: due_keys_def)
        with e queue_view_place [OF assms(1)] have "claim_order q = claim_order q'" by simp
        then show "a = b" using key \<open>a = _\<close> \<open>b = _\<close> by metis
      qed
    qed (use rk in auto)
    also have "\<dots> = ?A - {?x}" using queue_view_place [OF assms(1) r(1)] by simp
    finally show ?thesis .
  qed
  have o: "due_order now s = ?x # due_order now s1"
  proof -
    have "sorted_list_of_set ?A = Min ?A # sorted_list_of_set (?A - {Min ?A})"
      by (rule sorted_list_of_set_nonempty) (use x in auto)
    then show ?thesis unfolding due_order_def B m by simp
  qed
  obtain d0 where d0: "queue_view s ?k = Some d0" "claimed now d0 = d"
    using queue_view_row [OF assms(1) r(1)] r(3) by blast
  show thesis
    by (rule that [of ?x d0]) (use o key d0 k v1 d1 rk in \<open>auto simp: claimed_def\<close>)
qed

lemma due_order_settled:
  assumes "settles_in_queue now d s s'" and "delivery_key d \<notin> due_keys now s"
  shows "due_order now s' = due_order now s"
    and "k \<noteq> delivery_key d \<Longrightarrow> queue_view s' k = queue_view s k"
proof -
  from assms(1) have 1: "due_keys now s' = due_keys now s - {delivery_key d}"
    and 2: "\<forall>k. k \<noteq> delivery_key d \<longrightarrow> queue_view s' k = queue_view s k"
    unfolding settles_in_queue_def by (blast, blast)
  show "due_order now s' = due_order now s"
  proof (rule due_order_cong)
    show "due_keys now s' = due_keys now s" using 1 assms(2) by auto
    show "queue_view s' k = queue_view s k" if "k \<in> due_keys now s" for k
      using 2 that assms(2) by metis
  qed
  show "k \<noteq> delivery_key d \<Longrightarrow> queue_view s' k = queue_view s k" using 2 by blast
qed

text \<open>
  What is sent for a delivery: at most one request, with the delivery's payload, to a valid
  subscription of its device that was made for the given named address.
\<close>

definition sent_for ::
  "(string \<Rightarrow> push_payload option) \<Rightarrow> public_access_context \<Rightarrow> notification_delivery option \<Rightarrow>
   push_request list \<Rightarrow> bool" where
  "sent_for from_json ctx found qs \<longleftrightarrow>
     qs = [] \<or>
     (\<exists>d q. found = Some d \<and> qs = [q] \<and>
        from_json (payload_json d) = Some (req_payload q) \<and>
        sub_device_id (req_subscription q) = dl_device_id d \<and>
        invalidated_at (req_subscription q) = None \<and>
        mode ctx = Named \<and> public_origin ctx = Some (sub_origin (req_subscription q)))"

lemma claim_subscriptions:
  "claim_next_due_delivery now s = (Inr (Some d), s') \<Longrightarrow> push_subscriptions s' = push_subscriptions s"
  by (auto simp: claim_next_due_delivery_def sql_call_def Let_def split: if_splits list.splits sum.splits)

lemma queue_view_key: "queue_view s k = Some d \<Longrightarrow> delivery_key d = k"
  by (auto simp: queue_view_def delivery_from_row_def delivery_key_def dest!: row_lookup_SomeD
      split: option.splits sum.splits)

lemma due_order_keys:
  assumes "store_inv s" and "x \<in> set (due_order now s)"
  shows "snd (snd x) \<in> due_keys now s"
proof -
  obtain k where k: "k \<in> due_keys now s" "x = queue_place (the (queue_view s k))"
    using assms(2) by (auto simp: due_order_def)
  then obtain r where r: "r \<in> set (deliveries s)" "k = delivery_key r" by (auto simp: due_keys_def)
  obtain d where "queue_view s k = Some d" using queue_view_row [OF assms(1) r(1)] r(2) by blast
  with queue_view_key [OF this] k show ?thesis by (simp add: queue_place_def)
qed

lemma process_delivery_requests:
  assumes "process_delivery from_json ctx d now w = (r, w')"
  shows "\<exists>qs. requests w' = requests w @ qs \<and> sent_for from_json ctx (Some d) qs"
proof (cases "from_json (payload_json d)")
  case None
  then have "w' = snd (w_store
      (mark_delivery_failed (dl_event_id d) (dl_device_id d) ''invalid_push_payload'' now) w)"
    using assms by (simp add: process_delivery_def)
  then show ?thesis by (simp add: w_store_requests sent_for_def)
next
  case (Some payload)
  obtain a w1 where a: "w_store (active_subscription (dl_device_id d)) w = (a, w1)" by fastforce
  have rq: "requests w1 = requests w" using w_store_requests a by (metis snd_conv)
  show ?thesis
  proof (cases a)
    case (Inl e)
    with assms Some a rq show ?thesis by (simp add: process_delivery_def bind_ok_def sent_for_def)
  next
    case (Inr found)
    show ?thesis
    proof (cases "\<exists>sub. found = Some sub \<and> origin_matches ctx sub")
      case False
      then have "requests w' = requests w1"
        using assms Some a Inr
          w_store_requests [of "mark_delivery_invalid_subscription (dl_event_id d) (dl_device_id d) now" w1]
          then_ok_requests [of "w_store (invalidate_subscription (dl_device_id d) now)"
            "w_store (mark_delivery_invalid_subscription (dl_event_id d) (dl_device_id d) now)" w1]
        by (cases found) (simp_all add: process_delivery_def bind_ok_def w_store_requests)
      with rq show ?thesis by (simp add: sent_for_def)
    next
      case True
      then obtain sub where sub: "found = Some sub" "origin_matches ctx sub" by blast
      let ?q = "\<lparr>req_subscription = sub, req_payload = payload\<rparr>"
      have "snd (record_result d now (answers w1 (length (requests w1))) (w1\<lparr>requests := requests w1 @ [?q]\<rparr>)) = w'"
        using assms Some a Inr sub by (simp add: process_delivery_def bind_ok_def push_def)
      then have "requests w' = requests w @ [?q]"
        using record_result_requests [of d now "answers w1 (length (requests w1))"
            "w1\<lparr>requests := requests w1 @ [?q]\<rparr>"] rq by simp
      moreover have "invalidated_at sub = None" "sub_device_id sub = dl_device_id d"
      proof -
        have "active_subscription (dl_device_id d) (w_db w) = (Inr found, w_db w1)"
          using a Inr by (auto simp: w_store_ok)
        from active_subscription_due(4) [OF this] sub(1)
        have "find (\<lambda>r. sub_device_id r = dl_device_id d \<and> invalidated_at r = None)
            (push_subscriptions (w_db w)) = Some sub" by simp
        then show "invalidated_at sub = None" "sub_device_id sub = dl_device_id d"
          unfolding find_Some_iff by blast+
      qed
      ultimately show ?thesis using sub(2) Some by (simp add: sent_for_def origin_matches_def)
    qed
  qed
qed

text \<open>
  The address a device's valid subscription was made for, if it has one, and whether it is the bridge's.
\<close>

definition subscribed_at :: "db \<Rightarrow> string \<Rightarrow> string option" where
  "subscribed_at s did =
     map_option sub_origin
       (find (\<lambda>r. sub_device_id r = did \<and> invalidated_at r = None) (push_subscriptions s))"

definition reachable_at :: "db \<Rightarrow> string \<Rightarrow> public_access_context \<Rightarrow> bool" where
  "reachable_at s did ctx \<longleftrightarrow>
     mode ctx = Named \<and> public_origin ctx \<noteq> None \<and> subscribed_at s did = public_origin ctx"

lemma subscribed_update:
  assumes "\<And>r. sub_device_id (f r) = sub_device_id r" "\<And>r. sub_origin (f r) = sub_origin r"
    and "\<And>r. invalidated_at (f r) = invalidated_at r"
  shows "subscribed_at (s\<lparr>push_subscriptions := row_update p f (push_subscriptions s)\<rparr>) did = subscribed_at s did"
proof -
  have "map_option sub_origin (find (\<lambda>r. sub_device_id r = did \<and> invalidated_at r = None) (row_update p f rows)) =
      map_option sub_origin (find (\<lambda>r. sub_device_id r = did \<and> invalidated_at r = None) rows)" for rows
    using assms by (induction rows) (auto simp: row_update_def)
  then show ?thesis by (simp add: subscribed_at_def)
qed

lemma subscribed_invalidate:
  assumes "invalidate_subscription dev at s = (Inr (), s')" and "did \<noteq> dev"
  shows "subscribed_at s' did = subscribed_at s did"
proof -
  have "find (\<lambda>r. sub_device_id r = did \<and> invalidated_at r = None)
      (row_update (\<lambda>r. sub_device_id r = dev) (\<lambda>r. r\<lparr>invalidated_at := Some at\<rparr>) rows) =
    find (\<lambda>r. sub_device_id r = did \<and> invalidated_at r = None) rows" for rows :: "push_subscription list"
    using assms(2) by (induction rows) (auto simp: row_update_def)
  with assms(1) show ?thesis
    by (auto simp: invalidate_subscription_def sql_write_ok subscribed_at_def)
qed

lemma subscribed_marks:
  "mark_delivery_sent eid did0 now s = (Inr (), s') \<Longrightarrow> subscribed_at s' did = subscribed_at s did"
  "update_delivery_status eid did0 st later category now s = (Inr (), s') \<Longrightarrow>
     subscribed_at s' did = subscribed_at s did"
proof -
  show "update_delivery_status eid did0 st later category now s = (Inr (), s') \<Longrightarrow>
     subscribed_at s' did = subscribed_at s did"
    by (auto simp: update_delivery_status_def sql_write_ok subscribed_at_def)
  assume "mark_delivery_sent eid did0 now s = (Inr (), s')"
  then have "push_subscriptions s' = row_update (\<lambda>r. sub_device_id r = did0 \<and> invalidated_at r = None)
      (\<lambda>r. r\<lparr>last_success_at := Some now\<rparr>) (push_subscriptions s)"
    by (auto simp: mark_delivery_sent_def sql_write_ok)
  then have "subscribed_at s' did =
      subscribed_at (s\<lparr>push_subscriptions := row_update (\<lambda>r. sub_device_id r = did0 \<and> invalidated_at r = None)
        (\<lambda>r. r\<lparr>last_success_at := Some now\<rparr>) (push_subscriptions s)\<rparr>) did"
    by (simp add: subscribed_at_def)
  also have "\<dots> = subscribed_at s did" by (rule subscribed_update) simp_all
  finally show "subscribed_at s' did = subscribed_at s did" .
qed

lemma subscribed_two_marks:
  assumes "then_ok (w_store (invalidate_subscription dev now))
      (w_store (mark_delivery_invalid_subscription eid dev now)) w = (Inr (), w')"
  shows "did \<noteq> dev \<Longrightarrow> subscribed_at (w_db w') did = subscribed_at (w_db w) did"
    and "requests w' = requests w" and "answers w' = answers w"
  using assms
  by (auto simp: w_store_ok mark_delivery_invalid_subscription_def subscribed_marks(2) subscribed_invalidate
      elim!: then_ok_okE)

lemma record_result_subscribed:
  assumes "record_result d now result w = (Inr (), w')"
  shows "did \<noteq> dl_device_id d \<or> result \<noteq> Inl PushInvalidSubscription \<Longrightarrow>
      subscribed_at (w_db w') did = subscribed_at (w_db w) did"
    and "answers w' = answers w"
proof -
  have one: "subscribed_at (w_db w') did = subscribed_at (w_db w) did \<and> answers w' = answers w"
    if "w_store (mark_delivery_sent (dl_event_id d) (dl_device_id d) now) w = (Inr (), w') \<or>
      (\<exists>st later category. w_store (update_delivery_status (dl_event_id d) (dl_device_id d) st later category now) w
        = (Inr (), w'))" for did
    using that by (auto simp: w_store_ok subscribed_marks)
  have "(result = Inl PushInvalidSubscription \<and>
      then_ok (w_store (invalidate_subscription (dl_device_id d) now))
        (w_store (mark_delivery_invalid_subscription (dl_event_id d) (dl_device_id d) now)) w = (Inr (), w')) \<or>
    (result \<noteq> Inl PushInvalidSubscription \<and>
      (w_store (mark_delivery_sent (dl_event_id d) (dl_device_id d) now) w = (Inr (), w') \<or>
       (\<exists>st later category. w_store (update_delivery_status (dl_event_id d) (dl_device_id d) st later category now) w
        = (Inr (), w'))))"
    using assms
    by (auto simp: record_result_def Let_def mark_delivery_retry_def mark_delivery_failed_def err_def
        split: sum.splits push_failure_class.splits if_splits)
  then show "did \<noteq> dl_device_id d \<or> result \<noteq> Inl PushInvalidSubscription \<Longrightarrow>
      subscribed_at (w_db w') did = subscribed_at (w_db w) did" "answers w' = answers w"
    using one subscribed_two_marks by metis+
qed

text \<open>
  What one delivery does to the subscriptions, and why it may be left out: its payload is not readable,
  or its device is not reachable.
\<close>

lemma process_delivery_reach:
  assumes "process_delivery from_json ctx d now w = (Inr (), w')"
  shows "requests w' = requests w \<Longrightarrow>
      from_json (payload_json d) = None \<or> \<not> reachable_at (w_db w) (dl_device_id d) ctx"
    and "answers w' = answers w"
    and "subscribed_at (w_db w') did = subscribed_at (w_db w) did \<or>
      did = dl_device_id d \<and> (\<not> reachable_at (w_db w) did ctx \<or>
        requests w' \<noteq> requests w \<and> answers w (length (requests w)) = Inl PushInvalidSubscription)"
proof -
  have "(requests w' = requests w \<longrightarrow>
      from_json (payload_json d) = None \<or> \<not> reachable_at (w_db w) (dl_device_id d) ctx) \<and>
    answers w' = answers w \<and>
    (subscribed_at (w_db w') did = subscribed_at (w_db w) did \<or>
      did = dl_device_id d \<and> (\<not> reachable_at (w_db w) did ctx \<or>
        requests w' \<noteq> requests w \<and> answers w (length (requests w)) = Inl PushInvalidSubscription))"
  proof (cases "from_json (payload_json d)")
    case None
    with assms show ?thesis
      by (auto simp: process_delivery_def w_store_ok mark_delivery_failed_def subscribed_marks)
  next
    case (Some payload)
    obtain found s1 where a: "active_subscription (dl_device_id d) (w_db w) = (Inr found, s1)"
      and rest: "(case found of
          None \<Rightarrow> w_store (mark_delivery_invalid_subscription (dl_event_id d) (dl_device_id d) now)
        | Some sub \<Rightarrow>
            if \<not> origin_matches ctx sub then
              then_ok (w_store (invalidate_subscription (dl_device_id d) now))
                (w_store (mark_delivery_invalid_subscription (dl_event_id d) (dl_device_id d) now))
            else bind_ok (push sub payload) (record_result d now)) (w\<lparr>w_db := s1\<rparr>) = (Inr (), w')"
      using assms Some by (auto simp: process_delivery_def w_store_ok elim!: bind_ok_okE)
    note eq = active_subscription_due(3,4) [OF a]
    have sub1: "subscribed_at s1 = subscribed_at (w_db w)" using eq(1) by (simp add: subscribed_at_def fun_eq_iff)
    have reach: "reachable_at (w_db w) (dl_device_id d) ctx \<longleftrightarrow>
        (\<exists>sub. found = Some sub \<and> origin_matches ctx sub)"
      unfolding reachable_at_def subscribed_at_def origin_matches_def eq(2) [symmetric]
      by (cases found) auto
    show ?thesis
    proof (cases "\<exists>sub. found = Some sub \<and> origin_matches ctx sub")
      case False
      then have "w_store (mark_delivery_invalid_subscription (dl_event_id d) (dl_device_id d) now) (w\<lparr>w_db := s1\<rparr>)
          = (Inr (), w') \<or> then_ok (w_store (invalidate_subscription (dl_device_id d) now))
            (w_store (mark_delivery_invalid_subscription (dl_event_id d) (dl_device_id d) now)) (w\<lparr>w_db := s1\<rparr>)
          = (Inr (), w')"
        using rest by (cases found) auto
      then have "requests w' = requests w \<and> answers w' = answers w \<and>
          (did \<noteq> dl_device_id d \<longrightarrow> subscribed_at (w_db w') did = subscribed_at (w_db w) did)"
      proof
        assume "w_store (mark_delivery_invalid_subscription (dl_event_id d) (dl_device_id d) now) (w\<lparr>w_db := s1\<rparr>)
          = (Inr (), w')"
        then show ?thesis
          using sub1 by (auto simp: w_store_ok mark_delivery_invalid_subscription_def subscribed_marks)
      next
        assume "then_ok (w_store (invalidate_subscription (dl_device_id d) now))
            (w_store (mark_delivery_invalid_subscription (dl_event_id d) (dl_device_id d) now)) (w\<lparr>w_db := s1\<rparr>)
          = (Inr (), w')"
        from subscribed_two_marks [OF this] show ?thesis using sub1 by simp
      qed
      with False reach show ?thesis by blast
    next
      case True
      then obtain sub where sub: "found = Some sub" "origin_matches ctx sub" by blast
      let ?q = "\<lparr>req_subscription = sub, req_payload = payload\<rparr>"
      let ?w1 = "w\<lparr>w_db := s1, requests := requests w @ [?q]\<rparr>"
      have r: "record_result d now (answers w (length (requests w))) ?w1 = (Inr (), w')"
        using rest sub by (simp add: push_def bind_ok_def)
      have "requests w' = requests w @ [?q]"
        using record_result_requests [of d now "answers w (length (requests w))" ?w1] r by simp
      then have "requests w' \<noteq> requests w" by simp
      moreover have "answers w' = answers w" using record_result_subscribed(2) [OF r] by simp
      moreover have "did \<noteq> dl_device_id d \<or> answers w (length (requests w)) \<noteq> Inl PushInvalidSubscription \<Longrightarrow>
          subscribed_at (w_db w') did = subscribed_at (w_db w) did"
        using record_result_subscribed(1) [OF r] sub1 by simp
      ultimately show ?thesis by blast
    qed
  qed
  then show "requests w' = requests w \<Longrightarrow>
      from_json (payload_json d) = None \<or> \<not> reachable_at (w_db w) (dl_device_id d) ctx"
    "answers w' = answers w"
    "subscribed_at (w_db w') did = subscribed_at (w_db w) did \<or>
      did = dl_device_id d \<and> (\<not> reachable_at (w_db w) did ctx \<or>
        requests w' \<noteq> requests w \<and> answers w (length (requests w)) = Inl PushInvalidSubscription)"
    by blast+
qed

text \<open>
  Why the i-th due delivery of a drain was left out: its payload is not readable, or at its turn or
  before, for a delivery to the same device, the device was not reachable or its push service refused the
  subscription. The m-th reading of the bridge's access is taken for the m-th delivery, and \<open>sent\<close> is what
  was sent for the deliveries so far.
\<close>

definition left_out ::
  "(string \<Rightarrow> push_payload option) \<Rightarrow> (nat \<Rightarrow> public_access_context) \<Rightarrow> u64 \<Rightarrow> worker \<Rightarrow>
   push_request list list \<Rightarrow> nat \<Rightarrow> bool" where
  "left_out from_json reading now w sent_lists i \<longleftrightarrow>
     (\<exists>d. nth_due now (w_db w) i = Some d \<and>
        (from_json (payload_json d) = None \<or>
         (\<exists>j \<le> i. \<exists>e. nth_due now (w_db w) j = Some e \<and> dl_device_id e = dl_device_id d \<and>
            (\<not> reachable_at (w_db w) (dl_device_id d) (reading j) \<or>
             j < i \<and> sent_lists ! j \<noteq> [] \<and>
             answers w (length (requests w) + length (concat (take j sent_lists))) = Inl PushInvalidSubscription))))"

lemma left_outI:
  assumes "nth_due now (w_db w) i = Some d" and "j \<le> i" and "nth_due now (w_db w) j = Some e"
    and "dl_device_id e = dl_device_id d"
    and "\<not> reachable_at (w_db w) (dl_device_id d) (reading j) \<or>
      j < i \<and> sent_lists ! j \<noteq> [] \<and>
      answers w (length (requests w) + length (concat (take j sent_lists))) = Inl PushInvalidSubscription"
  shows "left_out from_json reading now w sent_lists i"
  using assms unfolding left_out_def by blast

lemma left_out_first:
  assumes "process_delivery from_json ctx d now w1 = (Inr (), w2)" and "requests w2 = requests w1"
    and "nth_due now (w_db w) 0 = Some d0" "payload_json d0 = payload_json d" "dl_device_id d0 = dl_device_id d"
    and "push_subscriptions (w_db w1) = push_subscriptions (w_db w)" and "reading 0 = ctx"
  shows "left_out from_json reading now w sent_lists 0"
proof -
  have "from_json (payload_json d0) = None \<or> \<not> reachable_at (w_db w) (dl_device_id d0) ctx"
    using process_delivery_reach(1) [OF assms(1,2)] assms(4-6) by (simp add: reachable_at_def subscribed_at_def)
  with assms(3,7) show ?thesis unfolding left_out_def by blast
qed

lemma left_out_later:
  assumes "process_delivery from_json ctx d now w1 = (Inr (), w2)"
    and later: "left_out from_json (\<lambda>j. reading (Suc j)) now w2 qss i"
    and first: "nth_due now (w_db w) 0 = Some d0" "dl_device_id d0 = dl_device_id d"
    and same: "push_subscriptions (w_db w1) = push_subscriptions (w_db w)" "requests w1 = requests w"
      "answers w1 = answers w" and "reading 0 = ctx"
    and qs: "requests w2 = requests w @ qs"
    and nth: "\<And>j. j \<le> i \<Longrightarrow> nth_due now (w_db w) (Suc j) = nth_due now (w_db w2) j"
  shows "left_out from_json reading now w (qs # qss) (Suc i)"
proof -
  obtain d1 where d1: "nth_due now (w_db w2) i = Some d1" and why: "from_json (payload_json d1) = None \<or>
      (\<exists>j \<le> i. \<exists>e. nth_due now (w_db w2) j = Some e \<and> dl_device_id e = dl_device_id d1 \<and>
        (\<not> reachable_at (w_db w2) (dl_device_id d1) (reading (Suc j)) \<or>
         j < i \<and> qss ! j \<noteq> [] \<and>
         answers w2 (length (requests w2) + length (concat (take j qss))) = Inl PushInvalidSubscription))"
    using later by (auto simp: left_out_def)
  have ans: "answers w2 = answers w" using process_delivery_reach(2) [OF assms(1)] same(3) by simp
  have sub: "subscribed_at (w_db w2) (dl_device_id d1) = subscribed_at (w_db w) (dl_device_id d1) \<or>
      dl_device_id d1 = dl_device_id d \<and> (\<not> reachable_at (w_db w) (dl_device_id d1) ctx \<or>
        qs \<noteq> [] \<and> answers w (length (requests w)) = Inl PushInvalidSubscription)"
    using process_delivery_reach(3) [OF assms(1), of "dl_device_id d1"] same qs
    by (simp add: reachable_at_def subscribed_at_def)
  from why show ?thesis
  proof (elim disjE exE conjE)
    assume "from_json (payload_json d1) = None"
    with nth [of i] d1 show ?thesis by (simp add: left_out_def)
  next
    fix j e
    assume j: "j \<le> i" and e: "nth_due now (w_db w2) j = Some e" "dl_device_id e = dl_device_id d1"
      and n: "\<not> reachable_at (w_db w2) (dl_device_id d1) (reading (Suc j))"
    show ?thesis
    proof (cases "subscribed_at (w_db w2) (dl_device_id d1) = subscribed_at (w_db w) (dl_device_id d1)")
      case True
      with n have "\<not> reachable_at (w_db w) (dl_device_id d1) (reading (Suc j))"
        by (simp add: reachable_at_def)
      with j e nth [of j] nth [of i] d1 show ?thesis 
        by (intro left_outI [of _ _ "Suc i" d1 "Suc j" e]) simp_all
    next
      case False
      with sub first assms(8) nth [of i] d1 show ?thesis 
        by (intro left_outI [of _ _ "Suc i" d1 0 d0]) auto
    qed
  next
    fix j e
    assume j: "j < i" and e: "nth_due now (w_db w2) j = Some e" "dl_device_id e = dl_device_id d1"
      and n: "qss ! j \<noteq> []"
        "answers w2 (length (requests w2) + length (concat (take j qss))) = Inl PushInvalidSubscription"
    with nth [of j] nth [of i] d1 ans qs show ?thesis 
      by (intro left_outI [of _ _ "Suc i" d1 "Suc j" e]) (simp_all add: add.assoc)
  qed
qed

lemma drain_loop_requests:
  assumes "store_inv (w_db w)" and "drain_loop from_json access_at now n w = Some res"
  shows "\<exists>qss. requests (snd res) = requests w @ concat qss \<and>
           length qss \<le> length (due_order now (w_db w)) \<and>
           (\<forall>i < length qss. sent_for from_json (access_at (Suc (n + i))) (nth_due now (w_db w) i) (qss ! i)) \<and>
           (\<forall>m. fst res = Inr m \<longrightarrow> length qss = length (due_order now (w_db w)) \<and>
              (\<forall>i < length qss. qss ! i = [] \<longrightarrow>
                 left_out from_json (\<lambda>j. access_at (Suc (n + j))) now w qss i))"
  using assms
proof (induction "card (due_keys now (w_db w))" arbitrary: n w rule: less_induct)
  case less
  obtain c w1 where c: "w_store (claim_next_due_delivery now) w = (c, w1)" by fastforce
  have r1: "requests w1 = requests w" using w_store_requests c by (metis snd_conv)
  note step = less.prems(2) [unfolded drain_loop.simps [of _ _ _ n]]
  show ?case
  proof (cases "\<exists>d. c = Inr (Some d)")
    case False
    then have "requests (snd res) = requests w"
      using step c r1 by (auto split: sum.splits option.splits)
    moreover have "due_order now (w_db w) = []" if m: "fst res = Inr m" for m
    proof -
      have "c = Inr None" using False step c m by (auto split: sum.splits option.splits)
      then have "claim_next_due_delivery now (w_db w) = (Inr None, w_db w1)" using c by (auto simp: w_store_ok)
      then have "due_keys now (w_db w) = {}" by (rule claim_none)
      then show ?thesis by (simp add: due_order_def)
    qed
    ultimately show ?thesis by (intro exI [of _ "[]"]) auto
  next
    case True
    then obtain d where d: "c = Inr (Some d)" by blast
    have cw: "claim_next_due_delivery now (w_db w) = (Inr (Some d), w_db w1)" and inv1: "store_inv (w_db w1)"
      and a1: "answers w1 = answers w"
      using claim_in_worker c d less.prems(1) by blast+
    obtain x d0 where o: "due_order now (w_db w) = x # due_order now (w_db w1)" "snd (snd x) = delivery_key d"
      and d0: "queue_view (w_db w) (delivery_key d) = Some d0" "payload_json d0 = payload_json d"
      and v1: "\<And>k. k \<noteq> delivery_key d \<Longrightarrow> queue_view (w_db w1) k = queue_view (w_db w) k"
      and k1: "due_keys now (w_db w1) = due_keys now (w_db w) - {delivery_key d}"
      and kd: "delivery_key d \<in> due_keys now (w_db w)"
      using due_order_claim [OF less.prems(1) cw] by metis
    have subs1: "push_subscriptions (w_db w1) = push_subscriptions (w_db w)"
      by (rule claim_subscriptions [OF cw])
    have dev: "dl_device_id d0 = dl_device_id d"
      using queue_view_key [OF d0(1)] by (simp add: delivery_key_def)
    have first: "nth_due now (w_db w) 0 = Some d0" using o d0(1) by (simp add: nth_due_def)
    obtain p w2 where p: "process_delivery from_json (access_at (Suc n)) d now w1 = (p, w2)" by fastforce
    obtain qs where qs: "requests w2 = requests w @ qs" "sent_for from_json (access_at (Suc n)) (Some d) qs"
      using process_delivery_requests [OF p] r1 by auto
    have qs': "sent_for from_json (access_at (Suc n)) (nth_due now (w_db w) 0) qs"
      using qs(2) d0(2) dev unfolding first sent_for_def by auto
    show ?thesis
    proof (cases p)
      case (Inl e)
      then have "res = (Inl e, w2)" using step c d p by simp
      with qs qs' o show ?thesis by (intro exI [of _ "[qs]"]) simp
    next
      case (Inr u)
      then have p': "process_delivery from_json (access_at (Suc n)) d now w1 = (Inr (), w2)" using p by simp
      then have st: "settles_in_queue now d (w_db w1) (w_db w2)" by (rule process_delivery_settles)
      have fresh: "delivery_key d \<notin> due_keys now (w_db w1)" using k1 by simp
      note o2 = due_order_settled [OF st fresh]
      have k2: "due_keys now (w_db w2) = due_keys now (w_db w1)"
        using st fresh by (simp add: settles_in_queue_def)
      have inv2: "store_inv (w_db w2)" using maintainsD [OF process_delivery_inv p inv1] .
      have lp: "drain_loop from_json access_at now (Suc n) w2 = Some res" using step c d p Inr by simp
      have "card (due_keys now (w_db w2)) < card (due_keys now (w_db w))"
        unfolding k2 k1 by (rule card_Diff1_less) (simp_all add: kd)
      from less.hyps [OF this inv2 lp] obtain qss where
        q: "requests (snd res) = requests w2 @ concat qss" "length qss \<le> length (due_order now (w_db w2))"
        "\<forall>i < length qss. sent_for from_json (access_at (Suc (Suc n + i))) (nth_due now (w_db w2) i) (qss ! i)"
        "\<forall>m. fst res = Inr m \<longrightarrow> length qss = length (due_order now (w_db w2)) \<and>
           (\<forall>i < length qss. qss ! i = [] \<longrightarrow>
              left_out from_json (\<lambda>j. access_at (Suc (Suc n + j))) now w2 qss i)"
        by blast
      have later: "nth_due now (w_db w) (Suc i) = nth_due now (w_db w2) i"
        if "i < length (due_order now (w_db w2))" for i
      proof -
        have "due_order now (w_db w2) ! i \<in> set (due_order now (w_db w2))" using that by simp
        then have "snd (snd (due_order now (w_db w2) ! i)) \<in> due_keys now (w_db w2)"
          by (rule due_order_keys [OF inv2])
        then have "snd (snd (due_order now (w_db w2) ! i)) \<noteq> delivery_key d" using k2 k1 by auto
        then show ?thesis using o(1) o2(1) o2(2) v1 by (simp add: nth_due_def)
      qed
      have sent: "sent_for from_json (access_at (Suc (n + i))) (nth_due now (w_db w) i) ((qs # qss) ! i)"
        if "i < length (qs # qss)" for i
        using that qs' q(2,3) later by (cases i) auto
      have out: "left_out from_json (\<lambda>j. access_at (Suc (n + j))) now w (qs # qss) i"
        if "fst res = Inr m" "i < length (qs # qss)" "(qs # qss) ! i = []" for m i
      proof (cases i)
        case 0
        with that have "requests w2 = requests w1" using qs(1) r1 by simp
        from left_out_first [OF p' this first d0(2) dev subs1] show ?thesis by (simp add: 0)
      next
        case (Suc k)
        with that q(4) have l: "left_out from_json (\<lambda>j. access_at (Suc (Suc n + j))) now w2 qss k" by simp
        show ?thesis unfolding Suc
        proof (rule left_out_later [OF p' _ first dev subs1 r1 a1 _ qs(1)])
          show "left_out from_json (\<lambda>j. access_at (Suc (n + Suc j))) now w2 qss k" using l by simp
          show "nth_due now (w_db w) (Suc j) = nth_due now (w_db w2) j" if "j \<le> k" for j
            using later that Suc \<open>i < length (qs # qss)\<close> q(2) by simp
        qed simp
      qed
      show ?thesis
      proof (intro exI [of _ "qs # qss"] conjI allI impI)
        show "requests (snd res) = requests w @ concat (qs # qss)" using q(1) qs(1) by simp
        show "length (qs # qss) \<le> length (due_order now (w_db w))" using q(2) o(1) o2(1) by simp
        show "length (qs # qss) = length (due_order now (w_db w))" if "fst res = Inr m" for m
          using q(4) that o(1) o2(1) by simp
      qed (use sent out in blast)+
    qed
  qed
qed

section \<open>Properties\<close>

text \<open>
  C8. A drain ends. From consistent tables, whatever the push services answer and however the
  bridge's address changes meanwhile, the drain returns, the tables are consistent again, and the
  table of retry delays is never read out of range.
\<close>

theorem drain_returns:
  assumes "store_inv (w_db w)"
  shows "\<exists>r w'. drain_due_once_at from_json access_at now w = Some (r, w') \<and>
           r \<noteq> Inl RetryIndexPanic \<and> store_inv (w_db w')"
  using drain_loop_ends [OF assms, of from_json access_at now 0] assms
  unfolding drain_due_once_at_def by auto

text \<open>
  C9. What a drain does to the queue. A drain that ends without a database error has processed
  each delivery that was due once: each is now sent, dropped for good, or pending at a later time
  after at most three attempts, with its payload and one more attempt counted; nothing is due any
  more, and no other delivery changed.
\<close>

theorem drain_settles_due:
  assumes "store_inv (w_db w)" and "mode (access_at 0) = Named"
    and "drain_due_once_at from_json access_at now w = Some (Inr n, w')"
  shows "n = card (due_keys now (w_db w)) \<and> due_keys now (w_db w') = {} \<and>
         (\<forall>k. k \<notin> due_keys now (w_db w) \<longrightarrow> queue_view (w_db w') k = queue_view (w_db w) k) \<and>
         (\<forall>k \<in> due_keys now (w_db w). \<exists>d d'. queue_view (w_db w) k = Some d \<and>
            queue_view (w_db w') k = Some d' \<and> settles now (claimed now d) d')"
proof -
  have "drain_loop from_json access_at now 0 w = Some (Inr n, w')"
    using assms(2,3) by (simp add: drain_due_once_at_def)
  then have "n = card (due_keys now (w_db w)) \<and> drained now (w_db w) (w_db w')"
    using drain_loop_ends [OF assms(1), of from_json access_at now 0] by auto
  then show ?thesis by (simp add: drained_def)
qed

text \<open>
  C10. Pushes go where the bridge is, and only there. Whatever its result, a drain comes to the due deliveries in
  their order (due time, last update, event, device) and sends for the i-th of them at most one request:
  with that delivery's payload, to a subscription of its device that is valid and was made for the named
  address in the reading of the bridge's access taken for that delivery, the (i+1)-st reading. If the
  bridge has no named address at the first reading, it sends none. If it has one, and the drain ends without a
  database error, it came to all due deliveries, and left one out only when its payload is not readable, or when,
  at its turn or at that of an earlier delivery to the device, the device had no valid subscription for the
  address of the reading, or an earlier push to the device was answered with the refusal of its subscription.
\<close>

theorem requests_match_origin:
  assumes "store_inv (w_db w)" and "drain_due_once_at from_json access_at now w = Some (r, w')"
  shows "\<exists>qss. requests w' = requests w @ concat qss \<and> (mode (access_at 0) \<noteq> Named \<longrightarrow> qss = []) \<and>
           length qss \<le> length (due_order now (w_db w)) \<and>
           (\<forall>i < length qss. qss ! i \<noteq> [] \<longrightarrow>
              (\<exists>q d. qss ! i = [q] \<and> nth_due now (w_db w) i = Some d \<and>
                 from_json (payload_json d) = Some (req_payload q) \<and>
                 sub_device_id (req_subscription q) = dl_device_id d \<and>
                 invalidated_at (req_subscription q) = None \<and>
                 mode (access_at (Suc i)) = Named \<and>
                 public_origin (access_at (Suc i)) = Some (sub_origin (req_subscription q)))) \<and>
           (mode (access_at 0) = Named \<longrightarrow> (\<forall>n. r = Inr n \<longrightarrow>
              length qss = length (due_order now (w_db w)) \<and>
              (\<forall>i < length qss. qss ! i = [] \<longrightarrow>
                 left_out from_json (\<lambda>j. access_at (Suc j)) now w qss i)))"
proof (cases "mode (access_at 0) = Named")
  case False
  with assms(2) have "requests w' = requests w" by (simp add: drain_due_once_at_def)
  with False show ?thesis by (intro exI [of _ "[]"]) simp
next
  case True
  then have "drain_loop from_json access_at now 0 w = Some (r, w')"
    using assms(2) by (simp add: drain_due_once_at_def)
  from drain_loop_requests [OF assms(1) this] obtain qss where q: "requests w' = requests w @ concat qss"
    "length qss \<le> length (due_order now (w_db w))"
    "\<forall>i < length qss. sent_for from_json (access_at (Suc i)) (nth_due now (w_db w) i) (qss ! i)"
    "\<forall>m. r = Inr m \<longrightarrow> length qss = length (due_order now (w_db w)) \<and>
       (\<forall>i < length qss. qss ! i = [] \<longrightarrow> left_out from_json (\<lambda>j. access_at (Suc j)) now w qss i)" by auto
  have "\<forall>i < length qss. qss ! i \<noteq> [] \<longrightarrow>
      (\<exists>q d. qss ! i = [q] \<and> nth_due now (w_db w) i = Some d \<and>
         from_json (payload_json d) = Some (req_payload q) \<and>
         sub_device_id (req_subscription q) = dl_device_id d \<and>
         invalidated_at (req_subscription q) = None \<and>
         mode (access_at (Suc i)) = Named \<and>
         public_origin (access_at (Suc i)) = Some (sub_origin (req_subscription q)))"
    using q(3) unfolding sent_for_def by blast
  with q True show ?thesis by (intro exI [of _ qss]) simp
qed

text \<open>A worker with one subscribed device and one delivery that is due.\<close>

definition named_access :: public_access_context where
  "named_access = \<lparr>mode = Named, public_origin = Some ''https://a.example''\<rparr>"

definition demo_worker :: "bool list \<Rightarrow> (nat \<Rightarrow> push_failure_class + unit) \<Rightarrow> worker" where
  "demo_worker fs ans =
     \<lparr>w_db = empty_db\<lparr>faults := fs, push_subscriptions := [demo_subscription],
                       deliveries := [to_delivery_row demo_delivery]\<rparr>,
      requests = [], answers = ans\<rparr>"

definition demo_drain :: "u64 \<Rightarrow> worker \<Rightarrow> ((worker_error + nat) \<times> worker) option" where
  "demo_drain now = drain_due_once_at (\<lambda>s. Some demo_payload) (\<lambda>i. named_access) now"

lemma demo_worker_inv: "store_inv (w_db (demo_worker fs ans))"
  by (simp add: demo_worker_def store_inv_def empty_db_def keyed_def demo_delivery_def
      to_delivery_row_def delivery_key_def valid_status_cases)

lemmas drain_eval =
  demo_drain_def drain_due_once_at_def drain_loop.simps w_store_def claim_next_due_delivery_def
  process_delivery_def active_subscription_def record_result_def push_def action_simps
  origin_matches_def named_access_def demo_worker_def demo_subscription_def mark_delivery_sent_def
  mark_delivery_retry_def mark_delivery_failed_def mark_delivery_invalid_subscription_def
  invalidate_subscription_def update_delivery_status_def sql_read_def sql_write_def store_eval

theorem drain_returns_witness:
  "\<exists>r w'. demo_drain 7 (demo_worker [] (\<lambda>n. Inl Retryable)) = Some (r, w') \<and>
     r \<noteq> Inl RetryIndexPanic \<and> store_inv (w_db w')"
  unfolding demo_drain_def by (rule drain_returns [OF demo_worker_inv])

lemma demo_drain_sent:
  "demo_drain 7 (demo_worker [] (\<lambda>n. Inr ())) =
     Some (Inr 1, snd (the (demo_drain 7 (demo_worker [] (\<lambda>n. Inr ())))))"
  by (simp add: drain_eval)

theorem drain_settles_due_witness:
  "due_keys 7 (w_db (snd (the (demo_drain 7 (demo_worker [] (\<lambda>n. Inr ())))))) = {} \<and>
   card (due_keys 7 (w_db (demo_worker [] (\<lambda>n. Inr ())))) = 1"
proof -
  let ?w = "demo_worker [] (\<lambda>n. Inr ())" and ?w' = "snd (the (demo_drain 7 (demo_worker [] (\<lambda>n. Inr ()))))"
  have "drain_due_once_at (\<lambda>s. Some demo_payload) (\<lambda>i. named_access) 7 ?w = Some (Inr 1, ?w')"
    using demo_drain_sent unfolding demo_drain_def .
  from drain_settles_due [OF demo_worker_inv _ this] show ?thesis by (simp add: named_access_def)
qed

theorem requests_match_origin_witness:
  "\<exists>qss. requests (snd (the (demo_drain 7 (demo_worker [] (\<lambda>n. Inr ()))))) = concat qss \<and>
     (\<forall>i < length qss. \<forall>q \<in> set (qss ! i). sub_origin (req_subscription q) = ''https://a.example'')"
proof -
  let ?w = "demo_worker [] (\<lambda>n. Inr ())" and ?w' = "snd (the (demo_drain 7 (demo_worker [] (\<lambda>n. Inr ()))))"
  have "drain_due_once_at (\<lambda>s. Some demo_payload) (\<lambda>i. named_access) 7 ?w = Some (Inr 1, ?w')"
    using demo_drain_sent unfolding demo_drain_def .
  from requests_match_origin [OF demo_worker_inv this] obtain qss
    where "requests ?w' = requests ?w @ concat qss"
      and q: "\<And>i. i < length qss \<Longrightarrow> qss ! i \<noteq> [] \<Longrightarrow>
        \<exists>q. qss ! i = [q] \<and> public_origin named_access = Some (sub_origin (req_subscription q))" by blast
  moreover have "sub_origin (req_subscription x) = ''https://a.example''"
    if "i < length qss" "x \<in> set (qss ! i)" for i x
    using q [OF that(1)] that(2) by (cases "qss ! i") (auto simp: named_access_def)
  ultimately show ?thesis by (intro exI [of _ qss]) (simp add: demo_worker_def)
qed

text \<open>
  A push whose result cannot be recorded. The push is sent, the database fails when the result
  is written: the delivery stays marked as being sent, and no later drain touches it. After a
  restart it is pending again and the same push is sent a second time.
\<close>

lemma unrecorded_push_sent_again:
  "\<exists>w1 w2 w3.
     demo_drain 7 (demo_worker [False, False, True] (\<lambda>n. Inr ())) =
       Some (Inl (WorkerStoreError ConnectionFailure), w1) \<and> length (requests w1) = 1 \<and>
     demo_drain 1000000 w1 = Some (Inr 0, w2) \<and>
     map dl_status (deliveries (w_db w2)) = [''sending''] \<and>
     demo_drain 1000001 (w2\<lparr>w_db := snd (store_migrate (w_db w2))\<rparr>) = Some (Inr 1, w3) \<and>
     length (requests w3) = 2 \<and> map req_payload (requests w3) = [demo_payload, demo_payload]"
  by (simp add: drain_eval store_migrate_def)

lemma fold_min_le: "fold min xs (x :: 'a::linorder) \<le> x \<and> (\<forall>y \<in> set xs. fold min xs x \<le> y)"
proof (induction xs arbitrary: x)
  case (Cons a xs)
  from Cons [of "min a x"] show ?case by (auto intro: order_trans)
qed simp

text \<open>
  The worker never sleeps past the next push. It waits at most thirty seconds, and with a
  named address and a working database never beyond the time at which a pending delivery is due.
\<close>

lemma worker_wakes_in_time:
  assumes "next_wait ctx now w = (d, w')"
  shows "unat d \<le> 30000 \<and>
         (mode ctx = Named \<longrightarrow> faults (w_db w) = [] \<longrightarrow>
           (\<forall>r \<in> set (deliveries (w_db w)). dl_status r = ''pending'' \<longrightarrow>
              unat now + unat d \<le> max (unat now) (unat (next_attempt_at r))))"
proof -
  let ?due = "map next_attempt_at (filter (\<lambda>r. dl_status r = ''pending'') (deliveries (w_db w)))"
  have idle: "unat MAX_IDLE_WAIT = 30000" by (simp add: MAX_IDLE_WAIT_def)
  have m: "unat (min a b) = min (unat a) (unat b)" for a b :: u64
    by (simp add: min_def word_le_nat_alt)
  have bound: "unat d \<le> 30000"
    using assms idle by (auto simp: next_wait_def m split: if_splits prod.splits sum.splits option.splits)
  have "unat now + unat d \<le> max (unat now) (unat (next_attempt_at r))"
    if "mode ctx = Named" "faults (w_db w) = []" "r \<in> set (deliveries (w_db w))" "dl_status r = ''pending''" for r
  proof -
    have "next_attempt_at r \<in> set ?due" using that by auto
    then obtain x xs where due: "?due = x # xs" by (cases ?due) auto
    have "d = min (saturating_sub (fold min xs x) now) MAX_IDLE_WAIT"
      using assms that(1,2) due
      by (auto simp: next_wait_def w_store_def next_delivery_due_at_def sql_working split: if_splits)
    moreover have "fold min xs x \<le> next_attempt_at r"
      using fold_min_le [of xs x] \<open>next_attempt_at r \<in> set ?due\<close> unfolding due by auto
    ultimately show ?thesis by (auto simp: m unat_saturating_sub word_le_nat_alt)
  qed
  with bound show ?thesis by blast
qed

end
