(* ===== verification/Local_Assets.thy ===== *)
theory Local_Assets
  imports Prelude
begin

text \<open>
  \<open>crates/bridge-core/src/local_assets.rs\<close>: the registry of local images a phone may fetch. A path
  is registered under a random token; entries expire and the least recently used ones are evicted.
  The two hash maps are the map \<open>by_path\<close> and the rows \<open>by_token\<close> (in any order); the clock reading
  and the new UUID are arguments.
\<close>

definition DEFAULT_LOCAL_ASSET_MAX_ENTRIES :: nat where
  "DEFAULT_LOCAL_ASSET_MAX_ENTRIES = 256"

definition DEFAULT_LOCAL_ASSET_TTL_MS :: u64 where
  "DEFAULT_LOCAL_ASSET_TTL_MS = 30 * 60 * 1000"

record registry_config =
  max_entries :: nat
  ttl_ms :: u64

definition default_registry_config :: registry_config where
  "default_registry_config =
     \<lparr>max_entries = DEFAULT_LOCAL_ASSET_MAX_ENTRIES, ttl_ms = DEFAULT_LOCAL_ASSET_TTL_MS\<rparr>"

text \<open>An entry, with the token it is stored under.\<close>

record asset_entry =
  la_token :: string
  la_path :: string
  la_created_at :: u64
  la_last_accessed_at :: u64
  la_access_sequence :: u64

record asset_registry =
  by_path :: "string \<rightharpoonup> string"
  by_token :: "asset_entry list"
  reg_config :: registry_config
  access_sequence :: u64

definition registry_with_config :: "registry_config \<Rightarrow> asset_registry" where
  "registry_with_config cfg =
     \<lparr>by_path = Map.empty, by_token = [], reg_config = cfg, access_sequence = 0\<rparr>"

definition next_access_sequence :: "asset_registry \<Rightarrow> u64 \<times> asset_registry" where
  "next_access_sequence st =
     (let n = saturating_add (access_sequence st) 1 in (n, st\<lparr>access_sequence := n\<rparr>))"

definition is_expired :: "u64 \<Rightarrow> asset_entry \<Rightarrow> u64 \<Rightarrow> bool" where
  "is_expired ttl e now \<longleftrightarrow> ttl < saturating_sub now (la_created_at e)"

definition remove_token :: "string \<Rightarrow> asset_registry \<Rightarrow> asset_registry" where
  "remove_token tok st =
     (case row_lookup la_token tok (by_token st) of
        None \<Rightarrow> st
      | Some e \<Rightarrow> st\<lparr>by_token := row_delete (\<lambda>r. la_token r = tok) (by_token st),
                     by_path := (by_path st)(la_path e := None)\<rparr>)"

definition prune_expired :: "u64 \<Rightarrow> asset_registry \<Rightarrow> asset_registry" where
  "prune_expired now st =
     fold remove_token
       (map la_token (filter (\<lambda>e. is_expired (ttl_ms (reg_config st)) e now) (by_token st))) st"

definition touch_existing :: "string \<Rightarrow> u64 \<Rightarrow> asset_registry \<Rightarrow> bool \<times> asset_registry" where
  "touch_existing tok now st =
     (case row_lookup la_token tok (by_token st) of
        None \<Rightarrow> (False, st)
      | Some e \<Rightarrow>
          if is_expired (ttl_ms (reg_config st)) e now then (False, st)
          else (case next_access_sequence st of
            (n, st') \<Rightarrow> (True, st'\<lparr>by_token := row_update (\<lambda>r. la_token r = tok)
               (\<lambda>r. r\<lparr>la_last_accessed_at := now, la_access_sequence := n\<rparr>) (by_token st')\<rparr>)))"

text \<open>\<open>min_by_key\<close>: the first entry with the least sequence number.\<close>

fun least_recent :: "asset_entry list \<Rightarrow> asset_entry option" where
  "least_recent [] = None"
| "least_recent (e # es) =
     (case least_recent es of
        None \<Rightarrow> Some e
      | Some m \<Rightarrow> if la_access_sequence e \<le> la_access_sequence m then Some e else Some m)"

lemma least_recent_mem: "least_recent es = Some m \<Longrightarrow> m \<in> set es"
  by (induction es arbitrary: m) (auto split: option.splits if_splits)

lemma least_recent_None: "least_recent es = None \<longleftrightarrow> es = []"
  by (cases es) (auto split: option.splits)

lemma least_recent_least:
  "least_recent es = Some m \<Longrightarrow> e \<in> set es \<Longrightarrow> la_access_sequence m \<le> la_access_sequence e"
  by (induction es arbitrary: m) (auto split: option.splits if_splits simp: least_recent_None)

lemma remove_token_shrinks:
  assumes "m \<in> set (by_token st)"
  shows "length (by_token (remove_token (la_token m) st)) < length (by_token st)"
proof -
  obtain e where e: "row_lookup la_token (la_token m) (by_token st) = Some e"
    using assms row_lookup_None_iff [of la_token "la_token m" "by_token st"] by fastforce
  have "length (filter (\<lambda>r. la_token r \<noteq> la_token m) (by_token st)) < length (by_token st)"
    using assms by (intro length_filter_less) auto
  with e show ?thesis by (simp add: remove_token_def row_delete_def)
qed

function enforce_capacity :: "asset_registry \<Rightarrow> asset_registry" where
  "enforce_capacity st =
     (if max_entries (reg_config st) < length (by_token st)
      then (case least_recent (by_token st) of
              None \<Rightarrow> st
            | Some m \<Rightarrow> enforce_capacity (remove_token (la_token m) st))
      else st)"
  by pat_completeness auto

termination
  by (relation "measure (\<lambda>st. length (by_token st))")
    (auto dest: least_recent_mem intro: remove_token_shrinks)

declare enforce_capacity.simps [simp del]

definition insert_asset :: "u64 \<Rightarrow> string \<Rightarrow> string \<Rightarrow> asset_registry \<Rightarrow> asset_registry" where
  "insert_asset now uuid path st =
     (case next_access_sequence st of (n, st') \<Rightarrow>
        st'\<lparr>by_path := (by_path st')(path \<mapsto> uuid),
            by_token := row_upsert la_token (\<lambda>old new. new)
              \<lparr>la_token = uuid, la_path = path, la_created_at = now, la_last_accessed_at = now,
               la_access_sequence = n\<rparr> (by_token st')\<rparr>)"

definition register_image :: "u64 \<Rightarrow> string \<Rightarrow> string \<Rightarrow> asset_registry \<Rightarrow> string \<times> asset_registry" where
  "register_image now uuid path st0 =
     (let st = prune_expired now st0
      in case by_path st path of
        None \<Rightarrow> (uuid, enforce_capacity (insert_asset now uuid path st))
      | Some tok \<Rightarrow>
          (case touch_existing tok now st of
             (True, st') \<Rightarrow> (tok, st')
           | (False, st') \<Rightarrow>
               (uuid, enforce_capacity (insert_asset now uuid path (remove_token tok st')))))"

definition path_for :: "u64 \<Rightarrow> string \<Rightarrow> asset_registry \<Rightarrow> string option \<times> asset_registry" where
  "path_for now tok st0 =
     (case touch_existing tok now (prune_expired now st0) of
        (False, st) \<Rightarrow> (None, st)
      | (True, st) \<Rightarrow> (map_option la_path (row_lookup la_token tok (by_token st)), st))"

section \<open>The invariant\<close>

text \<open>
  The two maps are inverse to each other, every entry was used at its own point of the access
  sequence, and the capacity holds.
\<close>

definition maps_inverse :: "asset_registry \<Rightarrow> bool" where
  "maps_inverse st \<longleftrightarrow>
     keyed la_token (by_token st) \<and> keyed la_path (by_token st) \<and>
     (\<forall>p. by_path st p = map_option la_token (row_lookup la_path p (by_token st)))"

definition sequenced :: "asset_registry \<Rightarrow> bool" where
  "sequenced st \<longleftrightarrow>
     keyed la_access_sequence (by_token st) \<and>
     (\<forall>e \<in> set (by_token st). la_access_sequence e \<le> access_sequence st)"

definition assets_inv :: "asset_registry \<Rightarrow> bool" where
  "assets_inv st \<longleftrightarrow>
     maps_inverse st \<and> sequenced st \<and> length (by_token st) \<le> max_entries (reg_config st)"

lemma remove_token_rows:
  "by_token (remove_token tok st) = filter (\<lambda>e. la_token e \<noteq> tok) (by_token st)"
proof (cases "row_lookup la_token tok (by_token st)")
  case None
  then have "\<forall>e \<in> set (by_token st). la_token e \<noteq> tok" by (auto simp: row_lookup_None_iff)
  with None show ?thesis by (simp add: remove_token_def filter_id_conv)
next
  case (Some e)
  then show ?thesis by (simp add: remove_token_def row_delete_def)
qed

lemma remove_token_frame [simp]:
  "reg_config (remove_token tok st) = reg_config st"
  "access_sequence (remove_token tok st) = access_sequence st"
  by (simp_all add: remove_token_def split: option.split)

lemma remove_token_inverse:
  assumes "maps_inverse st"
  shows "maps_inverse (remove_token tok st)"
proof (cases "row_lookup la_token tok (by_token st)")
  case None
  with assms show ?thesis by (simp add: remove_token_def)
next
  case (Some e)
  then have e: "e \<in> set (by_token st)" "la_token e = tok" by (auto dest: row_lookup_SomeD)
  have k: "keyed la_token (by_token st)" "keyed la_path (by_token st)"
    and b: "\<And>p. by_path st p = map_option la_token (row_lookup la_path p (by_token st))"
    using assms by (auto simp: maps_inverse_def)
  have same: "r = e" if "r \<in> set (by_token st)" "la_token r = tok" for r
    using that e k(1) row_lookup_mem [OF k(1)] by (metis option.inject)
  have "by_path (remove_token tok st) p = map_option la_token (row_lookup la_path p (by_token (remove_token tok st)))" for p
  proof (cases "p = la_path e")
    case True
    have "row_lookup la_path p (by_token st) = Some e"
      using True e(1) k(2) by (auto intro: row_lookup_mem)
    with True Some e(2) k(2) show ?thesis
      by (simp add: remove_token_def row_lookup_delete)
  next
    case False
    with Some same k(2) b show ?thesis
      by (auto simp: remove_token_def row_lookup_delete split: option.splits dest: row_lookup_SomeD)
  qed
  with k show ?thesis
    by (simp add: maps_inverse_def remove_token_rows keyed_def distinct_map_filter)
qed

lemma remove_token_sequenced: "sequenced st \<Longrightarrow> sequenced (remove_token tok st)"
  by (auto simp: sequenced_def remove_token_rows keyed_def distinct_map_filter)

lemma fold_remove_token:
  "maps_inverse st \<Longrightarrow> maps_inverse (fold remove_token toks st)"
  "sequenced st \<Longrightarrow> sequenced (fold remove_token toks st)"
  "by_token (fold remove_token toks st) = filter (\<lambda>e. la_token e \<notin> set toks) (by_token st)"
  "reg_config (fold remove_token toks st) = reg_config st"
  "access_sequence (fold remove_token toks st) = access_sequence st"
  by (induction toks arbitrary: st)
    (auto simp: remove_token_inverse remove_token_sequenced remove_token_rows
      intro: filter_cong)

lemma prune_expired_rows:
  assumes "maps_inverse st"
  shows "by_token (prune_expired now st) =
           filter (\<lambda>e. \<not> is_expired (ttl_ms (reg_config st)) e now) (by_token st)"
proof -
  have inj: "inj_on la_token (set (by_token st))"
    using assms by (simp add: maps_inverse_def keyed_def distinct_map)
  show ?thesis
    unfolding prune_expired_def fold_remove_token(3)
    by (rule filter_cong) (auto dest: inj_onD [OF inj])
qed

lemma prune_expired_frame [simp]:
  "reg_config (prune_expired now st) = reg_config st"
  "access_sequence (prune_expired now st) = access_sequence st"
  by (simp_all add: prune_expired_def fold_remove_token(4,5))

lemma prune_expired_inv:
  assumes "assets_inv st"
  shows "assets_inv (prune_expired now st)"
proof -
  have "length (by_token (prune_expired now st)) \<le> length (by_token st)"
    using assms by (simp add: assets_inv_def prune_expired_rows)
  moreover have "maps_inverse (prune_expired now st)" "sequenced (prune_expired now st)"
    using assms by (simp_all add: assets_inv_def prune_expired_def fold_remove_token)
  ultimately show ?thesis using assms by (simp add: assets_inv_def)
qed

text \<open>The next sequence number is above all numbers used, until the counter saturates.\<close>

definition sequence_left :: "nat \<Rightarrow> asset_registry \<Rightarrow> bool" where
  "sequence_left n st \<longleftrightarrow> unat (access_sequence st) + n < 2 ^ 64"

lemma next_sequence_fresh:
  assumes "sequence_left 1 st" and "sequenced st" and "e \<in> set (by_token st)"
  shows "la_access_sequence e < saturating_add (access_sequence st) 1"
    and "unat (saturating_add (access_sequence st) 1) = unat (access_sequence st) + 1"
proof -
  show s: "unat (saturating_add (access_sequence st) 1) = unat (access_sequence st) + 1"
    using assms(1) by (simp add: sequence_left_def unat_saturating_add)
  show "la_access_sequence e < saturating_add (access_sequence st) 1"
    using assms(2,3) s by (auto simp: sequenced_def word_less_nat_alt word_le_nat_alt)
qed

lemma touch_existing_cases:
  assumes "touch_existing tok now st = (b, st')"
  shows "\<not> b \<Longrightarrow> st' = st \<and>
           (\<forall>e. row_lookup la_token tok (by_token st) = Some e \<longrightarrow> is_expired (ttl_ms (reg_config st)) e now)"
    and "b \<Longrightarrow> st' = st\<lparr>access_sequence := saturating_add (access_sequence st) 1,
           by_token := row_update (\<lambda>r. la_token r = tok)
             (\<lambda>r. r\<lparr>la_last_accessed_at := now,
                   la_access_sequence := saturating_add (access_sequence st) 1\<rparr>) (by_token st)\<rparr> \<and>
           (\<exists>e. row_lookup la_token tok (by_token st) = Some e \<and>
              \<not> is_expired (ttl_ms (reg_config st)) e now)"
  using assms
  by (auto simp: touch_existing_def next_access_sequence_def Let_def split: option.splits if_splits)

lemma touch_rows_sequenced:
  assumes "sequenced st" and "sequence_left 1 st" and "keyed la_token (by_token st)"
  shows "keyed la_access_sequence (row_update (\<lambda>r. la_token r = tok)
      (\<lambda>r. r\<lparr>la_last_accessed_at := now, la_access_sequence := saturating_add (access_sequence st) 1\<rparr>)
      (by_token st))"
proof -
  let ?n = "saturating_add (access_sequence st) 1"
  have d: "distinct (map la_access_sequence (by_token st))" "distinct (map la_token (by_token st))"
    using assms(1,3) by (auto simp: sequenced_def keyed_def)
  have n: "la_access_sequence e \<noteq> ?n" if "e \<in> set (by_token st)" for e
    using next_sequence_fresh(1) [OF assms(2,1) that] by simp
  have "inj_on (\<lambda>e. if la_token e = tok then ?n else la_access_sequence e) (set (by_token st))"
  proof (rule inj_onI)
    fix x y assume xy: "x \<in> set (by_token st)" "y \<in> set (by_token st)"
      and eq: "(if la_token x = tok then ?n else la_access_sequence x) =
               (if la_token y = tok then ?n else la_access_sequence y)"
    have "la_token x = la_token y \<or> la_access_sequence x = la_access_sequence y"
      using eq n [OF xy(1)] n [OF xy(2)] by (auto split: if_splits)
    then show "x = y" using d xy by (auto simp: distinct_map dest: inj_onD)
  qed
  then show ?thesis
    using d(1) by (simp add: keyed_def row_update_def comp_def distinct_map if_distrib cong: if_cong)
qed

lemma touch_existing_inv:
  assumes "assets_inv st" and "sequence_left 1 st" and "touch_existing tok now st = (b, st')"
  shows "assets_inv st'"
proof (cases b)
  case False
  then have "st' = st" using touch_existing_cases(1) [OF assms(3)] by blast
  with assms(1) show ?thesis by simp
next
  case True
  then have st': "st' = st\<lparr>access_sequence := saturating_add (access_sequence st) 1,
           by_token := row_update (\<lambda>r. la_token r = tok)
             (\<lambda>r. r\<lparr>la_last_accessed_at := now,
                   la_access_sequence := saturating_add (access_sequence st) 1\<rparr>) (by_token st)\<rparr>"
    using touch_existing_cases(2) [OF assms(3)] by blast
  have inv: "maps_inverse st" "sequenced st" "length (by_token st) \<le> max_entries (reg_config st)"
    using assms(1) by (auto simp: assets_inv_def)
  have "maps_inverse st'"
    using inv(1) unfolding maps_inverse_def st'
    by (auto simp: keyed_update row_lookup_update option.map_comp comp_def if_distrib [of la_token]
        cong: if_cong)
  moreover have "sequenced st'"
    using touch_rows_sequenced [OF inv(2) assms(2), of tok now] inv(1,2) saturating_add_ge
    by (auto simp: sequenced_def st' maps_inverse_def row_update_def intro: order_trans)
  ultimately show ?thesis using inv(3) by (simp add: assets_inv_def st' row_update_def)
qed

lemma insert_asset_inv:
  assumes "maps_inverse st" and "sequenced st" and "sequence_left 1 st"
    and "uuid \<notin> set (map la_token (by_token st))" and "by_path st path = None"
  shows "maps_inverse (insert_asset now uuid path st)" and "sequenced (insert_asset now uuid path st)"
proof -
  have p: "path \<notin> set (map la_path (by_token st))"
    using assms(1,5) by (simp add: maps_inverse_def row_lookup_None_iff)
  show "maps_inverse (insert_asset now uuid path st)"
    using assms(1,4,5) p
    by (auto simp: maps_inverse_def insert_asset_def next_access_sequence_def Let_def row_upsert_def
        keyed_def row_lookup_append row_lookup_Cons split: option.splits)
  show "sequenced (insert_asset now uuid path st)"
    using assms(2,4) next_sequence_fresh(1) [OF assms(3,2)] saturating_add_ge [of "access_sequence st" 1]
    by (fastforce simp: sequenced_def insert_asset_def next_access_sequence_def Let_def row_upsert_def
        keyed_def)
qed

section \<open>The registry as a list in the order of use\<close>

text \<open>
  The abstract registry: the entries (token, path, creation time), least recently used first. A
  lookup moves an entry to the end; a new entry pushes the first ones out.
\<close>

type_synonym asset_view = "(string \<times> string \<times> u64) list"

definition registry_view :: "asset_registry \<Rightarrow> asset_view" where
  "registry_view st =
     map (\<lambda>e. (la_token e, la_path e, la_created_at e)) (sort_key la_access_sequence (by_token st))"

definition view_live :: "u64 \<Rightarrow> u64 \<Rightarrow> asset_view \<Rightarrow> asset_view" where
  "view_live ttl now v = filter (\<lambda>(t, p, created). \<not> ttl < saturating_sub now created) v"

definition view_touch :: "string \<Rightarrow> asset_view \<Rightarrow> asset_view" where
  "view_touch tok v = filter (\<lambda>x. fst x \<noteq> tok) v @ filter (\<lambda>x. fst x = tok) v"

definition view_register ::
  "registry_config \<Rightarrow> u64 \<Rightarrow> string \<Rightarrow> string \<Rightarrow> asset_view \<Rightarrow> string \<times> asset_view" where
  "view_register cfg now uuid path v0 =
     (let v = view_live (ttl_ms cfg) now v0
      in case row_lookup (\<lambda>(t, p, created). p) path v of
           Some (t, _) \<Rightarrow> (t, view_touch t v)
         | None \<Rightarrow> (uuid, drop (Suc (length v) - max_entries cfg) (v @ [(uuid, path, now)])))"

definition view_path_for ::
  "registry_config \<Rightarrow> u64 \<Rightarrow> string \<Rightarrow> asset_view \<Rightarrow> string option \<times> asset_view" where
  "view_path_for cfg now tok v0 =
     (let v = view_live (ttl_ms cfg) now v0
      in case row_lookup (\<lambda>(t, p, created). t) tok v of
           Some (_, p, _) \<Rightarrow> (Some p, view_touch tok v)
         | None \<Rightarrow> (None, v))"

lemma view_prune:
  assumes "assets_inv st"
  shows "registry_view (prune_expired now st) = view_live (ttl_ms (reg_config st)) now (registry_view st)"
proof -
  have "distinct (map la_access_sequence (by_token st))"
    using assms by (simp add: assets_inv_def sequenced_def keyed_def)
  then show ?thesis
    using assms
    by (simp add: registry_view_def view_live_def assets_inv_def prune_expired_rows sort_key_filter
        filter_map comp_def is_expired_def)
qed

lemma view_touch_rows:
  assumes "assets_inv st" and "sequence_left 1 st" and "touch_existing tok now st = (True, st')"
  shows "registry_view st' = view_touch tok (registry_view st)"
proof -
  let ?n = "saturating_add (access_sequence st) 1"
  let ?f = "\<lambda>r. r\<lparr>la_last_accessed_at := now, la_access_sequence := ?n\<rparr>"
  let ?s = "sort_key la_access_sequence (by_token st)"
  have st': "by_token st' = row_update (\<lambda>r. la_token r = tok) ?f (by_token st)"
    using touch_existing_cases(2) [OF assms(3)] by simp
  have inv: "keyed la_token (by_token st)" "sequenced st"
    using assms(1) by (auto simp: assets_inv_def maps_inverse_def)
  have d: "distinct (map la_access_sequence (by_token st'))"
    using touch_rows_sequenced [OF inv(2) assms(2) inv(1), of tok now] by (simp add: st' keyed_def)
  obtain e where e: "e \<in> set (by_token st)" "la_token e = tok"
    using touch_existing_cases(2) [OF assms(3)] by (auto dest: row_lookup_SomeD)
  have only: "filter (\<lambda>r. la_token r = tok) ?s = [e]"
  proof -
    have "set (filter (\<lambda>r. la_token r = tok) ?s) = {e}"
      using e inv(1) by (auto simp: keyed_def distinct_map dest: inj_onD)
    moreover have "distinct ?s" using inv(1) by (simp add: keyed_def distinct_map)
    ultimately show ?thesis by (intro distinct_set_singleton distinct_filter)
  qed
  have "sort_key la_access_sequence (by_token st') =
      filter (\<lambda>r. la_token r \<noteq> tok) ?s @ [?f e]"
  proof (rule sort_key_eqI [OF d])
    have "la_access_sequence r \<le> ?n" if "r \<in> set (by_token st)" for r
      using next_sequence_fresh(1) [OF assms(2) inv(2) that] by simp
    then show "sorted (map la_access_sequence (filter (\<lambda>r. la_token r \<noteq> tok) ?s @ [?f e]))"
      by (simp add: sorted_append sorted_filter)
    have "distinct (map la_access_sequence (filter (\<lambda>r. la_token r \<noteq> tok) ?s))"
      using inv(2) by (intro distinct_map_filter) (simp add: sequenced_def keyed_def distinct_map)
    moreover have "?n \<notin> la_access_sequence ` set (filter (\<lambda>r. la_token r \<noteq> tok) ?s)"
    proof (rule notI, elim imageE)
      fix r assume "?n = la_access_sequence r" "r \<in> set (filter (\<lambda>r. la_token r \<noteq> tok) ?s)"
      then show False using next_sequence_fresh(1) [OF assms(2) inv(2), of r] by simp
    qed
    ultimately show "distinct (map la_access_sequence (filter (\<lambda>r. la_token r \<noteq> tok) ?s @ [?f e]))"
      by simp
    have "{r \<in> set (by_token st). la_token r = tok} = {e}"
      using e inv(1) by (auto simp: keyed_def distinct_map dest: inj_onD)
    then show "set (by_token st') = set (filter (\<lambda>r. la_token r \<noteq> tok) ?s @ [?f e])"
      by (simp add: st' set_row_update Un_commute)
  qed
  then show ?thesis
    using only by (simp add: registry_view_def view_touch_def filter_map comp_def e(2) [symmetric])
qed

lemma view_lookup:
  assumes "maps_inverse st"
  shows "row_lookup (\<lambda>(t, p, c). t) tok (registry_view st) =
           map_option (\<lambda>e. (la_token e, la_path e, la_created_at e)) (row_lookup la_token tok (by_token st))"
    and "row_lookup (\<lambda>(t, p, c). p) path (registry_view st) =
           map_option (\<lambda>e. (la_token e, la_path e, la_created_at e)) (row_lookup la_path path (by_token st))"
proof -
  let ?s = "sort_key la_access_sequence (by_token st)"
  have "keyed la_token ?s" "keyed la_path ?s"
    using assms by (auto simp: maps_inverse_def keyed_def distinct_map)
  then have "row_lookup la_token tok ?s = row_lookup la_token tok (by_token st)"
    "row_lookup la_path path ?s = row_lookup la_path path (by_token st)"
    using assms by (auto simp: maps_inverse_def intro!: row_lookup_set_eq)
  then show "row_lookup (\<lambda>(t, p, c). t) tok (registry_view st) =
      map_option (\<lambda>e. (la_token e, la_path e, la_created_at e)) (row_lookup la_token tok (by_token st))"
    "row_lookup (\<lambda>(t, p, c). p) path (registry_view st) =
      map_option (\<lambda>e. (la_token e, la_path e, la_created_at e)) (row_lookup la_path path (by_token st))"
    by (simp_all add: registry_view_def row_lookup_map)
qed

text \<open>Evicting down to the capacity drops the first entries of the view.\<close>

lemma view_remove_least:
  assumes "sequenced st" and "keyed la_token (by_token st)" and "least_recent (by_token st) = Some m"
  shows "sort_key la_access_sequence (by_token (remove_token (la_token m) st)) =
           tl (sort_key la_access_sequence (by_token st))"
proof -
  let ?s = "sort_key la_access_sequence (by_token st)"
  have d: "distinct (map la_access_sequence (by_token st))" using assms(1) by (simp add: sequenced_def keyed_def)
  have m: "m \<in> set (by_token st)" using assms(3) by (rule least_recent_mem)
  have ne: "?s \<noteq> []" using m by (metis empty_iff empty_set set_sort)
  have "hd ?s = m"
  proof -
    have "hd ?s \<in> set (by_token st)" using ne by (metis hd_in_set set_sort)
    then have "la_access_sequence m \<le> la_access_sequence (hd ?s)"
      using least_recent_least [OF assms(3)] by blast
    moreover have "la_access_sequence (hd ?s) \<le> la_access_sequence m"
      using sort_key_hd_min(2) [of la_access_sequence "by_token st" "hd ?s" "tl ?s" m] ne m by simp
    ultimately show ?thesis using d \<open>hd ?s \<in> set (by_token st)\<close> m
      by (auto simp: distinct_map dest: inj_onD)
  qed
  then have s: "?s = m # tl ?s" using ne by (metis list.collapse)
  have "distinct (map la_token ?s)" using assms(2) by (auto simp: keyed_def distinct_map)
  then have "distinct (map la_token (m # tl ?s))" by (subst (asm) s)
  then have "filter (\<lambda>e. la_token e \<noteq> la_token m) (m # tl ?s) = tl ?s"
    by (auto simp: filter_id_conv) (metis imageI)
  then have "filter (\<lambda>e. la_token e \<noteq> la_token m) ?s = tl ?s" by (subst s)
  then show ?thesis using d by (simp add: remove_token_rows sort_key_filter)
qed

lemma enforce_capacity_effect:
  assumes "maps_inverse st" and "sequenced st"
  shows "maps_inverse (enforce_capacity st) \<and> sequenced (enforce_capacity st) \<and>
         reg_config (enforce_capacity st) = reg_config st \<and>
         access_sequence (enforce_capacity st) = access_sequence st \<and>
         length (by_token (enforce_capacity st)) \<le> max_entries (reg_config st) \<and>
         sort_key la_access_sequence (by_token (enforce_capacity st)) =
           drop (length (by_token st) - max_entries (reg_config st))
             (sort_key la_access_sequence (by_token st))"
  using assms
proof (induction st rule: enforce_capacity.induct)
  case (1 st)
  show ?case
  proof (cases "max_entries (reg_config st) < length (by_token st)")
    case False
    with 1 show ?thesis by (simp add: enforce_capacity.simps [of st])
  next
    case True
    then obtain m where m: "least_recent (by_token st) = Some m"
      by (metis least_recent_None list.size(3) not_less_zero option.exhaust)
    let ?st = "remove_token (la_token m) st"
    have k: "keyed la_token (by_token st)" using "1.prems"(1) by (simp add: maps_inverse_def)
    have v: "sort_key la_access_sequence (by_token ?st) = tl (sort_key la_access_sequence (by_token st))"
      using view_remove_least [OF "1.prems"(2) k m] .
    have "length (sort_key la_access_sequence (by_token ?st)) = length (by_token st) - 1"
      using v by simp
    then have len: "length (by_token ?st) = length (by_token st) - 1" by simp
    have e: "enforce_capacity st = enforce_capacity ?st"
      using True m by (simp add: enforce_capacity.simps [of st])
    have "drop (length (by_token st) - 1 - max_entries (reg_config st)) (tl xs) =
        drop (length (by_token st) - max_entries (reg_config st)) xs" for xs :: "asset_entry list"
      using True by (simp add: drop_Suc [symmetric] Suc_diff_Suc)
    with "1.IH" [OF True m] "1.prems" remove_token_inverse remove_token_sequenced v len e
    show ?thesis by simp
  qed
qed

lemma maps_inverse_path:
  assumes "maps_inverse st" and "by_path st path = Some tok"
  obtains e where "e \<in> set (by_token st)" and "la_path e = path" and "la_token e = tok"
    and "row_lookup la_token tok (by_token st) = Some e"
    and "row_lookup la_path path (by_token st) = Some e"
proof -
  obtain e where e: "row_lookup la_path path (by_token st) = Some e" "la_token e = tok"
    using assms by (auto simp: maps_inverse_def)
  moreover from e have "e \<in> set (by_token st)" "la_path e = path" by (auto dest: row_lookup_SomeD)
  moreover from this e have "row_lookup la_token tok (by_token st) = Some e"
    using assms(1) row_lookup_mem [of la_token "by_token st" e] by (auto simp: maps_inverse_def)
  ultimately show thesis using that by blast
qed

lemma view_insert:
  assumes "sequenced st" and "sequence_left 1 st" and "uuid \<notin> set (map la_token (by_token st))"
  shows "sort_key la_access_sequence (by_token (insert_asset now uuid path st)) =
           sort_key la_access_sequence (by_token st) @
             [\<lparr>la_token = uuid, la_path = path, la_created_at = now, la_last_accessed_at = now,
               la_access_sequence = saturating_add (access_sequence st) 1\<rparr>]"
proof -
  let ?e = "\<lparr>la_token = uuid, la_path = path, la_created_at = now, la_last_accessed_at = now,
      la_access_sequence = saturating_add (access_sequence st) 1\<rparr>"
  have rows: "by_token (insert_asset now uuid path st) = by_token st @ [?e]"
    using assms(3) by (simp add: insert_asset_def next_access_sequence_def Let_def row_upsert_def)
  have new: "\<And>e. e \<in> set (by_token st) \<Longrightarrow> la_access_sequence e < la_access_sequence ?e"
    using next_sequence_fresh(1) [OF assms(2,1)] by simp
  have d: "distinct (map la_access_sequence (by_token st @ [?e]))"
    using assms(1) new by (fastforce simp: sequenced_def keyed_def)
  show ?thesis unfolding rows
  proof (rule sort_key_eqI [OF d])
    show "sorted (map la_access_sequence (sort_key la_access_sequence (by_token st) @ [?e]))"
      using new by (auto simp: sorted_append less_imp_le)
    show "distinct (map la_access_sequence (sort_key la_access_sequence (by_token st) @ [?e]))"
      using d by (auto simp: distinct_map)
  qed simp
qed

lemma register_refines:
  assumes "assets_inv st" and "sequence_left 1 st" and "uuid \<notin> set (map la_token (by_token st))"
    and "register_image now uuid path st = (tok, st')"
  shows "view_register (reg_config st) now uuid path (registry_view st) = (tok, registry_view st') \<and>
         assets_inv st' \<and> reg_config st' = reg_config st \<and>
         access_sequence st' = saturating_add (access_sequence st) 1 \<and>
         la_token ` set (by_token st') \<subseteq> insert uuid (la_token ` set (by_token st))"
proof -
  let ?st = "prune_expired now st"
  have inv: "assets_inv ?st" using assms(1) by (rule prune_expired_inv)
  then have mi: "maps_inverse ?st" and sq: "sequenced ?st" by (auto simp: assets_inv_def)
  have left: "sequence_left 1 ?st" using assms(2) by (simp add: sequence_left_def)
  have mi0: "maps_inverse st" using assms(1) by (simp add: assets_inv_def)
  have sub: "set (by_token ?st) \<subseteq> set (by_token st)" by (auto simp: prune_expired_rows [OF mi0])
  note v = view_prune [OF assms(1), of now]
  show ?thesis
  proof (cases "by_path ?st path")
    case (Some t)
    obtain e where e: "e \<in> set (by_token ?st)" "la_path e = path" "la_token e = t"
      "row_lookup la_token t (by_token ?st) = Some e" "row_lookup la_path path (by_token ?st) = Some e"
      using maps_inverse_path [OF mi Some] .
    have "\<not> is_expired (ttl_ms (reg_config ?st)) e now"
      using e(1) by (simp add: prune_expired_rows [OF mi0])
    then have t: "touch_existing t now ?st = (True, snd (touch_existing t now ?st))"
      using e(4) by (simp add: touch_existing_def next_access_sequence_def Let_def)
    then have r: "tok = t" "st' = snd (touch_existing t now ?st)"
      using assms(4) Some by (simp_all add: register_image_def Let_def split: prod.splits bool.splits)
    have t': "touch_existing t now ?st = (True, st')" using t r by simp
    have "row_lookup (\<lambda>(t, p, c). p) path (registry_view ?st) = Some (t, path, la_created_at e)"
      using view_lookup(2) [OF mi, of path] e by simp
    then have "view_register (reg_config st) now uuid path (registry_view st) = (t, view_touch t (registry_view ?st))"
      by (simp add: view_register_def Let_def v)
    moreover have "registry_view st' = view_touch t (registry_view ?st)"
      using view_touch_rows [OF inv left t'] .
    moreover have "by_token st' = row_update (\<lambda>r. la_token r = t)
        (\<lambda>r. r\<lparr>la_last_accessed_at := now, la_access_sequence := saturating_add (access_sequence st) 1\<rparr>) (by_token ?st)"
      "access_sequence st' = saturating_add (access_sequence st) 1" "reg_config st' = reg_config st"
      using touch_existing_cases(2) [OF t'] by simp_all
    moreover from this(1) have "la_token ` set (by_token st') \<subseteq> la_token ` set (by_token st)"
      using sub by (auto simp: set_row_update)
    ultimately show ?thesis using r(1) touch_existing_inv [OF inv left t'] by auto
  next
    case None
    let ?in = "insert_asset now uuid path ?st"
    have fresh: "uuid \<notin> set (map la_token (by_token ?st))" using assms(3) sub by auto
    have r: "tok = uuid" "st' = enforce_capacity ?in"
      using assms(4) None by (auto simp: register_image_def Let_def)
    note iv = insert_asset_inv [OF mi sq left fresh None, of now]
    note en = enforce_capacity_effect [OF iv]
    have rows: "length (by_token ?in) = Suc (length (by_token ?st))"
      "reg_config ?in = reg_config st" "access_sequence ?in = saturating_add (access_sequence st) 1"
      "la_token ` set (by_token ?in) = insert uuid (la_token ` set (by_token ?st))"
      using fresh by (simp_all add: insert_asset_def next_access_sequence_def Let_def row_upsert_def)
    have "row_lookup (\<lambda>(t, p, c). p) path (registry_view ?st) = None"
      using view_lookup(2) [OF mi, of path] None mi by (simp add: maps_inverse_def)
    then have "view_register (reg_config st) now uuid path (registry_view st) =
        (uuid, drop (Suc (length (registry_view ?st)) - max_entries (reg_config st))
           (registry_view ?st @ [(uuid, path, now)]))"
      by (simp add: view_register_def Let_def v)
    moreover have "registry_view st' = drop (Suc (length (registry_view ?st)) - max_entries (reg_config st))
           (registry_view ?st @ [(uuid, path, now)])"
      using en view_insert [OF sq left fresh, of now path] rows r(2)
      by (simp add: registry_view_def drop_map [symmetric])
    moreover have "la_token ` set (by_token st') \<subseteq> la_token ` set (by_token ?in)"
      using en r(2) set_drop_subset [of _ "sort_key la_access_sequence (by_token ?in)"]
      by (metis image_mono set_sort)
    moreover have "la_token ` set (by_token ?st) \<subseteq> la_token ` set (by_token st)"
      using sub by (rule image_mono)
    ultimately have v': "view_register (reg_config st) now uuid path (registry_view st) = (tok, registry_view st')"
      and t': "la_token ` set (by_token st') \<subseteq> insert uuid (la_token ` set (by_token st))"
      unfolding rows(4) r(1) by (simp only:, blast)
    have "assets_inv st'" "reg_config st' = reg_config st"
      "access_sequence st' = saturating_add (access_sequence st) 1"
      using en rows(2,3) unfolding r(2) assets_inv_def by simp_all
    with v' t' show ?thesis by blast
  qed
qed

lemma path_for_refines:
  assumes "assets_inv st" and "sequence_left 1 st" and "path_for now tok st = (found, st')"
  shows "view_path_for (reg_config st) now tok (registry_view st) = (found, registry_view st') \<and>
         assets_inv st' \<and> reg_config st' = reg_config st \<and>
         access_sequence st' \<in> {access_sequence st, saturating_add (access_sequence st) 1} \<and>
         la_token ` set (by_token st') \<subseteq> la_token ` set (by_token st)"
proof -
  let ?st = "prune_expired now st"
  have inv: "assets_inv ?st" using assms(1) by (rule prune_expired_inv)
  then have mi: "maps_inverse ?st" by (auto simp: assets_inv_def)
  have left: "sequence_left 1 ?st" using assms(2) by (simp add: sequence_left_def)
  have mi0: "maps_inverse st" using assms(1) by (simp add: assets_inv_def)
  have sub: "set (by_token ?st) \<subseteq> set (by_token st)" by (auto simp: prune_expired_rows [OF mi0])
  note v = view_prune [OF assms(1), of now]
  obtain b st1 where t: "touch_existing tok now ?st = (b, st1)" by fastforce
  have inv1: "assets_inv st1" using touch_existing_inv [OF inv left t] .
  show ?thesis
  proof (cases b)
    case False
    then have r: "found = None" "st' = ?st"
      using assms(3) t touch_existing_cases(1) [OF t] by (simp_all add: path_for_def)
    have "row_lookup la_token tok (by_token ?st) = None"
    proof (rule ccontr)
      assume "row_lookup la_token tok (by_token ?st) \<noteq> None"
      then obtain e where e: "row_lookup la_token tok (by_token ?st) = Some e" by blast
      then have "is_expired (ttl_ms (reg_config ?st)) e now"
        using touch_existing_cases(1) [OF t] False by blast
      moreover have "e \<in> set (by_token ?st)" using e by (auto dest: row_lookup_SomeD)
      ultimately show False by (simp add: prune_expired_rows [OF mi0])
    qed
    then have "row_lookup (\<lambda>(t, p, c). t) tok (registry_view ?st) = None"
      using view_lookup(1) [OF mi, of tok] by simp
    then show ?thesis using r v inv sub by (auto simp: view_path_for_def Let_def)
  next
    case True
    then have t': "touch_existing tok now ?st = (True, st1)" using t by simp
    obtain e where e: "row_lookup la_token tok (by_token ?st) = Some e"
      and st1: "st1 = ?st\<lparr>access_sequence := saturating_add (access_sequence ?st) 1,
           by_token := row_update (\<lambda>r. la_token r = tok)
             (\<lambda>r. r\<lparr>la_last_accessed_at := now,
                   la_access_sequence := saturating_add (access_sequence ?st) 1\<rparr>) (by_token ?st)\<rparr>"
      using touch_existing_cases(2) [OF t'] by blast
    have "row_lookup la_token tok (by_token st1) =
        Some (e\<lparr>la_last_accessed_at := now, la_access_sequence := saturating_add (access_sequence ?st) 1\<rparr>)"
      using e by (simp add: st1 row_lookup_update_key)
    then have r: "found = Some (la_path e)" "st' = st1"
      using assms(3) t' by (simp_all add: path_for_def)
    have "row_lookup (\<lambda>(t, p, c). t) tok (registry_view ?st) = Some (tok, la_path e, la_created_at e)"
      using view_lookup(1) [OF mi, of tok] e by (auto dest: row_lookup_SomeD)
    moreover have "registry_view st1 = view_touch tok (registry_view ?st)"
      using view_touch_rows [OF inv left t'] .
    moreover have "la_token ` set (by_token st1) \<subseteq> la_token ` set (by_token st)"
      using sub by (auto simp: st1 set_row_update)
    ultimately show ?thesis using r v inv1 by (simp add: view_path_for_def Let_def) (simp add: st1)
  qed
qed

section \<open>Runs and properties\<close>

datatype asset_call = RegisterImage u64 string string | PathFor u64 string

fun asset_exec :: "asset_call \<Rightarrow> asset_registry \<Rightarrow> string option \<times> asset_registry" where
  "asset_exec (RegisterImage now uuid path) st =
     (case register_image now uuid path st of (tok, st') \<Rightarrow> (Some tok, st'))"
| "asset_exec (PathFor now tok) st = path_for now tok st"

fun view_exec :: "registry_config \<Rightarrow> asset_call \<Rightarrow> asset_view \<Rightarrow> string option \<times> asset_view" where
  "view_exec cfg (RegisterImage now uuid path) v =
     (case view_register cfg now uuid path v of (tok, v') \<Rightarrow> (Some tok, v'))"
| "view_exec cfg (PathFor now tok) v = view_path_for cfg now tok v"

fun asset_run :: "asset_call list \<Rightarrow> asset_registry \<Rightarrow> string option list \<times> asset_registry" where
  "asset_run [] st = ([], st)"
| "asset_run (c # cs) st =
     (case asset_exec c st of (r, st') \<Rightarrow> (case asset_run cs st' of (rs, st'') \<Rightarrow> (r # rs, st'')))"

fun view_run :: "registry_config \<Rightarrow> asset_call list \<Rightarrow> asset_view \<Rightarrow> string option list \<times> asset_view" where
  "view_run cfg [] v = ([], v)"
| "view_run cfg (c # cs) v =
     (case view_exec cfg c v of (r, v') \<Rightarrow> (case view_run cfg cs v' of (rs, v'') \<Rightarrow> (r # rs, v'')))"

fun new_tokens :: "asset_call list \<Rightarrow> string list" where
  "new_tokens [] = []"
| "new_tokens (RegisterImage now uuid path # cs) = uuid # new_tokens cs"
| "new_tokens (PathFor now tok # cs) = new_tokens cs"

lemma asset_run_refines:
  assumes "assets_inv st" and "sequence_left (length cs) st" and "distinct (new_tokens cs)"
    and "la_token ` set (by_token st) \<inter> set (new_tokens cs) = {}"
    and "asset_run cs st = (rs, st')"
  shows "view_run (reg_config st) cs (registry_view st) = (rs, registry_view st') \<and> assets_inv st' \<and>
         reg_config st' = reg_config st"
  using assms
proof (induction cs arbitrary: st rs)
  case Nil
  then show ?case by simp
next
  case (Cons c cs)
  obtain r st1 where e: "asset_exec c st = (r, st1)" by fastforce
  obtain rs1 where run: "asset_run cs st1 = (rs1, st')" and rs: "rs = r # rs1"
    using Cons.prems(5) e by (auto split: prod.splits)
  have left: "sequence_left 1 st" using Cons.prems(2) by (simp add: sequence_left_def)
  have step: "view_exec (reg_config st) c (registry_view st) = (r, registry_view st1) \<and>
      assets_inv st1 \<and> reg_config st1 = reg_config st \<and>
      access_sequence st1 \<in> {access_sequence st, saturating_add (access_sequence st) 1} \<and>
      la_token ` set (by_token st1) \<inter> set (new_tokens cs) = {} \<and> distinct (new_tokens cs)"
  proof (cases c)
    case (RegisterImage now uuid path)
    then obtain tok where rg: "register_image now uuid path st = (tok, st1)" and r: "r = Some tok"
      using e by (auto split: prod.splits)
    have "uuid \<notin> set (map la_token (by_token st))" using Cons.prems(4) RegisterImage by auto
    note rr = register_refines [OF Cons.prems(1) left this rg]
    have n: "new_tokens (c # cs) = uuid # new_tokens cs" using RegisterImage by simp
    have "uuid \<notin> set (new_tokens cs)" "la_token ` set (by_token st) \<inter> set (new_tokens cs) = {}"
      using Cons.prems(3,4) unfolding n by auto
    then have "la_token ` set (by_token st1) \<inter> set (new_tokens cs) = {}" using rr by blast
    with rr r RegisterImage Cons.prems(3) show ?thesis by simp
  next
    case (PathFor now tok)
    then have "path_for now tok st = (r, st1)" using e by simp
    note pr = path_for_refines [OF Cons.prems(1) left this]
    have n: "new_tokens (c # cs) = new_tokens cs" using PathFor by simp
    have "la_token ` set (by_token st1) \<inter> set (new_tokens cs) = {}"
      using pr Cons.prems(4) unfolding n by blast
    with pr PathFor Cons.prems(3) show ?thesis by simp
  qed
  have "unat (access_sequence st1) \<le> Suc (unat (access_sequence st))"
    using step by (auto simp: unat_saturating_add)
  then have "sequence_left (length cs) st1" using Cons.prems(2) by (simp add: sequence_left_def)
  with Cons.IH [of st1 rs1] step run rs show ?case by (auto split: prod.splits)
qed

text \<open>
  C11. The asset registry is a bounded least-recently-used list. Over every sequence of registrations
  and lookups with new tokens, starting empty, the answers are those of the abstract list in the
  order of use: a path keeps its token while it lives, a token leads to the path it was made for
  until its time to live is over or it was the least recently used of a full registry; and the
  number of entries never exceeds the capacity.
\<close>

theorem registry_is_lru:
  assumes "distinct (new_tokens cs)" and "length cs < 2 ^ 64"
    and "asset_run cs (registry_with_config cfg) = (rs, st)"
  shows "view_run cfg cs [] = (rs, registry_view st) \<and> length (by_token st) \<le> max_entries cfg"
proof -
  let ?st = "registry_with_config cfg"
  have i: "assets_inv ?st" "sequence_left (length cs) ?st"
    "la_token ` set (by_token ?st) \<inter> set (new_tokens cs) = {}"
    using assms(2)
    by (auto simp: assets_inv_def maps_inverse_def sequenced_def registry_with_config_def
        sequence_left_def)
  have v: "registry_view ?st = []" "reg_config ?st = cfg"
    by (simp_all add: registry_with_config_def registry_view_def)
  from asset_run_refines [OF i(1,2) assms(1) i(3) assms(3)] show ?thesis
    unfolding v by (metis assets_inv_def)
qed

theorem registry_is_lru_witness:
  "fst (asset_run
     [RegisterImage 1 ''t1'' ''/a.png'', RegisterImage 2 ''t2'' ''/b.png'', PathFor 3 ''t1'',
      RegisterImage 4 ''t3'' ''/c.png'', PathFor 5 ''t2'', PathFor 6 ''t1'', PathFor 99 ''t1'']
     (registry_with_config \<lparr>max_entries = 2, ttl_ms = 50\<rparr>)) =
   [Some ''t1'', Some ''t2'', Some ''/a.png'', Some ''t3'', None, Some ''/a.png'', None]"
proof -
  let ?cs = "[RegisterImage 1 ''t1'' ''/a.png'', RegisterImage 2 ''t2'' ''/b.png'', PathFor 3 ''t1'',
      RegisterImage 4 ''t3'' ''/c.png'', PathFor 5 ''t2'', PathFor 6 ''t1'', PathFor 99 ''t1'']"
  let ?cfg = "\<lparr>max_entries = 2, ttl_ms = 50\<rparr> :: registry_config"
  let ?r = "asset_run ?cs (registry_with_config ?cfg)"
  have "view_run ?cfg ?cs [] = (fst ?r, registry_view (snd ?r))"
    using registry_is_lru [of ?cs ?cfg "fst ?r" "snd ?r"] by simp
  moreover have "fst (view_run ?cfg ?cs []) =
      [Some ''t1'', Some ''t2'', Some ''/a.png'', Some ''t3'', None, Some ''/a.png'', None]"
    by (simp add: view_register_def view_path_for_def view_live_def view_touch_def row_lookup_Cons
        saturating_sub_def)
  ultimately show ?thesis by simp
qed

end
