(* ===== verification/Normalizer.thy ===== *)
theory Normalizer
  imports Codex_Rpc
begin

text \<open>
  The normaliser, \<open>crates/bridge-core/src/normalizer.rs\<close>: from the JSON of Codex threads, turns and
  notifications to the snapshots and events the bridge sends to devices. Every function is pure.
  Constants of the Rust text that are not ASCII are written as their UTF-8 bytes.
\<close>

section \<open>Fields, timestamps and identifiers\<close>

definition normalize_timestamp_ms :: "u64 \<Rightarrow> u64" where
  "normalize_timestamp_ms n = (if n < 100000000000 then saturating_mul n 1000 else n)"

definition timestamp_field :: "json \<Rightarrow> string list \<Rightarrow> u64 option" where
  "timestamp_field v keys =
     map_option normalize_timestamp_ms
       (find_map (\<lambda>key. Option.bind (json_get key v) as_u64) keys)"

definition array_strings :: "json \<Rightarrow> string list \<Rightarrow> string list option" where
  "array_strings v keys =
     find_map (\<lambda>key. map_option (\<lambda>items. List.map_filter as_str items)
       (Option.bind (json_get key v) as_array)) keys"

definition pointer_str :: "string list \<Rightarrow> json \<Rightarrow> string option" where
  "pointer_str p v = Option.bind (json_pointer p v) as_str"

definition thread_id_from_value :: "json \<Rightarrow> string option" where
  "thread_id_from_value v =
     or_else (string_field v [''threadId'', ''thread_id''])
     (or_else (pointer_str [''thread'', ''id''] v)
     (or_else (pointer_str [''turn'', ''threadId''] v)
     (or_else (pointer_str [''turn'', ''thread_id''] v)
     (or_else (pointer_str [''item'', ''threadId''] v)
     (pointer_str [''item'', ''thread_id''] v)))))"

definition turn_id_from_value :: "json \<Rightarrow> string option" where
  "turn_id_from_value v =
     or_else (string_field v [''turnId'', ''turn_id'']) (pointer_str [''turn'', ''id''] v)"

definition item_id_from_value :: "json \<Rightarrow> string option" where
  "item_id_from_value v =
     or_else (string_field v [''itemId'', ''item_id'']) (pointer_str [''item'', ''id''] v)"

definition event_id :: "string \<Rightarrow> json \<Rightarrow> string \<Rightarrow> string" where
  "event_id thread_id v sfx =
     (case string_field v [''eventId'', ''event_id'', ''id''] of
        Some i \<Rightarrow> i
      | None \<Rightarrow>
          thread_id @ '':'' @ unwrap_or ''turn'' (turn_id_from_value v) @ '':'' @
          unwrap_or ''item'' (item_id_from_value v) @ '':'' @ sfx)"

definition item_event_id :: "string \<Rightarrow> json \<Rightarrow> string \<Rightarrow> string" where
  "item_event_id thread_id v sfx =
     (case (turn_id_from_value v, item_id_from_value v) of
        (Some turn_id, Some item_id) \<Rightarrow> turn_id @ '':'' @ item_id
      | _ \<Rightarrow> event_id thread_id v sfx)"

section \<open>Text of a value\<close>

definition text_keys :: "string list" where
  "text_keys = [''text'', ''output_text'', ''input_text'', ''markdown'', ''value'', ''delta'',
     ''content'', ''message'', ''output'', ''input'', ''parts'', ''payload'', ''item'', ''data'']"

definition newline :: string where
  "newline = [CHR 0x0A]"

text \<open>Values nested deeper than six levels are not read.\<close>

function text_from_value_with_depth :: "json \<Rightarrow> nat \<Rightarrow> string option" where
  "text_from_value_with_depth v depth =
     (if depth > 6 then None
      else case v of
        JString text \<Rightarrow> Some text
      | JArray items \<Rightarrow>
          (let text = join_with newline
             (List.map_filter (\<lambda>item. text_from_value_with_depth item (depth + 1)) items)
           in if text = [] then None else Some text)
      | JObject fs \<Rightarrow>
          find_map (\<lambda>key. case json_get key v of
              None \<Rightarrow> None
            | Some child \<Rightarrow> text_from_value_with_depth child (depth + 1)) text_keys
      | _ \<Rightarrow> None)"
  by pat_completeness auto

termination
  by (relation "measure (\<lambda>(v, depth). 7 - depth)") auto

declare text_from_value_with_depth.simps [simp del]

definition text_from_value :: "json \<Rightarrow> string option" where
  "text_from_value v = option_filter (\<lambda>t. \<not> blank t) (text_from_value_with_depth v 0)"

definition reasoning_summary_text :: "json \<Rightarrow> string option" where
  "reasoning_summary_text item =
     find_map (\<lambda>key. Option.bind (json_get key item) text_from_value)
       [''summary'', ''summaryText'', ''summary_text'']"

definition text_for_item :: "json \<Rightarrow> session_event_type \<Rightarrow> string option" where
  "text_for_item item ty =
     (if ty = ReasoningSummary then reasoning_summary_text item else text_from_value item)"

definition delta_text_from_value :: "json \<Rightarrow> string option" where
  "delta_text_from_value v =
     or_else (string_field v [''delta'', ''text'', ''summaryText'', ''summary_text''])
       (pointer_str [''part'', ''text''] v)"

definition summary_part_text :: "json \<Rightarrow> string option" where
  "summary_part_text v =
     or_else (Option.bind (or_else (json_get ''part'' v) (json_get ''summaryPart'' v)) text_from_value)
       (delta_text_from_value v)"

section \<open>Status\<close>

definition status_from_str :: "string \<Rightarrow> session_status option" where
  "status_from_str s =
     (let raw = to_ascii_lowercase s in
      if raw \<in> set [''idle'', ''completed'', ''complete'', ''done''] then Some Idle
      else if raw \<in> set [''active'', ''running'', ''in_progress'', ''streaming'', ''working'']
      then Some Running
      else if raw \<in> set [''waiting_for_input'', ''needs_input'', ''input_required'',
        ''awaiting_input'', ''requires_input'']
      then Some WaitingForInput
      else if raw \<in> set [''waiting_for_approval'', ''approval_required'', ''waiting_approval'',
        ''needs_approval'']
      then Some WaitingForApproval
      else if raw \<in> set [''error'', ''failed'', ''failure'', ''systemerror'', ''system_error'']
      then Some StatusError
      else None)"

definition active_flags :: "json \<Rightarrow> string list" where
  "active_flags status =
     map to_ascii_lowercase (List.map_filter as_str (unwrap_or []
       (Option.bind (or_else (json_get ''activeFlags'' status) (json_get ''active_flags'' status))
         as_array)))"

definition status_from_value :: "json \<Rightarrow> session_status option" where
  "status_from_value v =
     Option.bind
       (find_map (\<lambda>key. json_get key v)
         [''status'', ''state'', ''connectionState'', ''connection_state''])
       (\<lambda>status. case status of
          JString raw \<Rightarrow> status_from_str raw
        | JObject fs \<Rightarrow>
            if ''waitingonapproval'' \<in> set (active_flags status) then Some WaitingForApproval
            else if ''waitingonuserinput'' \<in> set (active_flags status) then Some WaitingForInput
            else Option.bind (or_else (json_get ''type'' status) (json_get ''status'' status))
              (\<lambda>t. Option.bind (as_str t) status_from_str)
        | _ \<Rightarrow> None)"

definition approval_ids_from_value :: "json \<Rightarrow> string list" where
  "approval_ids_from_value v =
     unwrap_or [] (array_strings v
       [''pendingApprovalIds'', ''pending_approval_ids'', ''approvalIds''])"

section \<open>Labels that are safe to show\<close>

text \<open>The characters at which a text is cut before its parts are checked.\<close>

definition path_separator :: "scalar \<Rightarrow> bool" where
  "path_separator c \<longleftrightarrow>
     is_whitespace c \<or>
     c \<in> set [[CHR 0x22], [CHR 0x27], [CHR 0x60], ''('', '')'', ''['', '']'', ''{'', ''}'',
       ''<'', ''>'', '','', '';'', ''='']"

definition rooted_candidate :: "string \<Rightarrow> bool" where
  "rooted_candidate candidate \<longleftrightarrow>
     is_absolute_path candidate
     \<or> (3 \<le> length candidate \<and>
        take 2 (drop 1 candidate) \<in> {[CHR '':'', CHR 0x5C], [CHR '':'', CHR ''/'']})
     \<or> starts_with candidate [CHR 0x5C, CHR 0x5C]
     \<or> (case split_once (CHR '':'') candidate of
          None \<Rightarrow> False
        | Some (prefix_text, path) \<Rightarrow>
            to_ascii_lowercase prefix_text \<notin> set [''http'', ''https''] \<and> is_absolute_path path)"

definition contains_absolute_path :: "string \<Rightarrow> bool" where
  "contains_absolute_path v \<longleftrightarrow>
     list_ex rooted_candidate (map concat (words_by path_separator (utf8_chars v)))"

definition normalized_spaces :: "string \<Rightarrow> string" where
  "normalized_spaces v = join_with space (split_whitespace v)"

definition bounded_plain_text :: "string \<Rightarrow> nat \<Rightarrow> string" where
  "bounded_plain_text v max_chars =
     (let cs = utf8_chars (normalized_spaces v)
      in if max_chars < length cs then concat (take max_chars cs) @ ellipsis else concat cs)"

definition bounded_safe_detail :: "string \<Rightarrow> nat \<Rightarrow> string option" where
  "bounded_safe_detail v max_chars =
     (if normalized_spaces v = [] \<or> contains_absolute_path (normalized_spaces v) then None
      else Some (bounded_plain_text (normalized_spaces v) max_chars))"

definition safe_path_label :: "string \<Rightarrow> string" where
  "safe_path_label path =
     unwrap_or ''workspace''
       (map_option (\<lambda>name. bounded_plain_text name 120)
         (option_filter (\<lambda>name. \<not> blank name) (file_name path)))"

definition humanize_identifier :: "string \<Rightarrow> string option" where
  "humanize_identifier v =
     bounded_safe_detail
       (map (\<lambda>c. if c = CHR ''_'' \<or> c = CHR ''-'' then CHR '' '' else c) v) 120"

text \<open>
  \<open>format!("{:.1} s", duration_ms as f64 / 1_000.0)\<close>: the conversion, the division and the print
  round to nearest, ties to even. A rational \<open>n / d\<close> of at least 1 is rounded to a 53-bit mantissa.
\<close>

definition round_half_even :: "nat \<Rightarrow> nat \<Rightarrow> nat" where
  "round_half_even n d =
     (let q = n div d; r = n mod d
      in if 2 * r < d \<or> (2 * r = d \<and> even q) then q else q + 1)"

fun bit_length :: "nat \<Rightarrow> nat" where
  "bit_length n = (if n = 0 then 0 else Suc (bit_length (n div 2)))"

declare bit_length.simps [simp del]

definition round_to_double :: "nat \<Rightarrow> nat \<Rightarrow> nat \<times> nat" where
  "round_to_double n d =
     (let l = bit_length (n div d)
      in if l \<le> 53 then (round_half_even (n * 2 ^ (53 - l)) d, 2 ^ (53 - l))
         else (round_half_even n (d * 2 ^ (l - 53)) * 2 ^ (l - 53), 1))"

definition seconds_in_tenths :: "nat \<Rightarrow> nat" where
  "seconds_in_tenths ms =
     (case round_to_double ms 1 of (p, q) \<Rightarrow>
        (case round_to_double p (q * 1000) of (p', q') \<Rightarrow> round_half_even (10 * p') q'))"

definition duration_label :: "u64 \<Rightarrow> string" where
  "duration_label ms =
     (if ms < 1000 then u64_to_string ms @ '' ms''
      else if ms mod 1000 = 0 then u64_to_string (ms div 1000) @ '' s''
      else decimal (seconds_in_tenths (unat ms) div 10) @ ''.'' @
           decimal (seconds_in_tenths (unat ms) mod 10) @ '' s'')"

section \<open>The name of a subtask\<close>

definition agent_word :: "string \<Rightarrow> string" where
  "agent_word raw =
     (let lower = to_ascii_lowercase raw in
      if lower = ''api'' then ''API''
      else if lower = ''mvp'' then ''MVP''
      else if lower = ''pwa'' then ''PWA''
      else if lower = ''qa'' then ''QA''
      else if lower = ''tdd'' then ''TDD''
      else if lower = ''ui'' then ''UI''
      else (case lower of [] \<Rightarrow> [] | c # cs \<Rightarrow> to_ascii_uppercase_char c # cs))"

text \<open>\<open>std::mem::take\<close> empties the current word.\<close>

definition push_agent_word :: "string list \<times> string \<Rightarrow> string list \<times> string" where
  "push_agent_word st =
     (case st of (ws, current) \<Rightarrow> if current = [] then (ws, current) else (ws @ [agent_word current], []))"

definition scalar_alphanumeric :: "scalar \<Rightarrow> bool" where
  "scalar_alphanumeric c \<longleftrightarrow> (case c of [b] \<Rightarrow> is_ascii_alphanumeric b | _ \<Rightarrow> False)"

definition scalar_digit :: "scalar \<Rightarrow> bool" where
  "scalar_digit c \<longleftrightarrow> (case c of [b] \<Rightarrow> is_ascii_digit b | _ \<Rightarrow> False)"

fun agent_words_loop ::
  "scalar list \<Rightarrow> string list \<times> string \<Rightarrow> bool option \<Rightarrow> string list \<times> string" where
  "agent_words_loop [] st previous = st"
| "agent_words_loop (c # cs) st previous =
     (if \<not> scalar_alphanumeric c then agent_words_loop cs (push_agent_word st) None
      else let (ws, current) =
             (if previous \<noteq> None \<and> previous \<noteq> Some (scalar_digit c) then push_agent_word st else st)
           in agent_words_loop cs (ws, current @ c) (Some (scalar_digit c)))"

definition agent_task_label :: "string \<Rightarrow> string option" where
  "agent_task_label path =
     (case find (\<lambda>part. \<not> blank part) (rev (split_on (\<lambda>c. c = CHR ''/'') path)) of
        None \<Rightarrow> None
      | Some leaf \<Rightarrow>
          (let ws = fst (push_agent_word (agent_words_loop (utf8_chars leaf) ([], []) None))
           in if ws = [] then None else Some (join_with space ws)))"

definition dot_joined :: "string \<Rightarrow> string \<Rightarrow> string" where
  "dot_joined a b = a @ space @ middle_dot @ space @ b"

definition pointers_str :: "string list list \<Rightarrow> json \<Rightarrow> string option" where
  "pointers_str ps v = find_map (\<lambda>p. pointer_str p v) ps"

definition subagent_title :: "json \<Rightarrow> string option" where
  "subagent_title v =
     (let agent_path = or_else (string_field v [''agentPath'', ''agent_path''])
            (pointers_str
              [[''source'', ''subagent'', ''threadSpawn'', ''agentPath''],
               [''source'', ''subagent'', ''thread_spawn'', ''agent_path''],
               [''source'', ''subAgent'', ''threadSpawn'', ''agentPath''],
               [''source'', ''subAgent'', ''thread_spawn'', ''agent_path'']] v);
          agent_nickname = or_else (string_field v [''agentNickname'', ''agent_nickname''])
            (pointers_str
              [[''source'', ''subagent'', ''threadSpawn'', ''agentNickname''],
               [''source'', ''subagent'', ''thread_spawn'', ''agent_nickname''],
               [''source'', ''subAgent'', ''threadSpawn'', ''agentNickname''],
               [''source'', ''subAgent'', ''thread_spawn'', ''agent_nickname'']] v);
          task_label = Option.bind agent_path agent_task_label;
          nickname = option_filter (\<lambda>n. \<not> blank n) agent_nickname
      in case (task_label, nickname) of
           (Some l, Some n) \<Rightarrow> Some (dot_joined l n)
         | (Some l, None) \<Rightarrow> Some l
         | (None, Some n) \<Rightarrow> Some (dot_joined ''Subtask'' n)
         | (None, None) \<Rightarrow> None)"

section \<open>Tool activities\<close>

datatype tool_lifecycle = LifecycleStarted | LifecycleCompleted

datatype tool_status = ToolRunning | ToolCompleted | ToolFailed | ToolDeclined

fun tool_status_as_str :: "tool_status \<Rightarrow> string" where
  "tool_status_as_str ToolRunning = ''running''"
| "tool_status_as_str ToolCompleted = ''completed''"
| "tool_status_as_str ToolFailed = ''failed''"
| "tool_status_as_str ToolDeclined = ''declined''"

record tool_activity =
  act_kind :: string
  act_status :: tool_status
  act_title :: string
  act_detail :: "string option"

fun activity_title :: "tool_status \<Rightarrow> string \<Rightarrow> string \<Rightarrow> string \<Rightarrow> string \<Rightarrow> string" where
  "activity_title ToolRunning running completed failed declined = running"
| "activity_title ToolCompleted running completed failed declined = completed"
| "activity_title ToolFailed running completed failed declined = failed"
| "activity_title ToolDeclined running completed failed declined = declined"

definition tool_status_from_item ::
  "json \<Rightarrow> codex_turn \<Rightarrow> tool_lifecycle option \<Rightarrow> tool_status" where
  "tool_status_from_item item turn lifecycle =
     (let raw = to_ascii_lowercase (unwrap_or [] (string_field item [''status'', ''state''])) in
      if raw \<in> set [''failed'', ''failure'', ''error'']
         \<or> Option.bind (json_get ''success'' item) as_bool = Some False
      then ToolFailed
      else if raw \<in> set [''declined'', ''rejected'', ''denied''] then ToolDeclined
      else if lifecycle = Some LifecycleStarted then ToolRunning
      else if lifecycle = Some LifecycleCompleted
         \<or> raw \<in> set [''completed'', ''complete'', ''done'', ''success'']
      then ToolCompleted
      else if raw \<in> set [''inprogress'', ''in_progress'', ''running'', ''started''] then ToolRunning
      else (case status_from_value (tn_raw turn) of
          Some Running \<Rightarrow> ToolRunning
        | Some WaitingForApproval \<Rightarrow> ToolRunning
        | Some WaitingForInput \<Rightarrow> ToolRunning
        | Some StatusError \<Rightarrow> ToolFailed
        | _ \<Rightarrow> ToolCompleted))"

definition tool_activity_text :: "tool_activity \<Rightarrow> string" where
  "tool_activity_text a =
     (case act_detail a of
        None \<Rightarrow> act_title a
      | Some d \<Rightarrow> if blank d then act_title a else act_title a @ '': '' @ d)"

definition search_action_detail :: "json \<Rightarrow> string option" where
  "search_action_detail action =
     (let query = Option.bind (option_filter (\<lambda>q. \<not> blank q) (string_field action [''query'']))
            (\<lambda>q. bounded_safe_detail q 140);
          path = map_option safe_path_label
            (option_filter (\<lambda>p. \<not> blank p) (string_field action [''path'']))
      in case (query, path) of
           (Some q, Some p) \<Rightarrow> Some (q @ '' in '' @ p)
         | (Some q, None) \<Rightarrow> Some q
         | (None, Some p) \<Rightarrow> Some p
         | (None, None) \<Rightarrow> None)"

fun changed_labels :: "json list \<Rightarrow> string list \<Rightarrow> string list" where
  "changed_labels [] labels = labels"
| "changed_labels (c # cs) labels =
     (case string_field c [''path''] of
        None \<Rightarrow> changed_labels cs labels
      | Some path \<Rightarrow>
          if safe_path_label path \<in> set labels then changed_labels cs labels
          else changed_labels cs (labels @ [safe_path_label path]))"

definition changed_file_detail :: "json \<Rightarrow> string option" where
  "changed_file_detail item =
     Option.bind (Option.bind (json_get ''changes'' item) as_array) (\<lambda>changes.
       let labels = changed_labels changes [] in
       if length labels = 0 then None
       else if length labels \<le> 3 then Some (join_with '', '' labels)
       else Some (decimal (length labels) @ '' files''))"

definition tool_name_detail :: "json \<Rightarrow> string \<Rightarrow> string option" where
  "tool_name_detail item namespace_key =
     (let tool = Option.bind (option_filter (\<lambda>t. \<not> blank t) (string_field item [''tool'', ''name'']))
            humanize_identifier;
          namespace = Option.bind
            (option_filter (\<lambda>n. \<not> blank n) (string_field item [namespace_key]))
            (\<lambda>n. bounded_safe_detail n 80)
      in case (namespace, tool) of
           (Some n, Some t) \<Rightarrow> Some (dot_joined n t)
         | (None, Some t) \<Rightarrow> Some t
         | (Some n, None) \<Rightarrow> Some n
         | (None, None) \<Rightarrow> None)"

definition command_runs_tests :: "string \<Rightarrow> bool" where
  "command_runs_tests command \<longleftrightarrow> list_ex (contains command)
     [''cargo test'', ''npm test'', ''pnpm test'', ''yarn test'', ''pytest'', ''vitest'']"

definition command_builds_project :: "string \<Rightarrow> bool" where
  "command_builds_project command \<longleftrightarrow> list_ex (contains command)
     [''cargo build'', ''npm run build'', ''pnpm build'', ''yarn build'', ''tauri build'']"

definition command_inspects_git :: "string \<Rightarrow> bool" where
  "command_inspects_git command \<longleftrightarrow> list_ex (contains command)
     [''git status'', ''git diff'', ''git log'', ''git show'']"

definition command_searches_files :: "string \<Rightarrow> bool" where
  "command_searches_files command \<longleftrightarrow>
     starts_with command ''rg '' \<or> contains command '' rg '' \<or>
     starts_with command ''grep '' \<or> contains command '' grep ''"

definition command_reads_files :: "string \<Rightarrow> bool" where
  "command_reads_files command \<longleftrightarrow>
     list_ex (\<lambda>n. starts_with command n \<or> contains command ('' '' @ n))
       [''sed '', ''cat '', ''head '', ''tail '']"

definition command_lists_files :: "string \<Rightarrow> bool" where
  "command_lists_files command \<longleftrightarrow>
     list_ex (\<lambda>n. starts_with command n \<or> contains command ('' '' @ n)) [''find '', ''ls '']"

definition plain_activity ::
  "string \<Rightarrow> tool_status \<Rightarrow> string \<Rightarrow> string \<Rightarrow> string \<Rightarrow> string \<Rightarrow> string option \<Rightarrow> tool_activity" where
  "plain_activity kind status running completed failed declined detail =
     \<lparr>act_kind = kind, act_status = status,
      act_title = activity_title status running completed failed declined, act_detail = detail\<rparr>"

definition command_fallback_activity ::
  "json \<Rightarrow> json option \<Rightarrow> tool_status \<Rightarrow> tool_activity" where
  "command_fallback_activity item action status =
     (let command = unwrap_or []
            (or_else (Option.bind action (\<lambda>a. string_field a [''command'']))
              (string_field item [''command'']));
          lower = to_ascii_lowercase command
      in if command_runs_tests lower then
           plain_activity ''test'' status ''Running tests'' ''Ran tests'' ''Tests failed''
             ''Skipped tests'' None
         else if command_builds_project lower then
           plain_activity ''build'' status ''Building project'' ''Built project'' ''Build failed''
             ''Skipped build'' None
         else if command_inspects_git lower then
           plain_activity ''git'' status ''Inspecting Git changes'' ''Inspected Git changes''
             ''Git inspection failed'' ''Skipped Git inspection'' None
         else if command_searches_files lower then
           plain_activity ''search'' status ''Searching files'' ''Searched files''
             ''File search failed'' ''Skipped file search'' None
         else if command_reads_files lower then
           plain_activity ''read'' status ''Reading files'' ''Read files'' ''File read failed''
             ''Skipped file read'' None
         else if command_lists_files lower then
           plain_activity ''list_files'' status ''Listing files'' ''Listed files''
             ''File listing failed'' ''Skipped file listing'' None
         else
           plain_activity ''command'' status ''Running command'' ''Ran command'' ''Command failed''
             ''Skipped command'' None)"

definition first_action :: "json \<Rightarrow> json option" where
  "first_action item =
     Option.bind (Option.bind
       (or_else (json_get ''commandActions'' item) (json_get ''command_actions'' item)) as_array)
       (\<lambda>actions. case actions of [] \<Rightarrow> None | a # _ \<Rightarrow> Some a)"

definition command_activity :: "json \<Rightarrow> tool_status \<Rightarrow> tool_activity" where
  "command_activity item status =
     (let action = first_action item;
          action_type = to_ascii_lowercase (unwrap_or []
            (Option.bind action (\<lambda>a. string_field a [''type''])))
      in if action_type = ''read'' then
           plain_activity ''read'' status ''Reading file'' ''Read file'' ''File read failed''
             ''Skipped file read''
             (Option.bind action (\<lambda>a. or_else
                (Option.bind (option_filter (\<lambda>n. \<not> blank n) (string_field a [''name'']))
                  (\<lambda>n. bounded_safe_detail n 120))
                (map_option safe_path_label (string_field a [''path'']))))
         else if action_type \<in> set [''listfiles'', ''list_files''] then
           plain_activity ''list_files'' status ''Listing files'' ''Listed files''
             ''File listing failed'' ''Skipped file listing''
             (map_option safe_path_label
               (Option.bind action (\<lambda>a. string_field a [''path''])))
         else if action_type = ''search'' then
           plain_activity ''search'' status ''Searching files'' ''Searched files''
             ''File search failed'' ''Skipped file search''
             (Option.bind action search_action_detail)
         else command_fallback_activity item action status)"

definition subagent_activity :: "json \<Rightarrow> tool_status \<Rightarrow> tool_activity" where
  "subagent_activity item status =
     (let tool = to_ascii_lowercase (unwrap_or [] (string_field item [''tool'']));
          (running, completed) =
            (if contains tool ''spawn'' then (''Starting subtask'', ''Started subtask'')
             else if contains tool ''wait''
             then (''Waiting for subtasks'', ''Finished waiting for subtasks'')
             else if contains tool ''close'' \<or> contains tool ''interrupt''
             then (''Stopping subtask'', ''Stopped subtask'')
             else (''Coordinating subtasks'', ''Coordinated subtasks''))
      in plain_activity ''subagent'' status running completed ''Subtask failed'' ''Skipped subtask''
           (Option.bind (option_filter (\<lambda>p. \<not> blank p) (string_field item [''prompt'']))
             (\<lambda>p. bounded_safe_detail p 180)))"

definition reviewed :: "tool_status \<Rightarrow> string \<Rightarrow> json \<Rightarrow> tool_activity" where
  "reviewed status title item =
     \<lparr>act_kind = ''review'', act_status = status, act_title = title,
      act_detail = Option.bind (string_field item [''review'']) (\<lambda>v. bounded_safe_detail v 180)\<rparr>"

definition tool_activity_from_item ::
  "json \<Rightarrow> codex_turn \<Rightarrow> tool_lifecycle option \<Rightarrow> tool_activity" where
  "tool_activity_from_item item turn lifecycle =
     (let status = tool_status_from_item item turn lifecycle;
          ty = to_ascii_lowercase
            (unwrap_or [] (string_field item [''type'', ''itemType'', ''item_type'']))
      in if ty \<in> set [''commandexecution'', ''command_execution''] then command_activity item status
         else if ty \<in> set [''filechange'', ''file_change''] then
           plain_activity ''file_change'' status ''Updating files'' ''Updated files''
             ''File update failed'' ''Skipped file update'' (changed_file_detail item)
         else if ty \<in> set [''mcptoolcall'', ''mcp_tool_call''] then
           plain_activity ''mcp'' status ''Using tool'' ''Used tool'' ''Tool failed''
             ''Skipped tool'' (tool_name_detail item ''server'')
         else if ty \<in> set [''dynamictoolcall'', ''dynamic_tool_call''] then
           plain_activity ''tool'' status ''Using tool'' ''Used tool'' ''Tool failed''
             ''Skipped tool'' (tool_name_detail item ''namespace'')
         else if ty \<in> set [''websearch'', ''web_search''] then
           plain_activity ''web_search'' status ''Searching the web'' ''Searched the web''
             ''Web search failed'' ''Skipped web search''
             (Option.bind
               (or_else (string_field item [''query''])
                 (string_field_at item [[''action'', ''query'']]))
               (\<lambda>q. bounded_safe_detail q 180))
         else if ty \<in> set [''imageview'', ''image_view''] then
           plain_activity ''image'' status ''Viewing image'' ''Viewed image''
             ''Image view failed'' ''Skipped image view''
             (map_option safe_path_label (string_field item [''path'']))
         else if ty \<in> set [''imagegeneration'', ''image_generation''] then
           plain_activity ''image'' status ''Generating image'' ''Generated image''
             ''Image generation failed'' ''Skipped image generation'' None
         else if ty \<in> set [''collabagenttoolcall'', ''collab_agent_tool_call''] then
           subagent_activity item status
         else if ty \<in> set [''subagentactivity'', ''sub_agent_activity''] then
           plain_activity ''subagent'' status ''Coordinating subtask'' ''Coordinated subtask''
             ''Subtask failed'' ''Skipped subtask''
             (Option.bind (string_field item [''agentPath'', ''agent_path'']) agent_task_label)
         else if ty = ''sleep'' then
           plain_activity ''wait'' status ''Waiting'' ''Waited'' ''Wait failed'' ''Skipped wait''
             (map_option duration_label
               (Option.bind
                 (or_else (json_get ''durationMs'' item) (json_get ''duration_ms'' item)) as_u64))
         else if ty \<in> set [''enteredreviewmode'', ''entered_review_mode''] then
           reviewed status ''Entered review mode'' item
         else if ty \<in> set [''exitedreviewmode'', ''exited_review_mode''] then
           reviewed status ''Exited review mode'' item
         else
           plain_activity ''tool'' status ''Working'' ''Finished work'' ''Tool failed''
             ''Skipped tool''
             (Option.bind (string_field item [''name'', ''tool'']) humanize_identifier))"

section \<open>Attached images\<close>

definition file_name_from_path :: "string \<Rightarrow> string" where
  "file_name_from_path path = unwrap_or ''image'' (option_filter (\<lambda>n. n \<noteq> []) (file_name path))"

text \<open>The attachments of a value, down to six levels, in the order they are found.\<close>

function collect_image_attachments :: "json \<Rightarrow> nat \<Rightarrow> json list" where
  "collect_image_attachments v depth =
     (if depth > 6 then []
      else case v of
        JArray items \<Rightarrow> concat (map (\<lambda>item. collect_image_attachments item (depth + 1)) items)
      | JObject fs \<Rightarrow>
          (case Option.bind (json_get ''type'' v) as_str of
             Some ty \<Rightarrow>
               if eq_ignore_ascii_case ty ''localimage'' then
                 (case Option.bind (json_get ''path'' v) as_str of
                    None \<Rightarrow> []
                  | Some path \<Rightarrow>
                      [json_object [(''type'', JString ''image''), (''path'', JString path),
                                    (''name'', JString (file_name_from_path path))]])
               else concat (map (\<lambda>f. collect_image_attachments (snd f) (depth + 1)) fs)
           | None \<Rightarrow> concat (map (\<lambda>f. collect_image_attachments (snd f) (depth + 1)) fs))
      | _ \<Rightarrow> [])"
  by pat_completeness auto

termination
  by (relation "measure (\<lambda>(v, depth). 7 - depth)") auto

declare collect_image_attachments.simps [simp del]

definition image_attachments_from_value :: "json \<Rightarrow> json list" where
  "image_attachments_from_value v = collect_image_attachments v 0"

definition scrub_one :: "json \<Rightarrow> string \<Rightarrow> string" where
  "scrub_one attachment scrubbed =
     (case Option.bind (json_get ''path'' attachment) as_str of
        None \<Rightarrow> scrubbed
      | Some path \<Rightarrow>
          if path = [] \<or> \<not> contains scrubbed path then scrubbed
          else replace_text path
            (unwrap_or (file_name_from_path path)
              (Option.bind (json_get ''name'' attachment) as_str)) scrubbed)"

definition scrub_attachment_paths_from_text :: "string \<Rightarrow> json list \<Rightarrow> string" where
  "scrub_attachment_paths_from_text text attachments = fold scrub_one attachments text"

section \<open>Events of turns\<close>

definition event_type_for_role :: "string \<Rightarrow> session_event_type option" where
  "event_type_for_role role =
     (if role = ''reasoning'' then Some ReasoningSummary
      else if role = ''plan'' then Some Plan
      else if role = ''tool'' then Some ToolCall
      else if role = ''tool_result'' then Some ToolResult
      else if role = ''error'' then Some ErrorEvent
      else if role \<in> set [''context_compaction'', ''unknown''] then None
      else Some Message)"

definition role_of_name :: "string \<Rightarrow> string" where
  "role_of_name raw =
     (if raw \<in> set [''user'', ''usermessage'', ''user_message'', ''input_text'', ''input'']
      then ''user''
      else if raw \<in> set [''assistant'', ''agent'', ''codex'', ''agentmessage'', ''agent_message'',
        ''assistantmessage'', ''assistant_message'', ''output_text'', ''output'']
      then ''assistant''
      else if raw \<in> set [''reasoning'', ''reasoning_summary'', ''reasoningsummary'']
      then ''reasoning''
      else if raw \<in> set [''plan'', ''plan_update'', ''planupdate''] then ''plan''
      else if raw \<in> set [''contextcompaction'', ''context_compaction''] then ''context_compaction''
      else if raw \<in> set [''error'', ''errorevent'', ''error_event''] then ''error''
      else if raw \<in> set [''toolcall'', ''tool_call'', ''function_call'', ''commandexecution'',
        ''command_execution'', ''filechange'', ''file_change'', ''mcptoolcall'', ''mcp_tool_call'',
        ''dynamictoolcall'', ''dynamic_tool_call'', ''collabagenttoolcall'',
        ''collab_agent_tool_call'', ''subagentactivity'', ''sub_agent_activity'', ''websearch'',
        ''web_search'', ''imageview'', ''image_view'', ''imagegeneration'', ''image_generation'',
        ''sleep'', ''enteredreviewmode'', ''entered_review_mode'', ''exitedreviewmode'',
        ''exited_review_mode'']
      then ''tool''
      else if raw \<in> set [''toolresult'', ''tool_result'', ''function_call_output'']
      then ''tool_result''
      else ''unknown'')"

definition role_from_item :: "json \<Rightarrow> string" where
  "role_from_item item =
     role_of_name (to_ascii_lowercase (unwrap_or []
       (or_else (string_field item
           [''role'', ''type'', ''authorRole'', ''author_role'', ''itemType'', ''item_type''])
         (pointer_str [''author'', ''role''] item))))"

text \<open>What \<open>turn_items\<close> makes of a field of a turn that has no list of items.\<close>

definition item_of_field :: "json \<Rightarrow> string \<times> string \<Rightarrow> json option" where
  "item_of_field v kt =
     map_option (\<lambda>c. json_object [(''type'', JString (snd kt)), (''content'', c)])
       (json_get (fst kt) v)"

definition turn_items :: "json \<Rightarrow> json list" where
  "turn_items v =
     (case or_else (Option.bind (json_get ''items'' v) as_array)
             (Option.bind (json_get ''messages'' v) as_array) of
        Some items \<Rightarrow> items
      | None \<Rightarrow>
          (let items = List.map_filter (item_of_field v)
             [(''input'', ''userMessage''), (''output'', ''agentMessage''),
              (''request'', ''userMessage''), (''response'', ''agentMessage'')]
           in if items = [] then [v] else items))"

definition indexed_id :: "string \<Rightarrow> nat \<Rightarrow> nat \<Rightarrow> string" where
  "indexed_id thread_id turn_index item_index =
     thread_id @ '':turn-'' @ decimal turn_index @ '':item-'' @ decimal item_index"

definition history_event_id ::
  "string \<Rightarrow> nat \<Rightarrow> nat \<Rightarrow> json \<Rightarrow> codex_turn \<Rightarrow> string" where
  "history_event_id thread_id turn_index item_index item turn =
     (case string_field item [''id'', ''itemId'', ''item_id''] of
        Some item_id \<Rightarrow>
          (case tn_id turn of Some t \<Rightarrow> t @ '':'' @ item_id | None \<Rightarrow> item_id)
      | None \<Rightarrow>
          (case tn_id turn of
             Some t \<Rightarrow> t @ '':'' @ decimal item_index
           | None \<Rightarrow> indexed_id thread_id turn_index item_index))"

definition with_activity :: "tool_activity \<Rightarrow> json \<Rightarrow> json" where
  "with_activity a payload =
     (let p = json_insert ''title'' (JString (act_title a))
        (json_insert ''toolStatus'' (JString (tool_status_as_str (act_status a)))
          (json_insert ''toolKind'' (JString (act_kind a)) payload))
      in case act_detail a of None \<Rightarrow> p | Some d \<Rightarrow> json_insert ''detail'' (JString d) p)"

definition event_from_item ::
  "string \<Rightarrow> nat \<Rightarrow> nat \<Rightarrow> json \<Rightarrow> codex_turn \<Rightarrow> tool_lifecycle option
    \<Rightarrow> json session_event option" where
  "event_from_item thread_id turn_index item_index item turn lifecycle =
     (let role = role_from_item item in
      case event_type_for_role role of
        None \<Rightarrow> None
      | Some role_type \<Rightarrow>
         (let activity = (if role_type = ToolCall \<or> role_type = ToolResult
                then Some (tool_activity_from_item item turn lifecycle) else None);
              ty = (case activity of
                  None \<Rightarrow> role_type
                | Some a \<Rightarrow> if act_status a = ToolRunning then ToolCall else ToolResult);
              attachments = image_attachments_from_value item;
              text = unwrap_or [] (map_option (\<lambda>t. scrub_attachment_paths_from_text t attachments)
                (or_else (map_option tool_activity_text activity) (text_for_item item ty)));
              created_at = unwrap_or 0
                (or_else (timestamp_field item [''createdAt'', ''created_at'', ''timestamp''])
                (or_else (map_option normalize_timestamp_ms (tn_created_at turn))
                (map_option normalize_timestamp_ms (tn_updated_at turn))));
              payload_role = (if ty = ToolResult then ''tool_result'' else role);
              base = json_object
                [(''role'', JString payload_role), (''text'', JString text),
                 (''turnId'', opt_json JString (tn_id turn)), (''raw'', item)];
              shown = (case activity of None \<Rightarrow> base | Some a \<Rightarrow> with_activity a base);
              payload = (if attachments \<noteq> []
                then json_insert ''attachments'' (JArray attachments) shown else shown)
          in if blank text \<and> attachments = []
                \<and> (ty = ReasoningSummary \<or> ty = Plan \<or> (ty = Message \<and> role = ''assistant''))
             then None
             else Some
               \<lparr>ev_id = history_event_id thread_id turn_index item_index item turn,
                ev_thread_id = thread_id, ev_type = ty, ev_payload = payload,
                ev_created_at = created_at\<rparr>))"

definition indexed :: "'a list \<Rightarrow> (nat \<times> 'a) list" where
  "indexed xs = zip [0..<length xs] xs"

definition events_from_turn :: "string \<Rightarrow> nat \<Rightarrow> codex_turn \<Rightarrow> json session_event list" where
  "events_from_turn thread_id turn_index turn =
     List.map_filter (\<lambda>(item_index, item).
       event_from_item thread_id turn_index item_index item turn None)
       (indexed (turn_items (tn_raw turn)))"

definition events_from_turns :: "string \<Rightarrow> codex_turn list \<Rightarrow> json session_event list" where
  "events_from_turns thread_id turns =
     concat (map (\<lambda>(turn_index, turn). events_from_turn thread_id turn_index turn) (indexed turns))"

section \<open>Snapshots\<close>

definition is_subagent_thread :: "codex_thread \<Rightarrow> bool" where
  "is_subagent_thread thread \<longleftrightarrow>
     string_field (ct_raw thread)
       [''parentThreadId'', ''parent_thread_id'', ''parentId'', ''parent_id''] \<noteq> None
     \<or> (case string_field (ct_raw thread) [''threadSource'', ''thread_source'', ''source''] of
          None \<Rightarrow> False
        | Some source \<Rightarrow> eq_ignore_ascii_case source ''subagent'')
     \<or> subagent_title (ct_raw thread) \<noteq> None"

definition snapshot_from_thread :: "codex_thread \<Rightarrow> session_snapshot" where
  "snapshot_from_thread thread =
     \<lparr>snap_thread_id = ct_id thread,
      snap_title = unwrap_or (ct_id thread)
        (or_else (option_filter (\<lambda>t. \<not> blank t) (ct_title thread))
        (or_else (option_filter (\<lambda>p. \<not> blank p) (ct_preview thread))
        (subagent_title (ct_raw thread)))),
      snap_cwd = ct_cwd thread,
      snap_model_provider = ct_model_provider thread,
      snap_preview = ct_preview thread,
      snap_updated_at = unwrap_or 0
        (or_else (map_option normalize_timestamp_ms
            (or_else (ct_updated_at thread) (ct_created_at thread)))
          (timestamp_field (ct_raw thread)
            [''updatedAt'', ''updated_at'', ''createdAt'', ''created_at''])),
      snap_status = unwrap_or Idle (status_from_value (ct_raw thread)),
      snap_pending_approval_ids = approval_ids_from_value (ct_raw thread)\<rparr>"

section \<open>Events of notifications\<close>

definition status_json :: "session_status \<Rightarrow> json" where
  "status_json s = JString (session_status_name s)"

definition notification_time :: "json \<Rightarrow> u64" where
  "notification_time params =
     unwrap_or 0 (timestamp_field params
       [''createdAt'', ''created_at'', ''startedAtMs'', ''completedAtMs'', ''timestamp'', ''time''])"

definition notification_event ::
  "string \<Rightarrow> json \<Rightarrow> string \<Rightarrow> session_event_type \<Rightarrow> json \<Rightarrow> json session_event" where
  "notification_event i params thread_id ty payload =
     \<lparr>ev_id = i, ev_thread_id = thread_id, ev_type = ty, ev_payload = payload,
      ev_created_at = notification_time params\<rparr>"

definition status_event :: "string \<Rightarrow> json \<Rightarrow> string \<Rightarrow> session_status \<Rightarrow> json session_event" where
  "status_event thread_id params sfx status =
     notification_event (event_id thread_id params sfx) params thread_id StatusChanged
       (json_object [(''status'', status_json status), (''raw'', params)])"

definition text_payload :: "string \<Rightarrow> string \<Rightarrow> json \<Rightarrow> json" where
  "text_payload role text params =
     json_object [(''role'', JString role), (''text'', JString text),
       (''turnId'', opt_json JString (turn_id_from_value params)), (''raw'', params)]"

definition delta_type :: "string \<Rightarrow> (session_event_type \<times> string) option" where
  "delta_type mth =
     (if mth = ''item/agentMessage/delta'' then Some (MessageDelta, ''assistant'')
      else if mth = ''item/reasoning/summaryTextDelta''
      then Some (ReasoningSummaryDelta, ''reasoning'')
      else if mth = ''item/plan/delta'' then Some (PlanDelta, ''plan'')
      else None)"

definition delta_event ::
  "string \<Rightarrow> json \<Rightarrow> session_event_type \<times> string \<Rightarrow> json session_event option" where
  "delta_event thread_id params tr =
     (case delta_text_from_value params of
        None \<Rightarrow> None
      | Some text \<Rightarrow>
          if blank text then None
          else Some (notification_event (item_event_id thread_id params ''delta'') params thread_id
            (fst tr) (text_payload (snd tr) text params)))"

definition summary_event :: "string \<Rightarrow> json \<Rightarrow> json session_event option" where
  "summary_event thread_id params =
     (case summary_part_text params of
        None \<Rightarrow> None
      | Some text \<Rightarrow>
          if blank text then None
          else Some (notification_event (item_event_id thread_id params ''reasoning-summary'')
            params thread_id ReasoningSummary (text_payload ''reasoning'' text params)))"

text \<open>The event of an item that started or completed: as in the history, with a turn made for it.\<close>

definition item_event :: "string \<Rightarrow> string \<Rightarrow> json \<Rightarrow> json \<Rightarrow> json session_event option" where
  "item_event mth thread_id params item =
     event_from_item thread_id 0 0 item
       \<lparr>tn_id = string_field params [''turnId'', ''turn_id''], tn_thread_id = Some thread_id,
        tn_created_at = Some (notification_time params),
        tn_updated_at = Some (notification_time params),
        tn_raw = json_object [(''items'', JArray [item])]\<rparr>
       (Some (if mth = ''item/started'' then LifecycleStarted else LifecycleCompleted))"

definition event_from_raw_notification :: "codex_raw_event \<Rightarrow> json session_event option" where
  "event_from_raw_notification n =
     (let params = re_params n; mth = re_method n;
          thread_id = unwrap_or [] (thread_id_from_value params)
      in if mth = ''item/reasoning/textDelta'' then None
         else case delta_type mth of
           Some tr \<Rightarrow> delta_event thread_id params tr
         | None \<Rightarrow>
             if mth = ''item/reasoning/summaryPartAdded'' then summary_event thread_id params
             else if mth \<in> set [''item/started'', ''item/completed''] \<and> json_get ''item'' params \<noteq> None
             then Option.bind (json_get ''item'' params) (item_event mth thread_id params)
             else if mth = ''turn/started'' then
               Some (status_event thread_id params ''turn-started'' Running)
             else if mth = ''turn/completed'' then
               Some (status_event thread_id params ''turn-completed'' Idle)
             else if mth = ''turn/failed'' then
               Some (status_event thread_id params ''turn-failed'' StatusError)
             else if mth \<in> set [''item/commandExecution/requestApproval'',
               ''item/fileChange/requestApproval'', ''item/permissions/requestApproval'',
               ''mcpServer/elicitation/request'']
             then Some (status_event thread_id params ''approval-required'' WaitingForApproval)
             else if mth = ''item/tool/requestUserInput'' then
               Some (status_event thread_id params ''input-required'' WaitingForInput)
             else case status_from_value params of
               Some status \<Rightarrow> Some (status_event thread_id params ''status'' status)
             | None \<Rightarrow>
                 Some (notification_event (event_id thread_id params ''unknown'') params thread_id
                   StatusChanged
                   (json_object [(''method'', JString mth), (''raw'', params)])))"
end
