(* ===== verification/Safe_Details.thy ===== *)
theory Safe_Details
  imports Normalizer
begin

text \<open>
  What the details of tool activities show: the labels the normaliser of
  \<open>crates/bridge-core/src/normalizer.rs\<close> makes for a device never hold an absolute path. First the
  check \<open>contains_absolute_path\<close> and the cutting of a text to a number of characters, then every
  label of an activity.
\<close>

section \<open>Texts with normal spaces\<close>

lemma whitespace_starts: "is_whitespace c \<Longrightarrow> starts_scalar c"
  by (auto simp: is_whitespace_def starts_scalar_def is_continuation_def split: list.splits)

lemma space_scalar [simp]: "is_whitespace space" "scalar_like space" "starts_scalar space"
  by (simp_all add: is_whitespace_def space_def scalar_like_def starts_scalar_def
      is_continuation_def byte_of_def)

lemma split_on_elements: "w \<in> set (split_on P cs) \<Longrightarrow> c \<in> set w \<Longrightarrow> c \<in> set cs \<and> \<not> P c"
proof (induction cs arbitrary: w)
  case (Cons a cs)
  obtain v vs where "split_on P cs = v # vs"
    using split_on_nonempty [of P cs] by (cases "split_on P cs") auto
  with Cons.prems Cons.IH [of v] Cons.IH [of w] show ?case by (auto split: if_splits)
qed simp

lemma words_by_elements: "w \<in> set (words_by P cs) \<Longrightarrow> c \<in> set w \<Longrightarrow> c \<in> set cs \<and> \<not> P c"
  using split_on_elements by (fastforce simp: words_by_def)

lemma join_with_elements:
  "c \<in> set (join_with sep ws) \<Longrightarrow> c \<in> set sep \<or> (\<exists>w \<in> set ws. c \<in> set w)"
  by (induction sep ws rule: join_with.induct) auto

lemma words_by_Cons_free:
  "\<not> P c \<Longrightarrow> \<exists>w ws. words_by P (c # cs) = (c # w) # ws \<and>
     (\<forall>x \<in> set w \<union> \<Union> (set ` set ws). x \<in> set cs)"
proof -
  assume c: "\<not> P c"
  obtain w ws where s: "split_on P cs = w # ws"
    using split_on_nonempty [of P cs] by (cases "split_on P cs") auto
  have "\<forall>x \<in> set w \<union> \<Union> (set ` set (filter (\<lambda>v. v \<noteq> []) ws)). x \<in> set cs"
    using split_on_elements [of _ P cs] by (fastforce simp: s)
  with c s show ?thesis by (auto simp: words_by_def)
qed

lemma normalized_chars:
  "utf8_chars (normalized_spaces v) = join_with [space] (words_by is_whitespace (utf8_chars v))"
proof -
  let ?cs = "utf8_chars v"
  let ?js = "join_with [space] (words_by is_whitespace ?cs)"
  have n: "normalized_spaces v = concat ?js"
  proof -
    have "join_with space (map concat ws) = concat (join_with [space] ws)" for ws
      by (induction "[space]" ws rule: join_with.induct) simp_all
    then show ?thesis by (simp add: normalized_spaces_def split_whitespace_def)
  qed
  have "scalar_like c" if "c \<in> set ?js" for c
    using join_with_elements [OF that] words_by_elements [of _ is_whitespace ?cs]
      utf8_chars_scalar [of c v] by auto
  moreover have "starts_scalar c" if c: "c \<in> set (tl ?js)" for c
  proof (cases ?cs)
    case Nil
    with c show ?thesis by simp
  next
    case (Cons d ds)
    have ds: "\<And>x. x \<in> set ds \<Longrightarrow> starts_scalar x" using utf8_chars_tl_starts [of _ v] Cons by simp
    show ?thesis
    proof (cases "is_whitespace d")
      case True
      then have "starts_scalar d" by (rule whitespace_starts)
      moreover have "c \<in> set ?js" using c by (cases ?js) auto
      then have "c = space \<or> c \<in> set ?cs"
        using join_with_elements [of c "[space]" "words_by is_whitespace ?cs"]
          words_by_elements [of _ is_whitespace ?cs] by auto
      ultimately show ?thesis using ds Cons by auto
    next
      case False
      from words_by_Cons_free [of is_whitespace, OF False, of ds] obtain w ws where
        w: "words_by is_whitespace ?cs = (d # w) # ws"
          "\<forall>x \<in> set w \<union> \<Union> (set ` set ws). x \<in> set ds" using Cons by auto
      then have "c = space \<or> c \<in> set ds"
        using c join_with_elements [of c "[space]" ws]
        by (auto simp: join_with_Cons split: if_splits)
      with ds show ?thesis by auto
    qed
  qed
  ultimately show ?thesis unfolding n by (intro utf8_chars_concat) auto
qed

lemma normalized_words:
  assumes "\<And>c. is_whitespace c \<Longrightarrow> P c"
  shows "words_by P (utf8_chars (normalized_spaces v)) = words_by P (utf8_chars v)"
  unfolding normalized_chars by (rule words_by_renormalised) (use assms in auto)

section \<open>The check for absolute paths\<close>

lemma separator_whitespace: "is_whitespace c \<Longrightarrow> path_separator c"
  by (simp add: path_separator_def)

lemma contains_absolute_path_normalized [simp]:
  "contains_absolute_path (normalized_spaces v) = contains_absolute_path v"
  by (simp add: contains_absolute_path_def normalized_words separator_whitespace)

lemma split_once_at: "c \<notin> set a \<Longrightarrow> split_once c (a @ c # b) = Some (a, b)"
  by (induction a) (auto simp: split_once_def split: list.splits)

lemma split_once_none: "split_once c s = None \<longleftrightarrow> c \<notin> set s"
proof -
  have "dropWhile (\<lambda>x. x \<noteq> c) s = [] \<longleftrightarrow> c \<notin> set s" by (auto simp: dropWhile_eq_Nil_conv)
  then show ?thesis
    by (cases "dropWhile (\<lambda>x. x \<noteq> c) s") (simp_all add: split_once_def del: dropWhile_eq_Nil_conv)
qed

lemma split_once_append_free:
  assumes "c \<notin> set t"
  shows "split_once c (s @ t) = map_option (\<lambda>(a, b). (a, b @ t)) (split_once c s)"
proof (cases "c \<in> set s")
  case True
  then obtain a b where "s = a @ c # b" "c \<notin> set a" by (metis split_list_first)
  then show ?thesis by (simp add: split_once_at)
next
  case False
  then show ?thesis using assms split_once_none [of c s] split_once_none [of c "s @ t"] by simp
qed

lemma split_once_append:
  "split_once c s = Some (a, b) \<Longrightarrow> split_once c (s @ t) = Some (a, b @ t)"
proof -
  assume s: "split_once c s = Some (a, b)"
  then have "c \<in> set s" using split_once_none [of c s] by auto
  then obtain a' b' where "s = a' @ c # b'" "c \<notin> set a'" by (metis split_list_first)
  with s show ?thesis by (simp add: split_once_at)
qed

lemma rooted_candidate_mono: "rooted_candidate w \<Longrightarrow> rooted_candidate (w @ z)"
  unfolding rooted_candidate_def is_absolute_path_def
  by (elim disjE)
    (auto simp: starts_with_prefix split_once_append intro: prefix_prefix split: option.splits)

lemma rooted_candidate_ellipsis: "rooted_candidate (w @ ellipsis) \<Longrightarrow> rooted_candidate w"
proof -
  have s: "split_once CHR '':'' (w @ ellipsis) = map_option (\<lambda>(a, b). (a, b @ ellipsis))
      (split_once CHR '':'' w)"
    by (rule split_once_append_free) (simp add: ellipsis_def)
  have a: "is_absolute_path (v @ ellipsis) \<longleftrightarrow> is_absolute_path v" for v
    by (cases v) (simp_all add: is_absolute_path_def starts_with_def ellipsis_def)
  assume "rooted_candidate (w @ ellipsis)"
  then consider "is_absolute_path w"
    | "3 \<le> length (w @ ellipsis)"
      "take 2 (drop 1 (w @ ellipsis)) \<in> {[CHR '':'', CHR 0x5C], [CHR '':'', CHR ''/'']}"
    | "starts_with (w @ ellipsis) [CHR 0x5C, CHR 0x5C]"
    | p q where "split_once CHR '':'' w = Some (p, q)"
      "to_ascii_lowercase p \<notin> set [''http'', ''https'']" "is_absolute_path q"
    unfolding rooted_candidate_def s a by (auto simp: a split: option.splits)
  then show ?thesis
  proof cases
    case 1
    then show ?thesis by (simp add: rooted_candidate_def)
  next
    case 2
    then show ?thesis
      by (cases w; cases "tl w"; cases "tl (tl w)")
        (auto simp: rooted_candidate_def ellipsis_def)
  next
    case 3
    then show ?thesis
      by (cases w; cases "tl w") (auto simp: rooted_candidate_def ellipsis_def starts_with_def)
  next
    case 4
    then show ?thesis by (simp add: rooted_candidate_def)
  qed
qed

section \<open>Cutting a text\<close>

lemma ellipsis_scalar [simp]:
  "scalar_like ellipsis" "starts_scalar ellipsis" "\<not> path_separator ellipsis" "ellipsis \<noteq> []"
  by (simp_all add: scalar_like_def starts_scalar_def ellipsis_def is_continuation_def byte_of_def
      path_separator_def is_whitespace_def)

lemma bounded_chars:
  "utf8_chars (bounded_plain_text v n) =
     (let cs = utf8_chars (normalized_spaces v) in if n < length cs then take n cs @ [ellipsis] else cs)"
proof -
  let ?cs = "utf8_chars (normalized_spaces v)"
  have e: "concat (take n ?cs) @ ellipsis = concat (take n ?cs @ [ellipsis])" by simp
  have "utf8_chars (concat (take n ?cs @ [ellipsis])) = take n ?cs @ [ellipsis]"
  proof (rule utf8_chars_concat)
    show "\<forall>c \<in> set (take n ?cs @ [ellipsis]). scalar_like c"
      by (auto dest: in_set_takeD utf8_chars_scalar)
    have "starts_scalar c" if "c \<in> set (tl (take n ?cs))" for c
      using that by (auto simp: tl_take dest!: in_set_takeD utf8_chars_tl_starts)
    moreover have "set (tl (take n ?cs @ [ellipsis])) \<subseteq> insert ellipsis (set (tl (take n ?cs)))"
      by (cases "take n ?cs") auto
    ultimately show "\<forall>c \<in> set (tl (take n ?cs @ [ellipsis])). starts_scalar c" by auto
  qed
  then show ?thesis by (simp add: bounded_plain_text_def Let_def e del: concat_append)
qed

lemma bounded_plain_text_safe:
  assumes "\<not> contains_absolute_path v"
  shows "\<not> contains_absolute_path (bounded_plain_text v n)"
proof
  let ?cs = "utf8_chars (normalized_spaces v)"
  assume c: "contains_absolute_path (bounded_plain_text v n)"
  have safe: "\<not> rooted_candidate (concat w)" if "w \<in> set (words_by path_separator ?cs)" for w
    using assms that by (simp add: contains_absolute_path_def list_ex_iff normalized_words
        separator_whitespace)
  have safe_take: "\<not> rooted_candidate (concat w)"
    if w: "w \<in> set (words_by path_separator (take n ?cs))" for w
  proof -
    from words_by_take [OF w] obtain u z where "w @ z \<in> set (words_by path_separator ?cs)"
      by (auto simp: prefix_def)
    from safe [OF this] show ?thesis using rooted_candidate_mono [of "concat w"] by auto
  qed
  show False
  proof (cases "n < length ?cs")
    case False
    with c safe show ?thesis
      by (simp add: contains_absolute_path_def bounded_chars list_ex_iff)
  next
    case True
    with c obtain w where w: "w \<in> set (words_by path_separator (take n ?cs @ [ellipsis]))"
      "rooted_candidate (concat w)"
      by (auto simp: contains_absolute_path_def bounded_chars list_ex_iff)
    from words_by_snoc [OF ellipsis_scalar(3) w(1)] consider
      "w \<in> set (words_by path_separator (take n ?cs))" | "w = [ellipsis]"
      | u where "u \<in> set (words_by path_separator (take n ?cs))" "w = u @ [ellipsis]" by blast
    then show False
    proof cases
      case 1
      with safe_take w(2) show False by blast
    next
      case 2
      then have "rooted_candidate ([] @ ellipsis)" using w(2) by simp
      then have "rooted_candidate []" by (rule rooted_candidate_ellipsis)
      then show False
        by (simp add: rooted_candidate_def is_absolute_path_def starts_with_def split_once_def)
    next
      case 3
      then have "rooted_candidate (concat u)" using w(2) rooted_candidate_ellipsis by simp
      with 3 safe_take show False by blast
    qed
  qed
qed

lemma utf8_chars_Nil_iff [simp]: "utf8_chars s = [] \<longleftrightarrow> s = []"
  by (cases s) simp_all

lemma normalized_idem [simp]: "normalized_spaces (normalized_spaces v) = normalized_spaces v"
proof -
  have "words_by is_whitespace (utf8_chars (normalized_spaces v)) =
      words_by is_whitespace (utf8_chars v)"
    by (rule normalized_words) simp
  then show ?thesis by (simp add: normalized_spaces_def split_whitespace_def)
qed

text \<open>
  A detail that \<open>bounded_safe_detail\<close> lets through is not empty, has at most one character more
  than the bound, and holds no absolute path as \<open>contains_absolute_path\<close> sees it, even where the
  text was cut; it is withheld exactly where the text is blank or holds an absolute path.
\<close>

lemma bounded_detail_safe:
  "case bounded_safe_detail v n of
     None \<Rightarrow> split_whitespace v = [] \<or> contains_absolute_path v
   | Some t \<Rightarrow> split_whitespace v \<noteq> [] \<and> \<not> contains_absolute_path v \<and>
       t \<noteq> [] \<and> length (utf8_chars t) \<le> n + 1 \<and> \<not> contains_absolute_path t"
proof -
  have e: "normalized_spaces v = [] \<longleftrightarrow> split_whitespace v = []"
  proof -
    have "\<forall>w \<in> set (split_whitespace v). w \<noteq> []"
    proof
      fix w assume "w \<in> set (split_whitespace v)"
      then obtain u where u: "u \<in> set (words_by is_whitespace (utf8_chars v))" "w = concat u"
        by (auto simp: split_whitespace_def)
      then have "u \<noteq> []" by (simp add: words_by_def)
      then obtain c cs where "u = c # cs" by (cases u) auto
      moreover have "c \<noteq> []"
        using words_by_elements [OF u(1), of c] \<open>u = c # cs\<close> utf8_chars_scalar [of c v]
        by (auto simp: scalar_like_def)
      ultimately show "w \<noteq> []" using u by simp
    qed
    then show ?thesis
      by (cases "split_whitespace v") (auto simp: normalized_spaces_def join_with_Cons)
  qed
  have "t \<noteq> [] \<and> length (utf8_chars t) \<le> n + 1 \<and> \<not> contains_absolute_path t"
    if "bounded_safe_detail v n = Some t" for t
  proof -
    from that have t: "t = bounded_plain_text (normalized_spaces v) n"
      and v: "normalized_spaces v \<noteq> []" "\<not> contains_absolute_path (normalized_spaces v)"
      by (auto simp: bounded_safe_detail_def split: if_splits)
    have "utf8_chars t \<noteq> []" and l: "length (utf8_chars t) \<le> n + 1"
      using v(1) unfolding t by (simp_all only: bounded_chars Let_def) simp_all
    moreover have "\<not> contains_absolute_path t"
      unfolding t by (rule bounded_plain_text_safe [OF v(2)])
    ultimately show ?thesis by simp
  qed
  moreover have "bounded_safe_detail v n = None \<longleftrightarrow> split_whitespace v = [] \<or> contains_absolute_path v"
    by (simp add: bounded_safe_detail_def e)
  ultimately show ?thesis by (cases "bounded_safe_detail v n") auto
qed

section \<open>Where the parts of a text start\<close>

text \<open>
  The first characters of the parts of a text between separators; the flag says that a part may
  start here.
\<close>

fun part_starts :: "('c \<Rightarrow> bool) \<Rightarrow> bool \<Rightarrow> 'c list \<Rightarrow> 'c list" where
  "part_starts P b [] = []"
| "part_starts P b (c # cs) =
     (if P c then part_starts P True cs
      else (if b then [c] else []) @ part_starts P False cs)"

lemma part_starts_split:
  "split_on P cs = w # ws \<Longrightarrow>
     part_starts P True cs = map hd (filter (\<lambda>v. v \<noteq> []) (w # ws)) \<and>
     part_starts P False cs = map hd (filter (\<lambda>v. v \<noteq> []) ws)"
proof (induction cs arbitrary: w ws)
  case (Cons c cs)
  obtain v vs where "split_on P cs = v # vs"
    using split_on_nonempty [of P cs] by (cases "split_on P cs") auto
  then show ?case
    using Cons.IH [of v vs] Cons.prems by (cases "P c"; cases "v = []") auto
qed simp

lemma words_by_nonempty: "[] \<notin> set (words_by P cs)"
  by (simp add: words_by_def)

lemma part_starts_words: "part_starts P True cs = map hd (words_by P cs)"
  using part_starts_split [of P cs] split_on_nonempty [of P cs]
  by (cases "split_on P cs") (auto simp: words_by_def)

lemma part_starts_append:
  "part_starts P b (xs @ ys) =
     part_starts P b xs @ part_starts P (if xs = [] then b else P (last xs)) ys"
  by (induction xs arbitrary: b) auto

lemma part_starts_elements: "c \<in> set (part_starts P b cs) \<Longrightarrow> c \<in> set cs"
  by (induction cs arbitrary: b) (auto split: if_splits)

text \<open>A text shows an absolute path where one of its parts starts at the root.\<close>

definition shows_rooted :: "string \<Rightarrow> bool" where
  "shows_rooted t \<longleftrightarrow>
     list_ex is_absolute_path (map concat (words_by path_separator (utf8_chars t)))"

definition slash_start :: "scalar \<Rightarrow> bool" where
  "slash_start c \<longleftrightarrow> hd c = CHR ''/''"

lemma shows_rooted_starts:
  "shows_rooted t \<longleftrightarrow> list_ex slash_start (part_starts path_separator True (utf8_chars t))"
proof -
  have "is_absolute_path (concat w) \<longleftrightarrow> slash_start (hd w)"
    if "w \<in> set (words_by path_separator (utf8_chars t))" for w
  proof -
    have "w \<noteq> []" using that words_by_nonempty by metis
    then obtain c cs where w: "w = c # cs" by (cases w) auto
    then have "c \<in> set (utf8_chars t)" using words_by_elements [OF that] by auto
    then have "scalar_like c" by (rule utf8_chars_scalar)
    with w show ?thesis
      by (cases c)
        (auto simp: is_absolute_path_def starts_with_def slash_start_def scalar_like_def)
  qed
  then show ?thesis by (auto simp: shows_rooted_def part_starts_words list_ex_iff)
qed

lemma not_shows_rooted: "\<not> contains_absolute_path t \<Longrightarrow> \<not> shows_rooted t"
  by (auto simp: contains_absolute_path_def shows_rooted_def list_ex_iff rooted_candidate_def)

lemma slash_free: "CHR ''/'' \<notin> set t \<Longrightarrow> \<not> list_ex slash_start (part_starts P b (utf8_chars t))"
proof
  assume t: "CHR ''/'' \<notin> set t" and "list_ex slash_start (part_starts P b (utf8_chars t))"
  then obtain c where c: "c \<in> set (utf8_chars t)" "hd c = CHR ''/''"
    using part_starts_elements [of _ P b "utf8_chars t"] by (auto simp: list_ex_iff slash_start_def)
  have "c \<noteq> []" using utf8_chars_scalar [OF c(1)] by (auto simp: scalar_like_def)
  with c(2) have "CHR ''/'' \<in> set c" using hd_in_set [of c] by simp
  then have "CHR ''/'' \<in> set (concat (utf8_chars t))" unfolding set_concat using c(1) by blast
  with t show False by simp
qed

lemma no_slash_shows: "CHR ''/'' \<notin> set t \<Longrightarrow> \<not> shows_rooted t"
  using slash_free shows_rooted_starts by blast

section \<open>Texts put together\<close>

text \<open>After a space a text keeps its characters, but for continuation bytes at its very start.\<close>

lemma separator_continuation:
  "is_continuation b \<Longrightarrow> \<not> path_separator (b # bs)"
  "is_continuation b \<Longrightarrow> \<not> path_separator (CHR '' '' # b # bs)"
  by (auto simp: path_separator_def is_whitespace_def is_continuation_def byte_of_def split: list.splits)

lemma part_starts_space:
  "list_ex slash_start (part_starts path_separator b (utf8_chars (CHR '' '' # t))) \<Longrightarrow> shows_rooted t"
proof -
  assume a: "list_ex slash_start (part_starts path_separator b (utf8_chars (CHR '' '' # t)))"
  have sp: "path_separator '' ''"
    by (simp add: path_separator_def is_whitespace_def byte_of_def)
  show ?thesis
  proof (cases "t \<noteq> [] \<and> is_continuation (hd t)")
    case False
    then have "utf8_chars ('' '' @ t) = utf8_chars '' '' @ utf8_chars t"
      by (intro utf8_chars_append) auto
    then show ?thesis using a sp by (simp add: shows_rooted_starts)
  next
    case True
    then obtain c cs where t: "t = c # cs" "is_continuation c" by (cases t) auto
    have "utf8_chars (CHR '' '' # t) =
        (CHR '' '' # c # takeWhile is_continuation cs) # utf8_chars (dropWhile is_continuation cs)"
      by (simp add: t)
    with a have "list_ex slash_start
        (part_starts path_separator False (utf8_chars (dropWhile is_continuation cs)))"
      by (auto simp: t(2) separator_continuation slash_start_def split: if_splits)
    then show ?thesis
      by (simp add: shows_rooted_starts t separator_continuation)
  qed
qed

lemma shows_rooted_append_space:
  assumes "\<not> shows_rooted a" and "\<not> shows_rooted b"
  shows "\<not> shows_rooted (a @ '' '' @ b)"
proof -
  have "utf8_chars (a @ CHR '' '' # b) = utf8_chars a @ utf8_chars (CHR '' '' # b)"
    by (rule utf8_chars_append) (simp add: is_continuation_def byte_of_def)
  with assms show ?thesis
    using part_starts_space [of _ b]
    by (auto simp: shows_rooted_starts part_starts_append simp del: utf8_chars.simps)
qed

lemma shows_rooted_append_free:
  assumes "CHR ''/'' \<notin> set a" and "\<not> shows_rooted b"
  shows "\<not> shows_rooted (a @ '' '' @ b)"
  using shows_rooted_append_space [OF no_slash_shows [OF assms(1)] assms(2)] .

section \<open>Labels without a slash\<close>

lemma set_normalized_spaces: "set (normalized_spaces v) \<subseteq> insert (CHR '' '') (set v)"
proof
  fix x assume "x \<in> set (normalized_spaces v)"
  then have "x \<in> set space \<or> (\<exists>w \<in> set (split_whitespace v). x \<in> set w)"
    unfolding normalized_spaces_def by (rule join_with_elements)
  then show "x \<in> insert (CHR '' '') (set v)"
  proof
    assume "\<exists>w \<in> set (split_whitespace v). x \<in> set w"
    then obtain u c where "u \<in> set (words_by is_whitespace (utf8_chars v))" "c \<in> set u" "x \<in> set c"
      by (auto simp: split_whitespace_def)
    then have "x \<in> set (concat (utf8_chars v))"
      unfolding set_concat using words_by_elements [of u is_whitespace "utf8_chars v" c] by blast
    then show ?thesis by simp
  qed (simp add: space_def)
qed

lemma bounded_plain_text_slash:
  "CHR ''/'' \<notin> set v \<Longrightarrow> CHR ''/'' \<notin> set (bounded_plain_text v n)"
proof
  assume v: "CHR ''/'' \<notin> set v" and "CHR ''/'' \<in> set (bounded_plain_text v n)"
  then have "CHR ''/'' \<in> set (concat (take n (utf8_chars (normalized_spaces v)))) \<union> set ellipsis
      \<or> CHR ''/'' \<in> set (concat (utf8_chars (normalized_spaces v)))"
    by (auto simp: bounded_plain_text_def Let_def simp del: set_concat split: if_splits)
  moreover have "set (concat (take n (utf8_chars (normalized_spaces v)))) \<subseteq>
      set (concat (utf8_chars (normalized_spaces v)))"
    unfolding set_concat by (rule UN_mono) (auto dest: in_set_takeD)
  ultimately have "CHR ''/'' \<in> set (normalized_spaces v)"
    by (auto simp: ellipsis_def simp del: set_concat)
  with v set_normalized_spaces [of v] show False by auto
qed

lemma safe_path_label_slash: "CHR ''/'' \<notin> set (safe_path_label path)"
proof (cases "option_filter (\<lambda>name. \<not> blank name) (file_name path)")
  case (Some name)
  then obtain ps where "rev (path_parts path) = name # ps"
    by (auto simp: file_name_def split: list.splits if_splits)
  then have "name \<in> set (path_parts path)" by (metis list.set_intros(1) set_rev)
  then have "name \<in> set (split_on (\<lambda>c. c = CHR ''/'') path)" by (simp add: path_parts_def)
  then have "CHR ''/'' \<notin> set name" using split_on_elements by fastforce
  with Some show ?thesis by (simp add: safe_path_label_def bounded_plain_text_slash)
qed (simp add: safe_path_label_def)

lemma join_with_slash:
  "CHR ''/'' \<notin> set sep \<Longrightarrow> \<forall>w \<in> set ws. CHR ''/'' \<notin> set w \<Longrightarrow> CHR ''/'' \<notin> set (join_with sep ws)"
  using join_with_elements [of "CHR ''/''" sep ws] by auto

lemma case_change_slash:
  "to_ascii_lowercase_char c = CHR ''/'' \<longleftrightarrow> c = CHR ''/''"
  "to_ascii_uppercase_char c = CHR ''/'' \<longleftrightarrow> c = CHR ''/''"
proof -
  have c: "char_of n = CHR ''/'' \<longleftrightarrow> n mod 256 = 47" for n :: nat
    by (simp add: char_of_eq_iff take_bit_eq_mod)
  show "to_ascii_lowercase_char c = CHR ''/'' \<longleftrightarrow> c = CHR ''/''"
    by (auto simp: to_ascii_lowercase_char_def c byte_of_def)
  show "to_ascii_uppercase_char c = CHR ''/'' \<longleftrightarrow> c = CHR ''/''"
    by (auto simp: to_ascii_uppercase_char_def c byte_of_def)
qed

lemma agent_word_slash: "CHR ''/'' \<notin> set w \<Longrightarrow> CHR ''/'' \<notin> set (agent_word w)"
proof -
  assume w: "CHR ''/'' \<notin> set w"
  have l: "CHR ''/'' \<notin> set (to_ascii_lowercase w)"
    using w by (auto simp: to_ascii_lowercase_def) (metis case_change_slash(1))
  then have "CHR ''/'' \<notin> set (case to_ascii_lowercase w of
      [] \<Rightarrow> [] | c # cs \<Rightarrow> to_ascii_uppercase_char c # cs)"
    by (cases "to_ascii_lowercase w") (auto dest: sym simp: case_change_slash)
  then show ?thesis by (simp add: agent_word_def Let_def)
qed

definition no_slash_words :: "string list \<times> string \<Rightarrow> bool" where
  "no_slash_words st \<longleftrightarrow> CHR ''/'' \<notin> set (concat (fst st)) \<and> CHR ''/'' \<notin> set (snd st)"

lemma push_agent_word_slash: "no_slash_words st \<Longrightarrow> no_slash_words (push_agent_word st)"
  by (cases st) (simp add: push_agent_word_def no_slash_words_def agent_word_slash)

lemma agent_words_loop_slash:
  "no_slash_words st \<Longrightarrow> CHR ''/'' \<notin> set (concat cs) \<Longrightarrow> no_slash_words (agent_words_loop cs st p)"
proof (induction cs st p rule: agent_words_loop.induct)
  case (2 c cs st p)
  let ?st = "if p \<noteq> None \<and> p \<noteq> Some (scalar_digit c) then push_agent_word st else st"
  obtain ws cur where e: "?st = (ws, cur)" by fastforce
  have st: "no_slash_words ?st" "no_slash_words (push_agent_word st)"
    using 2(3) push_agent_word_slash by auto
  have n: "no_slash_words (ws, cur @ c)" and cs: "CHR ''/'' \<notin> set (concat cs)"
    using 2(4) st(1) unfolding e by (simp_all add: no_slash_words_def)
  show ?case
  proof (cases "scalar_alphanumeric c")
    case True
    then have "agent_words_loop (c # cs) st p = agent_words_loop cs (ws, cur @ c) (Some (scalar_digit c))"
      by (simp only: agent_words_loop.simps Let_def e prod.case not_True_eq_False if_False simp_thms)
    moreover have "no_slash_words (agent_words_loop cs (ws, cur @ c) (Some (scalar_digit c)))"
      by (rule 2(2) [OF _ e [symmetric] refl n cs]) (simp add: True)
    ultimately show ?thesis by simp
  next
    case False
    with 2(1) st cs show ?thesis by simp
  qed
qed simp

lemma agent_task_label_slash:
  assumes "agent_task_label path = Some l"
  shows "CHR ''/'' \<notin> set l"
proof -
  obtain leaf where leaf: "find (\<lambda>part. \<not> blank part) (rev (split_on (\<lambda>c. c = CHR ''/'') path)) = Some leaf"
    using assms by (auto simp: agent_task_label_def split: option.splits)
  then have "leaf \<in> set (split_on (\<lambda>c. c = CHR ''/'') path)"
    by (auto simp: find_Some_iff) (metis length_rev nth_mem set_rev)
  then have f: "CHR ''/'' \<notin> set leaf" using split_on_elements by fastforce
  let ?ws = "fst (push_agent_word (agent_words_loop (utf8_chars leaf) ([], []) None))"
  have "no_slash_words (push_agent_word (agent_words_loop (utf8_chars leaf) ([], []) None))"
    by (intro push_agent_word_slash agent_words_loop_slash)
      (simp add: no_slash_words_def, use f in \<open>simp del: set_concat\<close>)
  then have "\<forall>w \<in> set ?ws. CHR ''/'' \<notin> set w" by (simp add: no_slash_words_def)
  then have "CHR ''/'' \<notin> set (join_with space ?ws)"
    by (rule join_with_slash [rotated]) (simp add: space_def)
  with assms leaf show ?thesis by (auto simp: agent_task_label_def Let_def split: if_splits)
qed

lemma decimal_slash: "CHR ''/'' \<notin> set (decimal n)"
  using decimal_digits [of "CHR ''/''" n] by auto

lemma duration_label_slash: "CHR ''/'' \<notin> set (duration_label ms)"
  by (simp add: duration_label_def u64_to_string_def decimal_slash)

lemma changed_labels_slash:
  "\<forall>l \<in> set ls. CHR ''/'' \<notin> set l \<Longrightarrow> \<forall>l \<in> set (changed_labels cs ls). CHR ''/'' \<notin> set l"
  by (induction cs ls rule: changed_labels.induct)
    (auto simp: safe_path_label_slash split: option.splits)

lemma changed_file_detail_slash:
  "changed_file_detail item = Some d \<Longrightarrow> CHR ''/'' \<notin> set d"
proof -
  assume a: "changed_file_detail item = Some d"
  then obtain cs where "d = join_with '', '' (changed_labels cs []) \<or> d = decimal (length (changed_labels cs [])) @ '' files''"
    by (auto simp: changed_file_detail_def Let_def bind_eq_Some_conv split: if_splits)
  then show ?thesis
    using join_with_slash [of "'', ''" "changed_labels cs []"] changed_labels_slash [of "[]" cs]
      decimal_slash by auto
qed

section \<open>Every detail of an activity\<close>

definition safe_detail :: "string option \<Rightarrow> bool" where
  "safe_detail d \<longleftrightarrow> (case d of None \<Rightarrow> True | Some t \<Rightarrow> \<not> shows_rooted t)"

named_theorems safe_labels \<open>the details that show no absolute path\<close>

lemma safe_detail_simps [safe_labels]:
  "safe_detail None" "safe_detail (Some t) \<longleftrightarrow> \<not> shows_rooted t"
  by (simp_all add: safe_detail_def)

lemma safe_detail_bind: "(\<And>x. safe_detail (f x)) \<Longrightarrow> safe_detail (Option.bind a f)"
  by (cases a) (simp_all add: safe_labels)

lemma safe_detail_map: "(\<And>x. \<not> shows_rooted (f x)) \<Longrightarrow> safe_detail (map_option f a)"
  by (cases a) (simp_all add: safe_labels)

lemma safe_detail_or_else: "safe_detail a \<Longrightarrow> safe_detail b \<Longrightarrow> safe_detail (or_else a b)"
  by (cases a) simp_all

lemma safe_bounded [safe_labels]: "safe_detail (bounded_safe_detail v n)"
  unfolding safe_detail_def bounded_safe_detail_def
  by (simp add: not_shows_rooted bounded_plain_text_safe)

lemma safe_humanize [safe_labels]: "safe_detail (humanize_identifier v)"
  by (simp add: humanize_identifier_def safe_labels)

lemma safe_path [safe_labels]: "\<not> shows_rooted (safe_path_label p)"
  by (simp add: no_slash_shows safe_path_label_slash)

lemma safe_duration [safe_labels]: "\<not> shows_rooted (duration_label ms)"
  by (simp add: no_slash_shows duration_label_slash)

lemma safe_agent [safe_labels]: "safe_detail (agent_task_label path)"
  using agent_task_label_slash [of path] no_slash_shows by (auto simp: safe_detail_def split: option.splits)

lemma safe_changed [safe_labels]: "safe_detail (changed_file_detail item)"
  using changed_file_detail_slash [of item] no_slash_shows
  by (auto simp: safe_detail_def split: option.splits)

lemma safe_dot_joined:
  "\<not> shows_rooted a \<Longrightarrow> \<not> shows_rooted b \<Longrightarrow> \<not> shows_rooted (dot_joined a b)"
proof -
  assume a: "\<not> shows_rooted a" and b: "\<not> shows_rooted b"
  have "\<not> shows_rooted (middle_dot @ '' '' @ b)"
    by (rule shows_rooted_append_free [OF _ b]) (simp add: middle_dot_def)
  from shows_rooted_append_space [OF a this] show ?thesis by (simp add: dot_joined_def space_def)
qed

lemma safe_detailD: "d = Some t \<Longrightarrow> safe_detail d \<Longrightarrow> \<not> shows_rooted t"
  by (simp add: safe_detail_def)

lemma safe_tool_name [safe_labels]: "safe_detail (tool_name_detail item k)"
proof -
  have t: "\<not> shows_rooted t" if "Option.bind x humanize_identifier = Some t" for x t
    using that by (rule safe_detailD) (simp add: safe_detail_bind safe_labels)
  have n: "\<not> shows_rooted t" if "Option.bind x (\<lambda>n. bounded_safe_detail n 80) = Some t" for x t
    using that by (rule safe_detailD) (simp add: safe_detail_bind safe_labels)
  show ?thesis
    by (auto simp: tool_name_detail_def Let_def safe_detail_def split: option.splits
        dest: t n intro: safe_dot_joined [THEN notE])
qed

lemma safe_search [safe_labels]: "safe_detail (search_action_detail action)"
proof -
  have t: "\<not> shows_rooted t" if "Option.bind x (\<lambda>q. bounded_safe_detail q 140) = Some t" for x t
    using that by (rule safe_detailD) (simp add: safe_detail_bind safe_labels)
  have "\<not> shows_rooted (q @ '' in '' @ b)" if "\<not> shows_rooted q" "\<not> shows_rooted b" for q b
  proof -
    have "\<not> shows_rooted (''in'' @ '' '' @ b)" by (rule shows_rooted_append_free [OF _ that(2)]) simp
    from shows_rooted_append_space [OF that(1) this] show ?thesis by simp
  qed
  then show ?thesis
    by (auto simp: search_action_detail_def Let_def safe_detail_def safe_path split: option.splits
        dest: t)
qed

definition safe_activity :: "tool_activity \<Rightarrow> bool" where
  "safe_activity a \<longleftrightarrow> CHR ''/'' \<notin> set (act_title a) \<and> safe_detail (act_detail a)"

lemma safe_plain:
  "CHR ''/'' \<notin> set (r @ c @ f @ s) \<Longrightarrow> safe_detail d \<Longrightarrow> safe_activity (plain_activity k st r c f s d)"
  by (cases st) (simp_all add: plain_activity_def safe_activity_def)

lemma safe_reviewed: "CHR ''/'' \<notin> set t \<Longrightarrow> safe_activity (reviewed st t item)"
  by (simp add: reviewed_def safe_activity_def safe_detail_bind safe_labels)

lemma safe_fallback: "safe_activity (command_fallback_activity item action st)"
  unfolding command_fallback_activity_def Let_def
  by (simp add: safe_plain safe_labels)

lemma safe_command: "safe_activity (command_activity item st)"
  unfolding command_activity_def Let_def
  by (simp add: safe_plain safe_detail_bind safe_detail_map safe_detail_or_else safe_fallback
      safe_labels)

lemma safe_subagent: "safe_activity (subagent_activity item st)"
  unfolding subagent_activity_def Let_def
  by (simp add: safe_plain safe_detail_bind safe_labels split: prod.splits)

lemma safe_tool_activity: "safe_activity (tool_activity_from_item item turn lc)"
  unfolding tool_activity_from_item_def Let_def
  by (simp add: safe_plain safe_reviewed safe_command safe_subagent safe_detail_bind
      safe_detail_map safe_labels)

lemma safe_activity_text: "safe_activity a \<Longrightarrow> \<not> shows_rooted (tool_activity_text a)"
proof -
  assume a: "safe_activity a"
  show ?thesis
  proof (cases "act_detail a")
    case None
    with a show ?thesis by (simp add: tool_activity_text_def safe_activity_def no_slash_shows)
  next
    case (Some d)
    then have "\<not> shows_rooted d" using a by (simp add: safe_activity_def safe_detail_def)
    moreover have "CHR ''/'' \<notin> set (act_title a @ '':'')" using a by (simp add: safe_activity_def)
    ultimately have "\<not> shows_rooted ((act_title a @ '':'') @ '' '' @ d)"
      by (rule shows_rooted_append_free [rotated])
    with a Some show ?thesis
      by (simp add: tool_activity_text_def safe_activity_def no_slash_shows)
  qed
qed

text \<open>
  C12. Neither the detail nor the text of a tool activity shows an absolute path: whatever an item
  holds (a command, the paths of changed files, a query, the prompt of a subtask), no part of the
  label between white space, quotes, brackets, commas, semicolons and equal signs starts at the root.
\<close>

theorem no_absolute_path_shown:
  "(case act_detail (tool_activity_from_item item turn lc) of
      None \<Rightarrow> True | Some d \<Rightarrow> \<not> shows_rooted d) \<and>
   \<not> shows_rooted (tool_activity_text (tool_activity_from_item item turn lc))"
  using safe_tool_activity [of item turn lc] safe_activity_text
  by (simp add: safe_activity_def safe_detail_def)

section \<open>What the checks let through\<close>

text \<open>A path glued to an option is not at the start of a part.\<close>

lemma glued_path_passes:
  "bounded_safe_detail ''cc -I/Users/x'' 120 = Some ''cc -I/Users/x''"
  by code_simp

text \<open>The label of a path on another platform is the path.\<close>

lemma foreign_path_label:
  "safe_path_label [CHR ''C'', CHR '':'', CHR 0x5C, CHR ''x''] = [CHR ''C'', CHR '':'', CHR 0x5C, CHR ''x'']"
  by code_simp

text \<open>Removing an attached image's path from a text can put the path together again.\<close>

lemma scrubbing_restores_path:
  "scrub_attachment_paths_from_text ''/a//a/b''
     (image_attachments_from_value
       (JObject [(''path'', JString ''/a/b''), (''type'', JString ''localImage'')])) = ''/a/b''"
  by code_simp

end
