(* ===== verification/Event_Identity.thy ===== *)
theory Event_Identity
  imports Normalizer
begin

text \<open>
  The identifiers of the events that the normaliser of \<open>crates/bridge-core/src/normalizer.rs\<close> makes
  from the history of a thread and from live notifications. A device merges events by identifier.
\<close>

section \<open>The events of a history\<close>

lemma event_from_item_id:
  "event_from_item thread ti ii item turn lc = Some e \<Longrightarrow>
     ev_id e = history_event_id thread ti ii item turn \<and> ev_thread_id e = thread"
  by (auto simp: event_from_item_def Let_def split: option.splits if_splits)

lemma indexed_set: "(i, x) \<in> set (indexed xs) \<longleftrightarrow> i < length xs \<and> xs ! i = x"
  by (auto simp: indexed_def in_set_zip intro: exI [of _ i])

lemma inj_on_the: "None \<notin> A \<Longrightarrow> inj_on the A"
  by (rule inj_onI) (metis option.expand)

lemma map_snd_indexed [simp]: "map snd (indexed xs) = xs"
  by (simp add: indexed_def)

lemma map_indexed: "map (\<lambda>p. g (snd p)) (indexed xs) = map g xs"
proof -
  have "map g (map snd (indexed xs)) = map g xs" by simp
  then show ?thesis unfolding map_map by (simp add: comp_def)
qed

text \<open>Identifiers of the parts of a list that a partial function keeps.\<close>

lemma distinct_map_filter:
  assumes "distinct (map key xs)" and "\<And>x y. x \<in> set xs \<Longrightarrow> f x = Some y \<Longrightarrow> ident y = key x"
  shows "distinct (map ident (List.map_filter f xs))"
  using assms
proof (induction xs)
  case (Cons x xs)
  have tail: "distinct (map ident (List.map_filter f xs))" using Cons by auto
  have "ident y \<in> key ` set xs" if "y \<in> set (List.map_filter f xs)" for y
    using that Cons.prems(2) by (force simp: List.map_filter_def)
  then have new: "key x \<notin> ident ` set (List.map_filter f xs)" using Cons.prems(1) by auto
  show ?case
  proof (cases "f x")
    case (Some y)
    then have "ident y = key x" using Cons.prems(2) by simp
    with new tail Some show ?thesis by (simp add: List.map_filter_simps)
  qed (use tail in \<open>simp add: List.map_filter_simps\<close>)
qed (simp add: List.map_filter_def)

lemma distinct_concat_indexed:
  assumes "distinct (map grp xs)"
    and "\<And>x. x \<in> set xs \<Longrightarrow> distinct (map ident (f x))"
    and "\<And>x y. x \<in> set xs \<Longrightarrow> y \<in> set (f x) \<Longrightarrow> owner (ident y) = grp x"
  shows "distinct (map ident (concat (map f xs)))"
  using assms
proof (induction xs)
  case (Cons x xs)
  have "ident ` set (f x) \<inter> ident ` set (concat (map f xs)) = {}"
    using Cons.prems(1,3) by (auto simp: image_iff) metis
  with Cons show ?case by auto
qed simp

definition item_ident :: "json \<Rightarrow> string option" where
  "item_ident item = string_field item [''id'', ''itemId'', ''item_id'']"

text \<open>A history whose turns and items are all named, no turn name with a colon.\<close>

definition named_history :: "codex_turn list \<Rightarrow> bool" where
  "named_history turns \<longleftrightarrow>
     distinct (map tn_id turns) \<and>
     list_all (\<lambda>t. tn_id t \<noteq> None \<and> CHR '':'' \<notin> set (unwrap_or [] (tn_id t)) \<and>
       None \<notin> set (map item_ident (turn_items (tn_raw t))) \<and>
       distinct (map item_ident (turn_items (tn_raw t)))) turns"

lemma history_id_named:
  "tn_id turn = Some t \<Longrightarrow> item_ident item = Some i \<Longrightarrow>
     history_event_id thread ti ii item turn = t @ '':'' @ i"
  by (simp add: history_event_id_def item_ident_def)

lemma takeWhile_colon: "CHR '':'' \<notin> set t \<Longrightarrow> takeWhile (\<lambda>c. c \<noteq> CHR '':'') (t @ CHR '':'' # i) = t"
  by (induction t) auto

text \<open>
  In the events of a history whose turns have different names without a colon, and whose items
  have different names within their turn, no identifier occurs twice.
\<close>

lemma history_ids_distinct:
  assumes "named_history turns"
  shows "distinct (map ev_id (events_from_turns thread turns))"
proof -
  have named: "\<exists>t. tn_id turn = Some t \<and> CHR '':'' \<notin> set t \<and>
      None \<notin> set (map item_ident (turn_items (tn_raw turn))) \<and>
      distinct (map item_ident (turn_items (tn_raw turn)))" if "turn \<in> set turns" for turn
    using assms that by (auto simp: named_history_def list_all_iff)
  let ?f = "\<lambda>(ti, turn). events_from_turn thread ti turn"
  show ?thesis unfolding events_from_turns_def
  proof (rule distinct_concat_indexed [where grp = "\<lambda>x. the (tn_id (snd x))"
        and owner = "takeWhile (\<lambda>c. c \<noteq> CHR '':'')"])
    have "inj_on the (set (map tn_id turns))"
      using named by (intro inj_on_the) fastforce
    moreover have "distinct (map tn_id turns)" using assms by (simp add: named_history_def)
    ultimately have "distinct (map the (map tn_id turns))"
      using distinct_map [of the "map tn_id turns"] by blast
    moreover have "map (\<lambda>x. the (tn_id (snd x))) (indexed turns) = map the (map tn_id turns)"
      using map_indexed [of "\<lambda>t. the (tn_id t)" turns]
      by (simp add: comp_def)
    ultimately show "distinct (map (\<lambda>x. the (tn_id (snd x))) (indexed turns))" by simp
  next
    fix x assume "x \<in> set (indexed turns)"
    moreover obtain ti turn where x: "x = (ti, turn)" by fastforce
    ultimately have "turn \<in> set turns" by (auto simp: indexed_set)
    note x = x this
    from named [OF x(2)] obtain t where t: "tn_id turn = Some t" "CHR '':'' \<notin> set t"
      "None \<notin> set (map item_ident (turn_items (tn_raw turn)))"
      "distinct (map item_ident (turn_items (tn_raw turn)))" by blast
    let ?items = "indexed (turn_items (tn_raw turn))"
    let ?key = "\<lambda>p. t @ '':'' @ the (item_ident (snd p))"
    have ev: "ev_id e = ?key p"
      if "p \<in> set ?items" "(case p of (ii, item) \<Rightarrow> event_from_item thread ti ii item turn None) = Some e" for p e
    proof -
      obtain ii item where p: "p = (ii, item)" by fastforce
      with that have "item \<in> set (turn_items (tn_raw turn))" by (auto simp: indexed_set)
      with t(3) obtain i where i: "item_ident item = Some i" by (cases "item_ident item") force+
      from that(2) p have "ev_id e = history_event_id thread ti ii item turn"
        by (auto dest: event_from_item_id)
      with p i t(1) show ?thesis by (simp add: history_id_named)
    qed
    have "inj_on the (set (map item_ident (turn_items (tn_raw turn))))"
      by (rule inj_on_the) (fact t(3))
    then have "distinct (map the (map item_ident (turn_items (tn_raw turn))))"
      using t(4) distinct_map [of the "map item_ident (turn_items (tn_raw turn))"] by blast
    then have "distinct (map (\<lambda>p. the (item_ident (snd p))) ?items)"
      using map_indexed [of "\<lambda>v. the (item_ident v)" "turn_items (tn_raw turn)"]
      by (simp add: comp_def)
    then have "distinct (map ?key ?items)"
      by (simp add: distinct_map inj_on_def)
    then show "distinct (map ev_id (?f x))"
      unfolding x(1) events_from_turn_def prod.case by (rule distinct_map_filter) (rule ev)
    show "takeWhile (\<lambda>c. c \<noteq> CHR '':'') (ev_id e) = the (tn_id (snd x))" if "e \<in> set (?f x)" for e
    proof -
      from that x obtain p where "p \<in> set ?items"
        "(case p of (ii, item) \<Rightarrow> event_from_item thread ti ii item turn None) = Some e"
        by (auto simp: events_from_turn_def List.map_filter_def)
      then have "ev_id e = ?key p" by (rule ev)
      with t x show ?thesis by (simp add: takeWhile_colon)
    qed
  qed
qed

definition said :: "string \<Rightarrow> string \<Rightarrow> json" where
  "said i text = JObject [(''id'', JString i), (''role'', JString ''assistant''),
     (''text'', JString text)]"

definition turn_of :: "string \<Rightarrow> json list \<Rightarrow> codex_turn" where
  "turn_of t items = map_turn (JObject [(''id'', JString t), (''items'', JArray items)])"

text \<open>An item without a name is named by its index, which another item can have as its name.\<close>

lemma history_ids_collide:
  "map ev_id (events_from_turns ''th'' [turn_of ''t''
     [said ''1'' ''x'', JObject [(''role'', JString ''assistant''), (''text'', JString ''y'')]]]) =
   [''t:1'', ''t:1'']"
  by code_simp

section \<open>Live events\<close>

text \<open>Notifications about an item of a turn: deltas of its text, its start and its end.\<close>

definition delta_methods :: "string list" where
  "delta_methods = [''item/agentMessage/delta'', ''item/reasoning/summaryTextDelta'',
     ''item/plan/delta'', ''item/reasoning/summaryPartAdded'']"

definition lifecycle_methods :: "string list" where
  "lifecycle_methods = [''item/started'', ''item/completed'']"

text \<open>
  C13. A live event has the identifier that the same item of the same turn has in the history, so
  it updates the event on the device instead of doubling it: both for the deltas of an item's text
  and for an item that starts or completes.
\<close>

theorem live_ids_match_history:
  assumes "event_from_item thread ti ii item turn None = Some old"
    and "tn_id turn = Some t" and "item_ident item = Some i"
    and "event_from_raw_notification n = Some live"
    and "string_field (re_params n) [''turnId'', ''turn_id''] = Some t"
    and "(re_method n \<in> set delta_methods \<and> item_id_from_value (re_params n) = Some i) \<or>
         (re_method n \<in> set lifecycle_methods \<and>
          (\<exists>item'. json_get ''item'' (re_params n) = Some item' \<and> item_ident item' = Some i))"
  shows "ev_id live = ev_id old \<and> ev_id live = t @ '':'' @ i"
proof -
  have old: "ev_id old = t @ '':'' @ i"
    using event_from_item_id [OF assms(1)] history_id_named [OF assms(2,3)] by simp
  have turn: "turn_id_from_value (re_params n) = Some t" using assms(5) by (simp add: turn_id_from_value_def)
  have "ev_id live = t @ '':'' @ i" using assms(6)
  proof
    assume d: "re_method n \<in> set delta_methods \<and> item_id_from_value (re_params n) = Some i"
    then have "item_event_id th (re_params n) sfx = t @ '':'' @ i" for th sfx
      using turn by (simp add: item_event_id_def)
    with d assms(4) show ?thesis
      by (auto simp: event_from_raw_notification_def delta_methods_def delta_type_def Let_def
          delta_event_def summary_event_def notification_event_def split: option.splits if_splits)
  next
    assume "re_method n \<in> set lifecycle_methods \<and>
          (\<exists>item'. json_get ''item'' (re_params n) = Some item' \<and> item_ident item' = Some i)"
    then obtain item' where l: "re_method n \<in> set lifecycle_methods"
      "json_get ''item'' (re_params n) = Some item'" "item_ident item' = Some i" by blast
    then obtain th where "item_event (re_method n) th (re_params n) item' = Some live"
      using assms(4)
      by (auto simp: event_from_raw_notification_def lifecycle_methods_def delta_type_def Let_def)
    then show ?thesis
      unfolding item_event_def using assms(5) l(3)
      by (auto dest!: event_from_item_id simp: history_id_named)
  qed
  with old show ?thesis by simp
qed

definition asked_item :: json where
  "asked_item = JObject [(''id'', JString ''a''), (''role'', JString ''user'')]"

definition completed_note :: codex_raw_event where
  "completed_note = \<lparr>re_method = ''item/completed'',
     re_params = JObject [(''item'', asked_item), (''threadId'', JString ''th''),
       (''turnId'', JString ''t1'')]\<rparr>"

lemma user_message_event:
  "role_from_item item = ''user'' \<Longrightarrow> \<exists>e. event_from_item thread ti ii item turn lc = Some e"
  by (simp add: event_from_item_def event_type_for_role_def Let_def)

theorem live_ids_match_history_witness:
  "\<exists>live. event_from_raw_notification completed_note = Some live \<and> ev_id live = ''t1:a''"
proof -
  have f: "tn_id (turn_of ''t1'' []) = Some ''t1''" "item_ident asked_item = Some ''a''"
    "string_field (re_params completed_note) [''turnId'', ''turn_id''] = Some ''t1''"
    "json_get ''item'' (re_params completed_note) = Some asked_item"
    "re_method completed_note \<in> set lifecycle_methods" "role_from_item asked_item = ''user''"
    by code_simp+
  obtain old where old: "event_from_item ''th'' 0 0 asked_item (turn_of ''t1'' []) None = Some old"
    using user_message_event [OF f(6)] by blast
  have "re_method completed_note = ''item/completed''" by (simp add: completed_note_def)
  then have "event_from_raw_notification completed_note = item_event ''item/completed''
      (unwrap_or [] (thread_id_from_value (re_params completed_note))) (re_params completed_note)
      asked_item"
    by (simp add: event_from_raw_notification_def delta_type_def Let_def f(4))
  then obtain live where live: "event_from_raw_notification completed_note = Some live"
    using user_message_event [OF f(6)] unfolding item_event_def by metis
  have "ev_id live = ev_id old \<and> ev_id live = ''t1'' @ '':'' @ ''a''"
    by (rule live_ids_match_history [OF old f(1,2) live f(3)]) (use f in blast)
  from this [THEN conjunct2] have "ev_id live = ''t1:a''" by simp
  with live show ?thesis by blast
qed

end
