(* ===== verification/Approval.thy ===== *)
theory Approval
  imports Codex_Rpc
begin

text \<open>
  The approval detector, \<open>crates/bridge-core/src/approval.rs\<close>: which raw events ask for an approval,
  and the request a device is shown for an approval that Codex waits for. \<open>Value::to_string\<close> is
  \<open>json_text\<close>.
\<close>

section \<open>Detection\<close>

text \<open>The text the keywords are looked up in.\<close>

definition haystack_of :: "json \<Rightarrow> string list \<Rightarrow> string list \<Rightarrow> string" where
  "haystack_of raw keys1 keys2 =
     to_ascii_lowercase (join_with '' ''
       (List.map_filter id [string_field raw keys1, string_field raw keys2]))"

definition looks_like_approval :: "json \<Rightarrow> bool" where
  "looks_like_approval raw \<longleftrightarrow>
     string_field raw [''approvalId'', ''approval_id'', ''riskHint'', ''risk_hint''] \<noteq> None \<or>
     list_ex (contains (haystack_of raw
         [''type'', ''kind'', ''status'', ''state'', ''action'']
         [''title'', ''message'', ''summary'', ''description'']))
       [''approval'', ''approve'', ''confirm'', ''permission'']"

definition approval_kind_of :: "json \<Rightarrow> approval_kind" where
  "approval_kind_of raw =
     (let mentions = contains (haystack_of raw
         [''kind'', ''type'', ''action'', ''category'']
         [''title'', ''detail'', ''message'', ''command'', ''path'', ''url''])
      in if mentions ''command'' \<or> mentions ''shell'' \<or> mentions ''exec'' then Command
         else if mentions ''file'' \<or> mentions ''edit'' \<or> mentions ''patch'' \<or> mentions ''write''
         then FileEdit
         else if mentions ''network'' \<or> mentions ''http'' \<or> mentions ''url'' \<or> mentions ''fetch''
         then Network
         else if mentions ''mcp'' \<or> mentions ''tool'' then Mcp
         else UnknownApproval)"

fun title_for_kind :: "approval_kind \<Rightarrow> string option" where
  "title_for_kind Command = Some ''Run command''"
| "title_for_kind FileEdit = Some ''Apply file edit''"
| "title_for_kind Network = Some ''Allow network access''"
| "title_for_kind Mcp = Some ''Allow tool call''"
| "title_for_kind UnknownApproval = None"

definition detect :: "string \<Rightarrow> json \<Rightarrow> u64 \<Rightarrow> json approval_request option" where
  "detect thread_id raw created_at =
     (if \<not> looks_like_approval raw then None
      else (let kind = approval_kind_of raw in Some
        \<lparr>ap_id = unwrap_or (thread_id @ '':approval:'' @ u64_to_string created_at)
           (string_field raw [''approvalId'', ''approval_id'', ''requestId'', ''id'']),
         ap_thread_id = thread_id,
         ap_kind = kind,
         ap_title = unwrap_or ''Approval required''
           (or_else (string_field raw [''title'', ''name'']) (title_for_kind kind)),
         ap_detail = unwrap_or (json_text raw) (string_field raw
           [''detail'', ''command'', ''cmd'', ''path'', ''url'', ''message'', ''summary'',
            ''description'']),
         ap_risk_hint = string_field raw [''riskHint'', ''risk_hint'', ''risk'', ''warning''],
         ap_raw = Some raw,
         ap_created_at = created_at,
         ap_expires_at = number_field raw [''expiresAt'', ''expires_at'']\<rparr>))"

section \<open>Approvals that Codex waits for\<close>

definition display_json_value :: "json \<Rightarrow> string" where
  "display_json_value v = unwrap_or (json_text v) (as_str v)"

definition named_value :: "string \<Rightarrow> json \<Rightarrow> string" where
  "named_value name v = name @ '': '' @ display_json_value v"

definition displayed_param :: "json \<Rightarrow> string option" where
  "displayed_param item =
     Option.bind (string_field item [''display_name'', ''displayName'', ''name'']) (\<lambda>name.
       map_option (named_value name) (json_get ''value'' item))"

definition displayed_params :: "json \<Rightarrow> string list" where
  "displayed_params params =
     unwrap_or [] (map_option (List.map_filter displayed_param)
       (Option.bind (json_pointer [''_meta'', ''tool_params_display''] params) as_array))"

definition mcp_params_detail :: "json \<Rightarrow> string option" where
  "mcp_params_detail params =
     (if displayed_params params \<noteq> [] then Some (join_with '', '' (displayed_params params))
      else option_filter (\<lambda>d. d \<noteq> [])
        (map_option (\<lambda>fs. join_with '', '' (map (\<lambda>(name, v). named_value name v) fs))
          (Option.bind (json_pointer [''_meta'', ''tool_params''] params) as_object)))"

text \<open>The name between the quotes after \<open>tool "\<close> in the message.\<close>

definition tool_marker :: string where
  "tool_marker = ''tool '' @ [CHR 0x22]"

definition tool_name_in :: "string \<Rightarrow> string option" where
  "tool_name_in message =
     Option.bind (find_text tool_marker message) (\<lambda>at.
       let rest = drop (at + length tool_marker) message in
       map_option (\<lambda>n. take n rest) (find_text [CHR 0x22] rest))"

definition mcp_tool_name :: "json \<Rightarrow> string option" where
  "mcp_tool_name params =
     or_else
       (Option.bind
         (or_else (json_pointer [''_meta'', ''tool_title''] params)
           (json_pointer [''_meta'', ''tool_name''] params)) as_str)
       (Option.bind (Option.bind (json_get ''message'' params) as_str) tool_name_in)"

definition command_detail :: "json \<Rightarrow> string" where
  "command_detail params =
     (let commands = unwrap_or [] (map_option
            (List.map_filter (\<lambda>action. string_field action [''cmd'', ''command'']))
            (Option.bind (json_get ''commandActions'' params) as_array))
      in if commands \<noteq> [] then join_with '' && '' commands
         else unwrap_or (json_text params) (string_field params [''command'', ''cmd'', ''reason'']))"

definition pending_detail :: "string \<Rightarrow> json \<Rightarrow> string" where
  "pending_detail mth params =
     (if mth = ''item/commandExecution/requestApproval'' then command_detail params
      else if mth = ''mcpServer/elicitation/request'' then
        unwrap_or (json_text params)
          (or_else (mcp_params_detail params) (string_field params [''message'', ''reason'']))
      else if mth = ''item/fileChange/requestApproval'' then
        unwrap_or (json_text params) (string_field params
          [''reason'', ''grantRoot'', ''grant_root'', ''itemId'', ''item_id''])
      else if mth = ''item/permissions/requestApproval'' then
        unwrap_or (json_text params)
          (or_else (string_field params [''reason'', ''message''])
            (map_option json_text (json_get ''permissions'' params)))
      else json_text params)"

definition pending_kind :: "codex_pending_approval \<Rightarrow> approval_kind option" where
  "pending_kind p =
     (if pa_method p = ''item/commandExecution/requestApproval'' then Some Command
      else if pa_method p = ''item/fileChange/requestApproval'' then Some FileEdit
      else if pa_method p = ''item/permissions/requestApproval''
      then Some (approval_kind_of (pa_params p))
      else if pa_method p = ''mcpServer/elicitation/request'' then Some Mcp
      else None)"

fun pending_title :: "approval_kind \<Rightarrow> json \<Rightarrow> string" where
  "pending_title Command params = ''Run command''"
| "pending_title FileEdit params = ''Apply file edit''"
| "pending_title Network params = ''Allow network access''"
| "pending_title Mcp params =
     unwrap_or ''Allow MCP tool'' (map_option (\<lambda>n. ''Allow '' @ n) (mcp_tool_name params))"
| "pending_title UnknownApproval params = ''Approval required''"

definition detect_pending :: "codex_pending_approval \<Rightarrow> u64 \<Rightarrow> json approval_request option" where
  "detect_pending p created_at =
     (case pending_kind p of
        None \<Rightarrow> None
      | Some kind \<Rightarrow> Some
        \<lparr>ap_id = pa_thread_id p @ '':'' @ pa_request_id p,
         ap_thread_id = pa_thread_id p,
         ap_kind = kind,
         ap_title = pending_title kind (pa_params p),
         ap_detail = pending_detail (pa_method p) (pa_params p),
         ap_risk_hint =
           (if kind = Mcp
            then map_option (\<lambda>server. ''MCP server: '' @ server)
              (string_field (pa_params p) [''serverName'', ''server_name''])
            else string_field (pa_params p) [''riskHint'', ''risk_hint'', ''reason'', ''warning'']),
         ap_raw = Some (json_object [(''requestId'', JString (pa_request_id p)),
           (''method'', JString (pa_method p)), (''params'', pa_params p)]),
         ap_created_at = created_at,
         ap_expires_at = number_field (pa_params p) [''expiresAt'', ''expires_at'']\<rparr>)"

section \<open>What an approval shows\<close>

lemma sublist_join_with: "w \<in> set ws \<Longrightarrow> sublist w (join_with sep ws)"
proof (induction ws)
  case (Cons v ws)
  show ?case
  proof (cases "w = v")
    case False
    with Cons have "sublist w (join_with sep ws)" "ws \<noteq> []" by auto
    then obtain ps ss where "join_with sep ws = ps @ w @ ss" by (auto simp: sublist_def)
    with \<open>ws \<noteq> []\<close>
    have "join_with sep (v # ws) = (v @ sep @ ps) @ w @ ss" by (simp add: join_with_Cons)
    then show ?thesis unfolding sublist_def by blast
  qed (simp add: join_with_Cons)
qed simp

lemma contains_join_with: "w \<in> set ws \<Longrightarrow> contains (join_with sep ws) w"
  by (simp add: contains_iff sublist_join_with)

lemma set_map_filter: "y \<in> set (List.map_filter f xs) \<longleftrightarrow> (\<exists>x \<in> set xs. f x = Some y)"
  by (force simp: List.map_filter_def)

text \<open>
  The request a device is shown for a command that Codex wants to run is named by its thread and
  its request, is a command approval, and its detail contains every command that Codex lists for it,
  or is the command itself where none is listed.
\<close>

lemma command_approval_shows_commands:
  assumes "pa_method p = ''item/commandExecution/requestApproval''"
    and "detect_pending p now = Some a"
  shows "ap_id a = pa_thread_id p @ '':'' @ pa_request_id p \<and> ap_kind a = Command
    \<and> (case Option.bind (json_get ''commandActions'' (pa_params p)) as_array of
         Some actions \<Rightarrow>
           list_all (\<lambda>action. contains (ap_detail a)
             (unwrap_or [] (string_field action [''cmd'', ''command'']))) actions
       | None \<Rightarrow>
           ap_detail a = unwrap_or (json_text (pa_params p))
             (string_field (pa_params p) [''command'', ''cmd'', ''reason'']))"
proof -
  let ?actions = "Option.bind (json_get ''commandActions'' (pa_params p)) as_array"
  have a: "ap_id a = pa_thread_id p @ '':'' @ pa_request_id p" "ap_kind a = Command"
    "ap_detail a = command_detail (pa_params p)"
    using assms by (auto simp: detect_pending_def pending_kind_def pending_detail_def)
  have empty: "contains t []" for t
    by (simp add: contains_iff)
  show ?thesis
  proof (cases ?actions)
    case None
    then show ?thesis using a by (simp add: command_detail_def)
  next
    case (Some actions)
    let ?commands = "List.map_filter (\<lambda>action. string_field action [''cmd'', ''command'']) actions"
    have "contains (ap_detail a) (unwrap_or [] (string_field action [''cmd'', ''command'']))"
      if "action \<in> set actions" for action
    proof (cases "string_field action [''cmd'', ''command'']")
      case (Some c)
      with that have c: "c \<in> set ?commands" by (auto simp: set_map_filter)
      then have "?commands \<noteq> []" by auto
      then have "ap_detail a = join_with '' && '' ?commands"
        using a(3) \<open>?actions = Some actions\<close> by (simp add: command_detail_def)
      with contains_join_with [OF c, of "'' && ''"] Some show ?thesis by simp
    qed (simp add: empty)
    with a Some show ?thesis by (simp add: list_all_iff)
  qed
qed

definition two_commands :: codex_pending_approval where
  "two_commands = \<lparr>pa_thread_id = ''t'', pa_request_id = ''7'',
     pa_method = ''item/commandExecution/requestApproval'',
     pa_params = JObject [(''commandActions'', JArray
       [JObject [(''cmd'', JString ''ls'')], JObject [(''cmd'', JString ''pwd'')]])]\<rparr>"

text \<open>A command that is not listed is not shown where others are.\<close>

lemma command_hidden_by_actions:
  "command_detail (JObject [(''command'', JString ''rm x''),
     (''commandActions'', JArray [JObject [(''cmd'', JString ''ls'')]])]) = ''ls''"
  by code_simp

end
