(* ===== verification/Workspace.thy ===== *)
theory Workspace
  imports Codex_Rpc
begin

text \<open>
  The workspaces a device may start a thread in, \<open>crates/bridge-core/src/workspace.rs\<close>. The file
  system is a parameter: \<open>fs::canonicalize\<close> and whether a path is a directory.
\<close>

datatype workspace_validation_error = Required | NotAllowed | Unavailable

record file_system =
  canonicalize :: "string \<Rightarrow> string option"
  is_dir :: "string \<Rightarrow> bool"

text \<open>Paths are compared by their components; the root has none.\<close>

definition same_path :: "string \<Rightarrow> string \<Rightarrow> bool" where
  "same_path p q \<longleftrightarrow> is_absolute_path p = is_absolute_path q \<and> path_parts p = path_parts q"

definition is_allowed_path_shape :: "string \<Rightarrow> bool" where
  "is_allowed_path_shape cwd \<longleftrightarrow> is_absolute_path cwd \<and> \<not> same_path cwd ''/''"

definition canonical_workspace :: "file_system \<Rightarrow> string \<Rightarrow> string option" where
  "canonical_workspace fs cwd =
     (if \<not> is_allowed_path_shape cwd then None
      else (case canonicalize fs cwd of
          None \<Rightarrow> None
        | Some c \<Rightarrow> if same_path c ''/'' \<or> \<not> is_dir fs c then None else Some c))"

definition known_workspaces :: "file_system \<Rightarrow> codex_thread list \<Rightarrow> string list" where
  "known_workspaces fs ts = List.map_filter (canonical_workspace fs) (List.map_filter ct_cwd ts)"

text \<open>The \<open>BTreeSet\<close> of the paths, in order.\<close>

definition workspace_options :: "file_system \<Rightarrow> codex_thread list \<Rightarrow> workspace_option list" where
  "workspace_options fs ts =
     map (\<lambda>cwd. \<lparr>wo_cwd = cwd\<rparr>) (remdups (sort (known_workspaces fs ts)))"

definition validate_workspace ::
  "file_system \<Rightarrow> codex_thread list \<Rightarrow> string option
    \<Rightarrow> workspace_validation_error + workspace_option" where
  "validate_workspace fs ts requested_cwd =
     (case requested_cwd of
        None \<Rightarrow> Inl Required
      | Some cwd \<Rightarrow>
          if \<not> is_allowed_path_shape cwd then Inl NotAllowed
          else (case canonicalize fs cwd of
              None \<Rightarrow>
                if list_ex (\<lambda>t. ct_cwd t = Some cwd) ts then Inl Unavailable else Inl NotAllowed
            | Some c \<Rightarrow>
                if same_path c ''/'' then Inl NotAllowed
                else if \<not> is_dir fs c then Inl Unavailable
                else if \<not> list_ex (\<lambda>allowed. same_path allowed c) (known_workspaces fs ts)
                then Inl NotAllowed
                else Inr \<lparr>wo_cwd = c\<rparr>))"

section \<open>What is validated\<close>

text \<open>
  \<open>fs::canonicalize\<close> returns an absolute path whose components are normal, so two results with the
  same components are the same text.
\<close>

definition canonical_results :: "file_system \<Rightarrow> bool" where
  "canonical_results fs \<longleftrightarrow>
     (\<forall>p q c d. canonicalize fs p = Some c \<longrightarrow> canonicalize fs q = Some d \<longrightarrow> same_path c d \<longrightarrow> c = d)"

lemma known_workspacesD:
  assumes "w \<in> set (known_workspaces fs ts)"
  shows "\<exists>t \<in> set ts. \<exists>cwd. ct_cwd t = Some cwd \<and> canonicalize fs cwd = Some w
    \<and> \<not> same_path w ''/'' \<and> is_dir fs w"
proof -
  from assms obtain t cwd where "t \<in> set ts" "ct_cwd t = Some cwd" "canonical_workspace fs cwd = Some w"
    by (force simp: known_workspaces_def List.map_filter_def)
  then show ?thesis by (auto simp: canonical_workspace_def split: if_splits option.splits)
qed

lemma workspace_options_iff:
  "ws \<in> set (workspace_options fs ts) \<longleftrightarrow> wo_cwd ws \<in> set (known_workspaces fs ts)"
  by (cases ws) (auto simp: workspace_options_def)

text \<open>
  A requested path is accepted exactly where it is an absolute path other than the root that the
  file system resolves to one of the workspaces offered to the device; so a thread starts only in a
  directory that a thread of the desktop already has, never in the root, and never in a path that
  merely leads through one. No other path is accepted, and each offered workspace that still
  resolves to itself is.
\<close>

lemma workspace_validated_iff:
  assumes "canonical_results fs"
  shows "validate_workspace fs ts (Some cwd) = Inr ws \<longleftrightarrow>
    is_allowed_path_shape cwd \<and> canonicalize fs cwd = Some (wo_cwd ws) \<and>
    ws \<in> set (workspace_options fs ts)"
proof
  assume v: "validate_workspace fs ts (Some cwd) = Inr ws"
  then obtain c w where c: "is_allowed_path_shape cwd" "canonicalize fs cwd = Some c"
    "ws = \<lparr>wo_cwd = c\<rparr>" "w \<in> set (known_workspaces fs ts)" "same_path w c"
    by (auto simp: validate_workspace_def list_ex_iff split: if_splits option.splits)
  from known_workspacesD [OF c(4)] obtain p where "canonicalize fs p = Some w" by blast
  then have "w = c" using assms c(2,5) unfolding canonical_results_def by blast
  with c show "is_allowed_path_shape cwd \<and> canonicalize fs cwd = Some (wo_cwd ws) \<and>
      ws \<in> set (workspace_options fs ts)"
    by (simp add: workspace_options_iff)
next
  assume r: "is_allowed_path_shape cwd \<and> canonicalize fs cwd = Some (wo_cwd ws) \<and>
      ws \<in> set (workspace_options fs ts)"
  then have k: "wo_cwd ws \<in> set (known_workspaces fs ts)" by (simp add: workspace_options_iff)
  from known_workspacesD [OF k] have "\<not> same_path (wo_cwd ws) ''/''" "is_dir fs (wo_cwd ws)"
    by blast+
  moreover have "same_path (wo_cwd ws) (wo_cwd ws)" by (simp add: same_path_def)
  ultimately show "validate_workspace fs ts (Some cwd) = Inr ws"
    using r k by (auto simp: validate_workspace_def list_ex_iff)
qed

text \<open>A file system with a directory \<open>/w\<close>, a link \<open>/l\<close> to it, and the root.\<close>

definition linked_fs :: file_system where
  "linked_fs = \<lparr>canonicalize = (\<lambda>p. if p = ''/w'' \<or> p = ''/l'' then Some ''/w'' else None),
     is_dir = (\<lambda>p. p = ''/w'')\<rparr>"

definition thread_in :: "string \<Rightarrow> codex_thread" where
  "thread_in cwd = \<lparr>ct_id = ''t'', ct_title = None, ct_cwd = Some cwd, ct_model_provider = None,
     ct_preview = None, ct_created_at = None, ct_updated_at = None, ct_raw = JNull\<rparr>"

end
