(* ===== verification/Message_Delivery.thy ===== *)
theory Message_Delivery
  imports Rust_Text
begin

text \<open>
  The delivery of a device's messages, \<open>crates/bridge-core/src/http_api.rs\<close>: a request may carry a
  message id, and the requests of one device, thread and message id are delivered to Codex once. The
  operations on the cache of message ids (each holds its lock throughout), then the requests as a
  step relation. A \<open>Notify\<close> is a number; \<open>notify_waiters\<close> wakes every request that registered
  before it, which a request does while it holds the lock.
\<close>

section \<open>The cache of message ids\<close>

definition MAX_MESSAGE_DEDUPE_ENTRIES :: nat where
  "MAX_MESSAGE_DEDUPE_ENTRIES = 1024"

datatype dedupe_entry = InFlight nat | CompletedMessage

record dedupe_cache =
  entries :: "string \<rightharpoonup> dedupe_entry"
  completed_order :: "string list"

datatype dedupe_claim = ClaimOwner string nat | ClaimCompleted | ClaimWait nat

definition empty_cache :: dedupe_cache where
  "empty_cache = \<lparr>entries = Map.empty, completed_order = []\<rparr>"

definition message_dedupe_key :: "string \<Rightarrow> string \<Rightarrow> string \<Rightarrow> string" where
  "message_dedupe_key device_id thread_id client_message_id =
     device_id @ [CHR 0x0A] @ thread_id @ [CHR 0x0A] @ client_message_id"

text \<open>One turn of the loop of \<open>claim_message_dedupe\<close>; a fresh \<open>Notify\<close> is an argument.\<close>

definition claim_message :: "nat \<Rightarrow> string \<Rightarrow> dedupe_cache \<Rightarrow> dedupe_claim \<times> dedupe_cache" where
  "claim_message notify key c =
     (case entries c key of
        Some CompletedMessage \<Rightarrow> (ClaimCompleted, c)
      | Some (InFlight n) \<Rightarrow> (ClaimWait n, c)
      | None \<Rightarrow> (ClaimOwner key notify, c\<lparr>entries := (entries c)(key \<mapsto> InFlight notify)\<rparr>))"

fun drop_expired :: "string list \<Rightarrow> (string \<rightharpoonup> dedupe_entry) \<Rightarrow> dedupe_cache" where
  "drop_expired [] es = \<lparr>entries = es, completed_order = []\<rparr>"
| "drop_expired (k # ks) es =
     (if MAX_MESSAGE_DEDUPE_ENTRIES < length (k # ks)
      then drop_expired ks (if es k = Some CompletedMessage then es(k := None) else es)
      else \<lparr>entries = es, completed_order = k # ks\<rparr>)"

definition complete_message :: "string \<Rightarrow> dedupe_cache \<Rightarrow> dedupe_cache" where
  "complete_message key c =
     drop_expired (completed_order c @ [key]) ((entries c)(key \<mapsto> CompletedMessage))"

definition fail_message :: "string \<Rightarrow> dedupe_cache \<Rightarrow> dedupe_cache" where
  "fail_message key c = c\<lparr>entries := (entries c)(key := None)\<rparr>"

text \<open>The message id of a request: the text of its header, if it has one.\<close>

definition valid_message_id :: "string \<Rightarrow> bool" where
  "valid_message_id v \<longleftrightarrow>
     v \<noteq> [] \<and> length v \<le> 128 \<and>
     list_all (\<lambda>b. is_ascii_alphanumeric b \<or> b = CHR ''-'' \<or> b = CHR ''_'') v"

definition client_message_id :: "string option option \<Rightarrow> string + string option" where
  "client_message_id hdr =
     (case hdr of
        None \<Rightarrow> Inr None
      | Some None \<Rightarrow> Inl ''invalid client message id''
      | Some (Some t) \<Rightarrow>
          if valid_message_id (trim t) then Inr (Some (trim t))
          else Inl ''invalid client message id'')"

section \<open>Requests\<close>

text \<open>
  A request is a number and a key. A request that owns its key has a task that delivers; a request
  that found the key in flight waits. \<open>delivered\<close> is the log of completed deliveries, newest first,
  and \<open>woken\<close> the notifies that fired.
\<close>

record delivery_state =
  cache :: dedupe_cache
  tasks :: "(string \<times> nat) list"
  waiting :: "(nat \<times> string \<times> nat) list"
  accepted :: "nat list"
  woken :: "nat set"
  used :: "nat set"
  delivered :: "string list"

definition initial_delivery :: delivery_state where
  "initial_delivery = \<lparr>cache = empty_cache, tasks = [], waiting = [], accepted = [],
     woken = {}, used = {}, delivered = []\<rparr>"

definition poll :: "nat \<Rightarrow> string \<Rightarrow> nat \<Rightarrow> delivery_state \<Rightarrow> delivery_state" where
  "poll rq key n s =
     (case claim_message n key (cache s) of
        (ClaimCompleted, c) \<Rightarrow> s\<lparr>cache := c, accepted := rq # accepted s\<rparr>
      | (ClaimOwner k m, c) \<Rightarrow> s\<lparr>cache := c, tasks := (k, m) # tasks s, used := insert m (used s)\<rparr>
      | (ClaimWait m, c) \<Rightarrow> s\<lparr>cache := c, waiting := (rq, key, m) # waiting s\<rparr>)"

text \<open>
  A request arrives; a waiting request that was woken looks again; the task of a key completes or
  fails.
\<close>

inductive message_step :: "delivery_state \<Rightarrow> delivery_state \<Rightarrow> bool" where
  arrive: "n \<notin> used s \<Longrightarrow> message_step s (poll rq key n s)"
| retry: "(rq, key, m) \<in> set (waiting s) \<Longrightarrow> m \<in> woken s \<Longrightarrow> n \<notin> used s \<Longrightarrow>
    message_step s (poll rq key n (s\<lparr>waiting := remove1 (rq, key, m) (waiting s)\<rparr>))"
| complete: "(key, m) \<in> set (tasks s) \<Longrightarrow>
    message_step s (s\<lparr>cache := complete_message key (cache s), tasks := remove1 (key, m) (tasks s),
      woken := insert m (woken s), delivered := key # delivered s\<rparr>)"
| fail: "(key, m) \<in> set (tasks s) \<Longrightarrow>
    message_step s (s\<lparr>cache := fail_message key (cache s), tasks := remove1 (key, m) (tasks s),
      woken := insert m (woken s)\<rparr>)"

inductive delivery_reachable :: "delivery_state \<Rightarrow> bool" where
  start: "delivery_reachable initial_delivery"
| step: "delivery_reachable s \<Longrightarrow> message_step s s' \<Longrightarrow> delivery_reachable s'"

section \<open>The invariant\<close>

lemma drop_expired_exact:
  assumes "length ks \<le> Suc MAX_MESSAGE_DEDUPE_ENTRIES" and "distinct ks"
    and "\<forall>k \<in> set ks. es k = Some CompletedMessage"
  shows "drop_expired ks es =
    (if length ks \<le> MAX_MESSAGE_DEDUPE_ENTRIES then \<lparr>entries = es, completed_order = ks\<rparr>
     else \<lparr>entries = es(hd ks := None), completed_order = tl ks\<rparr>)"
proof (cases ks)
  case (Cons k ks')
  have small: "drop_expired ks' es' = \<lparr>entries = es', completed_order = ks'\<rparr>"
    if "length ks' \<le> MAX_MESSAGE_DEDUPE_ENTRIES" for es'
    using that by (cases ks') auto
  show ?thesis using assms small by (auto simp: Cons)
qed simp

text \<open>
  The cache remembers exactly the last deliveries; its entries in flight are the tasks, one for
  each key; and every waiting request waits for a task or was woken.
\<close>

definition remembers :: "delivery_state \<Rightarrow> bool" where
  "remembers s \<longleftrightarrow>
     completed_order (cache s) = rev (take MAX_MESSAGE_DEDUPE_ENTRIES (delivered s)) \<and>
     distinct (take MAX_MESSAGE_DEDUPE_ENTRIES (delivered s)) \<and>
     (\<forall>k. entries (cache s) k = Some CompletedMessage \<longleftrightarrow>
        k \<in> set (take MAX_MESSAGE_DEDUPE_ENTRIES (delivered s)))"

definition exclusive :: "delivery_state \<Rightarrow> bool" where
  "exclusive s \<longleftrightarrow>
     distinct (map fst (tasks s)) \<and>
     (\<forall>k m. entries (cache s) k = Some (InFlight m) \<longleftrightarrow> (k, m) \<in> set (tasks s))"

definition no_lost_wakeup :: "delivery_state \<Rightarrow> bool" where
  "no_lost_wakeup s \<longleftrightarrow>
     list_all (\<lambda>(rq, k, m). m \<in> woken s \<or> m \<in> snd ` set (tasks s)) (waiting s)"

definition spaced :: "string list \<Rightarrow> bool" where
  "spaced ds \<longleftrightarrow>
     (\<forall>i j. i < j \<longrightarrow> j < length ds \<longrightarrow> ds ! i = ds ! j \<longrightarrow> MAX_MESSAGE_DEDUPE_ENTRIES < j - i)"

definition delivery_inv :: "delivery_state \<Rightarrow> bool" where
  "delivery_inv s \<longleftrightarrow> remembers s \<and> exclusive s \<and> no_lost_wakeup s \<and> spaced (delivered s)"

lemma spaced_Cons:
  assumes "spaced ds" and "d \<notin> set (take MAX_MESSAGE_DEDUPE_ENTRIES ds)"
  shows "spaced (d # ds)"
  unfolding spaced_def
proof (intro allI impI)
  fix i j assume ij: "i < j" "j < length (d # ds)" "(d # ds) ! i = (d # ds) ! j"
  show "MAX_MESSAGE_DEDUPE_ENTRIES < j - i"
  proof (cases i)
    case 0
    with ij obtain j' where j: "j = Suc j'" "j' < length ds" "ds ! j' = d" by (cases j) auto
    have "MAX_MESSAGE_DEDUPE_ENTRIES \<le> j'"
    proof (rule ccontr)
      assume "\<not> MAX_MESSAGE_DEDUPE_ENTRIES \<le> j'"
      then have "take MAX_MESSAGE_DEDUPE_ENTRIES ds ! j' = d"
        "j' < length (take MAX_MESSAGE_DEDUPE_ENTRIES ds)" using j by auto
      with assms(2) show False using nth_mem by metis
    qed
    with 0 j show ?thesis by simp
  next
    case (Suc i')
    with ij obtain j' where "j = Suc j'" "i' < j'" "j' < length ds" "ds ! i' = ds ! j'"
      by (cases j) auto
    with assms(1) Suc show ?thesis by (auto simp: spaced_def)
  qed
qed

lemma inv_poll:
  assumes "delivery_inv s"
  shows "delivery_inv (poll rq key n s)"
proof (cases "entries (cache s) key")
  case None
  have "key \<notin> fst ` set (tasks s)" "\<And>m. (key, m) \<notin> set (tasks s)"
    using None assms by (force simp: delivery_inv_def exclusive_def)+
  moreover have "key \<notin> set (take MAX_MESSAGE_DEDUPE_ENTRIES (delivered s))"
    using None assms by (force simp: delivery_inv_def remembers_def)
  moreover have "poll rq key n s = s\<lparr>
      cache := cache s\<lparr>entries := (entries (cache s))(key \<mapsto> InFlight n)\<rparr>,
      tasks := (key, n) # tasks s, used := insert n (used s)\<rparr>"
    by (simp add: poll_def claim_message_def None)
  ultimately show ?thesis using None assms
    by (auto simp: delivery_inv_def remembers_def exclusive_def no_lost_wakeup_def list_all_iff)
next
  case (Some e)
  show ?thesis
  proof (cases e)
    case CompletedMessage
    then have "poll rq key n s = s\<lparr>accepted := rq # accepted s\<rparr>"
      by (simp add: poll_def claim_message_def Some)
    with assms show ?thesis
      by (simp add: delivery_inv_def remembers_def exclusive_def no_lost_wakeup_def)
  next
    case (InFlight m)
    then have "poll rq key n s = s\<lparr>waiting := (rq, key, m) # waiting s\<rparr>"
      by (simp add: poll_def claim_message_def Some)
    moreover have "(key, m) \<in> set (tasks s)"
      using InFlight Some assms by (auto simp: delivery_inv_def exclusive_def)
    then have "m \<in> snd ` set (tasks s)" by force
    ultimately show ?thesis using assms
      by (simp add: delivery_inv_def remembers_def exclusive_def no_lost_wakeup_def)
  qed
qed

lemma in_flight_not_remembered:
  assumes "delivery_inv s" and "(k, m) \<in> set (tasks s)"
  shows "entries (cache s) k = Some (InFlight m)"
    and "k \<notin> set (take MAX_MESSAGE_DEDUPE_ENTRIES (delivered s))"
proof -
  show e: "entries (cache s) k = Some (InFlight m)"
    using assms by (auto simp: delivery_inv_def exclusive_def)
  show "k \<notin> set (take MAX_MESSAGE_DEDUPE_ENTRIES (delivered s))"
  proof
    assume "k \<in> set (take MAX_MESSAGE_DEDUPE_ENTRIES (delivered s))"
    then have "entries (cache s) k = Some CompletedMessage"
      using assms(1) by (simp add: delivery_inv_def remembers_def)
    with e show False by simp
  qed
qed

text \<open>A task that ends takes its key out of the tasks and wakes whoever waits for it.\<close>

lemma tasks_without:
  assumes "delivery_inv s" and "(k, m) \<in> set (tasks s)"
  shows "set (remove1 (k, m) (tasks s)) = {p \<in> set (tasks s). fst p \<noteq> k}"
    and "distinct (map fst (remove1 (k, m) (tasks s)))"
proof -
  have d: "distinct (map fst (tasks s))" using assms(1) by (simp add: delivery_inv_def exclusive_def)
  then have "distinct (tasks s)" by (simp add: distinct_map)
  then show "set (remove1 (k, m) (tasks s)) = {p \<in> set (tasks s). fst p \<noteq> k}"
    using d assms(2) by (auto dest: eq_key_imp_eq_value)
  show "distinct (map fst (remove1 (k, m) (tasks s)))"
    using d by (metis distinct_map distinct_remove1 inj_on_subset set_remove1_subset)
qed

lemma cache_complete:
  assumes "delivery_inv s" and "(key, m) \<in> set (tasks s)"
  defines "ds \<equiv> take MAX_MESSAGE_DEDUPE_ENTRIES (key # delivered s)"
  shows "completed_order (complete_message key (cache s)) = rev ds"
    and "entries (complete_message key (cache s)) k =
      (if k \<in> set ds then Some CompletedMessage
       else if k \<in> set (take MAX_MESSAGE_DEDUPE_ENTRIES (delivered s)) then None
       else entries (cache s) k)"
proof -
  let ?N = MAX_MESSAGE_DEDUPE_ENTRIES
  let ?old = "take ?N (delivered s)"
  have r: "completed_order (cache s) = rev ?old" "distinct ?old"
    "\<And>k. entries (cache s) k = Some CompletedMessage \<longleftrightarrow> k \<in> set ?old"
    using assms(1) by (auto simp: delivery_inv_def remembers_def)
  have key: "key \<notin> set ?old" using in_flight_not_remembered [OF assms(1,2)] by simp
  let ?es = "(entries (cache s))(key \<mapsto> CompletedMessage)"
  have d: "drop_expired (rev (key # ?old)) ?es =
      (if length (rev (key # ?old)) \<le> ?N
       then \<lparr>entries = ?es, completed_order = rev (key # ?old)\<rparr>
       else \<lparr>entries = ?es(hd (rev (key # ?old)) := None),
             completed_order = tl (rev (key # ?old))\<rparr>)"
    using r key by (intro drop_expired_exact) auto
  have N: "?N = Suc 1023" by (simp add: MAX_MESSAGE_DEDUPE_ENTRIES_def)
  have c: "complete_message key (cache s) = drop_expired (rev (key # ?old)) ?es"
    by (simp add: complete_message_def r(1))
  have both: "completed_order (complete_message key (cache s)) = rev ds \<and>
    entries (complete_message key (cache s)) k =
      (if k \<in> set ds then Some CompletedMessage
       else if k \<in> set ?old then None else entries (cache s) k)"
  proof (cases "length ?old < ?N")
    case True
    then have "ds = key # ?old" by (simp add: ds_def N)
    moreover have "complete_message key (cache s) = \<lparr>entries = ?es, completed_order = rev (key # ?old)\<rparr>"
    proof -
      have "length (rev (key # ?old)) \<le> ?N" using True by (simp only: length_rev length_Cons Suc_le_eq)
      then show ?thesis unfolding c d by (simp only: if_True)
    qed
    ultimately show ?thesis using r(3) [of k] by simp
  next
    case False
    then have l: "?N \<le> length (delivered s)" by simp
    then have "?old \<noteq> []" by (auto simp: N)
    then obtain xs z where xs: "?old = xs @ [z]" by (metis rev_exhaust)
    have "ds = key # take (?N - 1) (delivered s)" by (simp add: ds_def N)
    also have "take (?N - 1) (delivered s) = xs" using butlast_take [OF l] xs by simp
    finally have ds: "ds = key # xs" .
    have z: "z \<notin> set xs" "z \<noteq> key" using r(2) key xs by auto
    have "complete_message key (cache s) =
        \<lparr>entries = ?es(z := None), completed_order = rev xs @ [key]\<rparr>"
      unfolding c d using False xs l by (simp split: if_splits)
    then show ?thesis using r(3) [of k] z ds xs by auto
  qed
  then show "completed_order (complete_message key (cache s)) = rev ds"
    "entries (complete_message key (cache s)) k =
      (if k \<in> set ds then Some CompletedMessage
       else if k \<in> set ?old then None else entries (cache s) k)"
    by blast+
qed

lemma wakeup_kept:
  assumes "delivery_inv s" and "(key, m) \<in> set (tasks s)"
  shows "list_all (\<lambda>(rq, k, n). n \<in> insert m (woken s) \<or> n \<in> snd ` set (remove1 (key, m) (tasks s)))
    (waiting s)"
proof -
  have fl: "\<And>k m. entries (cache s) k = Some (InFlight m) \<longleftrightarrow> (k, m) \<in> set (tasks s)"
    using assms(1) by (auto simp: delivery_inv_def exclusive_def)
  have "n = m \<or> n \<in> snd ` set (remove1 (key, m) (tasks s))" if "n \<in> snd ` set (tasks s)" for n
  proof -
    from that obtain k where k: "(k, n) \<in> set (tasks s)" by auto
    show ?thesis
    proof (cases "k = key")
      case True
      then have "n = m" using k assms(2) fl [of key n] fl [of key m] by auto
      then show ?thesis ..
    next
      case False
      with k have "(k, n) \<in> set (remove1 (key, m) (tasks s))" by (simp add: tasks_without [OF assms])
      then show ?thesis by force
    qed
  qed
  then show ?thesis
    using assms(1) by (fastforce simp: delivery_inv_def no_lost_wakeup_def list_all_iff)
qed

lemma inv_complete:
  assumes "delivery_inv s" and "(key, m) \<in> set (tasks s)"
  shows "delivery_inv (s\<lparr>cache := complete_message key (cache s), tasks := remove1 (key, m) (tasks s),
      woken := insert m (woken s), delivered := key # delivered s\<rparr>)"
proof -
  let ?N = MAX_MESSAGE_DEDUPE_ENTRIES
  let ?ds = "take ?N (key # delivered s)" and ?old = "take ?N (delivered s)"
  let ?s = "s\<lparr>cache := complete_message key (cache s), tasks := remove1 (key, m) (tasks s),
      woken := insert m (woken s), delivered := key # delivered s\<rparr>"
  note cc = cache_complete [OF assms]
  have N: "?N = Suc 1023" by (simp add: MAX_MESSAGE_DEDUPE_ENTRIES_def)
  have new: "key \<notin> set ?old" using in_flight_not_remembered [OF assms] by simp
  have old: "\<And>k. entries (cache s) k = Some CompletedMessage \<longleftrightarrow> k \<in> set ?old" "distinct ?old"
    and fl: "\<And>k m. entries (cache s) k = Some (InFlight m) \<longleftrightarrow> (k, m) \<in> set (tasks s)"
    and sp: "spaced (delivered s)"
    using assms(1) by (auto simp: delivery_inv_def remembers_def exclusive_def)
  have sub: "set ?ds \<subseteq> insert key (set ?old)" "key \<in> set ?ds"
    using set_take_subset_set_take [of 1023 ?N "delivered s"] by (auto simp: N)
  have dist: "distinct ?ds"
  proof -
    have "?ds = key # take 1023 (take ?N (delivered s))" by (simp add: N min_def)
    then show ?thesis using new old(2) by (auto dest: in_set_takeD simp del: take_take)
  qed
  have r: "remembers ?s"
    unfolding remembers_def using cc dist old(1) by (auto split: if_splits)
  have e: "exclusive ?s"
  proof -
    have "entries (complete_message key (cache s)) k = Some (InFlight n) \<longleftrightarrow>
        (k, n) \<in> set (remove1 (key, m) (tasks s))" for k n
    proof (cases "k \<in> set ?ds \<or> k \<in> set ?old")
      case True
      then have "k = key \<or> k \<in> set ?old" using sub by auto
      then have "(k, n) \<in> set (tasks s) \<Longrightarrow> k = key"
        using in_flight_not_remembered [OF assms(1)] by blast
      with True show ?thesis by (auto simp: cc(2) tasks_without [OF assms])
    next
      case False
      then have "k \<noteq> key" using sub(2) by auto
      with False show ?thesis by (simp add: cc(2) fl tasks_without [OF assms])
    qed
    then show ?thesis using tasks_without(2) [OF assms] by (simp add: exclusive_def)
  qed
  have w: "no_lost_wakeup ?s" using wakeup_kept [OF assms] by (simp add: no_lost_wakeup_def)
  have "spaced (key # delivered s)" by (rule spaced_Cons [OF sp new])
  with r e w show ?thesis by (simp add: delivery_inv_def)
qed

lemma inv_fail:
  assumes "delivery_inv s" and "(key, m) \<in> set (tasks s)"
  shows "delivery_inv (s\<lparr>cache := fail_message key (cache s), tasks := remove1 (key, m) (tasks s),
      woken := insert m (woken s)\<rparr>)"
proof -
  have new: "key \<notin> set (take MAX_MESSAGE_DEDUPE_ENTRIES (delivered s))"
    using in_flight_not_remembered [OF assms] by simp
  have "(\<forall>k n. ((entries (cache s))(key := None)) k = Some (InFlight n) \<longleftrightarrow>
      (k, n) \<in> set (remove1 (key, m) (tasks s)))"
    using assms(1) by (auto simp: tasks_without [OF assms] delivery_inv_def exclusive_def)
  with assms(1) new wakeup_kept [OF assms] tasks_without(2) [OF assms] show ?thesis
    by (auto simp: delivery_inv_def remembers_def exclusive_def no_lost_wakeup_def fail_message_def)
qed

lemma list_all_remove1: "list_all P xs \<Longrightarrow> list_all P (remove1 x xs)"
  using set_remove1_subset [of x xs] by (auto simp: list_all_iff)

lemma inv_retry: "delivery_inv s \<Longrightarrow> delivery_inv (s\<lparr>waiting := remove1 w (waiting s)\<rparr>)"
  by (simp add: delivery_inv_def remembers_def exclusive_def no_lost_wakeup_def list_all_remove1)

lemma inv_step: "message_step s s' \<Longrightarrow> delivery_inv s \<Longrightarrow> delivery_inv s'"
  by (induction rule: message_step.induct)
    (simp_all add: inv_poll inv_retry inv_complete inv_fail)

lemma inv_reachable: "delivery_reachable s \<Longrightarrow> delivery_inv s"
proof (induction rule: delivery_reachable.induct)
  case start
  then show ?case
    by (simp add: delivery_inv_def remembers_def exclusive_def no_lost_wakeup_def spaced_def
        initial_delivery_def empty_cache_def)
next
  case (step s s')
  then show ?case by (blast intro: inv_step)
qed

text \<open>
  C14. However the requests of devices interleave, are repeated and fail: a message id is being
  delivered by one task at most; between two completed deliveries of one message at least 1024
  other messages were delivered; no task delivers one of the last 1024 messages delivered; and a
  waiting request waits for a task that still runs, or has been woken.
\<close>

theorem message_delivered_once:
  assumes "delivery_reachable s"
  shows "distinct (map fst (tasks s))
    \<and> (\<forall>i j. i < j \<longrightarrow> j < length (delivered s) \<longrightarrow> delivered s ! i = delivered s ! j \<longrightarrow> 1024 < j - i)
    \<and> fst ` set (tasks s) \<inter> set (take 1024 (delivered s)) = {}
    \<and> list_all (\<lambda>(rq, k, m). m \<in> woken s \<or> m \<in> snd ` set (tasks s)) (waiting s)"
proof -
  have i: "delivery_inv s" by (rule inv_reachable [OF assms])
  have "k \<notin> set (take 1024 (delivered s))" if "(k, m) \<in> set (tasks s)" for k m
    using in_flight_not_remembered(2) [OF i that] by (simp add: MAX_MESSAGE_DEDUPE_ENTRIES_def)
  then have "fst ` set (tasks s) \<inter> set (take 1024 (delivered s)) = {}" by auto
  with i show ?thesis
    by (simp add: delivery_inv_def exclusive_def no_lost_wakeup_def spaced_def
        MAX_MESSAGE_DEDUPE_ENTRIES_def)
qed

text \<open>Two requests for one message: the second waits, the first delivers, the second is accepted.\<close>

definition two_requests :: "delivery_state" where
  "two_requests =
     (let s1 = poll 1 ''k'' 7 initial_delivery;
          s2 = poll 2 ''k'' 8 s1;
          s3 = s2\<lparr>cache := complete_message ''k'' (cache s2), tasks := remove1 (''k'', 7) (tasks s2),
                 woken := insert 7 (woken s2), delivered := ''k'' # delivered s2\<rparr>
      in poll 2 ''k'' 9 (s3\<lparr>waiting := remove1 (2, ''k'', 7) (waiting s3)\<rparr>))"

lemma two_requests_run:
  "delivery_reachable two_requests \<and> delivered two_requests = [''k''] \<and> tasks two_requests = []
   \<and> accepted two_requests = [2] \<and> waiting two_requests = []"
proof -
  note d = poll_def claim_message_def initial_delivery_def empty_cache_def complete_message_def
    MAX_MESSAGE_DEDUPE_ENTRIES_def
  let ?s1 = "poll 1 ''k'' 7 initial_delivery" let ?s2 = "poll 2 ''k'' 8 ?s1"
  let ?s3 = "?s2\<lparr>cache := complete_message ''k'' (cache ?s2), tasks := remove1 (''k'', 7) (tasks ?s2),
                 woken := insert 7 (woken ?s2), delivered := ''k'' # delivered ?s2\<rparr>"
  have "delivery_reachable ?s1"
    by (rule step [OF start arrive]) (simp add: initial_delivery_def)
  then have "delivery_reachable ?s2" by (rule step [OF _ arrive]) (simp add: d)
  then have "delivery_reachable ?s3" by (rule step [OF _ complete]) (simp add: d)
  then have "delivery_reachable two_requests"
    unfolding two_requests_def Let_def by (rule step [OF _ retry]) (simp_all add: d)
  then show ?thesis by (simp add: two_requests_def Let_def d)
qed

theorem message_delivered_once_witness:
  "distinct (map fst (tasks two_requests)) \<and> delivered two_requests = [''k''] \<and>
   accepted two_requests = [2] \<and> fst ` set (tasks two_requests) \<inter> set (take 1024 (delivered two_requests)) = {}"
  using message_delivered_once [of two_requests] two_requests_run by blast

end
