(* ===== verification/Event_Pages.thy ===== *)
theory Event_Pages
  imports Normalizer "HOL-Library.Option_ord"
begin

text \<open>
  The lists of events of \<open>crates/bridge-core/src/http_api.rs\<close>: how the events of a page of turns are
  merged into the cached events of a thread, and the pages of events a device reads.
\<close>

section \<open>Order of events\<close>

text \<open>\<open>str::parse::<u64>\<close>: decimal digits, after at most one plus sign, without overflow.\<close>

definition parse_u64 :: "string \<Rightarrow> u64 option" where
  "parse_u64 s =
     (let digits = (if starts_with s ''+'' then drop 1 s else s)
      in if digits \<noteq> [] \<and> list_all is_ascii_digit digits \<and> undecimal digits < 2 ^ 64
         then Some (of_nat (undecimal digits)) else None)"

definition strip_prefix :: "string \<Rightarrow> string \<Rightarrow> string option" where
  "strip_prefix p s = (if starts_with s p then Some (drop (length p) s) else None)"

definition event_item_order :: "string \<Rightarrow> u64 option" where
  "event_item_order eid =
     find_map (\<lambda>part. parse_u64 (unwrap_or part (strip_prefix ''item-'' part)))
       (rev (split_on (\<lambda>c. c = CHR '':'') eid))"

definition event_key :: "json session_event \<Rightarrow> u64 \<times> u64 option \<times> string" where
  "event_key e = (ev_created_at e, event_item_order (ev_id e), ev_id e)"

section \<open>Merging events\<close>

fun replace_first :: "json session_event \<Rightarrow> json session_event list \<Rightarrow> json session_event list" where
  "replace_first e [] = []"
| "replace_first e (x # xs) = (if ev_id x = ev_id e then e # xs else x # replace_first e xs)"

fun merge_loop ::
  "json session_event list \<Rightarrow> nat \<times> json session_event list \<Rightarrow> nat \<times> json session_event list" where
  "merge_loop [] st = st"
| "merge_loop (e # es) (added, xs) =
     merge_loop es (if ev_id e \<in> set (map ev_id xs) then (added, replace_first e xs)
                    else (added + 1, xs @ [e]))"

definition merge_adapter_events ::
  "json session_event list \<Rightarrow> json session_event list \<Rightarrow> nat \<times> json session_event list" where
  "merge_adapter_events existing incoming =
     (case merge_loop incoming (0, existing) of (added, xs) \<Rightarrow> (added, sort_key event_key xs))"

definition event_belongs_to_turn :: "string \<Rightarrow> string \<Rightarrow> bool" where
  "event_belongs_to_turn eid turn_id \<longleftrightarrow>
     (case strip_prefix turn_id eid of None \<Rightarrow> False | Some r \<Rightarrow> starts_with r '':'')"

definition codex_turn_is_active :: "codex_turn \<Rightarrow> bool" where
  "codex_turn_is_active turn \<longleftrightarrow>
     (let status = json_get ''status'' (tn_raw turn);
          raw = to_ascii_lowercase (unwrap_or [] (or_else (Option.bind status as_str)
            (Option.bind status (\<lambda>s. Option.bind (json_get ''type'' s) as_str))))
      in raw \<in> set [''active'', ''inprogress'', ''in_progress'', ''running'', ''streaming''])"

definition active_turn_ids :: "codex_turn list \<Rightarrow> string list" where
  "active_turn_ids turns = List.map_filter tn_id (filter codex_turn_is_active turns)"

definition is_tool_event :: "json session_event \<Rightarrow> bool" where
  "is_tool_event e \<longleftrightarrow> ev_type e = ToolCall \<or> ev_type e = ToolResult"

definition turn_of_event :: "string list \<Rightarrow> json session_event \<Rightarrow> string option" where
  "turn_of_event turn_ids e = find (event_belongs_to_turn (ev_id e)) turn_ids"

text \<open>The earliest time of the incoming events of a turn.\<close>

definition turn_anchor :: "json session_event list \<Rightarrow> string \<Rightarrow> u64 option" where
  "turn_anchor incoming turn_id =
     (case map ev_created_at (filter (\<lambda>e. event_belongs_to_turn (ev_id e) turn_id) incoming) of
        [] \<Rightarrow> None
      | ts \<Rightarrow> Some (min_list ts))"

definition anchor_event ::
  "json session_event list \<Rightarrow> string list \<Rightarrow> json session_event \<Rightarrow> json session_event" where
  "anchor_event incoming turn_ids e =
     (if \<not> is_tool_event e then e
      else case Option.bind (turn_of_event turn_ids e) (turn_anchor incoming) of
          None \<Rightarrow> e
        | Some t \<Rightarrow> e\<lparr>ev_created_at := t\<rparr>)"

definition keeps_event ::
  "json session_event list \<Rightarrow> string list \<Rightarrow> string list \<Rightarrow> json session_event \<Rightarrow> bool" where
  "keeps_event incoming turn_ids active e \<longleftrightarrow>
     (case turn_of_event turn_ids e of
        None \<Rightarrow> \<not> is_tool_event e
      | Some turn_id \<Rightarrow>
          if ev_id e \<in> set (map ev_id incoming) then False
          else if ev_type e = ToolResult then True
          else if ev_type e = ToolCall then turn_id \<in> set active
          else False)"

definition replace_adapter_turn_events ::
  "json session_event list \<Rightarrow> json session_event list \<Rightarrow> string list \<Rightarrow> string list
    \<Rightarrow> json session_event list" where
  "replace_adapter_turn_events existing incoming turn_ids active =
     snd (merge_adapter_events
       (filter (keeps_event incoming turn_ids active)
         (map (anchor_event incoming turn_ids) existing))
       incoming)"

section \<open>Pages\<close>

definition DEFAULT_EVENT_PAGE_LIMIT :: nat where
  "DEFAULT_EVENT_PAGE_LIMIT = 50"

definition MAX_EVENT_PAGE_LIMIT :: nat where
  "MAX_EVENT_PAGE_LIMIT = 100"

record events_query =
  q_limit :: "nat option"
  q_before :: "string option"
  q_since :: "string option"

record events_page =
  pg_events :: "json session_event list"
  pg_before_cursor :: "string option"
  pg_after_cursor :: "string option"
  pg_has_more_before :: bool
  pg_has_more_after :: bool
  pg_reset :: bool

definition is_paginated :: "events_query \<Rightarrow> bool" where
  "is_paginated q \<longleftrightarrow> q_limit q \<noteq> None \<or> q_before q \<noteq> None \<or> q_since q \<noteq> None"

definition page_limit :: "events_query \<Rightarrow> string + nat" where
  "page_limit q =
     (let requested = unwrap_or DEFAULT_EVENT_PAGE_LIMIT (q_limit q)
      in if requested = 0 then Inl ''event page limit must be positive''
         else Inr (min requested MAX_EVENT_PAGE_LIMIT))"

definition validate_query :: "events_query \<Rightarrow> string + unit" where
  "validate_query q =
     (if q_before q \<noteq> None \<and> q_since q \<noteq> None
      then Inl ''before and since cursors cannot be combined''
      else map_sum id (\<lambda>_. ()) (page_limit q))"

fun position :: "('a \<Rightarrow> bool) \<Rightarrow> 'a list \<Rightarrow> nat option" where
  "position P [] = None"
| "position P (x # xs) = (if P x then Some 0 else map_option Suc (position P xs))"

fun rposition :: "('a \<Rightarrow> bool) \<Rightarrow> 'a list \<Rightarrow> nat option" where
  "rposition P [] = None"
| "rposition P (x # xs) =
     (case rposition P xs of Some i \<Rightarrow> Some (Suc i) | None \<Rightarrow> if P x then Some 0 else None)"

text \<open>The start and the end of the page, and whether its cursor was not found.\<close>

definition page_window :: "json session_event list \<Rightarrow> events_query \<Rightarrow> nat \<Rightarrow> nat \<times> nat \<times> bool" where
  "page_window events q limit =
     (let n = length events; latest = (n - limit, n) in
      case q_before q of
        Some before \<Rightarrow>
          (case position (\<lambda>e. ev_id e = before) events of
             Some i \<Rightarrow> (i - limit, i, False)
           | None \<Rightarrow> (fst latest, snd latest, True))
      | None \<Rightarrow>
          (case q_since q of
             Some since \<Rightarrow>
               (case rposition (\<lambda>e. ev_id e = since) events of
                  Some i \<Rightarrow> (i, min (i + max limit 2) n, False)
                | None \<Rightarrow> (fst latest, snd latest, True))
           | None \<Rightarrow> (fst latest, snd latest, False)))"

definition paginate_session_events ::
  "json session_event list \<Rightarrow> events_query \<Rightarrow> string + events_page" where
  "paginate_session_events events q =
     (case validate_query q of
        Inl e \<Rightarrow> Inl e
      | Inr _ \<Rightarrow>
          (case page_limit q of
             Inl e \<Rightarrow> Inl e
           | Inr limit \<Rightarrow>
               (case page_window events q limit of (start, end_at, reset) \<Rightarrow>
                  let page = take (end_at - start) (drop start events) in Inr
                    \<lparr>pg_events = page,
                     pg_before_cursor = (if page = [] then None else Some (ev_id (hd page))),
                     pg_after_cursor = (if page = [] then None else Some (ev_id (last page))),
                     pg_has_more_before = (0 < start),
                     pg_has_more_after = (end_at < length events),
                     pg_reset = reset\<rparr>)))"

section \<open>Reading a history page by page\<close>

text \<open>A device reads older pages before the first event it has, or newer ones from its last.\<close>

definition page_query :: "nat \<Rightarrow> string option \<Rightarrow> string option \<Rightarrow> events_query" where
  "page_query limit before since = \<lparr>q_limit = Some limit, q_before = before, q_since = since\<rparr>"

fun older_pages ::
  "nat \<Rightarrow> json session_event list \<Rightarrow> nat \<Rightarrow> string option \<Rightarrow> json session_event list list" where
  "older_pages 0 events limit before = []"
| "older_pages (Suc n) events limit before =
     (case paginate_session_events events (page_query limit before None) of
        Inl e \<Rightarrow> []
      | Inr p \<Rightarrow> pg_events p #
          (if pg_has_more_before p then older_pages n events limit (pg_before_cursor p) else []))"

fun newer_pages ::
  "nat \<Rightarrow> json session_event list \<Rightarrow> nat \<Rightarrow> string option \<Rightarrow> json session_event list list" where
  "newer_pages 0 events limit since = []"
| "newer_pages (Suc n) events limit since =
     (case paginate_session_events events (page_query limit None since) of
        Inl e \<Rightarrow> []
      | Inr p \<Rightarrow> pg_events p #
          (if pg_has_more_after p then newer_pages n events limit (pg_after_cursor p) else []))"

lemma position_unique:
  "distinct (map f xs) \<Longrightarrow> k < length xs \<Longrightarrow> position (\<lambda>x. f x = f (xs ! k)) xs = Some k"
proof (induction xs arbitrary: k)
  case (Cons x xs)
  show ?case
  proof (cases k)
    case (Suc j)
    with Cons.prems have "f x \<noteq> f (xs ! j)" by auto
    with Suc Cons show ?thesis by simp
  qed simp
qed simp

lemma rposition_absent: "\<forall>x \<in> set xs. \<not> P x \<Longrightarrow> rposition P xs = None"
  by (induction xs) auto

lemma rposition_unique:
  "distinct (map f xs) \<Longrightarrow> k < length xs \<Longrightarrow> rposition (\<lambda>x. f x = f (xs ! k)) xs = Some k"
proof (induction xs arbitrary: k)
  case (Cons x xs)
  show ?case
  proof (cases k)
    case 0
    have "\<forall>y \<in> set xs. \<not> f y = f x" using Cons.prems(1) by simp (metis image_eqI)
    with 0 show ?thesis by (simp add: rposition_absent)
  next
    case (Suc j)
    with Cons have "rposition (\<lambda>x. f x = f (xs ! j)) xs = Some j" by simp
    with Suc show ?thesis by simp
  qed
qed simp

definition page_size :: "nat \<Rightarrow> nat" where
  "page_size limit = min limit MAX_EVENT_PAGE_LIMIT"

lemma page_size_pos: "0 < limit \<Longrightarrow> 0 < page_size limit"
  by (simp add: page_size_def MAX_EVENT_PAGE_LIMIT_def)

text \<open>The page before the event at an index, or at the end.\<close>

lemma older_page:
  assumes "distinct (map ev_id events)" and "0 < limit" and "k \<le> length events"
    and "before = (if k < length events then Some (ev_id (events ! k)) else None)"
  shows "\<exists>p. paginate_session_events events (page_query limit before None) = Inr p \<and>
    pg_events p = drop (k - page_size limit) (take k events) \<and>
    pg_has_more_before p = (page_size limit < k) \<and>
    (page_size limit < k \<longrightarrow> pg_before_cursor p = Some (ev_id (events ! (k - page_size limit))))"
proof -
  let ?q = "page_query limit before None" and ?l = "page_size limit"
  have l: "page_limit ?q = Inr ?l" "validate_query ?q = Inr ()"
    using assms(2) by (simp_all add: page_limit_def page_query_def validate_query_def page_size_def)
  have w: "page_window events ?q ?l = (k - ?l, k, False)"
    using assms(3,4) position_unique [OF assms(1), of k]
    by (cases "k < length events") (simp_all add: page_window_def page_query_def Let_def)
  have page: "take (k - (k - ?l)) (drop (k - ?l) events) = drop (k - ?l) (take k events)"
    by (simp add: take_drop)
  have "hd (drop (k - ?l) (take k events)) = events ! (k - ?l)" if "?l < k"
    using that assms(3) page_size_pos [OF assms(2)] by (subst hd_drop_conv_nth) auto
  moreover have "hd (drop (k - ?l) events) = events ! (k - ?l)" if "?l < k"
    using that assms(3) page_size_pos [OF assms(2)] by (subst hd_drop_conv_nth) auto
  moreover have "drop (k - ?l) (take k events) \<noteq> []" if "?l < k"
    using that assms(3) page_size_pos [OF assms(2)] by auto
  ultimately show ?thesis
    by (auto simp: paginate_session_events_def l w page Let_def)
qed

lemma older_pages_cover:
  assumes "distinct (map ev_id events)" and "0 < limit"
  shows "k \<le> length events \<Longrightarrow> k < fuel \<Longrightarrow>
    concat (rev (older_pages fuel events limit
      (if k < length events then Some (ev_id (events ! k)) else None))) = take k events \<and>
    list_all (\<lambda>page. length page \<le> page_size limit) (older_pages fuel events limit
      (if k < length events then Some (ev_id (events ! k)) else None))"
proof (induction fuel arbitrary: k)
  case (Suc fuel)
  let ?l = "page_size limit"
  define before where "before = (if k < length events then Some (ev_id (events ! k)) else None)"
  from older_page [OF assms Suc.prems(1) before_def] obtain p where
    p: "paginate_session_events events (page_query limit before None) = Inr p"
      "pg_events p = drop (k - ?l) (take k events)" "pg_has_more_before p = (?l < k)"
      "?l < k \<longrightarrow> pg_before_cursor p = Some (ev_id (events ! (k - ?l)))"
    by blast
  have len: "length (pg_events p) \<le> ?l" using p(2) by simp
  show ?case
  proof (cases "?l < k")
    case True
    have j: "k - ?l < length events" "k - ?l \<le> length events" "k - ?l < fuel"
      using True Suc.prems page_size_pos [OF assms(2)] by linarith+
    let ?cursor = "Some (ev_id (events ! (k - ?l)))"
    have pages: "older_pages (Suc fuel) events limit before =
        pg_events p # older_pages fuel events limit ?cursor"
      using p True by simp
    have "concat (rev (older_pages fuel events limit ?cursor)) = take (k - ?l) events"
      "list_all (\<lambda>page. length page \<le> ?l) (older_pages fuel events limit ?cursor)"
      using Suc.IH [OF j(2,3)] j(1) by simp_all
    moreover have "take (k - ?l) events @ drop (k - ?l) (take k events) = take k events"
      using append_take_drop_id [of "k - ?l" "take k events"] by (simp add: min_def)
    ultimately show ?thesis
      unfolding before_def [symmetric] pages using len by (simp add: p(2))
  next
    case False
    with p len show ?thesis unfolding before_def [symmetric] by simp
  qed
qed simp

text \<open>The page from the event at an index, which it repeats.\<close>

lemma newer_page:
  assumes "distinct (map ev_id events)" and "0 < limit" and "k < length events"
  defines "e \<equiv> min (k + max (page_size limit) 2) (length events)"
  shows "\<exists>p. paginate_session_events events (page_query limit None (Some (ev_id (events ! k)))) = Inr p \<and>
    pg_events p = drop k (take e events) \<and> pg_has_more_after p = (e < length events) \<and>
    pg_after_cursor p = Some (ev_id (events ! (e - 1)))"
proof -
  let ?q = "page_query limit None (Some (ev_id (events ! k)))"
  have l: "page_limit ?q = Inr (page_size limit)" "validate_query ?q = Inr ()"
    using assms(2) by (simp_all add: page_limit_def page_query_def validate_query_def page_size_def)
  have w: "page_window events ?q (page_size limit) = (k, e, False)"
    using rposition_unique [OF assms(1,3)]
    by (simp add: page_window_def page_query_def Let_def e_def)
  have e: "k < e" "e \<le> length events" using assms(3) by (auto simp: e_def)
  have page: "take (e - k) (drop k events) = drop k (take e events)" by (simp add: drop_take)
  have ne: "drop k (take e events) \<noteq> []" using e by simp
  then have "last (drop k (take e events)) = events ! (e - 1)"
    using e by (simp add: last_conv_nth)
  with ne show ?thesis
    unfolding paginate_session_events_def l sum.case w prod.case Let_def page by simp
qed

lemma newer_pages_cover:
  assumes "distinct (map ev_id events)" and "0 < limit"
  shows "k < length events \<Longrightarrow> length events - k < Suc fuel \<Longrightarrow>
    concat (map tl (newer_pages (Suc fuel) events limit (Some (ev_id (events ! k))))) =
      drop (Suc k) events"
proof (induction fuel arbitrary: k)
  case (Suc fuel)
  define e where "e = min (k + max (page_size limit) 2) (length events)"
  from newer_page [OF assms Suc.prems(1)] obtain p where
    p: "paginate_session_events events (page_query limit None (Some (ev_id (events ! k)))) = Inr p"
      "pg_events p = drop k (take e events)" "pg_has_more_after p = (e < length events)"
      "pg_after_cursor p = Some (ev_id (events ! (e - 1)))"
    unfolding e_def by blast
  have tl: "tl (drop k (take e events)) = drop (Suc k) (take e events)"
    by (simp add: tl_drop drop_Suc)
  show ?case
  proof (cases "e < length events")
    case True
    then have e: "k < e - 1" "Suc (e - 1) = e" by (auto simp: e_def)
    then have "concat (map tl (newer_pages (Suc fuel) events limit (Some (ev_id (events ! (e - 1)))))) =
        drop e events"
      using Suc.IH [of "e - 1"] Suc.prems True by simp
    moreover have "drop (Suc k) (take e events) @ drop e events = drop (Suc k) events"
      using append_take_drop_id [of e events] e(1) True
      by (metis Suc_leI drop_append drop_eq_Nil2 length_take e(2) min.absorb2 less_imp_le diff_is_0_eq drop0 less_or_eq_imp_le Suc_le_mono)
    ultimately show ?thesis using p True tl by simp
  next
    case False
    then have "e = length events" by (simp add: e_def)
    with p tl show ?thesis by simp
  qed
qed simp

text \<open>
  C15. A device that reads a history page by page misses nothing and reads nothing twice: going back
  from the latest page, the pages are the whole history, none longer than the limit or 100; going on
  from an event, the pages after their first event, which repeats the cursor, are what follows it.
\<close>

theorem history_paging_complete:
  assumes "distinct (map ev_id events)" and "0 < limit"
  shows "concat (rev (older_pages (Suc (length events)) events limit None)) = events
    \<and> list_all (\<lambda>page. length page \<le> min limit 100)
        (older_pages (Suc (length events)) events limit None)
    \<and> (\<forall>k < length events.
        concat (map tl (newer_pages (Suc (length events)) events limit
          (Some (ev_id (events ! k))))) = drop (Suc k) events)"
  using older_pages_cover [OF assms, of "length events" "Suc (length events)"]
    newer_pages_cover [OF assms, of _ "length events"]
  by (simp add: page_size_def MAX_EVENT_PAGE_LIMIT_def)

definition plain_event :: "string \<Rightarrow> u64 \<Rightarrow> json session_event" where
  "plain_event i t = \<lparr>ev_id = i, ev_thread_id = ''th'', ev_type = Message, ev_payload = JNull,
     ev_created_at = t\<rparr>"

theorem history_paging_complete_witness:
  "let events = [plain_event ''a'' 1, plain_event ''b'' 2, plain_event ''c'' 3] in
   concat (rev (older_pages 4 events 2 None)) = events \<and>
   concat (map tl (newer_pages 4 events 1 (Some ''a''))) = [plain_event ''b'' 2, plain_event ''c'' 3] \<and>
   map length (older_pages 4 events 2 None) = [2, 1]"
proof -
  let ?events = "[plain_event ''a'' 1, plain_event ''b'' 2, plain_event ''c'' 3]"
  have d: "distinct (map ev_id ?events)" by (simp add: plain_event_def)
  have "map length (older_pages 4 ?events 2 None) = [2, 1]"
    by (simp add: numeral_eq_Suc paginate_session_events_def page_query_def validate_query_def
        page_limit_def MAX_EVENT_PAGE_LIMIT_def page_window_def plain_event_def Let_def)
  then show ?thesis
    using history_paging_complete [OF d, of 2] history_paging_complete [OF d, of 1]
    by (auto simp: Let_def plain_event_def numeral_eq_Suc)
qed

section \<open>What a merge does\<close>

definition by_id :: "json session_event list \<Rightarrow> string \<rightharpoonup> json session_event" where
  "by_id xs = map_of (map (\<lambda>e. (ev_id e, e)) xs)"

lemma by_id_simps [simp]:
  "by_id [] = Map.empty" "by_id (e # es) = (by_id es)(ev_id e \<mapsto> e)"
  "by_id (xs @ ys) = by_id ys ++ by_id xs"
  by (simp_all add: by_id_def)

lemma dom_by_id: "dom (by_id xs) = ev_id ` set xs"
  by (simp add: by_id_def dom_map_of_conv_image_fst image_image)

lemma replace_first_ids: "map ev_id (replace_first e xs) = map ev_id xs"
  by (induction xs) auto

lemma length_replace_first [simp]: "length (replace_first e xs) = length xs"
  by (induction xs) auto

lemma by_id_replace_first:
  "ev_id e \<in> ev_id ` set xs \<Longrightarrow> by_id (replace_first e xs) = (by_id xs)(ev_id e \<mapsto> e)"
  by (induction xs) (auto simp: fun_upd_twist)

lemma by_id_new: "ev_id e \<notin> ev_id ` set xs \<Longrightarrow> by_id (xs @ [e]) = (by_id xs)(ev_id e \<mapsto> e)"
  by (rule ext) (use dom_by_id [of xs] in \<open>auto simp: map_add_def split: option.splits\<close>)

lemma merge_loop_exact:
  "merge_loop es (added, xs) = (added', ys) \<Longrightarrow> distinct (map ev_id xs) \<Longrightarrow>
     distinct (map ev_id ys) \<and> by_id ys = by_id xs ++ by_id (rev es) \<and>
     length ys + added = length xs + added'"
proof (induction es arbitrary: added xs)
  case (Cons e es)
  show ?case
  proof (cases "ev_id e \<in> ev_id ` set xs")
    case True
    with Cons.prems have "merge_loop es (added, replace_first e xs) = (added', ys)"
      "distinct (map ev_id (replace_first e xs))"
      by (simp_all add: replace_first_ids)
    note IH = Cons.IH [OF this]
    have "by_id (replace_first e xs) ++ by_id (rev es) = by_id xs ++ by_id (rev (e # es))"
      unfolding by_id_replace_first [OF True] by simp
    from IH this [symmetric] show ?thesis by (simp only: length_replace_first simp_thms)
  next
    case False
    with Cons.prems have "merge_loop es (Suc added, xs @ [e]) = (added', ys)"
      "distinct (map ev_id (xs @ [e]))"
      by simp_all
    note IH = Cons.IH [OF this]
    have "by_id (xs @ [e]) ++ by_id (rev es) = by_id xs ++ by_id (rev (e # es))"
      unfolding by_id_new [OF False] by simp
    from IH this [symmetric] show ?thesis by (simp only: length_append list.size) simp
  qed
qed simp

lemma by_id_permute:
  assumes "distinct (map ev_id xs)" and "distinct (map ev_id ys)" and "set ys = set xs"
  shows "by_id ys = by_id xs"
proof -
  have "map_of (map (\<lambda>e. (ev_id e, e)) ys) = map_of (map (\<lambda>e. (ev_id e, e)) xs)"
    using assms by (subst map_of_inject_set) (simp_all add: comp_def)
  then show ?thesis by (simp add: by_id_def)
qed

text \<open>
  C16. Merging events into the cached events of a thread is an update of the map from identifiers to
  events, whose incoming events win: the result has one event for each identifier, in order of time,
  position in the turn and identifier, which makes it the only such list, and the number returned is
  the number of new events.
\<close>

theorem merge_updates_map:
  assumes "distinct (map ev_id existing)" and "merge_adapter_events existing incoming = (added, ys)"
  shows "by_id ys = by_id existing ++ by_id (rev incoming) \<and> distinct (map ev_id ys)
    \<and> sorted (map event_key ys) \<and> length ys = length existing + added
    \<and> (\<forall>zs. distinct (map ev_id zs) \<longrightarrow> by_id zs = by_id ys \<longrightarrow> sorted (map event_key zs) \<longrightarrow> zs = ys)"
proof -
  obtain xs where run: "merge_loop incoming (0, existing) = (added, xs)"
    and ys: "ys = sort_key event_key xs"
    using assms(2) by (auto simp: merge_adapter_events_def split: prod.splits)
  from merge_loop_exact [OF run assms(1)] have xs: "distinct (map ev_id xs)"
    "by_id xs = by_id existing ++ by_id (rev incoming)" "length xs = length existing + added"
    by simp_all
  have inj: "distinct (map ev_id zs) \<Longrightarrow> distinct (map event_key zs)" for zs
    by (auto simp: distinct_map inj_on_def event_key_def)
  have d: "distinct (map ev_id ys)"
    using xs(1) by (simp add: ys distinct_map)
  have s: "sorted (map event_key ys)" by (simp add: ys)
  have u: "zs = ys" if "distinct (map ev_id zs)" "by_id zs = by_id ys" "sorted (map event_key zs)" for zs
  proof -
    have "set zs = ran (by_id zs)" if "distinct (map ev_id zs)" for zs
      using that ran_distinct [of "map (\<lambda>e. (ev_id e, e)) zs"]
      by (simp add: by_id_def comp_def image_image)
    then have "set zs = set ys" using that(1,2) d by metis
    with that s d inj show ?thesis by (intro sorted_by_key_unique [of event_key]) simp_all
  qed
  have "by_id ys = by_id xs" by (rule by_id_permute [OF xs(1) d]) (simp add: ys)
  then have "by_id ys = by_id existing ++ by_id (rev incoming)" using xs(2) by simp
  moreover have "length ys = length existing + added" by (simp add: ys xs(3))
  ultimately show ?thesis using u d s by blast
qed

theorem merge_updates_map_witness:
  "case merge_adapter_events [plain_event ''a'' 200] [plain_event ''b'' 100, plain_event ''a'' 300] of
     (added, ys) \<Rightarrow> added = 1 \<and> by_id ys ''a'' = Some (plain_event ''a'' 300) \<and> length ys = 2"
proof -
  let ?in = "[plain_event ''b'' 100, plain_event ''a'' 300]" and ?old = "[plain_event ''a'' 200]"
  obtain added ys where m: "merge_adapter_events ?old ?in = (added, ys)" by fastforce
  have d: "distinct (map ev_id ?old)" by simp
  have "added = 1" using m by (simp add: merge_adapter_events_def plain_event_def)
  with merge_updates_map [OF d m] m show ?thesis by (simp add: plain_event_def)
qed

end
