(* ===== verification/Live_Events.thy ===== *)
theory Live_Events
  imports Approval Event_Pages Alert_Monitor Local_Assets
begin

text \<open>
  What the bridge does with a notification of Codex, \<open>AppState::apply_codex_notification\<close> in
  \<open>crates/bridge-core/src/http_api.rs\<close>: the normaliser makes an event of it, the snapshot of its
  thread and the pending approvals change, alerts are raised, and the event goes to the caches and
  to the devices without the raw JSON and the local paths. Each lock is held as in the source; other
  tasks do not run between two locks of one call.
\<close>

section \<open>Local images in a payload\<close>

fun json_remove :: "string \<Rightarrow> json \<Rightarrow> json" where
  "json_remove k (JObject fs) = JObject (filter (\<lambda>f. fst f \<noteq> k) fs)"
| "json_remove k v = v"

definition session_event_for_mobile :: "json session_event \<Rightarrow> json session_event" where
  "session_event_for_mobile e = e\<lparr>ev_payload := json_remove ''raw'' (ev_payload e)\<rparr>"

text \<open>A local image loses its path, and every other value below is searched.\<close>

fun scrub_local_image_paths :: "json \<Rightarrow> json"
  and scrub_items :: "json list \<Rightarrow> json list"
  and scrub_fields :: "bool \<Rightarrow> (string \<times> json) list \<Rightarrow> (string \<times> json) list" where
  "scrub_local_image_paths (JArray vs) = JArray (scrub_items vs)"
| "scrub_local_image_paths (JObject fs) =
     JObject (scrub_fields
       (case Option.bind (json_get ''type'' (JObject fs)) as_str of
          None \<Rightarrow> False
        | Some ty \<Rightarrow> eq_ignore_ascii_case ty ''localimage'') fs)"
| "scrub_local_image_paths JNull = JNull"
| "scrub_local_image_paths (JBool b) = JBool b"
| "scrub_local_image_paths (JPosInt n) = JPosInt n"
| "scrub_local_image_paths (JNegInt i) = JNegInt i"
| "scrub_local_image_paths (JFloat s) = JFloat s"
| "scrub_local_image_paths (JString s) = JString s"
| "scrub_items [] = []"
| "scrub_items (v # vs) = scrub_local_image_paths v # scrub_items vs"
| "scrub_fields local [] = []"
| "scrub_fields local ((k, v) # fs) =
     (if local \<and> k = ''path'' then scrub_fields local fs
      else (k, scrub_local_image_paths v) # scrub_fields local fs)"

definition scrub_raw_local_image_paths :: "json \<Rightarrow> json" where
  "scrub_raw_local_image_paths payload =
     (case json_get ''raw'' payload of
        None \<Rightarrow> payload
      | Some raw \<Rightarrow> json_insert ''raw'' (scrub_local_image_paths raw) payload)"

definition replace_paths :: "(string \<times> string) list \<Rightarrow> string \<Rightarrow> string" where
  "replace_paths replacements text =
     fold (\<lambda>(path, name) t. if contains t path then str_replace path name t else t) replacements text"

fun replace_path_strings :: "(string \<times> string) list \<Rightarrow> json \<Rightarrow> json"
  and replace_path_items :: "(string \<times> string) list \<Rightarrow> json list \<Rightarrow> json list"
  and replace_path_fields ::
    "(string \<times> string) list \<Rightarrow> (string \<times> json) list \<Rightarrow> (string \<times> json) list" where
  "replace_path_strings rs (JString s) = JString (replace_paths rs s)"
| "replace_path_strings rs (JArray vs) = JArray (replace_path_items rs vs)"
| "replace_path_strings rs (JObject fs) = JObject (replace_path_fields rs fs)"
| "replace_path_strings rs JNull = JNull"
| "replace_path_strings rs (JBool b) = JBool b"
| "replace_path_strings rs (JPosInt n) = JPosInt n"
| "replace_path_strings rs (JNegInt i) = JNegInt i"
| "replace_path_strings rs (JFloat s) = JFloat s"
| "replace_path_items rs [] = []"
| "replace_path_items rs (v # vs) = replace_path_strings rs v # replace_path_items rs vs"
| "replace_path_fields rs [] = []"
| "replace_path_fields rs ((k, v) # fs) =
     (k, replace_path_strings rs v) # replace_path_fields rs fs"

definition scrub_local_image_path_strings :: "(string \<times> string) list \<Rightarrow> json \<Rightarrow> json" where
  "scrub_local_image_path_strings rs v = (if rs = [] then v else replace_path_strings rs v)"

definition attachments_of :: "json \<Rightarrow> json list option" where
  "attachments_of payload = Option.bind (json_get ''attachments'' payload) as_array"

definition local_image_attachment_path :: "json \<Rightarrow> string option" where
  "local_image_attachment_path attachment =
     (if Option.bind (json_get ''type'' attachment) as_str = Some ''image''
      then Option.bind (json_get ''path'' attachment) as_str else None)"

definition replacement_of :: "json \<Rightarrow> (string \<times> string) option" where
  "replacement_of attachment =
     map_option (\<lambda>path. (path, unwrap_or ''image''
         (or_else (Option.bind (json_get ''name'' attachment) as_str) (file_name path))))
       (Option.bind (json_get ''path'' attachment) as_str)"

definition local_image_attachment_replacements :: "json \<Rightarrow> (string \<times> string) list" where
  "local_image_attachment_replacements payload =
     (case attachments_of payload of None \<Rightarrow> [] | Some as \<Rightarrow> List.map_filter replacement_of as)"

text \<open>
  Each image that has a path is registered, at a time and with a token that the environment gives,
  and has the token's address in place of the path.
\<close>

fun register_attachments ::
  "(nat \<Rightarrow> u64 \<times> string) \<Rightarrow> json list \<Rightarrow> asset_registry \<Rightarrow> json list \<times> asset_registry" where
  "register_attachments env [] reg = ([], reg)"
| "register_attachments env (a # as) reg =
     (case local_image_attachment_path a of
        None \<Rightarrow>
          (case register_attachments env as reg of (as', reg') \<Rightarrow> (a # as', reg'))
      | Some path \<Rightarrow>
          (case register_image (fst (env (length as))) (snd (env (length as))) path reg of
             (token, reg1) \<Rightarrow>
               (case register_attachments env as reg1 of
                  (as', reg') \<Rightarrow>
                    (json_insert ''src'' (JString (''/api/assets/local-image/'' @ token))
                       (json_remove ''path'' a) # as', reg'))))"

definition register_local_assets ::
  "(nat \<Rightarrow> u64 \<times> string) \<Rightarrow> json session_event \<Rightarrow> asset_registry
    \<Rightarrow> json session_event \<times> asset_registry" where
  "register_local_assets env e reg =
     (let replacements = local_image_attachment_replacements (ev_payload e);
          payload = scrub_raw_local_image_paths (ev_payload e)
      in case attachments_of payload of
           None \<Rightarrow> (e\<lparr>ev_payload := payload\<rparr>, reg)
         | Some as \<Rightarrow>
             (case register_attachments env as reg of
                (as', reg') \<Rightarrow>
                  (e\<lparr>ev_payload := scrub_local_image_path_strings replacements
                     (json_insert ''attachments'' (JArray as') payload)\<rparr>, reg')))"

section \<open>The state and its parts\<close>

definition EVENT_HISTORY_LIMIT_PER_THREAD :: nat where
  "EVENT_HISTORY_LIMIT_PER_THREAD = 256"

record adapter_event_cache =
  ac_events :: "json session_event list"
  ac_next_cursor :: "string option"
  ac_loaded_older :: bool

definition default_cache :: adapter_event_cache where
  "default_cache = \<lparr>ac_events = [], ac_next_cursor = None, ac_loaded_older = False\<rparr>"

text \<open>The map of pending approvals holds each under its identifier; it is the list of its values.\<close>

record live_state =
  lv_bridge :: "json bridge"
  lv_history :: "string \<rightharpoonup> json session_event list"
  lv_caches :: "string \<rightharpoonup> adapter_event_cache"
  lv_approvals :: "json approval_request list"
  lv_assets :: asset_registry

text \<open>What a call reads of its environment: the clock, the tokens, and the codecs of the alerts.\<close>

record live_env =
  le_now :: u64
  le_assets :: "nat \<Rightarrow> u64 \<times> string"
  le_codecs :: codecs
  le_push_now :: "string \<Rightarrow> u64"
  le_push_runtime :: bool

definition hub_of :: "live_state \<Rightarrow> json event_hub" where
  "hub_of s = alert_hub (lv_bridge s)"

definition with_hub :: "(json event_hub \<Rightarrow> nat \<times> json event_hub) \<Rightarrow> live_state \<Rightarrow> live_state" where
  "with_hub f s = s\<lparr>lv_bridge := (lv_bridge s)\<lparr>alert_hub := snd (f (alert_hub (lv_bridge s)))\<rparr>\<rparr>"

definition live_status_for_event :: "json session_event \<Rightarrow> session_status option" where
  "live_status_for_event e =
     (if ev_type e = StatusChanged then
        Option.bind (Option.bind (json_get ''status'' (ev_payload e)) as_str)
          (\<lambda>t. find (\<lambda>st. session_status_name st = t) all_session_statuses)
      else if ev_type e \<in> {MessageDelta, ReasoningSummaryDelta, PlanDelta, ToolCall, ToolResult}
      then Some Running
      else if ev_type e = ErrorEvent then Some StatusError
      else None)"

definition push_history ::
  "json session_event \<Rightarrow> json session_event list \<Rightarrow> json session_event list" where
  "push_history e es =
     (if length es = EVENT_HISTORY_LIMIT_PER_THREAD then drop 1 es else es) @ [e]"

definition record_session_event :: "json session_event \<Rightarrow> live_state \<Rightarrow> live_state" where
  "record_session_event e s =
     s\<lparr>lv_history := (lv_history s)(ev_thread_id e \<mapsto>
         push_history e (unwrap_or [] (lv_history s (ev_thread_id e))))\<rparr>"

definition replace_session_event_history ::
  "string \<Rightarrow> json session_event list \<Rightarrow> live_state \<Rightarrow> live_state" where
  "replace_session_event_history thread_id events s =
     s\<lparr>lv_history := (lv_history s)(thread_id \<mapsto>
         drop (length events - EVENT_HISTORY_LIMIT_PER_THREAD) events)\<rparr>"

definition publish_session_event :: "json session_event \<Rightarrow> live_state \<Rightarrow> live_state" where
  "publish_session_event e s = with_hub (publish (SessionEvent e)) (record_session_event e s)"

definition cache_live_adapter_event :: "json session_event \<Rightarrow> live_state \<Rightarrow> live_state" where
  "cache_live_adapter_event e s =
     (if \<not> is_tool_event e then s
      else let m = session_event_for_mobile e;
               c = unwrap_or default_cache (lv_caches s (ev_thread_id m))
           in s\<lparr>lv_caches := (lv_caches s)(ev_thread_id m \<mapsto>
                c\<lparr>ac_events := snd (merge_adapter_events (ac_events c) [m])\<rparr>)\<rparr>)"

section \<open>A notification\<close>

definition approval_methods :: "string list" where
  "approval_methods = [''item/commandExecution/requestApproval'',
     ''item/fileChange/requestApproval'', ''item/permissions/requestApproval'',
     ''mcpServer/elicitation/request'']"

definition live_request_id :: "json \<Rightarrow> string option" where
  "live_request_id params =
     Option.bind (find_map (\<lambda>key. json_get key params) [''requestId'', ''request_id'', ''id''])
       (\<lambda>v. or_else (as_str v) (map_option u64_to_string (as_u64 v)))"

definition live_approval ::
  "codex_raw_event \<Rightarrow> string \<Rightarrow> u64 \<Rightarrow> json approval_request option" where
  "live_approval n thread_id created_at =
     (if re_method n \<notin> set approval_methods then None
      else Option.bind (live_request_id (re_params n)) (\<lambda>request_id.
        map_option (\<lambda>a. a\<lparr>ap_raw := None\<rparr>)
          (detect_pending \<lparr>pa_thread_id = thread_id, pa_request_id = request_id,
             pa_method = re_method n, pa_params = re_params n\<rparr> created_at)))"

definition record_live_approval ::
  "codex_raw_event \<Rightarrow> string \<Rightarrow> u64 \<Rightarrow> live_state \<Rightarrow> string option \<times> live_state" where
  "record_live_approval n thread_id created_at s =
     (case live_approval n thread_id created_at of
        None \<Rightarrow> (None, s)
      | Some a \<Rightarrow>
          (Some (ap_id a),
           with_hub (publish (ApprovalRequest a))
             (s\<lparr>lv_approvals := row_upsert ap_id (\<lambda>old new. new) a (lv_approvals s)\<rparr>)))"

definition fresh_snapshot :: "json session_event \<Rightarrow> session_snapshot" where
  "fresh_snapshot e =
     \<lparr>snap_thread_id = ev_thread_id e, snap_title = ev_thread_id e, snap_cwd = None,
      snap_model_provider = None, snap_preview = None, snap_updated_at = ev_created_at e,
      snap_status = Idle, snap_pending_approval_ids = []\<rparr>"

definition live_snapshot ::
  "json session_event \<Rightarrow> session_status option \<Rightarrow> string option \<Rightarrow> session_snapshot
    \<Rightarrow> session_snapshot" where
  "live_snapshot e status approval_id snap =
     snap\<lparr>snap_status := unwrap_or (snap_status snap) status,
       snap_pending_approval_ids :=
         (case approval_id of
            None \<Rightarrow> snap_pending_approval_ids snap
          | Some a \<Rightarrow> if a \<in> set (snap_pending_approval_ids snap)
              then snap_pending_approval_ids snap else snap_pending_approval_ids snap @ [a]),
       snap_updated_at := max (snap_updated_at snap) (ev_created_at e)\<rparr>"

definition update_snapshot_from_live_event ::
  "json session_event \<Rightarrow> string option \<Rightarrow> live_state \<Rightarrow> session_snapshot option \<times> live_state" where
  "update_snapshot_from_live_event e approval_id s =
     (let status = live_status_for_event e in
      if status = None \<and> approval_id = None then (None, s)
      else (let snap = live_snapshot e status approval_id
              (unwrap_or (fresh_snapshot e) (snapshot_for_thread (ev_thread_id e) (hub_of s)))
            in (Some snap, with_hub (set_snapshot snap) s)))"

text \<open>Alerts are best effort: an error of the store or of one dispatch is dropped.\<close>

fun dispatch_each :: "live_env \<Rightarrow> alert_event list \<Rightarrow> json bridge \<Rightarrow> json bridge" where
  "dispatch_each env [] b = b"
| "dispatch_each env (e # es) b =
     dispatch_each env es
       (snd (dispatch (payload_to_json (le_codecs env)) (le_push_now env) (le_push_runtime env) e b))"

definition process_snapshot_alerts :: "live_env \<Rightarrow> session_snapshot \<Rightarrow> live_state \<Rightarrow> live_state" where
  "process_snapshot_alerts env snap s =
     (case observe_thread (le_codecs env) snap (snap_pending_approval_ids snap) (lv_bridge s) of
        (Inl e, b) \<Rightarrow> s\<lparr>lv_bridge := b\<rparr>
      | (Inr evs, b) \<Rightarrow> s\<lparr>lv_bridge := dispatch_each env evs b\<rparr>)"

definition repeats_status :: "json session_event \<Rightarrow> live_state \<Rightarrow> bool" where
  "repeats_status e s \<longleftrightarrow>
     ev_type e = StatusChanged \<and>
     (case (live_status_for_event e, snapshot_for_thread (ev_thread_id e) (hub_of s)) of
        (Some status, Some snap) \<Rightarrow> snap_status snap = status
      | _ \<Rightarrow> False)"

definition update_from_event ::
  "live_env \<Rightarrow> codex_raw_event \<Rightarrow> json session_event \<Rightarrow> live_state \<Rightarrow> live_state" where
  "update_from_event env n e s =
     (case record_live_approval n (ev_thread_id e) (ev_created_at e) s of
        (approval_id, s1) \<Rightarrow>
          (case update_snapshot_from_live_event e approval_id s1 of
             (None, s2) \<Rightarrow> s2
           | (Some snap, s2) \<Rightarrow> process_snapshot_alerts env snap s2))"

definition publish_live_event ::
  "live_env \<Rightarrow> json session_event \<Rightarrow> live_state \<Rightarrow> json session_event option \<times> live_state" where
  "publish_live_event env e s =
     (let s1 = cache_live_adapter_event e s in
      case register_local_assets (le_assets env) e (lv_assets s1) of
        (e1, reg) \<Rightarrow>
          (let e2 = session_event_for_mobile e1
           in (Some e2, publish_session_event e2 (s1\<lparr>lv_assets := reg\<rparr>))))"

definition apply_codex_notification ::
  "live_env \<Rightarrow> codex_raw_event \<Rightarrow> live_state \<Rightarrow> json session_event option \<times> live_state" where
  "apply_codex_notification env n s =
     (case event_from_raw_notification n of
        None \<Rightarrow> (None, s)
      | Some e0 \<Rightarrow>
          if ev_thread_id e0 = [] then (None, s)
          else (let e = (if ev_created_at e0 = 0 then e0\<lparr>ev_created_at := le_now env\<rparr> else e0);
                    suppress = repeats_status e s;
                    s1 = update_from_event env n e s
                in if suppress then (None, s1) else publish_live_event env e s1))"

section \<open>What a notification publishes\<close>

fun hides_raw :: "json published_event \<Rightarrow> bool" where
  "hides_raw (Envelope target (SessionEvent e)) \<longleftrightarrow> json_get ''raw'' (ev_payload e) = None"
| "hides_raw (Envelope target (ApprovalRequest a)) \<longleftrightarrow> ap_raw a = None"
| "hides_raw e \<longleftrightarrow> True"

fun is_session_event :: "json published_event \<Rightarrow> bool" where
  "is_session_event (Envelope target (SessionEvent e)) \<longleftrightarrow> True"
| "is_session_event e \<longleftrightarrow> False"

text \<open>The hub got more events, each with a property.\<close>

definition published_after ::
  "(json published_event \<Rightarrow> bool) \<Rightarrow> json published_event list \<Rightarrow> json bridge \<Rightarrow> bool" where
  "published_after P before b \<longleftrightarrow>
     (\<exists>new. sent (alert_hub b) = before @ new \<and> list_all P new)"

definition quiet :: "json published_event \<Rightarrow> bool" where
  "quiet e \<longleftrightarrow> hides_raw e \<and> \<not> is_session_event e"

lemma published_after_start: "published_after P (sent (alert_hub b)) b"
  by (simp add: published_after_def)

lemma published_after_more:
  assumes "published_after P before b" and "sent (alert_hub b') = sent (alert_hub b) @ [e]" and "P e"
  shows "published_after P before b'"
proof -
  from assms(1) obtain new where "sent (alert_hub b) = before @ new" "list_all P new"
    by (auto simp: published_after_def)
  with assms(2,3) have "sent (alert_hub b') = before @ (new @ [e])" "list_all P (new @ [e])"
    by simp_all
  then show ?thesis unfolding published_after_def by blast
qed

lemma on_store_keeps [maintains_intros]:
  "maintains (published_after P before) (on_notification_store f)"
  by (auto simp: maintains_def on_notification_store_def published_after_def
      split: prod.splits sum.splits)

lemma send_alert_keeps [maintains_intros]:
  "maintains (published_after quiet before) (send_alert did ev)"
  unfolding maintains_def
proof (intro allI impI)
  fix b assume "published_after quiet before b"
  moreover have "sent (alert_hub (snd (send_alert did ev b))) =
      sent (alert_hub b) @ [Envelope (Some did) (AlertEvent ev)]"
    by (simp add: send_alert_def publish_to_device_def hub_send_def)
  ultimately show "published_after quiet before (snd (send_alert did ev b))"
    by (rule published_after_more) (simp add: quiet_def)
qed

lemma enqueue_push_keeps [maintains_intros]:
  "maintains (published_after P before) (enqueue_push to_json now rt st ev forced acc)"
  unfolding enqueue_push_def
proof (intro maintains_intros)
  fix enqueued
  show "maintains (published_after P before)
      (\<lambda>w. (Inr enqueued, if enqueued then w\<lparr>wakes := wakes w + 1\<rparr> else w))"
    by (simp add: maintains_def published_after_def)
qed

lemma dispatch_loop_keeps: "maintains (published_after quiet before) (dispatch_loop tj now rt ev acc sts n)"
  by (induction sts arbitrary: n) (auto intro!: maintains_intros)

lemma dispatch_keeps:
  "published_after quiet before b \<Longrightarrow> published_after quiet before (snd (dispatch tj now rt ev b))"
proof -
  let ?m = "bind_ok (on_notification_store enabled_settings) (\<lambda>sts. dispatch_loop tj now rt ev
      (current_push_access rt b) (filter (\<lambda>st. kind_enabled st (al_kind ev)) sts) 0)"
  assume "published_after quiet before b"
  moreover have "maintains (published_after quiet before) ?m"
    by (intro maintains_intros dispatch_loop_keeps)
  ultimately have "published_after quiet before (snd (?m b))" by (simp add: maintains_def)
  then show ?thesis by (simp add: dispatch_def Let_def)
qed

lemma dispatch_each_keeps:
  "published_after quiet before b \<Longrightarrow> published_after quiet before (dispatch_each env evs b)"
  by (induction evs arbitrary: b) (simp_all add: dispatch_keeps)

lemma observe_keeps: "maintains (published_after P before) (observe_thread c snap native)"
  unfolding observe_thread_def Let_def by (intro maintains_intros)

lemma alerts_keep:
  assumes "published_after quiet before (lv_bridge s)"
  shows "published_after quiet before (lv_bridge (process_snapshot_alerts env snap s))"
proof -
  obtain r b where r: "observe_thread (le_codecs env) snap (snap_pending_approval_ids snap) (lv_bridge s) = (r, b)"
    by fastforce
  have "published_after quiet before b" by (rule maintainsD [OF observe_keeps r assms])
  with r show ?thesis
    by (auto simp: process_snapshot_alerts_def dispatch_each_keeps split: sum.splits)
qed

lemma update_keeps:
  "published_after quiet (sent (hub_of s)) (lv_bridge (update_from_event env n e s))"
proof -
  let ?before = "sent (hub_of s)"
  obtain a s1 where a: "record_live_approval n (ev_thread_id e) (ev_created_at e) s = (a, s1)" by fastforce
  have 0: "published_after quiet ?before (lv_bridge s)" by (simp add: published_after_start hub_of_def)
  have 1: "published_after quiet ?before (lv_bridge s1)"
  proof (cases "live_approval n (ev_thread_id e) (ev_created_at e)")
    case None
    with a 0 show ?thesis by (simp add: record_live_approval_def)
  next
    case (Some ap)
    then have "ap_raw ap = None" by (auto simp: live_approval_def bind_eq_Some_conv split: if_splits)
    then have "quiet (Envelope None (ApprovalRequest ap))" by (simp add: quiet_def)
    from published_after_more [OF 0 _ this, of "lv_bridge s1"] a Some show ?thesis
      by (auto simp: record_live_approval_def with_hub_def publish_def hub_send_def)
  qed
  obtain snap s2 where u: "update_snapshot_from_live_event e a s1 = (snap, s2)" by fastforce
  have 2: "published_after quiet ?before (lv_bridge s2)"
  proof (cases snap)
    case None
    with u 1 show ?thesis by (simp add: update_snapshot_from_live_event_def Let_def split: if_splits)
  next
    case (Some sn)
    with u have "s2 = with_hub (set_snapshot sn) s1"
      by (auto simp: update_snapshot_from_live_event_def Let_def split: if_splits)
    then have "sent (alert_hub (lv_bridge s2)) =
        sent (alert_hub (lv_bridge s1)) @ [Envelope None (SessionSnapshot sn)]"
      by (simp add: with_hub_def set_snapshot_def publish_def hub_send_def)
    from published_after_more [OF 1 this] show ?thesis by (simp add: quiet_def)
  qed
  with a u show ?thesis
    by (cases snap) (simp_all add: update_from_event_def alerts_keep)
qed

definition bounded_history :: "live_state \<Rightarrow> bool" where
  "bounded_history s \<longleftrightarrow>
     (\<forall>t \<in> dom (lv_history s). length (the (lv_history s t)) \<le> EVENT_HISTORY_LIMIT_PER_THREAD)"

lemma update_history [simp]: "lv_history (update_from_event env n e s) = lv_history s"
proof -
  have "lv_history (process_snapshot_alerts env snap s) = lv_history s" for snap s
    by (simp add: process_snapshot_alerts_def split: prod.splits sum.splits)
  moreover have "lv_history (snd (record_live_approval n t c s)) = lv_history s" for t c s
    by (simp add: record_live_approval_def with_hub_def split: option.splits)
  moreover have "lv_history (snd (update_snapshot_from_live_event e a s)) = lv_history s" for a s
    by (simp add: update_snapshot_from_live_event_def with_hub_def Let_def)
  ultimately show ?thesis
    unfolding update_from_event_def by (simp add: case_prod_beta split: option.splits)
qed

lemma push_history_length:
  "length es \<le> EVENT_HISTORY_LIMIT_PER_THREAD \<Longrightarrow>
     length (push_history e es) \<le> EVENT_HISTORY_LIMIT_PER_THREAD"
  by (auto simp: push_history_def EVENT_HISTORY_LIMIT_PER_THREAD_def)

lemma json_remove_absent: "json_get k (json_remove k v) = None"
  by (cases v) (auto simp: map_of_eq_None_iff)

lemma publish_live_exact:
  assumes "publish_live_event env e s = (r, s')"
  shows "\<exists>m. r = Some m \<and> sent (hub_of s') = sent (hub_of s) @ [Envelope None (SessionEvent m)]
    \<and> json_get ''raw'' (ev_payload m) = None
    \<and> (\<exists>t. lv_history s' = (lv_history s)(t \<mapsto> push_history m (unwrap_or [] (lv_history s t))))"
proof -
  obtain e1 reg where r: "register_local_assets (le_assets env) e (lv_assets (cache_live_adapter_event e s)) = (e1, reg)"
    by fastforce
  have c: "lv_bridge (cache_live_adapter_event e s) = lv_bridge s"
    "lv_history (cache_live_adapter_event e s) = lv_history s"
    by (simp_all add: cache_live_adapter_event_def Let_def)
  show ?thesis
    using assms r c
    by (auto simp: publish_live_event_def Let_def publish_session_event_def with_hub_def hub_of_def
        record_session_event_def publish_def hub_send_def session_event_for_mobile_def
        json_remove_absent)
qed

text \<open>
  C17. Whatever notification Codex sends, what the bridge publishes for it holds no raw JSON of Codex:
  the events it sends to devices, at most one session event and last, have no raw payload and the
  approval requests no raw request; and no thread's history of events grows beyond 256.
\<close>

theorem live_publishes_no_raw:
  assumes "apply_codex_notification env n s = (r, s')" and "bounded_history s"
  shows "\<exists>new. sent (hub_of s') = sent (hub_of s) @ new \<and> list_all hides_raw new
    \<and> filter is_session_event new =
        (case r of None \<Rightarrow> [] | Some e \<Rightarrow> [Envelope None (SessionEvent e)])
    \<and> bounded_history s'"
proof -
  have none: ?thesis if "s' = s" "r = None" using that assms(2) by simp
  show ?thesis
  proof (cases "event_from_raw_notification n")
    case None
    with assms(1) none show ?thesis by (simp add: apply_codex_notification_def)
  next
    case (Some e0)
    define e where "e = (if ev_created_at e0 = 0 then e0\<lparr>ev_created_at := le_now env\<rparr> else e0)"
    let ?s1 = "update_from_event env n e s"
    from update_keeps [of s env n e] obtain new where new:
      "sent (hub_of ?s1) = sent (hub_of s) @ new" "list_all quiet new"
      by (auto simp: published_after_def hub_of_def)
    then have q: "list_all hides_raw new" "filter is_session_event new = []"
      by (auto simp: quiet_def list_all_iff filter_empty_conv)
    show ?thesis
    proof (cases "ev_thread_id e0 = []")
      case True
      with Some assms(1) none show ?thesis by (simp add: apply_codex_notification_def)
    next
      case False
      then have run: "(if repeats_status e s then (None, ?s1) else publish_live_event env e ?s1) = (r, s')"
        using Some assms(1) unfolding e_def apply_codex_notification_def Let_def by simp
      show ?thesis
      proof (cases "repeats_status e s")
        case True
        with run have "s' = ?s1" "r = None" by simp_all
        moreover have "bounded_history ?s1" using assms(2) by (simp add: bounded_history_def)
        ultimately show ?thesis using new q by auto
      next
        case False
        with run have "publish_live_event env e ?s1 = (r, s')" by simp
        from publish_live_exact [OF this] obtain m t where m: "r = Some m"
          "sent (hub_of s') = sent (hub_of ?s1) @ [Envelope None (SessionEvent m)]"
          "json_get ''raw'' (ev_payload m) = None"
          "lv_history s' = (lv_history s)(t \<mapsto> push_history m (unwrap_or [] (lv_history s t)))"
          by auto
        have "length (unwrap_or [] (lv_history s t)) \<le> EVENT_HISTORY_LIMIT_PER_THREAD"
          using assms(2) by (cases "lv_history s t") (force simp: bounded_history_def)+
        then have "bounded_history s'"
          using assms(2) push_history_length by (auto simp: bounded_history_def m(4))
        with m new q show ?thesis
          by (intro exI [of _ "new @ [Envelope None (SessionEvent m)]"]) simp
      qed
    qed
  qed
qed

definition quiet_bridge :: "json bridge" where
  "quiet_bridge = \<lparr>store_db = empty_db, alert_hub = new_hub, access = default_access, wakes = 0\<rparr>"

definition first_state :: live_state where
  "first_state = \<lparr>lv_bridge = quiet_bridge, lv_history = Map.empty, lv_caches = Map.empty,
     lv_approvals = [], lv_assets = registry_with_config default_registry_config\<rparr>"

definition plain_env :: live_env where
  "plain_env = \<lparr>le_now = 5, le_assets = (\<lambda>_. (5, ''token'')),
     le_codecs = demo_codecs,
     le_push_now = (\<lambda>_. 5), le_push_runtime = False\<rparr>"

definition delta_note :: codex_raw_event where
  "delta_note = \<lparr>re_method = ''item/agentMessage/delta'',
     re_params = JObject [(''delta'', JString ''hi''), (''threadId'', JString ''th'')]\<rparr>"

theorem live_publishes_no_raw_witness:
  "\<exists>e s'. apply_codex_notification plain_env delta_note first_state = (Some e, s') \<and>
     list_all hides_raw (sent (hub_of s')) \<and> Envelope None (SessionEvent e) \<in> set (sent (hub_of s'))"
proof -
  have ev: "map_option (\<lambda>e. (ev_type e, ev_thread_id e)) (event_from_raw_notification delta_note) =
      Some (MessageDelta, ''th'')"
    by code_simp
  obtain e0 where e0: "event_from_raw_notification delta_note = Some e0" "ev_type e0 = MessageDelta"
    "ev_thread_id e0 = ''th''"
    using ev by (cases "event_from_raw_notification delta_note") auto
  obtain r s' where run: "apply_codex_notification plain_env delta_note first_state = (r, s')"
    by fastforce
  then have "r \<noteq> None"
    using e0 by (auto simp: apply_codex_notification_def repeats_status_def publish_live_event_def Let_def
        split: prod.splits if_splits)
  then obtain e where e: "r = Some e" by auto
  have b: "bounded_history first_state" by (simp add: bounded_history_def first_state_def)
  have h: "sent (hub_of first_state) = []"
    by (simp add: hub_of_def first_state_def quiet_bridge_def new_hub_def hub_with_capacity_def)
  from live_publishes_no_raw [OF run b] h e obtain new where
    "sent (hub_of s') = new" "list_all hides_raw new"
    "filter is_session_event new = [Envelope None (SessionEvent e)]"
    by auto
  moreover have "set (filter is_session_event new) \<subseteq> set new" by auto
  ultimately show ?thesis using run e by auto
qed

text \<open>An attached image without a path has its name put between the characters of every string.\<close>

lemma empty_path_garbles_text:
  "replace_paths (local_image_attachment_replacements (JObject [(''attachments'', JArray
     [JObject [(''name'', JString ''-''), (''path'', JString [])]])])) ''ok'' = ''-o-k-''"
  by code_simp

end
