(* ===== verification/Uploads.thy ===== *)
theory Uploads
  imports Codex_Rpc
begin

text \<open>
  The images a device sends with a message, in \<open>crates/bridge-core/src/http_api.rs\<close>: which are
  accepted, and under which names they are kept; and the content type of an image that is served.
  The base64 decoder, the directory, the fresh file names and the outcome of writing are parameters.
\<close>

definition MAX_UPLOAD_IMAGE_ATTACHMENTS :: nat where
  "MAX_UPLOAD_IMAGE_ATTACHMENTS = 4"

definition MAX_UPLOAD_IMAGE_BYTES :: nat where
  "MAX_UPLOAD_IMAGE_BYTES = 8 * 1024 * 1024"

record incoming_image =
  im_name :: string
  im_mime_type :: string
  im_data_base64 :: string

record stored_image =
  st_name :: string
  st_path :: string

datatype upload_error = UploadBadRequest string | UploadUnsupported string | UploadInternal string

record image_format =
  fmt_mime_type :: string
  fmt_extension :: string

section \<open>Formats\<close>

definition png_magic :: string where
  "png_magic = [CHR 0x89, CHR ''P'', CHR ''N'', CHR ''G'', CHR 0x0D, CHR 0x0A, CHR 0x1A, CHR 0x0A]"

definition image_bytes_match :: "string \<Rightarrow> string \<Rightarrow> bool" where
  "image_bytes_match mime bytes \<longleftrightarrow>
     (if mime = ''image/png'' then starts_with bytes png_magic
      else if mime = ''image/jpeg'' then starts_with bytes [CHR 0xFF, CHR 0xD8, CHR 0xFF]
      else if mime = ''image/gif'' then starts_with bytes ''GIF87a'' \<or> starts_with bytes ''GIF89a''
      else if mime = ''image/webp''
      then 12 \<le> length bytes \<and> starts_with bytes ''RIFF'' \<and> take 4 (drop 8 bytes) = ''WEBP''
      else False)"

definition declared_format :: "string \<Rightarrow> image_format option" where
  "declared_format normalized =
     (if normalized = ''image/png''
      then Some \<lparr>fmt_mime_type = ''image/png'', fmt_extension = ''png''\<rparr>
      else if normalized \<in> set [''image/jpeg'', ''image/jpg'']
      then Some \<lparr>fmt_mime_type = ''image/jpeg'', fmt_extension = ''jpg''\<rparr>
      else if normalized = ''image/gif''
      then Some \<lparr>fmt_mime_type = ''image/gif'', fmt_extension = ''gif''\<rparr>
      else if normalized = ''image/webp''
      then Some \<lparr>fmt_mime_type = ''image/webp'', fmt_extension = ''webp''\<rparr>
      else None)"

definition supported_image_format :: "string \<Rightarrow> string \<Rightarrow> upload_error + image_format" where
  "supported_image_format mime bytes =
     (case declared_format (to_ascii_lowercase (trim (takeWhile (\<lambda>c. c \<noteq> CHR '';'') mime))) of
        None \<Rightarrow> Inl (UploadUnsupported ''unsupported image attachment type'')
      | Some f \<Rightarrow>
          if image_bytes_match (fmt_mime_type f) bytes then Inr f
          else Inl (UploadUnsupported ''image attachment bytes do not match declared type''))"

section \<open>Names\<close>

text \<open>\<open>Path::extension\<close>: what follows the last dot of the file name, if something precedes it.\<close>

definition extension_of :: "string \<Rightarrow> string option" where
  "extension_of path =
     Option.bind (file_name path) (\<lambda>name.
       let after = rev (takeWhile (\<lambda>c. c \<noteq> CHR ''.'') (rev name))
       in if length after + 1 < length name then Some after else None)"

definition display_name_for_attachment :: "string \<Rightarrow> string \<Rightarrow> string" where
  "display_name_for_attachment name fallback_extension =
     (let filename = unwrap_or ''image''
            (option_filter (\<lambda>v. \<not> blank v) (file_name (trim name)))
      in if extension_of filename \<noteq> None then filename
         else filename @ ''.'' @ fallback_extension)"

definition image_content_type :: "string \<Rightarrow> string option" where
  "image_content_type path =
     Option.bind (extension_of path) (\<lambda>e.
       if eq_ignore_ascii_case e ''png'' then Some ''image/png''
       else if eq_ignore_ascii_case e ''jpg'' \<or> eq_ignore_ascii_case e ''jpeg''
       then Some ''image/jpeg''
       else if eq_ignore_ascii_case e ''gif'' then Some ''image/gif''
       else if eq_ignore_ascii_case e ''webp'' then Some ''image/webp''
       else None)"

section \<open>Storing\<close>

text \<open>
  The environment of a request: the decoder, the directory, and for each attachment a fresh name and
  whether the directory could be made and the file written.
\<close>

record upload_env =
  up_decode :: "string \<Rightarrow> string option"
  up_dir :: string
  up_uuid :: "nat \<Rightarrow> string"
  up_dir_ok :: "nat \<Rightarrow> bool"
  up_write_ok :: "nat \<Rightarrow> bool"

definition decode_image_attachment_data :: "upload_env \<Rightarrow> string \<Rightarrow> upload_error + string" where
  "decode_image_attachment_data env data =
     (case up_decode env (trim (case split_once (CHR '','') data of
          None \<Rightarrow> data | Some (_, d) \<Rightarrow> d)) of
        None \<Rightarrow> Inl (UploadBadRequest ''invalid image attachment data'')
      | Some bytes \<Rightarrow> Inr bytes)"

definition store_image :: "upload_env \<Rightarrow> nat \<Rightarrow> incoming_image \<Rightarrow> upload_error + stored_image" where
  "store_image env i a =
     (case decode_image_attachment_data env (im_data_base64 a) of
        Inl e \<Rightarrow> Inl e
      | Inr bytes \<Rightarrow>
          if bytes = [] then Inl (UploadBadRequest ''image attachment is empty'')
          else if MAX_UPLOAD_IMAGE_BYTES < length bytes
          then Inl (UploadBadRequest ''image attachment is too large'')
          else (case supported_image_format (im_mime_type a) bytes of
              Inl e \<Rightarrow> Inl e
            | Inr f \<Rightarrow>
                if \<not> up_dir_ok env i
                then Inl (UploadInternal ''failed to prepare image attachment storage'')
                else if \<not> up_write_ok env i
                then Inl (UploadInternal ''failed to store image attachment'')
                else Inr
                  \<lparr>st_name = display_name_for_attachment (im_name a) (fmt_extension f),
                   st_path = up_dir env @ ''/'' @ up_uuid env i @ ''.'' @ fmt_extension f\<rparr>))"

fun store_images ::
  "upload_env \<Rightarrow> nat \<Rightarrow> incoming_image list \<Rightarrow> upload_error + stored_image list" where
  "store_images env i [] = Inr []"
| "store_images env i (a # as) =
     (case store_image env i a of
        Inl e \<Rightarrow> Inl e
      | Inr s \<Rightarrow> (case store_images env (Suc i) as of Inl e \<Rightarrow> Inl e | Inr ss \<Rightarrow> Inr (s # ss)))"

definition store_incoming_image_attachments ::
  "upload_env \<Rightarrow> incoming_image list \<Rightarrow> upload_error + stored_image list" where
  "store_incoming_image_attachments env as =
     (if MAX_UPLOAD_IMAGE_ATTACHMENTS < length as
      then Inl (UploadBadRequest ''too many image attachments'')
      else store_images env 0 as)"

definition codex_image_attachments :: "stored_image list \<Rightarrow> user_image_attachment list" where
  "codex_image_attachments as = map (\<lambda>a. \<lparr>ia_path = st_path a\<rparr>) as"

section \<open>The text of a new session\<close>

definition preview_text :: "string \<Rightarrow> stored_image list \<Rightarrow> string" where
  "preview_text text as =
     (if \<not> blank text then text
      else if length as = 1 then ''Image: '' @ st_name (hd as)
      else decimal (length as) @ '' images from phone'')"

text \<open>\<open>str::lines\<close>: the parts between newlines, without a carriage return before one.\<close>

definition text_lines :: "string \<Rightarrow> string list" where
  "text_lines text =
     (let parts = split_on (\<lambda>c. c = CHR 0x0A) text;
          strip = (\<lambda>l. if l \<noteq> [] \<and> last l = CHR 0x0D then butlast l else l)
      in if last parts = [] then map strip (butlast parts)
         else map strip (butlast parts) @ [last parts])"

definition session_title_from_text :: "string \<Rightarrow> string" where
  "session_title_from_text text =
     (let title = trim (unwrap_or text (find (\<lambda>line. \<not> blank line) (text_lines text)));
          cs = utf8_chars title
      in if length cs \<le> 80 then title else concat (take 80 cs) @ ''...'')"

section \<open>What is stored\<close>

text \<open>Only images whose bytes are of their type are kept, under a name with that type's extension.\<close>

lemma stored_image_typed:
  assumes "store_image env i a = Inr s"
  shows "\<exists>(f :: image_format) bytes. up_decode env (trim (case split_once (CHR '','') (im_data_base64 a) of
      None \<Rightarrow> im_data_base64 a | Some (_, d) \<Rightarrow> d)) = Some bytes
    \<and> image_bytes_match (fmt_mime_type f) bytes \<and> length bytes \<le> MAX_UPLOAD_IMAGE_BYTES
    \<and> st_path s = up_dir env @ ''/'' @ up_uuid env i @ ''.'' @ fmt_extension f"
proof -
  obtain bytes where b: "decode_image_attachment_data env (im_data_base64 a) = Inr bytes"
    using assms by (auto simp: store_image_def split: sum.splits)
  obtain f where f: "supported_image_format (im_mime_type a) bytes = Inr f"
    using assms b by (auto simp: store_image_def split: sum.splits if_splits)
  have "image_bytes_match (fmt_mime_type f) bytes"
    using f by (auto simp: supported_image_format_def split: option.splits if_splits)
  moreover have "up_decode env (trim (case split_once (CHR '','') (im_data_base64 a) of
      None \<Rightarrow> im_data_base64 a | Some (_, d) \<Rightarrow> d)) = Some bytes"
    using b by (auto simp: decode_image_attachment_data_def split: option.splits if_splits)
  moreover have "length bytes \<le> MAX_UPLOAD_IMAGE_BYTES"
    using assms b by (auto simp: store_image_def split: if_splits)
  moreover have "st_path s = up_dir env @ ''/'' @ up_uuid env i @ ''.'' @ fmt_extension f"
    using assms b f by (auto simp: store_image_def split: if_splits)
  ultimately show ?thesis by blast
qed

end
