(* ===== verification/Supervised_Process.thy ===== *)
theory Supervised_Process
  imports Rust_Text
begin

text \<open>
  What the process managers of \<open>crates/desktop-core/src\<close> share: the loops that poll a child process
  until it answers, ends or is late, and the contract that a manager keeps at most one process of its
  own running. Also the library functions on paths, numbers and durations that they use. Times are
  natural numbers of milliseconds.
\<close>

section \<open>Polling\<close>

text \<open>
  A loop whose body in turn \<open>i\<close> returns a value or goes on. A loop that never returns is \<open>None\<close>.
\<close>

partial_function (option) poll_loop :: "(nat \<Rightarrow> 'r option) \<Rightarrow> nat \<Rightarrow> 'r option" where
  "poll_loop body i =
     (case body i of Some r \<Rightarrow> Some r | None \<Rightarrow> poll_loop body (Suc i))"

lemma poll_loop_now: "body i = Some r \<Longrightarrow> poll_loop body i = Some r"
  by (subst poll_loop.simps) simp

lemma poll_loop_next: "body i = None \<Longrightarrow> poll_loop body i = poll_loop body (Suc i)"
  by (subst poll_loop.simps) simp

lemma poll_loop_at:
  assumes "body k = Some r" and "i \<le> k" and "\<forall>j. i \<le> j \<longrightarrow> j < k \<longrightarrow> body j = None"
  shows "poll_loop body i = Some r"
  using assms
proof (induction "k - i" arbitrary: i)
  case (Suc d)
  then have "body i = None" "Suc i \<le> k" "d = k - Suc i" by auto
  with Suc show ?case by (simp add: poll_loop_next)
qed (simp add: poll_loop_now)

lemma poll_loop_first:
  assumes "body k = Some r" and "i \<le> k"
  shows "\<exists>j s. i \<le> j \<and> j \<le> k \<and> body j = Some s \<and> poll_loop body i = Some s
    \<and> (\<forall>m. i \<le> m \<longrightarrow> m < j \<longrightarrow> body m = None)"
proof -
  let ?P = "\<lambda>j. i \<le> j \<and> body j \<noteq> None"
  have k: "?P k" using assms by simp
  define j where "j = (LEAST j. ?P j)"
  have j: "?P j" unfolding j_def using k by (rule LeastI)
  have "j \<le> k" unfolding j_def using k by (rule Least_le)
  moreover have least: "body m = None" if "i \<le> m" "m < j" for m
    using that not_less_Least unfolding j_def by blast
  moreover obtain s where "body j = Some s" using j by auto
  ultimately show ?thesis using j poll_loop_at [of body j s i] by blast
qed

lemma poll_loop_returns: "body k \<noteq> None \<Longrightarrow> i \<le> k \<Longrightarrow> poll_loop body i \<noteq> None"
  using poll_loop_first [of body k _ i] by fastforce

lemma poll_loop_never:
  assumes "\<forall>j. i \<le> j \<longrightarrow> body j = None"
  shows "poll_loop body i = None"
proof -
  have "\<exists>j \<ge> i. body j \<noteq> None" if "poll_loop body i = Some r" for r
  proof (rule poll_loop.raw_induct [where P = "\<lambda>b i r. \<exists>j \<ge> i. b j \<noteq> None", OF _ that])
    fix poll :: "(nat \<Rightarrow> 'a option) \<Rightarrow> nat \<Rightarrow> 'a option" and b i r
    assume hyp: "\<And>b i r. poll b i = Some r \<Longrightarrow> \<exists>j \<ge> i. b j \<noteq> None"
      and run: "(case b i of None \<Rightarrow> poll b (Suc i) | Some x \<Rightarrow> Some x) = Some r"
    show "\<exists>j \<ge> i. b j \<noteq> None"
    proof (cases "b i")
      case None
      with run have "\<exists>j \<ge> Suc i. b j \<noteq> None" by (intro hyp [of b "Suc i" r]) simp
      then show ?thesis by (auto dest: Suc_leD)
    qed auto
  qed
  with assms show ?thesis by (cases "poll_loop body i") auto
qed

text \<open>The value a loop returns is that of the first turn that gives one.\<close>

lemma poll_loop_Some_iff:
  "poll_loop body i = Some r \<longleftrightarrow>
     (\<exists>k \<ge> i. body k = Some r \<and> (\<forall>j. i \<le> j \<longrightarrow> j < k \<longrightarrow> body j = None))"
proof
  assume run: "poll_loop body i = Some r"
  then obtain k where k: "i \<le> k" "body k \<noteq> None" using poll_loop_never [of i body] by fastforce
  then obtain s where "body k = Some s" by auto
  from poll_loop_first [of body k s i, OF this k(1)] run
  show "\<exists>k \<ge> i. body k = Some r \<and> (\<forall>j. i \<le> j \<longrightarrow> j < k \<longrightarrow> body j = None)" by auto
qed (blast intro: poll_loop_at)

lemma poll_loop_only:
  assumes "\<And>j. body j \<in> {None, Some r}" and "body k \<noteq> None"
  shows "poll_loop body 0 = Some r"
proof -
  have "poll_loop body 0 \<noteq> None" using poll_loop_returns [of body k 0] assms(2) by simp
  then obtain s where s: "poll_loop body 0 = Some s" by auto
  then obtain j where "body j = Some s" unfolding poll_loop_Some_iff by blast
  with assms(1) [of j] s show ?thesis by simp
qed

section \<open>One process of its own\<close>

text \<open>The states that a relation reaches from the states it starts in.\<close>

inductive reached :: "('s \<Rightarrow> bool) \<Rightarrow> ('s \<Rightarrow> 's \<Rightarrow> bool) \<Rightarrow> 's \<Rightarrow> bool"
  for begins moves where
  reached_start: "begins s \<Longrightarrow> reached begins moves s"
| reached_step: "reached begins moves s \<Longrightarrow> moves s s' \<Longrightarrow> reached begins moves s'"

text \<open>
  A manager holds the process it watches, if any; \<open>alive\<close> are the processes it ever started that it
  has neither ended nor seen ended. Its contract: it starts with none, and whatever it does the only
  one alive is the one it holds.
\<close>

locale supervisor =
  fixes begins :: "'s \<Rightarrow> bool"
    and moves :: "'s \<Rightarrow> 's \<Rightarrow> bool"
    and held :: "'s \<Rightarrow> nat option"
    and alive :: "'s \<Rightarrow> nat set"
    and inv :: "'s \<Rightarrow> bool"
  assumes begins_inv: "begins s \<Longrightarrow> inv s"
    and begins_alone: "begins s \<Longrightarrow> alive s = {}"
    and moves_inv: "inv s \<Longrightarrow> moves s s' \<Longrightarrow> inv s'"
    and moves_alone: "inv s \<Longrightarrow> alive s \<subseteq> set_option (held s) \<Longrightarrow> moves s s' \<Longrightarrow>
      alive s' \<subseteq> set_option (held s')"
begin

lemma reached_inv: "reached begins moves s \<Longrightarrow> inv s \<and> alive s \<subseteq> set_option (held s)"
  by (induction rule: reached.induct)
    (use begins_inv begins_alone moves_inv moves_alone in blast)+

lemma one_alive: "reached begins moves s \<Longrightarrow> finite (alive s) \<and> card (alive s) \<le> 1"
proof -
  assume "reached begins moves s"
  then have "alive s \<subseteq> set_option (held s)" by (simp add: reached_inv)
  moreover have "finite (set_option (held s))" "card (set_option (held s)) \<le> 1"
    by (cases "held s"; simp)+
  ultimately show ?thesis by (meson card_mono finite_subset le_trans)
qed

lemma none_alive: "reached begins moves s \<Longrightarrow> held s = None \<Longrightarrow> alive s = {}"
  using reached_inv by fastforce

end

section \<open>Library functions\<close>

text \<open>\<open>trim_end_matches\<close> for a character of one byte.\<close>

definition trim_end_char :: "char \<Rightarrow> string \<Rightarrow> string" where
  "trim_end_char c s = rev (dropWhile (\<lambda>x. x = c) (rev s))"

text \<open>\<open>Path::join\<close>.\<close>

definition path_join :: "string \<Rightarrow> string \<Rightarrow> string" where
  "path_join base p =
     (if is_absolute_path p then p
      else if base = [] \<or> last base = CHR ''/'' then base @ p else base @ ''/'' @ p)"

text \<open>
  \<open>Path::parent\<close>: the path without its last component, nor separators and dots before it; an empty
  path and the root have none.
\<close>

fun without_end_rev :: "string \<Rightarrow> string" where
  "without_end_rev (a # b # cs) =
     (if a = CHR ''/'' then without_end_rev (b # cs)
      else if a = CHR ''.'' \<and> b = CHR ''/'' then without_end_rev (b # cs)
      else a # b # cs)"
| "without_end_rev [a] = (if a = CHR ''/'' then [] else [a])"
| "without_end_rev [] = []"

definition without_end :: "string \<Rightarrow> string" where
  "without_end p = rev (without_end_rev (rev p))"

definition path_parent :: "string \<Rightarrow> string option" where
  "path_parent p =
     (let q = without_end p;
          rest = rev (dropWhile (\<lambda>c. c \<noteq> CHR ''/'') (rev q))
      in if q = [] then None
         else if rest \<noteq> [] \<and> without_end rest = [] then Some ''/'' else Some (without_end rest))"

text \<open>The \<open>Debug\<close> text of a duration of whole milliseconds.\<close>

definition fraction_digits :: "nat \<Rightarrow> string" where
  "fraction_digits ms =
     rev (dropWhile (\<lambda>c. c = CHR ''0'') (rev
       (map digit_char [ms div 100, ms div 10 mod 10, ms mod 10])))"

definition duration_debug :: "nat \<Rightarrow> string" where
  "duration_debug ms =
     (if ms = 0 then ''0ns''
      else if ms < 1000 then decimal ms @ ''ms''
      else decimal (ms div 1000)
        @ (if ms mod 1000 = 0 then [] else ''.'' @ fraction_digits (ms mod 1000)) @ ''s'')"

lemma path_parent_examples:
  "path_parent ''/Apps/B.app/Contents/MacOS/shell'' = Some ''/Apps/B.app/Contents/MacOS''"
  "path_parent ''/a'' = Some ''/''" "path_parent ''/'' = None" "path_parent ''a/./'' = Some []"
  by code_simp+

lemma duration_examples:
  "duration_debug 20000 = ''20s''" "duration_debug 1050 = ''1.05s''" "duration_debug 300 = ''300ms''"
proof -
  have "decimal 20 = ''20''" "decimal 1 = ''1''" "decimal 300 = ''300''" "fraction_digits 50 = ''05''"
    by code_simp+
  then show "duration_debug 20000 = ''20s''" "duration_debug 1050 = ''1.05s''"
    "duration_debug 300 = ''300ms''"
    by (simp_all add: duration_debug_def)
qed

end
