(* ===== verification/Quick_Tunnel.thy ===== *)
theory Quick_Tunnel
  imports Supervised_Process
begin

text \<open>
  The quick tunnel, \<open>crates/desktop-core/src/tunnel.rs\<close>: the manager starts cloudflared, reads the
  public address from its output, waits until the bridge answers there, and watches both. Processes
  are numbers. What the operating system, cloudflared and the clock answer is an argument of each
  operation: one tick for each turn of a loop. \<open>qt_live\<close> is not a field of the code: it holds the
  processes the manager started and has neither killed, dropped (\<open>kill_on_drop\<close>) nor seen ended.
\<close>

section \<open>Data\<close>

definition DEFAULT_TUNNEL_STARTUP_TIMEOUT :: nat where
  "DEFAULT_TUNNEL_STARTUP_TIMEOUT = 20000"

definition DEFAULT_TUNNEL_POLL_INTERVAL :: nat where
  "DEFAULT_TUNNEL_POLL_INTERVAL = 100"

definition TUNNEL_HEALTH_FAILURES_BEFORE_ROTATE :: u32 where
  "TUNNEL_HEALTH_FAILURES_BEFORE_ROTATE = 3"

definition LOCAL_URL_PLACEHOLDER :: string where
  "LOCAL_URL_PLACEHOLDER = ''{local_url}''"

datatype tunnel_status =
  TunnelStopped | TunnelStarting | TunnelReady | TunnelReconnecting | TunnelFailed | TunnelStopping

record tunnel_session =
  ts_id :: string
  ts_local_url :: string
  ts_public_url :: string
  ts_started_at :: u64

record tunnel_snapshot =
  tsn_status :: tunnel_status
  tsn_session :: "tunnel_session option"
  tsn_detail :: "string option"

record quick_tunnel_config =
  qc_binary :: string
  qc_args_template :: "string list"
  qc_startup_timeout :: nat
  qc_poll_interval :: nat

datatype tunnel_error =
    TunnelAlreadyRunning
  | TunnelNotRunning
  | TunnelSpawn string
  | TunnelOutput string
  | TunnelChildExited string
  | TunnelPublicUrlTimeout nat
  | TunnelPublicHealthTimeout nat string

fun tunnel_error_text :: "tunnel_error \<Rightarrow> string" where
  "tunnel_error_text TunnelAlreadyRunning = ''tunnel is already running''"
| "tunnel_error_text TunnelNotRunning = ''tunnel is not running''"
| "tunnel_error_text (TunnelSpawn e) = ''failed to spawn tunnel provider: '' @ e"
| "tunnel_error_text (TunnelOutput e) = ''failed to read tunnel provider output: '' @ e"
| "tunnel_error_text (TunnelChildExited s) =
     ''tunnel provider exited before a public URL was available: '' @ s"
| "tunnel_error_text (TunnelPublicUrlTimeout d) =
     ''tunnel provider did not print a trycloudflare.com URL within '' @ duration_debug d"
| "tunnel_error_text (TunnelPublicHealthTimeout d e) =
     ''public tunnel health did not become ready within '' @ duration_debug d @ '': '' @ e"

record quick_tunnel =
  qt_config :: quick_tunnel_config
  qt_status :: tunnel_status
  qt_session :: "tunnel_session option"
  qt_detail :: "string option"
  qt_child :: "nat option"
  qt_failures :: u32
  qt_live :: "nat set"

definition new_tunnel :: "quick_tunnel_config \<Rightarrow> quick_tunnel" where
  "new_tunnel config =
     \<lparr>qt_config = config, qt_status = TunnelStopped, qt_session = None, qt_detail = None,
      qt_child = None, qt_failures = 0, qt_live = {}\<rparr>"

section \<open>The program that is started\<close>

definition choose_tunnel_binary ::
  "(string \<Rightarrow> bool) \<Rightarrow> string option \<Rightarrow> string list \<Rightarrow> string" where
  "choose_tunnel_binary is_file env_path common_paths =
     (case env_path of
        Some path \<Rightarrow> path
      | None \<Rightarrow> (case find is_file common_paths of Some p \<Rightarrow> p | None \<Rightarrow> ''cloudflared''))"

definition bundled_tunnel_binary_from_exe :: "string \<Rightarrow> string option" where
  "bundled_tunnel_binary_from_exe current_exe =
     map_option (\<lambda>dir. path_join dir ''Resources/bin/cloudflared'')
       (Option.bind (path_parent current_exe) path_parent)"

definition default_tunnel_binary_candidates :: "string option \<Rightarrow> string list" where
  "default_tunnel_binary_candidates current_exe =
     (case Option.bind current_exe bundled_tunnel_binary_from_exe of
        None \<Rightarrow> []
      | Some bundled \<Rightarrow> [bundled])
     @ [''/opt/homebrew/bin/cloudflared'', ''/usr/local/bin/cloudflared'']"

definition default_tunnel_config ::
  "(string \<Rightarrow> bool) \<Rightarrow> string option \<Rightarrow> string option \<Rightarrow> quick_tunnel_config" where
  "default_tunnel_config is_file env_path current_exe =
     \<lparr>qc_binary = choose_tunnel_binary is_file env_path
        (default_tunnel_binary_candidates current_exe),
      qc_args_template = [''tunnel'', ''--url'', LOCAL_URL_PLACEHOLDER, ''--no-autoupdate''],
      qc_startup_timeout = DEFAULT_TUNNEL_STARTUP_TIMEOUT,
      qc_poll_interval = DEFAULT_TUNNEL_POLL_INTERVAL\<rparr>"

definition launch_args :: "quick_tunnel_config \<Rightarrow> string \<Rightarrow> string list" where
  "launch_args config local_url =
     (let template = qc_args_template config;
          replaced = LOCAL_URL_PLACEHOLDER \<in> set template;
          args = map (\<lambda>arg. if arg = LOCAL_URL_PLACEHOLDER then local_url
                            else str_replace LOCAL_URL_PLACEHOLDER local_url arg) template
      in if \<not> replaced \<and> \<not> list_ex (\<lambda>arg. contains arg LOCAL_URL_PLACEHOLDER) template
         then args @ [local_url] else args)"

section \<open>The address in the output\<close>

definition splits_url :: "scalar \<Rightarrow> bool" where
  "splits_url c \<longleftrightarrow>
     is_whitespace c \<or>
     c \<in> set (map (\<lambda>x. [x]) ([CHR 0x22, CHR 0x27] @ ''<>()[]{}''))"

definition ends_url :: "scalar \<Rightarrow> bool" where
  "ends_url c \<longleftrightarrow> c \<in> set (map (\<lambda>x. [x]) '',.;:!?'')"

definition is_tunnel_url :: "string \<Rightarrow> bool" where
  "is_tunnel_url u \<longleftrightarrow>
     starts_with u ''https://'' \<and>
     (ends_with u ''.trycloudflare.com'' \<or> contains u ''.trycloudflare.com/'')"

definition trim_url :: "scalar list \<Rightarrow> string" where
  "trim_url cs = concat (rev (dropWhile ends_url (rev (dropWhile ends_url cs))))"

definition parse_quick_tunnel_url :: "string \<Rightarrow> string option" where
  "parse_quick_tunnel_url line =
     find is_tunnel_url (map trim_url (split_on splits_url (utf8_chars line)))"

section \<open>Waiting\<close>

text \<open>What \<open>try_wait\<close> answers: an I/O error, or the text of the exit status if the process ended.\<close>

type_synonym try_wait = "string + string option"

datatype tunnel_output = OutLine string | OutError string | OutClosed | OutTimedOut

record url_tick =
  ut_wait :: try_wait
  ut_now :: nat
  ut_output :: tunnel_output

definition public_url_turn ::
  "quick_tunnel_config \<Rightarrow> nat \<Rightarrow> url_tick \<Rightarrow> (tunnel_error + string) option" where
  "public_url_turn config deadline t =
     (case ut_wait t of
        Inl e \<Rightarrow> Some (Inl (TunnelSpawn e))
      | Inr (Some status) \<Rightarrow> Some (Inl (TunnelChildExited status))
      | Inr None \<Rightarrow>
          if deadline \<le> ut_now t
          then Some (Inl (TunnelPublicUrlTimeout (qc_startup_timeout config)))
          else (case ut_output t of
              OutLine line \<Rightarrow> map_option Inr (parse_quick_tunnel_url line)
            | OutError e \<Rightarrow> Some (Inl (TunnelOutput e))
            | OutClosed \<Rightarrow> None
            | OutTimedOut \<Rightarrow> None))"

definition wait_for_public_url ::
  "quick_tunnel_config \<Rightarrow> nat \<Rightarrow> (nat \<Rightarrow> url_tick) \<Rightarrow> (tunnel_error + string) option" where
  "wait_for_public_url config started ticks =
     poll_loop (\<lambda>i. public_url_turn config (started + qc_startup_timeout config) (ticks i)) 0"

text \<open>The health check: the status of the answer with its text, or the error of the request.\<close>

definition http_tunnel_check :: "(string \<Rightarrow> string + u16 \<times> string) \<Rightarrow> string \<Rightarrow> string + unit" where
  "http_tunnel_check get public_url =
     (let health_url = trim_end_char (CHR ''/'') public_url @ ''/api/health'' in
      case get health_url of
        Inl error \<Rightarrow> Inl (health_url @ '': '' @ error)
      | Inr (code, text) \<Rightarrow>
          if 200 \<le> code \<and> code < 300 then Inr () else Inl (health_url @ '' returned '' @ text))"

record health_tick =
  ht_wait :: try_wait
  ht_check :: "string \<Rightarrow> string + unit"
  ht_now :: nat

definition public_health_turn ::
  "quick_tunnel_config \<Rightarrow> nat \<Rightarrow> string \<Rightarrow> health_tick \<Rightarrow> (tunnel_error + unit) option" where
  "public_health_turn config deadline public_url t =
     (case ht_wait t of
        Inl e \<Rightarrow> Some (Inl (TunnelSpawn e))
      | Inr (Some status) \<Rightarrow> Some (Inl (TunnelChildExited status))
      | Inr None \<Rightarrow>
          (case ht_check t public_url of
             Inr _ \<Rightarrow> Some (Inr ())
           | Inl error \<Rightarrow>
               if deadline \<le> ht_now t
               then Some (Inl (TunnelPublicHealthTimeout (qc_startup_timeout config) error))
               else None))"

definition wait_for_public_health ::
  "quick_tunnel_config \<Rightarrow> nat \<Rightarrow> (nat \<Rightarrow> health_tick) \<Rightarrow> string \<Rightarrow> (tunnel_error + unit) option" where
  "wait_for_public_health config started ticks public_url =
     poll_loop (\<lambda>i. public_health_turn config (started + qc_startup_timeout config) public_url
       (ticks i)) 0"

section \<open>Operations\<close>

definition tunnel_snapshot_of :: "quick_tunnel \<Rightarrow> tunnel_snapshot" where
  "tunnel_snapshot_of m =
     \<lparr>tsn_status = qt_status m, tsn_session = qt_session m, tsn_detail = qt_detail m\<rparr>"

definition set_tunnel_state ::
  "tunnel_status \<Rightarrow> tunnel_session option \<Rightarrow> string option \<Rightarrow> quick_tunnel \<Rightarrow> quick_tunnel" where
  "set_tunnel_state st session detail m =
     m\<lparr>qt_status := st, qt_session := session, qt_detail := detail\<rparr>"

text \<open>The manager lets its process go: it is killed, or it ended before.\<close>

definition drop_child :: "quick_tunnel \<Rightarrow> quick_tunnel" where
  "drop_child m = m\<lparr>qt_child := None, qt_live := qt_live m - set_option (qt_child m)\<rparr>"

definition reconcile_child_status :: "try_wait \<Rightarrow> quick_tunnel \<Rightarrow> quick_tunnel" where
  "reconcile_child_status w m =
     (case (qt_child m, w) of
        (Some pid, Inr (Some status)) \<Rightarrow>
          (set_tunnel_state TunnelFailed None (Some (''tunnel provider exited: '' @ status))
             (drop_child m))\<lparr>qt_failures := 0\<rparr>
      | _ \<Rightarrow> m)"

definition tunnel_status_op :: "try_wait \<Rightarrow> quick_tunnel \<Rightarrow> tunnel_snapshot \<times> quick_tunnel" where
  "tunnel_status_op w m =
     (let m1 = reconcile_child_status w m in (tunnel_snapshot_of m1, m1))"

definition rotate_guidance :: string where
  "rotate_guidance =
     ''Use '' @ [CHR 0xE6, CHR 0x8D, CHR 0xA2, CHR 0xE9, CHR 0x93, CHR 0xBE, CHR 0xE6, CHR 0x8E, CHR 0xA5]
       @ '' if the connection does not recover.''"

definition checked_health :: "string + unit \<Rightarrow> quick_tunnel \<Rightarrow> quick_tunnel" where
  "checked_health answer m =
     (case answer of
        Inr _ \<Rightarrow> m\<lparr>qt_failures := 0, qt_status := TunnelReady, qt_detail := None\<rparr>
      | Inl error \<Rightarrow>
          (let n = saturating_add (qt_failures m) 1;
               guidance = (if TUNNEL_HEALTH_FAILURES_BEFORE_ROTATE \<le> n then rotate_guidance
                           else ''Retrying automatically.'')
           in m\<lparr>qt_failures := n, qt_status := TunnelReconnecting,
                qt_detail := Some (''public tunnel health check failed ('' @ decimal (unat n) @ ''/''
                  @ decimal (unat TUNNEL_HEALTH_FAILURES_BEFORE_ROTATE) @ ''): '' @ error @ ''. ''
                  @ guidance)\<rparr>))"

definition refresh_tunnel_status ::
  "try_wait \<Rightarrow> (string \<Rightarrow> string + unit) \<Rightarrow> quick_tunnel \<Rightarrow> tunnel_snapshot \<times> quick_tunnel" where
  "refresh_tunnel_status w check m =
     (let m1 = reconcile_child_status w m in
      if qt_child m1 = None \<or> qt_status m1 \<notin> {TunnelReady, TunnelReconnecting}
      then (tunnel_snapshot_of m1, m1)
      else (case qt_session m1 of
          None \<Rightarrow> (tunnel_snapshot_of m1, m1)
        | Some s \<Rightarrow>
            (let m2 = checked_health (check (ts_public_url s)) m1 in (tunnel_snapshot_of m2, m2))))"

text \<open>A process that \<open>try_wait\<close> saw end is not running any more.\<close>

definition running_child :: "try_wait \<Rightarrow> quick_tunnel \<Rightarrow> (tunnel_error + bool) \<times> quick_tunnel" where
  "running_child w m =
     (case qt_child m of
        None \<Rightarrow> (Inr False, m)
      | Some pid \<Rightarrow>
          (case w of
             Inl e \<Rightarrow> (Inl (TunnelSpawn e), m)
           | Inr None \<Rightarrow> (Inr True, m)
           | Inr (Some status) \<Rightarrow> (Inr False, m\<lparr>qt_live := qt_live m - {pid}\<rparr>)))"

record tunnel_start =
  st_running :: try_wait
  st_spawn :: "string \<Rightarrow> string list \<Rightarrow> string + nat"
  st_url_started :: nat
  st_url_ticks :: "nat \<Rightarrow> url_tick"
  st_health_started :: nat
  st_health_ticks :: "nat \<Rightarrow> health_tick"
  st_uuid :: string
  st_time :: u64

definition fail_tunnel_start ::
  "nat \<Rightarrow> tunnel_error \<Rightarrow> quick_tunnel \<Rightarrow> (tunnel_error + tunnel_snapshot) \<times> quick_tunnel" where
  "fail_tunnel_start pid e m =
     (Inl e, (set_tunnel_state TunnelFailed None (Some (tunnel_error_text e)) m)
        \<lparr>qt_failures := 0, qt_live := qt_live m - {pid}\<rparr>)"

text \<open>The part of \<open>start\<close> after the process was spawned.\<close>

definition await_tunnel ::
  "tunnel_start \<Rightarrow> string \<Rightarrow> nat \<Rightarrow> quick_tunnel
    \<Rightarrow> ((tunnel_error + tunnel_snapshot) \<times> quick_tunnel) option" where
  "await_tunnel env local_url pid m =
     (case wait_for_public_url (qt_config m) (st_url_started env) (st_url_ticks env) of
        None \<Rightarrow> None
      | Some (Inl e) \<Rightarrow> Some (fail_tunnel_start pid e m)
      | Some (Inr public_url) \<Rightarrow>
          (case wait_for_public_health (qt_config m) (st_health_started env) (st_health_ticks env)
              public_url of
             None \<Rightarrow> None
           | Some (Inl e) \<Rightarrow> Some (fail_tunnel_start pid e m)
           | Some (Inr _) \<Rightarrow>
               (let session = \<lparr>ts_id = st_uuid env, ts_local_url = local_url,
                      ts_public_url = public_url, ts_started_at = st_time env\<rparr>;
                    m1 = (set_tunnel_state TunnelReady (Some session) None m)
                      \<lparr>qt_failures := 0, qt_child := Some pid\<rparr>
                in Some (Inr (tunnel_snapshot_of m1), m1))))"

definition launch_tunnel ::
  "tunnel_start \<Rightarrow> string \<Rightarrow> quick_tunnel
    \<Rightarrow> ((tunnel_error + tunnel_snapshot) \<times> quick_tunnel) option" where
  "launch_tunnel env local_url m =
     (case st_spawn env (qc_binary (qt_config m)) (launch_args (qt_config m) local_url) of
        Inl e \<Rightarrow> Some (Inl (TunnelSpawn e),
          set_tunnel_state TunnelFailed None (Some (tunnel_error_text (TunnelSpawn e))) m)
      | Inr pid \<Rightarrow> await_tunnel env local_url pid (m\<lparr>qt_live := insert pid (qt_live m)\<rparr>))"

definition start_tunnel ::
  "tunnel_start \<Rightarrow> string \<Rightarrow> quick_tunnel
    \<Rightarrow> ((tunnel_error + tunnel_snapshot) \<times> quick_tunnel) option" where
  "start_tunnel env local_url m =
     (case running_child (st_running env) m of
        (Inl e, m1) \<Rightarrow> Some (Inl e, m1)
      | (Inr True, m1) \<Rightarrow> Some (Inl TunnelAlreadyRunning, m1)
      | (Inr False, m1) \<Rightarrow> launch_tunnel env local_url
          ((set_tunnel_state TunnelStarting None None (drop_child m1))\<lparr>qt_failures := 0\<rparr>))"

definition stop_tunnel :: "quick_tunnel \<Rightarrow> tunnel_snapshot \<times> quick_tunnel" where
  "stop_tunnel m =
     (let m1 = (set_tunnel_state TunnelStopped None None
            (drop_child (m\<lparr>qt_status := TunnelStopping\<rparr>)))\<lparr>qt_failures := 0\<rparr>
      in (tunnel_snapshot_of m1, m1))"

text \<open>\<open>terminate_now\<close> sends the signal and does not wait; what it leaves is the same.\<close>

definition terminate_tunnel_now :: "quick_tunnel \<Rightarrow> tunnel_snapshot \<times> quick_tunnel" where
  "terminate_tunnel_now m =
     (let m1 = (set_tunnel_state TunnelStopped None None
            (drop_child (m\<lparr>qt_status := TunnelStopping\<rparr>)))\<lparr>qt_failures := 0\<rparr>
      in (tunnel_snapshot_of m1, m1))"

definition rotate_tunnel ::
  "tunnel_start \<Rightarrow> quick_tunnel \<Rightarrow> ((tunnel_error + tunnel_snapshot) \<times> quick_tunnel) option" where
  "rotate_tunnel env m =
     (case map_option ts_local_url (qt_session m) of
        None \<Rightarrow> Some (Inl TunnelNotRunning, m)
      | Some local_url \<Rightarrow> start_tunnel env local_url (snd (stop_tunnel m)))"

section \<open>The manager never leaves a process behind\<close>

text \<open>A move of the manager is one of its operations, or a process that ends by itself.\<close>

inductive tunnel_move :: "quick_tunnel \<Rightarrow> quick_tunnel \<Rightarrow> bool" where
  move_status: "tunnel_status_op w m = (snap, m') \<Longrightarrow> tunnel_move m m'"
| move_refresh: "refresh_tunnel_status w check m = (snap, m') \<Longrightarrow> tunnel_move m m'"
| move_start: "start_tunnel env local_url m = Some (r, m') \<Longrightarrow> tunnel_move m m'"
| move_stop: "stop_tunnel m = (snap, m') \<Longrightarrow> tunnel_move m m'"
| move_terminate: "terminate_tunnel_now m = (snap, m') \<Longrightarrow> tunnel_move m m'"
| move_rotate: "rotate_tunnel env m = Some (r, m') \<Longrightarrow> tunnel_move m m'"
| move_exit: "tunnel_move m (m\<lparr>qt_live := qt_live m - {pid}\<rparr>)"

definition new_tunnel_state :: "quick_tunnel \<Rightarrow> bool" where
  "new_tunnel_state m \<longleftrightarrow> (\<exists>config. m = new_tunnel config)"

definition tunnel_inv :: "quick_tunnel \<Rightarrow> bool" where
  "tunnel_inv m \<longleftrightarrow>
     (qt_session m \<noteq> None \<longleftrightarrow> qt_status m \<in> {TunnelReady, TunnelReconnecting}) \<and>
     (qt_child m \<noteq> None \<longleftrightarrow> qt_session m \<noteq> None) \<and>
     (qt_failures m = 0 \<longleftrightarrow> qt_status m \<noteq> TunnelReconnecting) \<and>
     qt_status m \<notin> {TunnelStarting, TunnelStopping}"

definition tunnel_alone :: "quick_tunnel \<Rightarrow> bool" where
  "tunnel_alone m \<longleftrightarrow> qt_live m \<subseteq> set_option (qt_child m)"

lemmas tunnel_state_defs = set_tunnel_state_def drop_child_def

lemma saturating_add_one_nonzero: "saturating_add (n :: 'a::len word) 1 \<noteq> 0"
proof
  assume "saturating_add n 1 = 0"
  then have "unat (saturating_add n 1) = 0" by simp
  then have "min (unat n + 1) (2 ^ LENGTH('a) - 1) = 0" by (simp add: unat_saturating_add)
  moreover have "(2 :: nat) \<le> 2 ^ LENGTH('a)" using power_increasing [of 1 "LENGTH('a)" "2 :: nat"]
    by (simp add: Suc_leI)
  ultimately show False by (auto simp: min_def split: if_splits)
qed

lemma reconcile_keeps:
  "tunnel_inv m \<Longrightarrow> tunnel_inv (reconcile_child_status w m)"
  "tunnel_alone m \<Longrightarrow> tunnel_alone (reconcile_child_status w m)"
  by (auto simp: tunnel_inv_def tunnel_alone_def reconcile_child_status_def tunnel_state_defs
      split: option.splits sum.splits)

lemma checked_health_keeps:
  "tunnel_inv m \<Longrightarrow> qt_session m \<noteq> None \<Longrightarrow> tunnel_inv (checked_health answer m)"
  "tunnel_alone m \<Longrightarrow> tunnel_alone (checked_health answer m)"
  by (auto simp: tunnel_inv_def tunnel_alone_def checked_health_def Let_def saturating_add_one_nonzero
      split: sum.splits)

lemma status_keeps:
  assumes "tunnel_status_op w m = (snap, m')"
  shows "tunnel_inv m \<Longrightarrow> tunnel_inv m'" and "tunnel_alone m \<Longrightarrow> tunnel_alone m'"
  using assms reconcile_keeps by (auto simp: tunnel_status_op_def Let_def)

lemma refresh_keeps:
  assumes "refresh_tunnel_status w check m = (snap, m')"
  shows "tunnel_inv m \<Longrightarrow> tunnel_inv m'" and "tunnel_alone m \<Longrightarrow> tunnel_alone m'"
  using assms reconcile_keeps [of m w] checked_health_keeps [of "reconcile_child_status w m"]
  by (auto simp: refresh_tunnel_status_def Let_def split: if_splits option.splits)

lemma stop_exact:
  assumes "stop_tunnel m = (snap, m') \<or> terminate_tunnel_now m = (snap, m')"
  shows "m' = m\<lparr>qt_status := TunnelStopped, qt_session := None, qt_detail := None, qt_child := None,
      qt_failures := 0, qt_live := qt_live m - set_option (qt_child m)\<rparr>"
  using assms by (auto simp: stop_tunnel_def terminate_tunnel_now_def Let_def tunnel_state_defs)

lemma stop_keeps:
  assumes "stop_tunnel m = (snap, m') \<or> terminate_tunnel_now m = (snap, m')"
  shows "tunnel_inv m'" and "tunnel_alone m \<Longrightarrow> tunnel_alone m'"
  by (auto simp: stop_exact [OF assms] tunnel_inv_def tunnel_alone_def)

text \<open>
  After the process was spawned the start succeeds and holds it, or fails and has killed it.
\<close>

lemma await_tunnel_cases:
  assumes "await_tunnel env local_url pid m = Some (r, m')"
  obtains e where "r = Inl e" "(r, m') = fail_tunnel_start pid e m"
  | public_url where
      "wait_for_public_url (qt_config m) (st_url_started env) (st_url_ticks env) = Some (Inr public_url)"
      "wait_for_public_health (qt_config m) (st_health_started env) (st_health_ticks env) public_url =
        Some (Inr ())"
      "r = Inr (tunnel_snapshot_of m')"
      "m' = m\<lparr>qt_status := TunnelReady, qt_session := Some \<lparr>ts_id = st_uuid env,
          ts_local_url = local_url, ts_public_url = public_url, ts_started_at = st_time env\<rparr>,
          qt_detail := None, qt_failures := 0, qt_child := Some pid\<rparr>"
proof (cases "wait_for_public_url (qt_config m) (st_url_started env) (st_url_ticks env)")
  case (Some u)
  note url = this
  show thesis
  proof (cases u)
    case (Inl e)
    with url assms have "(r, m') = fail_tunnel_start pid e m" by (simp add: await_tunnel_def)
    with that(1) [of e] show ?thesis by (simp add: fail_tunnel_start_def)
  next
    case (Inr public_url)
    note addr = this
    show ?thesis
    proof (cases "wait_for_public_health (qt_config m) (st_health_started env) (st_health_ticks env) public_url")
      case (Some h)
      show ?thesis
      proof (cases h)
        case (Inl e)
        with url addr Some assms have "(r, m') = fail_tunnel_start pid e m" by (simp add: await_tunnel_def)
        with that(1) [of e] show ?thesis by (simp add: fail_tunnel_start_def)
      next
        case (Inr x)
        show ?thesis
          by (rule that(2) [of public_url])
            (use url addr Some Inr assms in \<open>auto simp: await_tunnel_def set_tunnel_state_def Let_def\<close>)
      qed
    qed (use url addr assms in \<open>simp add: await_tunnel_def\<close>)
  qed
qed (use assms in \<open>simp add: await_tunnel_def\<close>)

lemma await_keeps:
  assumes "await_tunnel env local_url pid m = Some (r, m')" and "qt_child m = None"
    and "qt_live m \<subseteq> {pid}"
  shows "tunnel_inv m' \<and> tunnel_alone m'"
  using assms(1)
proof (cases rule: await_tunnel_cases)
  case (1 e)
  with assms(2,3) show ?thesis
    by (auto simp: fail_tunnel_start_def tunnel_inv_def tunnel_alone_def set_tunnel_state_def)
next
  case (2 public_url)
  with assms(3) show ?thesis by (auto simp: tunnel_inv_def tunnel_alone_def)
qed

lemma launch_keeps:
  assumes run: "launch_tunnel env local_url m = Some (r, m')" and m: "qt_child m = None"
    "qt_live m = {}" "qt_session m = None" "qt_failures m = 0"
  shows "tunnel_inv m' \<and> tunnel_alone m'"
proof (cases "st_spawn env (qc_binary (qt_config m)) (launch_args (qt_config m) local_url)")
  case (Inl e)
  with run have "m' = set_tunnel_state TunnelFailed None (Some (tunnel_error_text (TunnelSpawn e))) m"
    by (simp add: launch_tunnel_def)
  with m show ?thesis by (simp add: tunnel_inv_def tunnel_alone_def set_tunnel_state_def)
next
  case (Inr pid)
  with run have "await_tunnel env local_url pid (m\<lparr>qt_live := insert pid (qt_live m)\<rparr>) = Some (r, m')"
    by (simp add: launch_tunnel_def)
  from await_keeps [OF this] m show ?thesis by simp
qed

lemma running_child_live:
  "running_child w m = (x, m1) \<Longrightarrow>
     m1 = m \<or> m1 = m\<lparr>qt_live := qt_live m - set_option (qt_child m)\<rparr>"
  by (auto simp: running_child_def split: option.splits sum.splits)

lemma start_keeps:
  assumes run: "start_tunnel env local_url m = Some (r, m')" and alone: "tunnel_alone m"
    and inv: "tunnel_inv m"
  shows "tunnel_inv m' \<and> tunnel_alone m'"
proof -
  obtain x m1 where x: "running_child (st_running env) m = (x, m1)" by fastforce
  have keep: "tunnel_inv m1 \<and> tunnel_alone m1"
    using running_child_live [OF x] alone inv by (auto simp: tunnel_inv_def tunnel_alone_def)
  show ?thesis
  proof (cases "\<exists>e. x = Inl e \<or> x = Inr True")
    case True
    with run x keep show ?thesis by (auto simp: start_tunnel_def)
  next
    case False
    then have "x = Inr False" by (cases x) auto
    with run x have "launch_tunnel env local_url
        ((set_tunnel_state TunnelStarting None None (drop_child m1))\<lparr>qt_failures := 0\<rparr>) = Some (r, m')"
      by (simp add: start_tunnel_def)
    then show ?thesis
      by (rule launch_keeps) (use keep in \<open>auto simp: tunnel_state_defs tunnel_alone_def\<close>)
  qed
qed

lemma rotate_keeps:
  assumes "rotate_tunnel env m = Some (r, m')" and "tunnel_alone m" and "tunnel_inv m"
  shows "tunnel_inv m' \<and> tunnel_alone m'"
proof (cases "qt_session m")
  case (Some s)
  obtain snap m1 where m1: "stop_tunnel m = (snap, m1)" by fastforce
  then have "tunnel_inv m1" "tunnel_alone m1" using stop_keeps assms(2) by blast+
  with start_keeps [of env "ts_local_url s" m1 r m'] assms(1) Some m1 show ?thesis
    by (simp add: rotate_tunnel_def)
qed (use assms in \<open>auto simp: rotate_tunnel_def\<close>)

lemma move_keeps:
  assumes "tunnel_move m m'" and "tunnel_inv m" and "tunnel_alone m"
  shows "tunnel_inv m' \<and> tunnel_alone m'"
  using assms(1)
proof cases
  case (move_status w snap)
  with status_keeps [OF this] assms(2,3) show ?thesis by blast
next
  case (move_refresh w check snap)
  with refresh_keeps [OF this] assms(2,3) show ?thesis by blast
next
  case (move_start env local_url r)
  from start_keeps [OF this assms(3,2)] show ?thesis .
next
  case (move_stop snap)
  with stop_keeps [of m snap m'] assms(3) show ?thesis by blast
next
  case (move_terminate snap)
  with stop_keeps [of m snap m'] assms(3) show ?thesis by blast
next
  case (move_rotate env r)
  from rotate_keeps [OF this assms(3,2)] show ?thesis .
next
  case (move_exit pid)
  with assms(2,3) show ?thesis by (auto simp: tunnel_inv_def tunnel_alone_def)
qed

interpretation quick: supervisor new_tunnel_state tunnel_move qt_child qt_live
  "\<lambda>m. tunnel_inv m \<and> tunnel_alone m"
  by unfold_locales
    (use move_keeps in \<open>auto simp: new_tunnel_state_def new_tunnel_def tunnel_inv_def tunnel_alone_def\<close>)

text \<open>
  Whatever the manager of the quick tunnel is asked and however its processes behave, at most one
  process it started runs, which is the one of the tunnel it shows; it has one exactly while its
  status is ready or reconnecting, which is also when it shows a session; and it counts failures only
  while reconnecting.
\<close>

lemma tunnel_one_process:
  assumes "reached new_tunnel_state tunnel_move m"
  shows "qt_live m \<subseteq> set_option (qt_child m) \<and> card (qt_live m) \<le> 1
    \<and> (qt_child m \<noteq> None \<longleftrightarrow> qt_status m \<in> {TunnelReady, TunnelReconnecting})
    \<and> (qt_session m \<noteq> None \<longleftrightarrow> qt_child m \<noteq> None)
    \<and> (qt_failures m = 0 \<longleftrightarrow> qt_status m \<noteq> TunnelReconnecting)
    \<and> qt_status m \<notin> {TunnelStarting, TunnelStopping}"
  using quick.reached_inv [OF assms] quick.one_alive [OF assms] by (auto simp: tunnel_inv_def)

definition demo_config :: quick_tunnel_config where
  "demo_config = \<lparr>qc_binary = ''cloudflared'', qc_args_template = [], qc_startup_timeout = 300,
     qc_poll_interval = 10\<rparr>"

text \<open>A cloudflared that prints its address in its second line, and answers the second check.\<close>

definition demo_start :: tunnel_start where
  "demo_start =
     \<lparr>st_running = Inr None, st_spawn = (\<lambda>binary args. Inr 7), st_url_started = 0,
      st_url_ticks = (\<lambda>i. \<lparr>ut_wait = Inr None, ut_now = 10 * i, ut_output = (if i = 0
        then OutLine ''starting'' else OutLine ''INF | https://a-b.trycloudflare.com |'')\<rparr>),
      st_health_started = 20,
      st_health_ticks = (\<lambda>i. \<lparr>ht_wait = Inr None,
        ht_check = (\<lambda>url. if i = 0 then Inl ''not yet'' else Inr ()), ht_now = 20 + 100 * i\<rparr>),
      st_uuid = ''id'', st_time = 5\<rparr>"

definition demo_tunnel :: quick_tunnel where
  "demo_tunnel = (new_tunnel demo_config)
     \<lparr>qt_status := TunnelReady, qt_session := Some \<lparr>ts_id = ''id'', ts_local_url = ''http://l'',
        ts_public_url = ''https://a-b.trycloudflare.com'', ts_started_at = 5\<rparr>,
      qt_child := Some 7, qt_live := {7}\<rparr>"

lemma demo_urls:
  "parse_quick_tunnel_url ''starting'' = None"
  "parse_quick_tunnel_url ''INF | https://a-b.trycloudflare.com |'' = Some ''https://a-b.trycloudflare.com''"
  by code_simp+

lemma demo_waits:
  "wait_for_public_url demo_config 0 (st_url_ticks demo_start) =
     Some (Inr ''https://a-b.trycloudflare.com'')"
  "wait_for_public_health demo_config 20 (st_health_ticks demo_start) u = Some (Inr ())"
  unfolding wait_for_public_url_def wait_for_public_health_def
  by (rule poll_loop_at [where k = 1];
      simp add: demo_start_def public_url_turn_def public_health_turn_def demo_config_def demo_urls)+

lemma demo_started:
  "start_tunnel demo_start ''http://l'' (new_tunnel demo_config) =
     Some (Inr (tunnel_snapshot_of demo_tunnel), demo_tunnel)"
proof -
  have "await_tunnel demo_start ''http://l'' 7 m =
      (let m1 = m\<lparr>qt_status := TunnelReady, qt_session := Some \<lparr>ts_id = ''id'', ts_local_url = ''http://l'',
         ts_public_url = ''https://a-b.trycloudflare.com'', ts_started_at = 5\<rparr>, qt_detail := None,
         qt_failures := 0, qt_child := Some 7\<rparr> in Some (Inr (tunnel_snapshot_of m1), m1))"
    if "qt_config m = demo_config" for m
    using demo_waits that by (simp add: await_tunnel_def demo_start_def set_tunnel_state_def Let_def)
  moreover have "st_spawn demo_start b as = Inr 7" for b as by (simp add: demo_start_def)
  ultimately show ?thesis
    by (simp add: start_tunnel_def launch_tunnel_def running_child_def new_tunnel_def tunnel_state_defs
        demo_tunnel_def Let_def)
qed

section \<open>What a start does\<close>

lemma public_url_turn_Inr:
  "public_url_turn config d t = Some (Inr u) \<longleftrightarrow>
     ut_wait t = Inr None \<and> ut_now t < d \<and>
     (\<exists>line. ut_output t = OutLine line \<and> parse_quick_tunnel_url line = Some u)"
  by (auto simp: public_url_turn_def split: sum.splits option.splits tunnel_output.splits)

lemma public_url_turn_None:
  "public_url_turn config d t = None \<Longrightarrow> ut_output t = OutLine l \<Longrightarrow>
     parse_quick_tunnel_url l = None"
  by (auto simp: public_url_turn_def split: sum.splits option.splits if_splits)

lemma public_health_turn_Inr:
  "public_health_turn config d u t = Some (Inr x) \<longleftrightarrow>
     ht_wait t = Inr None \<and> ht_check t u = Inr ()"
  by (auto simp: public_health_turn_def split: sum.splits option.splits)

lemma wait_for_public_url_returns:
  assumes "started + qc_startup_timeout config \<le> ut_now (ticks k)"
  shows "wait_for_public_url config started ticks \<noteq> None"
proof -
  have "public_url_turn config (started + qc_startup_timeout config) (ticks k) \<noteq> None"
    using assms by (auto simp: public_url_turn_def split: sum.splits option.splits)
  then show ?thesis
    unfolding wait_for_public_url_def by (rule poll_loop_returns) simp
qed

lemma wait_for_public_health_returns:
  assumes "started + qc_startup_timeout config \<le> ht_now (ticks k)"
  shows "wait_for_public_health config started ticks u \<noteq> None"
proof -
  have "public_health_turn config (started + qc_startup_timeout config) u (ticks k) \<noteq> None"
    using assms by (auto simp: public_health_turn_def split: sum.splits option.splits)
  then show ?thesis
    unfolding wait_for_public_health_def by (rule poll_loop_returns) simp
qed

lemma await_tunnel_returns:
  assumes "wait_for_public_url (qt_config m) (st_url_started env) (st_url_ticks env) \<noteq> None"
    and "\<And>u. wait_for_public_health (qt_config m) (st_health_started env) (st_health_ticks env) u \<noteq> None"
  shows "await_tunnel env local_url pid m \<noteq> None"
proof -
  obtain r where r: "wait_for_public_url (qt_config m) (st_url_started env) (st_url_ticks env) = Some r"
    using assms(1) by auto
  show ?thesis
  proof (cases r)
    case (Inr u)
    obtain h where "wait_for_public_health (qt_config m) (st_health_started env) (st_health_ticks env) u = Some h"
      using assms(2) [of u] by auto
    with r Inr show ?thesis by (cases h) (simp_all add: await_tunnel_def Let_def)
  qed (use r in \<open>simp add: await_tunnel_def\<close>)
qed

lemma parse_quick_tunnel_url_Some:
  "parse_quick_tunnel_url line = Some u \<Longrightarrow> is_tunnel_url u"
  by (auto simp: parse_quick_tunnel_url_def find_Some_iff)

text \<open>
  Where the clock passes the two deadlines, starting the quick tunnel returns. It succeeds only
  with an address that cloudflared printed before the deadline, the first https address below
  trycloudflare.com in its output, at which the bridge answered while cloudflared was running; then
  the session shown is for that address. Where a manager without a process fails, the tunnel is shown
  as failed with the error's text, and no process started by it is left.
\<close>

lemma start_tunnel_exact:
  assumes "st_url_started env + qc_startup_timeout (qt_config m) \<le> ut_now (st_url_ticks env k)"
    and "st_health_started env + qc_startup_timeout (qt_config m) \<le> ht_now (st_health_ticks env k')"
    and "qt_child m = None"
  shows "\<exists>r m'. start_tunnel env local_url m = Some (r, m') \<and>
    (case r of
       Inr snap \<Rightarrow> \<exists>i j line s. tsn_session snap = Some s \<and> tsn_status snap = TunnelReady
         \<and> ts_local_url s = local_url \<and> is_tunnel_url (ts_public_url s)
         \<and> ut_output (st_url_ticks env i) = OutLine line
         \<and> parse_quick_tunnel_url line = Some (ts_public_url s)
         \<and> (\<forall>h < i. \<forall>l. ut_output (st_url_ticks env h) = OutLine l \<longrightarrow> parse_quick_tunnel_url l = None)
         \<and> ut_now (st_url_ticks env i) < st_url_started env + qc_startup_timeout (qt_config m)
         \<and> ht_check (st_health_ticks env j) (ts_public_url s) = Inr ()
         \<and> ht_wait (st_health_ticks env j) = Inr None
         \<and> tunnel_snapshot_of m' = snap
     | Inl e \<Rightarrow> qt_status m' = TunnelFailed \<and> qt_detail m' = Some (tunnel_error_text e)
         \<and> qt_session m' = None \<and> qt_child m' = None \<and> qt_live m' \<subseteq> qt_live m)"
proof -
  define m1 where "m1 = (set_tunnel_state TunnelStarting None None (drop_child m))\<lparr>qt_failures := 0\<rparr>"
  have m1: "qt_config m1 = qt_config m" "qt_child m1 = None" "qt_session m1 = None" "qt_live m1 = qt_live m"
    using assms(3) by (simp_all add: m1_def tunnel_state_defs)
  have start: "start_tunnel env local_url m = launch_tunnel env local_url m1"
    using assms(3) by (simp add: start_tunnel_def running_child_def m1_def)
  show ?thesis
  proof (cases "st_spawn env (qc_binary (qt_config m1)) (launch_args (qt_config m1) local_url)")
    case (Inl e)
    with start m1 show ?thesis by (simp add: launch_tunnel_def set_tunnel_state_def)
  next
    case (Inr pid)
    define m2 where "m2 = m1\<lparr>qt_live := insert pid (qt_live m1)\<rparr>"
    have m2: "qt_config m2 = qt_config m" "qt_child m2 = None" "qt_live m2 = insert pid (qt_live m)"
      using m1 by (simp_all add: m2_def)
    have run: "start_tunnel env local_url m = await_tunnel env local_url pid m2"
      using start Inr by (simp add: launch_tunnel_def m2_def)
    have "await_tunnel env local_url pid m2 \<noteq> None"
      by (rule await_tunnel_returns)
        (use wait_for_public_url_returns [of _ _ "st_url_ticks env" k]
          wait_for_public_health_returns [of _ _ "st_health_ticks env" k'] assms(1,2) m2(1) in simp_all)
    then obtain r m' where r: "await_tunnel env local_url pid m2 = Some (r, m')" by auto
    then show ?thesis
    proof (cases rule: await_tunnel_cases)
      case (1 e)
      with r run m2 show ?thesis by (auto simp: fail_tunnel_start_def set_tunnel_state_def)
    next
      case (2 u)
      from 2(1) obtain i where i: "ut_wait (st_url_ticks env i) = Inr None"
        "ut_now (st_url_ticks env i) < st_url_started env + qc_startup_timeout (qt_config m)"
        "\<exists>line. ut_output (st_url_ticks env i) = OutLine line \<and> parse_quick_tunnel_url line = Some u"
        "\<forall>h < i. public_url_turn (qt_config m) (st_url_started env + qc_startup_timeout (qt_config m))
            (st_url_ticks env h) = None"
        unfolding m2(1) wait_for_public_url_def poll_loop_Some_iff public_url_turn_Inr by blast
      have before: "parse_quick_tunnel_url l = None"
        if "h < i" "ut_output (st_url_ticks env h) = OutLine l" for h l
        using i(4) that public_url_turn_None by blast
      from 2(2) obtain j where j: "ht_wait (st_health_ticks env j) = Inr None"
        "ht_check (st_health_ticks env j) u = Inr ()"
        unfolding m2(1) wait_for_public_health_def poll_loop_Some_iff public_health_turn_Inr by blast
      from i(3) obtain line where line: "ut_output (st_url_ticks env i) = OutLine line"
        "parse_quick_tunnel_url line = Some u" by blast
      let ?s = "\<lparr>ts_id = st_uuid env, ts_local_url = local_url, ts_public_url = u, ts_started_at = st_time env\<rparr>"
      have snap: "tsn_session (tunnel_snapshot_of m') = Some ?s" "tsn_status (tunnel_snapshot_of m') = TunnelReady"
        using 2(4) by (simp_all add: tunnel_snapshot_of_def)
      have "\<exists>i j line s. tsn_session (tunnel_snapshot_of m') = Some s
          \<and> tsn_status (tunnel_snapshot_of m') = TunnelReady
          \<and> ts_local_url s = local_url \<and> is_tunnel_url (ts_public_url s)
          \<and> ut_output (st_url_ticks env i) = OutLine line
          \<and> parse_quick_tunnel_url line = Some (ts_public_url s)
          \<and> (\<forall>h < i. \<forall>l. ut_output (st_url_ticks env h) = OutLine l \<longrightarrow> parse_quick_tunnel_url l = None)
          \<and> ut_now (st_url_ticks env i) < st_url_started env + qc_startup_timeout (qt_config m)
          \<and> ht_check (st_health_ticks env j) (ts_public_url s) = Inr ()
          \<and> ht_wait (st_health_ticks env j) = Inr None"
        by (rule exI [of _ i], rule exI [of _ j], rule exI [of _ line], rule exI [of _ ?s])
          (use snap line before i(2) j parse_quick_tunnel_url_Some [OF line(2)] in simp)
      with run r 2(3) show ?thesis by auto
    qed
  qed
qed

text \<open>
  The error line of a quick tunnel that could not be requested names the service's own address, which
  is taken for the tunnel's.
\<close>

lemma service_address_taken:
  "parse_quick_tunnel_url
     (''failed to request quick Tunnel: Post '' @ [CHR 0x22] @ ''https://api.trycloudflare.com/tunnel''
       @ [CHR 0x22] @ '': context deadline exceeded'') = Some ''https://api.trycloudflare.com/tunnel''"
  by code_simp

end
