(* ===== verification/Local_Files.thy ===== *)
theory Local_Files
  imports Supervised_Process
begin

text \<open>
  Files of the desktop app: the operations of \<open>std::fs\<close> it uses, on a map from paths to contents, and
  the temporary secret file of \<open>crates/desktop-core/src/secret_file.rs\<close>. An operation gets the error
  the system reports in its place, if any. Directories and permissions are not part of the map.
\<close>

section \<open>File operations\<close>

type_synonym file_map = "string \<rightharpoonup> string"

datatype io_error = IoNotFound string | IoOther string

primrec io_error_text :: "io_error \<Rightarrow> string" where
  "io_error_text (IoNotFound t) = t"
| "io_error_text (IoOther t) = t"

definition no_such_file :: io_error where
  "no_such_file = IoNotFound ''No such file or directory (os error 2)''"

definition file_exists :: io_error where
  "file_exists = IoOther ''File exists (os error 17)''"

text \<open>\<open>OpenOptions::create_new\<close>: never an existing file.\<close>

definition fs_create_new :: "io_error option \<Rightarrow> string \<Rightarrow> (file_map, io_error, unit) action" where
  "fs_create_new fault path fs =
     (case fault of
        Some e \<Rightarrow> (Inl e, fs)
      | None \<Rightarrow> if fs path \<noteq> None then (Inl file_exists, fs) else (Inr (), fs(path \<mapsto> [])))"

text \<open>\<open>write_all\<close> to a new file; a fault leaves what was written until then.\<close>

definition fs_write :: "(io_error \<times> nat) option \<Rightarrow> string \<Rightarrow> string \<Rightarrow> (file_map, io_error, unit) action" where
  "fs_write fault path contents fs =
     (case fault of
        Some (e, n) \<Rightarrow> (Inl e, fs(path \<mapsto> take n contents))
      | None \<Rightarrow> (Inr (), fs(path \<mapsto> contents)))"

definition fs_remove :: "io_error option \<Rightarrow> string \<Rightarrow> (file_map, io_error, unit) action" where
  "fs_remove fault path fs =
     (case fault of
        Some e \<Rightarrow> (Inl e, fs)
      | None \<Rightarrow> if fs path = None then (Inl no_such_file, fs) else (Inr (), fs(path := None)))"

definition fs_rename :: "io_error option \<Rightarrow> string \<Rightarrow> string \<Rightarrow> (file_map, io_error, unit) action" where
  "fs_rename fault src dst fs =
     (case fault of
        Some e \<Rightarrow> (Inl e, fs)
      | None \<Rightarrow>
          (case fs src of
             None \<Rightarrow> (Inl no_such_file, fs)
           | Some c \<Rightarrow> (Inr (), (fs(src := None))(dst \<mapsto> c))))"

definition fs_read :: "io_error option \<Rightarrow> string \<Rightarrow> file_map \<Rightarrow> io_error + string" where
  "fs_read fault path fs =
     (case fault of
        Some e \<Rightarrow> Inl e
      | None \<Rightarrow> (case fs path of None \<Rightarrow> Inl no_such_file | Some c \<Rightarrow> Inr c))"

text \<open>An operation whose error is dropped, \<open>let _ = ...\<close>.\<close>

definition best_effort :: "('s, 'e, 'a) action \<Rightarrow> 's \<Rightarrow> 's" where
  "best_effort act s = snd (act s)"

lemma best_effort_remove [simp]:
  "best_effort (fs_remove None path) fs = fs(path := None)"
  "best_effort (fs_remove (Some e) path) fs = fs"
  by (auto simp: best_effort_def fs_remove_def)

section \<open>The temporary secret file\<close>

record secret_file =
  sf_path :: string
  sf_removed :: bool

record secret_faults =
  sk_mkdir :: "io_error option"
  sk_uuid :: string
  sk_open :: "io_error option"
  sk_write :: "(io_error \<times> nat) option"
  sk_sync :: "io_error option"
  sk_remove :: "io_error option"

definition create_at_path ::
  "secret_faults \<Rightarrow> string \<Rightarrow> string \<Rightarrow> (file_map, io_error, secret_file) action" where
  "create_at_path io path secret fs =
     (case fs_create_new (sk_open io) path fs of
        (Inl e, fs1) \<Rightarrow> (Inl e, fs1)
      | (Inr _, fs1) \<Rightarrow>
          (case then_ok (fs_write (sk_write io) path secret)
                  (\<lambda>fs. (case sk_sync io of None \<Rightarrow> Inr () | Some e \<Rightarrow> Inl e, fs)) fs1 of
             (Inl e, fs2) \<Rightarrow> (Inl e, best_effort (fs_remove (sk_remove io) path) fs2)
           | (Inr _, fs2) \<Rightarrow> (Inr \<lparr>sf_path = path, sf_removed = False\<rparr>, fs2)))"

definition create_secret_file ::
  "secret_faults \<Rightarrow> string \<Rightarrow> string \<Rightarrow> string \<Rightarrow> (file_map, io_error, secret_file) action" where
  "create_secret_file io runtime_dir filename_prefix secret fs =
     (case sk_mkdir io of
        Some e \<Rightarrow> (Inl e, fs)
      | None \<Rightarrow>
          create_at_path io (path_join runtime_dir (filename_prefix @ ''-'' @ sk_uuid io)) secret fs)"

definition drop_secret_file :: "io_error option \<Rightarrow> secret_file \<Rightarrow> file_map \<Rightarrow> file_map" where
  "drop_secret_file fault f fs =
     (if sf_removed f then fs else best_effort (fs_remove fault (sf_path f)) fs)"

text \<open>\<open>remove\<close> consumes the file, which is dropped in every case.\<close>

definition remove_secret_file ::
  "io_error option \<Rightarrow> io_error option \<Rightarrow> secret_file \<Rightarrow> (file_map, io_error, unit) action" where
  "remove_secret_file fault drop_fault f fs =
     (case fs_remove fault (sf_path f) fs of
        (Inr _, fs1) \<Rightarrow> (Inr (), drop_secret_file drop_fault (f\<lparr>sf_removed := True\<rparr>) fs1)
      | (Inl (IoNotFound t), fs1) \<Rightarrow>
          (Inr (), drop_secret_file drop_fault (f\<lparr>sf_removed := True\<rparr>) fs1)
      | (Inl e, fs1) \<Rightarrow> (Inl e, drop_secret_file drop_fault f fs1))"

text \<open>
  A secret is written to a new file, or nothing of it is left; no other file changes.
\<close>

lemma create_at_path_exact:
  assumes "create_at_path io path secret fs = (r, fs')" and "sk_remove io = None"
  shows "case r of
      Inl e \<Rightarrow> fs' = fs
    | Inr f \<Rightarrow> fs path = None \<and> fs' = fs(path \<mapsto> secret) \<and> f = \<lparr>sf_path = path, sf_removed = False\<rparr>"
proof (cases "fs_create_new (sk_open io) path fs")
  case (Pair x fs1)
  show ?thesis
  proof (cases x)
    case (Inl e)
    with Pair have "fs1 = fs" by (auto simp: fs_create_new_def split: option.splits if_splits)
    with Pair Inl assms(1) show ?thesis by (auto simp: create_at_path_def)
  next
    case (Inr u)
    with Pair have fs1: "fs path = None" "fs1 = fs(path \<mapsto> [])"
      by (auto simp: fs_create_new_def split: option.splits if_splits)
    have gone: "(fs(path \<mapsto> a))(path \<mapsto> b, path := None) = fs" "(fs(path \<mapsto> b))(path := None) = fs" for a b
      using fs1(1) by (auto simp: fun_eq_iff)
    show ?thesis
      using assms Pair Inr fs1 gone
      by (cases "sk_write io"; cases "sk_sync io")
        (auto simp: create_at_path_def fs_write_def action_simps)
  qed
qed

lemma create_secret_file_exact:
  assumes "create_secret_file io dir label secret fs = (r, fs')" and "sk_remove io = None"
  shows "case r of
      Inl e \<Rightarrow> fs' = fs
    | Inr f \<Rightarrow> fs (sf_path f) = None \<and> fs' = fs(sf_path f \<mapsto> secret) \<and> \<not> sf_removed f"
proof (cases "sk_mkdir io")
  case None
  with assms(1) have "create_at_path io (path_join dir (label @ ''-'' @ sk_uuid io)) secret fs = (r, fs')"
    by (simp add: create_secret_file_def)
  from create_at_path_exact [OF this assms(2)] show ?thesis by (auto split: sum.splits)
qed (use assms(1) in \<open>auto simp: create_secret_file_def\<close>)

lemma drop_secret_file_gone:
  "\<not> sf_removed f \<Longrightarrow> drop_secret_file None f fs = fs(sf_path f := None)"
  by (simp add: drop_secret_file_def)

lemma remove_secret_file_gone:
  assumes "remove_secret_file fault None f fs = (r, fs')" and "\<not> sf_removed f"
    and "\<And>t. fault \<noteq> Some (IoNotFound t)"
  shows "fs' = fs(sf_path f := None) \<and> (r = Inr () \<longleftrightarrow> fault = None)"
proof (cases fault)
  case None
  with assms(1,2) show ?thesis
    by (cases "fs (sf_path f)")
      (auto simp: remove_secret_file_def fs_remove_def drop_secret_file_def no_such_file_def fun_upd_idem_iff)
next
  case (Some e)
  with assms show ?thesis
    by (cases e) (auto simp: remove_secret_file_def fs_remove_def drop_secret_file_def best_effort_def)
qed

end
