(* ===== verification/Remote_Access.thy ===== *)
theory Remote_Access
  imports Local_Files
begin

text \<open>
  The remote access settings of the desktop app, \<open>crates/desktop-core/src/remote_access_config.rs\<close>:
  which hostnames make a profile of a named tunnel, and the file the settings are kept in. The \<open>url\<close>
  crate's parser and the JSON codec of serde are parameters.
\<close>

section \<open>Profiles\<close>

datatype remote_error =
    RemoteInvalidPort
  | RemoteInvalidHostname
  | RemoteIo io_error
  | RemoteJson string

record named_profile =
  np_hostname :: string
  np_local_port :: u16

record remote_preferences =
  rp_named_tunnel :: "named_profile option"

text \<open>The host and the port of a URL that parses.\<close>

type_synonym host_parser = "string \<Rightarrow> (string option \<times> u16 option) option"

definition new_profile :: "host_parser \<Rightarrow> string \<Rightarrow> u16 \<Rightarrow> remote_error + named_profile" where
  "new_profile parse hostname local_port =
     (if local_port = 0 then Inl RemoteInvalidPort
      else let trimmed = to_ascii_lowercase (trim hostname) in
        if contains trimmed ''://'' \<or> contains trimmed ''/'' then Inl RemoteInvalidHostname
        else (case parse (''https://'' @ trimmed) of
            None \<Rightarrow> Inl RemoteInvalidHostname
          | Some (host, port) \<Rightarrow>
              if host \<noteq> Some trimmed \<or> port \<noteq> None then Inl RemoteInvalidHostname
              else Inr \<lparr>np_hostname = trimmed, np_local_port = local_port\<rparr>))"

definition profile_local_url :: "named_profile \<Rightarrow> string" where
  "profile_local_url p = ''http://127.0.0.1:'' @ decimal (unat (np_local_port p))"

definition profile_public_url :: "named_profile \<Rightarrow> string" where
  "profile_public_url p = ''https://'' @ np_hostname p"

text \<open>What a valid profile is: one that its own parts make again.\<close>

definition valid_profile :: "host_parser \<Rightarrow> named_profile \<Rightarrow> bool" where
  "valid_profile parse p \<longleftrightarrow> new_profile parse (np_hostname p) (np_local_port p) = Inr p"

lemma new_profile_valid:
  assumes "new_profile parse hostname port = Inr p"
  shows "valid_profile parse p"
  using assms
  by (auto simp: new_profile_def valid_profile_def Let_def trim_lowercase split: option.splits if_splits)

lemma valid_profile_host:
  assumes "valid_profile parse p"
  shows "np_local_port p \<noteq> 0 \<and> parse (profile_public_url p) = Some (Some (np_hostname p), None)
    \<and> \<not> contains (np_hostname p) ''/'' \<and> trim (np_hostname p) = np_hostname p
    \<and> to_ascii_lowercase (np_hostname p) = np_hostname p"
proof -
  let ?h = "to_ascii_lowercase (trim (np_hostname p))"
  have h: "np_hostname p = ?h" "np_local_port p \<noteq> 0" "\<not> contains ?h ''/''"
    "parse (''https://'' @ ?h) = Some (Some ?h, None)"
    using assms by (cases p; auto simp: new_profile_def valid_profile_def Let_def split: option.splits if_splits)+
  have "trim ?h = ?h" "to_ascii_lowercase ?h = ?h" by (simp_all add: trim_lowercase)
  with h show ?thesis by (simp add: profile_public_url_def)
qed

section \<open>The settings file\<close>

type_synonym 'p json_codec = "('p \<Rightarrow> string + string) \<times> (string \<Rightarrow> string + 'p)"

definition check_preferences ::
  "host_parser \<Rightarrow> remote_preferences \<Rightarrow> remote_error + remote_preferences" where
  "check_preferences parse p =
     (case rp_named_tunnel p of
        None \<Rightarrow> Inr \<lparr>rp_named_tunnel = None\<rparr>
      | Some profile \<Rightarrow>
          (case new_profile parse (np_hostname profile) (np_local_port profile) of
             Inl e \<Rightarrow> Inl e
           | Inr profile' \<Rightarrow> Inr \<lparr>rp_named_tunnel = Some profile'\<rparr>))"

definition load_preferences ::
  "host_parser \<Rightarrow> (string \<Rightarrow> string + remote_preferences) \<Rightarrow> io_error option \<Rightarrow> string
    \<Rightarrow> file_map \<Rightarrow> remote_error + remote_preferences" where
  "load_preferences parse from_json fault path fs =
     (case fs_read fault path fs of
        Inr contents \<Rightarrow>
          (case from_json contents of
             Inl e \<Rightarrow> Inl (RemoteJson e)
           | Inr p \<Rightarrow> check_preferences parse p)
      | Inl (IoNotFound t) \<Rightarrow> Inr \<lparr>rp_named_tunnel = None\<rparr>
      | Inl (IoOther t) \<Rightarrow> Inl (RemoteIo (IoOther t)))"

record save_faults =
  sv_uuid :: string
  sv_open :: "io_error option"
  sv_write :: "(io_error \<times> nat) option"
  sv_flush :: "io_error option"
  sv_sync :: "io_error option"
  sv_rename :: "io_error option"
  sv_remove :: "io_error option"

definition faulty :: "io_error option \<Rightarrow> (file_map, io_error, unit) action" where
  "faulty fault fs = ((case fault of None \<Rightarrow> Inr () | Some e \<Rightarrow> Inl e), fs)"

definition write_temp_file :: "save_faults \<Rightarrow> string \<Rightarrow> string \<Rightarrow> (file_map, io_error, unit) action" where
  "write_temp_file io path contents fs =
     (case fs_create_new (sv_open io) path fs of
        (Inl e, fs1) \<Rightarrow> (Inl e, fs1)
      | (Inr _, fs1) \<Rightarrow>
          (case then_ok (fs_write (sv_write io) path contents)
                  (then_ok (faulty (sv_flush io)) (faulty (sv_sync io))) fs1 of
             (Inl e, fs2) \<Rightarrow> (Inl e, best_effort (fs_remove (sv_remove io) path) fs2)
           | (Inr _, fs2) \<Rightarrow> (Inr (), fs2)))"

definition temp_path_for :: "string \<Rightarrow> string \<Rightarrow> io_error + string" where
  "temp_path_for uuid path =
     (case file_name path of
        None \<Rightarrow> Inl (IoOther ''remote access configuration path has no file name'')
      | Some name \<Rightarrow>
          Inr (path_join (case path_parent path of None \<Rightarrow> ''.'' | Some d \<Rightarrow> d)
            (''.'' @ name @ ''.tmp-'' @ uuid)))"

definition save_preferences ::
  "(remote_preferences \<Rightarrow> string + string) \<Rightarrow> save_faults \<Rightarrow> string \<Rightarrow> remote_preferences
    \<Rightarrow> (file_map, remote_error, unit) action" where
  "save_preferences to_json io path p fs =
     (case to_json p of
        Inl e \<Rightarrow> (Inl (RemoteJson e), fs)
      | Inr contents \<Rightarrow>
          (case temp_path_for (sv_uuid io) path of
             Inl e \<Rightarrow> (Inl (RemoteIo e), fs)
           | Inr temp_path \<Rightarrow>
               (case write_temp_file io temp_path contents fs of
                  (Inl e, fs1) \<Rightarrow> (Inl (RemoteIo e), fs1)
                | (Inr _, fs1) \<Rightarrow>
                    (case fs_rename (sv_rename io) temp_path path fs1 of
                       (Inl e, fs2) \<Rightarrow>
                         (Inl (RemoteIo e), best_effort (fs_remove (sv_remove io) temp_path) fs2)
                     | (Inr _, fs2) \<Rightarrow> (Inr (), fs2)))))"

definition delete_preferences :: "io_error option \<Rightarrow> string \<Rightarrow> (file_map, remote_error, unit) action" where
  "delete_preferences fault path fs =
     (case fs_remove fault path fs of
        (Inr _, fs1) \<Rightarrow> (Inr (), fs1)
      | (Inl (IoNotFound t), fs1) \<Rightarrow> (Inr (), fs1)
      | (Inl (IoOther t), fs1) \<Rightarrow> (Inl (RemoteIo (IoOther t)), fs1))"

section \<open>Saving is all or nothing\<close>

lemma write_temp_file_exact:
  assumes "write_temp_file io path contents fs = (r, fs')" and "sv_remove io = None"
  shows "case r of Inl e \<Rightarrow> fs' = fs | Inr _ \<Rightarrow> fs path = None \<and> fs' = fs(path \<mapsto> contents)"
proof (cases "fs_create_new (sv_open io) path fs")
  case (Pair x fs1)
  show ?thesis
  proof (cases x)
    case (Inl e)
    with Pair have "fs1 = fs" by (auto simp: fs_create_new_def split: option.splits if_splits)
    with Pair Inl assms(1) show ?thesis by (auto simp: write_temp_file_def)
  next
    case (Inr u)
    with Pair have fs1: "fs path = None" "fs1 = fs(path \<mapsto> [])"
      by (auto simp: fs_create_new_def split: option.splits if_splits)
    have gone: "(fs(path \<mapsto> a))(path \<mapsto> b, path := None) = fs" "(fs(path \<mapsto> b))(path := None) = fs" for a b
      using fs1(1) by (auto simp: fun_eq_iff)
    show ?thesis
      using assms Pair Inr fs1 gone
      by (cases "sv_write io"; cases "sv_flush io"; cases "sv_sync io")
        (auto simp: write_temp_file_def fs_write_def faulty_def action_simps)
  qed
qed

lemma save_exact:
  assumes "save_preferences to_json io path p fs = (r, fs')" and "sv_remove io = None"
  shows "case r of Inl e \<Rightarrow> fs' = fs | Inr _ \<Rightarrow> \<exists>c. to_json p = Inr c \<and> fs' = fs(path \<mapsto> c)"
proof (cases "to_json p")
  case (Inr c)
  note json = this
  show ?thesis
  proof (cases "temp_path_for (sv_uuid io) path")
    case (Inr t)
    obtain x fs1 where w: "write_temp_file io t c fs = (x, fs1)" by fastforce
    note w' = write_temp_file_exact [OF w assms(2)]
    show ?thesis
    proof (cases x)
      case (Inl e)
      with w w' json Inr assms(1) show ?thesis by (auto simp: save_preferences_def)
    next
      case (Inr u)
      then have fs1: "fs t = None" "fs1 = fs(t \<mapsto> c)" using w' by auto
      have undone: "(fs(t \<mapsto> c))(t := None) = fs" "(fs(t := None))(path \<mapsto> c) = fs(path \<mapsto> c)"
        using fs1(1) by (auto simp: fun_eq_iff)
      show ?thesis
        using assms(1) json \<open>temp_path_for (sv_uuid io) path = Inr t\<close> w Inr fs1 undone assms(2)
        by (cases "sv_rename io") (auto simp: save_preferences_def fs_rename_def)
    qed
  qed (use json assms(1) in \<open>auto simp: save_preferences_def\<close>)
qed (use assms(1) in \<open>auto simp: save_preferences_def\<close>)

text \<open>
  C20. Where serde reads back what it wrote and the temporary file can be removed: settings that were
  saved are those loaded next, if their profile was made by \<open>NamedTunnelProfile::new\<close>, and only
  the settings file has changed; settings that could not be saved leave every file as it was. What is
  deleted is loaded as no settings.
\<close>

theorem remote_settings_roundtrip:
  assumes "save_preferences to_json io path p fs = (r, fs')" and "sv_remove io = None"
    and "\<And>q c. to_json q = Inr c \<Longrightarrow> from_json c = Inr q"
    and "\<And>profile. rp_named_tunnel p = Some profile \<Longrightarrow>
      \<exists>hostname port. new_profile parse hostname port = Inr profile"
  shows "(case r of
      Inl e \<Rightarrow> fs' = fs
    | Inr _ \<Rightarrow> load_preferences parse from_json None path fs' = Inr p
        \<and> (\<forall>other. other \<noteq> path \<longrightarrow> fs' other = fs other))
    \<and> (\<forall>fs''. delete_preferences None path fs' = (Inr (), fs'') \<longrightarrow>
        load_preferences parse from_json None path fs'' = Inr \<lparr>rp_named_tunnel = None\<rparr>)"
proof -
  have checked: "check_preferences parse p = Inr p"
  proof (cases "rp_named_tunnel p")
    case None
    then show ?thesis by (cases p) (simp add: check_preferences_def)
  next
    case (Some profile)
    then have "valid_profile parse profile" using assms(4) new_profile_valid by blast
    with Some show ?thesis by (cases p) (simp add: check_preferences_def valid_profile_def)
  qed
  have "load_preferences parse from_json None path fs'' = Inr \<lparr>rp_named_tunnel = None\<rparr>"
    if "delete_preferences None path fs' = (Inr (), fs'')" for fs''
  proof -
    have "fs'' path = None"
      using that by (auto simp: delete_preferences_def fs_remove_def no_such_file_def split: if_splits)
    then show ?thesis by (simp add: load_preferences_def fs_read_def no_such_file_def)
  qed
  moreover have "case r of Inl e \<Rightarrow> fs' = fs
    | Inr _ \<Rightarrow> load_preferences parse from_json None path fs' = Inr p
        \<and> (\<forall>other. other \<noteq> path \<longrightarrow> fs' other = fs other)"
  proof (cases r)
    case (Inr u)
    with save_exact [OF assms(1,2)] obtain c where c: "to_json p = Inr c" "fs' = fs(path \<mapsto> c)" by auto
    then show ?thesis
      using Inr assms(3) [OF c(1)] checked by (simp add: load_preferences_def fs_read_def)
  qed (use save_exact [OF assms(1,2)] in simp)
  ultimately show ?thesis by blast
qed

text \<open>A codec that writes the hostname and, after a space, the port.\<close>

definition demo_to_json :: "remote_preferences \<Rightarrow> string + string" where
  "demo_to_json p =
     (case rp_named_tunnel p of
        None \<Rightarrow> Inr []
      | Some profile \<Rightarrow>
          Inr (decimal (unat (np_local_port profile)) @ '' '' @ np_hostname profile))"

definition demo_from_json :: "string \<Rightarrow> string + remote_preferences" where
  "demo_from_json c =
     (case split_once CHR '' '' c of
        None \<Rightarrow> Inr \<lparr>rp_named_tunnel = None\<rparr>
      | Some (port, host) \<Rightarrow> Inr \<lparr>rp_named_tunnel =
          Some \<lparr>np_hostname = host, np_local_port = of_nat (undecimal port)\<rparr>\<rparr>)"

lemma split_once_here: "c \<notin> set a \<Longrightarrow> split_once c (a @ c # b) = Some (a, b)"
  by (induction a) (auto simp: split_once_def split: list.splits)

lemma demo_codec: "demo_to_json q = Inr c \<Longrightarrow> demo_from_json c = Inr q"
proof (cases "rp_named_tunnel q")
  case None
  moreover assume "demo_to_json q = Inr c"
  ultimately show ?thesis
    by (cases q) (auto simp: demo_to_json_def demo_from_json_def split_once_def)
next
  case (Some profile)
  moreover assume "demo_to_json q = Inr c"
  moreover have "CHR '' '' \<notin> set (decimal n)" for n
    using decimal_digits [of "CHR '' ''" n] by auto
  ultimately show ?thesis
    by (cases q; cases profile) (auto simp: demo_to_json_def demo_from_json_def split_once_here)
qed

definition demo_parser :: host_parser where
  "demo_parser u = Some (Some (drop 8 u), None)"

definition no_save_faults :: save_faults where
  "no_save_faults = \<lparr>sv_uuid = ''u'', sv_open = None, sv_write = None, sv_flush = None, sv_sync = None,
     sv_rename = None, sv_remove = None\<rparr>"

definition demo_preferences :: remote_preferences where
  "demo_preferences =
     \<lparr>rp_named_tunnel = Some \<lparr>np_hostname = ''bridge.example.com'', np_local_port = 57324\<rparr>\<rparr>"

theorem remote_settings_roundtrip_witness:
  "\<exists>fs'. save_preferences demo_to_json no_save_faults ''/data/remote.json'' demo_preferences Map.empty =
      (Inr (), fs') \<and>
    load_preferences demo_parser demo_from_json None ''/data/remote.json'' fs' = Inr demo_preferences"
proof -
  have profile: "new_profile demo_parser '' Bridge.Example.com '' 57324 =
      Inr \<lparr>np_hostname = ''bridge.example.com'', np_local_port = 57324\<rparr>"
  proof -
    have "to_ascii_lowercase (trim '' Bridge.Example.com '') = ''bridge.example.com''" by code_simp
    moreover have "\<not> contains ''bridge.example.com'' ''://''" "\<not> contains ''bridge.example.com'' ''/''"
      by code_simp+
    ultimately show ?thesis by (simp add: new_profile_def Let_def demo_parser_def)
  qed
  have temp: "temp_path_for ''u'' ''/data/remote.json'' = Inr ''/data/.remote.json.tmp-u''" by code_simp
  obtain r fs' where run: "save_preferences demo_to_json no_save_faults ''/data/remote.json''
      demo_preferences Map.empty = (r, fs')" by fastforce
  then have ok: "r = Inr ()"
    by (auto simp: save_preferences_def demo_to_json_def demo_preferences_def no_save_faults_def temp
        write_temp_file_def fs_create_new_def fs_write_def faulty_def action_simps fs_rename_def)
  have "\<exists>hostname port. new_profile demo_parser hostname port = Inr profile'"
    if "rp_named_tunnel demo_preferences = Some profile'" for profile'
    using that profile by (auto simp: demo_preferences_def)
  from remote_settings_roundtrip [OF run _ demo_codec this] ok run show ?thesis
    by (auto simp: no_save_faults_def)
qed

end
