(* ===== verification/Named_Tunnel.thy ===== *)
theory Named_Tunnel
  imports Remote_Access
begin

text \<open>
  The named tunnel, \<open>crates/desktop-core/src/named_tunnel.rs\<close>: the manager starts cloudflared with a
  token, checks that the bridge behind the public hostname is its own, and watches it. Processes are
  numbers; what the system, cloudflared, the bridge and the clock answer is an argument of each
  operation. Two fields are not of the code: \<open>nt_live\<close> holds the processes the manager started and has
  neither ended nor seen ended, \<open>nt_files\<close> the files of the system. An operation that does not return
  is \<open>None\<close>.
\<close>

section \<open>Data\<close>

definition DEFAULT_MAX_NETWORK_RETRIES :: nat where
  "DEFAULT_MAX_NETWORK_RETRIES = 3"

definition DEFAULT_AUTHENTICATION_SETTLE_WINDOW :: nat where
  "DEFAULT_AUTHENTICATION_SETTLE_WINDOW = 500"

definition OUTPUT_RING_CAPACITY :: nat where
  "OUTPUT_RING_CAPACITY = 64"

datatype named_status =
    NamedStopped | NamedVerifyingLocal | NamedStarting | NamedVerifyingPublic | NamedRetrying
  | NamedReady | NamedDegraded | NamedFailed | NamedStopping

datatype named_failure_kind =
    InvalidConfiguration | TokenMissing | TokenRejected | LocalHealthUnavailable | DnsNotReady
  | PublicRouteRejected | WrongBridgeInstance | NetworkUnavailable | ChildExited

record bridge_identity =
  bi_version :: string
  bi_instance_id :: string

record named_snapshot =
  nsn_status :: named_status
  nsn_pid :: "nat option"
  nsn_local_url :: "string option"
  nsn_public_url :: "string option"
  nsn_retry_attempt :: nat
  nsn_failure_kind :: "named_failure_kind option"
  nsn_detail :: "string option"

datatype probe_failure =
  ProbeDns | ProbeTimeout | ProbeTransport | ProbeHttpStatus u16 | ProbeInvalidPayload

definition is_deterministic :: "probe_failure \<Rightarrow> bool" where
  "is_deterministic f \<longleftrightarrow>
     f = ProbeDns \<or> f = ProbeInvalidPayload \<or> f \<in> ProbeHttpStatus ` {400, 401, 403, 404}"

fun probe_message :: "probe_failure \<Rightarrow> string" where
  "probe_message ProbeDns = ''public hostname DNS is not ready''"
| "probe_message ProbeTimeout = ''public health request timed out''"
| "probe_message ProbeTransport = ''public network is unavailable''"
| "probe_message (ProbeHttpStatus s) = ''public health returned HTTP '' @ decimal (unat s)"
| "probe_message ProbeInvalidPayload = ''public health response is invalid''"

datatype named_error =
    NtAlreadyRunning | NtTokenMissing | NtTokenRejected | NtLocalHealthUnavailable | NtDnsNotReady
  | NtPublicRouteRejected u16 | NtInvalidPublicHealth | NtWrongBridgeInstance | NtNetworkUnavailable
  | NtChildExited | NtIo string | NtSecretFile io_error

fun named_error_text :: "named_error \<Rightarrow> string" where
  "named_error_text NtAlreadyRunning = ''named tunnel is already running''"
| "named_error_text NtTokenMissing = ''Tunnel Token is missing''"
| "named_error_text NtTokenRejected = ''Cloudflare rejected the Tunnel Token''"
| "named_error_text NtLocalHealthUnavailable = ''local Bridge health is unavailable''"
| "named_error_text NtDnsNotReady = ''public hostname DNS is not ready''"
| "named_error_text (NtPublicRouteRejected s) = ''public route returned HTTP '' @ decimal (unat s)"
| "named_error_text NtInvalidPublicHealth = ''public health response is invalid''"
| "named_error_text NtWrongBridgeInstance = ''public hostname points to a different Bridge instance''"
| "named_error_text NtNetworkUnavailable = ''public network is temporarily unavailable''"
| "named_error_text NtChildExited = ''cloudflared exited before the tunnel was ready''"
| "named_error_text (NtIo e) = ''named tunnel process I/O failed: '' @ e"
| "named_error_text (NtSecretFile e) = ''temporary secret file I/O failed: '' @ io_error_text e"

fun failure_kind :: "named_error \<Rightarrow> named_failure_kind" where
  "failure_kind NtAlreadyRunning = InvalidConfiguration"
| "failure_kind (NtIo e) = InvalidConfiguration"
| "failure_kind (NtSecretFile e) = InvalidConfiguration"
| "failure_kind NtTokenMissing = TokenMissing"
| "failure_kind NtTokenRejected = TokenRejected"
| "failure_kind NtLocalHealthUnavailable = LocalHealthUnavailable"
| "failure_kind NtDnsNotReady = DnsNotReady"
| "failure_kind (NtPublicRouteRejected s) = PublicRouteRejected"
| "failure_kind NtInvalidPublicHealth = PublicRouteRejected"
| "failure_kind NtWrongBridgeInstance = WrongBridgeInstance"
| "failure_kind NtNetworkUnavailable = NetworkUnavailable"
| "failure_kind NtChildExited = ChildExited"

fun from_public_probe :: "probe_failure \<Rightarrow> named_error" where
  "from_public_probe ProbeDns = NtDnsNotReady"
| "from_public_probe ProbeTimeout = NtNetworkUnavailable"
| "from_public_probe ProbeTransport = NtNetworkUnavailable"
| "from_public_probe (ProbeHttpStatus s) =
     (if s = 408 \<or> s = 429 \<or> (500 \<le> s \<and> s \<le> 599) then NtNetworkUnavailable
      else NtPublicRouteRejected s)"
| "from_public_probe ProbeInvalidPayload = NtInvalidPublicHealth"

record named_config =
  nc_binary :: string
  nc_profile :: named_profile
  nc_runtime_dir :: string
  nc_startup_timeout :: nat
  nc_poll_interval :: nat
  nc_max_network_retries :: nat
  nc_retry_delays :: "nat list"
  nc_runtime_health_interval :: nat
  nc_runtime_health_timeout :: nat

definition default_named_config :: "string option \<Rightarrow> string \<Rightarrow> named_config" where
  "default_named_config binary_env temp_dir =
     \<lparr>nc_binary = (case binary_env of Some b \<Rightarrow> b | None \<Rightarrow> ''cloudflared''),
      nc_profile = \<lparr>np_hostname = ''localhost'', np_local_port = 57324\<rparr>,
      nc_runtime_dir = path_join temp_dir ''codex-mobile-bridge'',
      nc_startup_timeout = 5000, nc_poll_interval = 100,
      nc_max_network_retries = DEFAULT_MAX_NETWORK_RETRIES,
      nc_retry_delays = [1000, 2000, 4000],
      nc_runtime_health_interval = 15000, nc_runtime_health_timeout = 5000\<rparr>"

record named_tunnel =
  nt_config :: named_config
  nt_status :: named_status
  nt_local_url :: "string option"
  nt_public_url :: "string option"
  nt_retry_attempt :: nat
  nt_failure_kind :: "named_failure_kind option"
  nt_detail :: "string option"
  nt_child :: "nat option"
  nt_monitor :: bool
  nt_local_identity :: "bridge_identity option"
  nt_last_runtime_probe :: "nat option"
  nt_live :: "nat set"
  nt_files :: file_map

section \<open>The health probe\<close>

text \<open>The request's answer: an error with the texts of its chain, or a status and the decoded body.\<close>

record transport_failure =
  tf_is_timeout :: bool
  tf_is_connect :: bool
  tf_chain :: "string list"

definition error_chain_indicates_dns :: "string list \<Rightarrow> bool" where
  "error_chain_indicates_dns messages \<longleftrightarrow>
     list_ex (\<lambda>message. list_ex (contains (to_ascii_lowercase message))
       [''dns'', ''failed to lookup address'', ''failed to resolve host'', ''host not found'',
        ''name or service not known'', ''name resolution'', ''no such host is known'',
        ''nodename nor servname'']) messages"

definition classify_transport_failure :: "transport_failure \<Rightarrow> probe_failure" where
  "classify_transport_failure e =
     (if tf_is_timeout e then ProbeTimeout
      else if tf_is_connect e \<and> error_chain_indicates_dns (tf_chain e) then ProbeDns
      else ProbeTransport)"

definition http_health ::
  "(string \<Rightarrow> transport_failure + u16 \<times> bridge_identity option) \<Rightarrow> string
    \<Rightarrow> probe_failure + bridge_identity" where
  "http_health get base_url =
     (case get (trim_end_char (CHR ''/'') base_url @ ''/api/health'') of
        Inl e \<Rightarrow> Inl (classify_transport_failure e)
      | Inr (status, body) \<Rightarrow>
          if \<not> (200 \<le> status \<and> status < 300) then Inl (ProbeHttpStatus status)
          else (case body of
              None \<Rightarrow> Inl ProbeInvalidPayload
            | Some identity \<Rightarrow>
                if blank (bi_version identity) \<or> blank (bi_instance_id identity)
                then Inl ProbeInvalidPayload else Inr identity))"

section \<open>The output of cloudflared\<close>

definition contains_token_rejection :: "string \<Rightarrow> bool" where
  "contains_token_rejection line \<longleftrightarrow>
     (let lower = to_ascii_lowercase line in
      contains lower ''invalid tunnel secret'' \<or> contains lower ''token is invalid'' \<or>
      contains lower ''unauthorized'')"

text \<open>The monitor: the events that wait in a channel of 64 places, and the last lines.\<close>

record output_monitor =
  om_events :: nat
  om_lines :: "string list"

definition push_sanitized_line :: "string \<Rightarrow> string list \<Rightarrow> string list" where
  "push_sanitized_line message ls =
     (if length ls = OUTPUT_RING_CAPACITY then drop 1 ls else ls) @ [message]"

definition read_output_line :: "string \<Rightarrow> output_monitor \<Rightarrow> output_monitor" where
  "read_output_line line om =
     (let rejected = contains_token_rejection line in
      om\<lparr>om_lines := push_sanitized_line
           (if rejected then ''cloudflared reported authentication failure''
            else ''cloudflared emitted output'') (om_lines om),
         om_events := (if rejected \<and> om_events om < 64 then om_events om + 1 else om_events om)\<rparr>)"

definition drain_token_rejected :: "output_monitor \<Rightarrow> bool \<times> output_monitor" where
  "drain_token_rejected om = (0 < om_events om, om\<lparr>om_events := 0\<rparr>)"

section \<open>Watching the process\<close>

text \<open>
  A check sees the lines read since the last one, which took all events, and what \<open>try_wait\<close> answers.
\<close>

type_synonym try_wait = "string + string option"

record child_tick =
  ck_lines :: "string list"
  ck_wait :: try_wait

definition check_child :: "child_tick \<Rightarrow> named_error + unit" where
  "check_child t =
     (if list_ex contains_token_rejection (ck_lines t) then Inl NtTokenRejected
      else case ck_wait t of
          Inl e \<Rightarrow> Inl (NtIo e)
        | Inr (Some status) \<Rightarrow> Inl NtChildExited
        | Inr None \<Rightarrow> Inr ())"

record timed_tick = child_tick +
  ck_now :: nat

text \<open>After the last turn the process is checked once more.\<close>

definition settle_turn :: "nat \<Rightarrow> (nat \<Rightarrow> timed_tick) \<Rightarrow> nat \<Rightarrow> (named_error + unit) option" where
  "settle_turn deadline ticks i =
     (case check_child (child_tick.truncate (ticks i)) of
        Inl e \<Rightarrow> Some (Inl e)
      | Inr _ \<Rightarrow>
          if deadline \<le> ck_now (ticks i)
          then Some (check_child (child_tick.truncate (ticks (Suc i)))) else None)"

definition monitor_child_for_duration ::
  "nat \<Rightarrow> nat \<Rightarrow> (nat \<Rightarrow> timed_tick) \<Rightarrow> (named_error + unit) option" where
  "monitor_child_for_duration duration started ticks =
     poll_loop (settle_turn (started + duration) ticks) 0"

definition retry_turn :: "nat \<Rightarrow> (nat \<Rightarrow> timed_tick) \<Rightarrow> nat \<Rightarrow> (named_error + unit) option" where
  "retry_turn deadline ticks i =
     (case check_child (child_tick.truncate (ticks i)) of
        Inl e \<Rightarrow> Some (Inl e)
      | Inr _ \<Rightarrow> if deadline \<le> ck_now (ticks i) then Some (Inr ()) else None)"

definition wait_for_retry :: "nat \<Rightarrow> nat \<Rightarrow> (nat \<Rightarrow> timed_tick) \<Rightarrow> (named_error + unit) option" where
  "wait_for_retry delay started ticks = poll_loop (retry_turn (started + delay) ticks) 0"

text \<open>
  A turn of the monitored probe ends with the poll interval (\<open>None\<close>) or with the probe, which
  \<open>timeout\<close> cuts off (\<open>Some None\<close>).
\<close>

record probe_tick = child_tick +
  ck_probe :: "(probe_failure + bridge_identity) option option"

definition probe_turn ::
  "(nat \<Rightarrow> probe_tick) \<Rightarrow> nat \<Rightarrow> (named_error + (probe_failure + bridge_identity)) option" where
  "probe_turn ticks i =
     (case check_child (child_tick.truncate (ticks i)) of
        Inl e \<Rightarrow> Some (Inl e)
      | Inr _ \<Rightarrow>
          map_option (\<lambda>r. Inr (case r of None \<Rightarrow> Inl ProbeTimeout | Some answer \<Rightarrow> answer))
            (ck_probe (ticks i)))"

definition monitored_probe ::
  "(nat \<Rightarrow> probe_tick) \<Rightarrow> (named_error + (probe_failure + bridge_identity)) option" where
  "monitored_probe ticks = poll_loop (probe_turn ticks) 0"

section \<open>The manager\<close>

definition new_named :: "named_config \<Rightarrow> file_map \<Rightarrow> named_tunnel" where
  "new_named config files =
     \<lparr>nt_config = config, nt_status = NamedStopped, nt_local_url = None, nt_public_url = None,
      nt_retry_attempt = 0, nt_failure_kind = None, nt_detail = None, nt_child = None,
      nt_monitor = False, nt_local_identity = None, nt_last_runtime_probe = None, nt_live = {},
      nt_files = files\<rparr>"

definition named_snapshot_of :: "named_tunnel \<Rightarrow> named_snapshot" where
  "named_snapshot_of m =
     \<lparr>nsn_status = nt_status m, nsn_pid = nt_child m, nsn_local_url = nt_local_url m,
      nsn_public_url = nt_public_url m, nsn_retry_attempt = nt_retry_attempt m,
      nsn_failure_kind = nt_failure_kind m, nsn_detail = nt_detail m\<rparr>"

text \<open>\<open>NamedTunnelState::at\<close> and \<open>ready\<close>.\<close>

definition state_at :: "named_status \<Rightarrow> named_tunnel \<Rightarrow> named_tunnel" where
  "state_at st m =
     m\<lparr>nt_status := st, nt_local_url := None, nt_public_url := None, nt_retry_attempt := 0,
       nt_failure_kind := None, nt_detail := None\<rparr>"

definition state_ready :: "string \<Rightarrow> string \<Rightarrow> named_tunnel \<Rightarrow> named_tunnel" where
  "state_ready local_url public_url m =
     m\<lparr>nt_status := NamedReady, nt_local_url := Some local_url, nt_public_url := Some public_url,
       nt_retry_attempt := 0, nt_failure_kind := None, nt_detail := None\<rparr>"

definition fail_without_child :: "named_error \<Rightarrow> named_tunnel \<Rightarrow> named_tunnel" where
  "fail_without_child e m =
     m\<lparr>nt_status := NamedFailed, nt_retry_attempt := 0, nt_failure_kind := Some (failure_kind e),
       nt_detail := Some (named_error_text e), nt_local_identity := None,
       nt_last_runtime_probe := None\<rparr>"

text \<open>The process is killed or was gone; the monitor's readers are aborted.\<close>

definition stop_child_and_monitor :: "named_tunnel \<Rightarrow> named_tunnel" where
  "stop_child_and_monitor m =
     m\<lparr>nt_child := None, nt_live := nt_live m - set_option (nt_child m), nt_monitor := False\<rparr>"

definition mark_child_exited :: "named_tunnel \<Rightarrow> named_tunnel" where
  "mark_child_exited m = fail_without_child NtChildExited (stop_child_and_monitor m)"

definition fail_runtime :: "named_error \<Rightarrow> named_tunnel \<Rightarrow> named_tunnel" where
  "fail_runtime e m = stop_child_and_monitor (fail_without_child e m)"

definition child_exited :: "try_wait \<Rightarrow> named_tunnel \<Rightarrow> string + bool" where
  "child_exited w m =
     (case nt_child m of
        None \<Rightarrow> Inr False
      | Some pid \<Rightarrow> (case w of Inl e \<Rightarrow> Inl e | Inr exit \<Rightarrow> Inr (exit \<noteq> None)))"

definition named_status_op :: "try_wait \<Rightarrow> named_tunnel \<Rightarrow> named_snapshot \<times> named_tunnel" where
  "named_status_op w m =
     (let m1 = (if child_exited w m = Inr True then mark_child_exited m else m)
      in (named_snapshot_of m1, m1))"

definition ensure_not_running :: "try_wait \<Rightarrow> (named_tunnel, named_error, unit) action" where
  "ensure_not_running w m =
     (case child_exited w m of
        Inl e \<Rightarrow> (Inl (NtIo e), m)
      | Inr exited \<Rightarrow>
          (let m1 = (if exited then mark_child_exited m else m)
           in (if nt_child m1 \<noteq> None then Inl NtAlreadyRunning else Inr (), m1)))"

definition named_tunnel_launch_args :: "string \<Rightarrow> string \<Rightarrow> string list" where
  "named_tunnel_launch_args token_file local_url =
     [''tunnel'', ''--no-autoupdate'', ''run'', ''--token-file'', token_file, ''--url'', local_url]"

definition retry_delay :: "named_config \<Rightarrow> nat \<Rightarrow> nat" where
  "retry_delay config attempt =
     (if attempt < length (nc_retry_delays config) then nc_retry_delays config ! attempt
      else nc_retry_delays config ! 2)"

section \<open>Starting\<close>

text \<open>What the environment shows during one attempt, and during the start.\<close>

record named_attempt =
  at_check :: child_tick
  at_probe :: "string \<Rightarrow> nat \<Rightarrow> probe_tick"
  at_settle_started :: nat
  at_settle :: "nat \<Rightarrow> timed_tick"
  at_retry_started :: nat
  at_retry :: "nat \<Rightarrow> timed_tick"

record named_start =
  ns_running :: try_wait
  ns_local_probe :: "string \<Rightarrow> (probe_failure + bridge_identity) option"
  ns_secret :: secret_faults
  ns_spawn :: "string \<Rightarrow> string list \<Rightarrow> file_map \<Rightarrow> string + nat"
  ns_attempts :: "nat \<Rightarrow> named_attempt"
  ns_ready_at :: nat
  ns_drop :: "io_error option"

definition fail_named_start ::
  "nat \<Rightarrow> named_error \<Rightarrow> named_tunnel \<Rightarrow> (named_error + named_snapshot) \<times> named_tunnel" where
  "fail_named_start pid e m =
     (Inl e, (fail_without_child e m)\<lparr>nt_live := nt_live m - {pid}\<rparr>)"

datatype attempt_outcome =
    AttemptDone "named_error + named_snapshot" named_tunnel
  | AttemptRetry named_tunnel

definition settled :: "(named_error + named_snapshot) \<times> named_tunnel \<Rightarrow> attempt_outcome option" where
  "settled p = Some (AttemptDone (fst p) (snd p))"

text \<open>The tunnel is ready: the manager takes the process.\<close>

definition named_ready ::
  "named_start \<Rightarrow> nat \<Rightarrow> bridge_identity \<Rightarrow> string \<Rightarrow> string \<Rightarrow> named_tunnel
    \<Rightarrow> named_tunnel" where
  "named_ready env pid identity local_url public_url m =
     (state_ready local_url public_url m)
       \<lparr>nt_child := Some pid, nt_monitor := True, nt_local_identity := Some identity,
        nt_last_runtime_probe := Some (ns_ready_at env)\<rparr>"

text \<open>The bridge itself answered: cloudflared has to run on for a while.\<close>

definition settle_and_take ::
  "named_start \<Rightarrow> nat \<Rightarrow> bridge_identity \<Rightarrow> string \<Rightarrow> string \<Rightarrow> nat \<Rightarrow> named_tunnel
    \<Rightarrow> attempt_outcome option" where
  "settle_and_take env pid identity local_url public_url attempt m =
     (let t = ns_attempts env attempt in
      case monitor_child_for_duration
          (min (nc_startup_timeout (nt_config m)) DEFAULT_AUTHENTICATION_SETTLE_WINDOW)
          (at_settle_started t) (at_settle t) of
        None \<Rightarrow> None
      | Some (Inl e) \<Rightarrow> settled (fail_named_start pid e m)
      | Some (Inr _) \<Rightarrow>
          (let m1 = named_ready env pid identity local_url public_url m
           in settled (Inr (named_snapshot_of m1), m1)))"

text \<open>A failure of the network: wait, and try again.\<close>

definition retry_later ::
  "named_start \<Rightarrow> nat \<Rightarrow> nat \<Rightarrow> probe_failure \<Rightarrow> named_tunnel \<Rightarrow> attempt_outcome option" where
  "retry_later env pid attempt failure m =
     (let t = ns_attempts env attempt;
          m1 = m\<lparr>nt_status := NamedRetrying, nt_retry_attempt := attempt + 1,
            nt_detail := Some (probe_message failure)\<rparr> in
      case wait_for_retry (retry_delay (nt_config m) attempt) (at_retry_started t) (at_retry t) of
        None \<Rightarrow> None
      | Some (Inl e) \<Rightarrow> settled (fail_named_start pid e m1)
      | Some (Inr _) \<Rightarrow> Some (AttemptRetry (m1\<lparr>nt_status := NamedVerifyingPublic\<rparr>)))"

text \<open>One turn of the loop over attempts, whether it is the last.\<close>

definition judge_answer ::
  "named_start \<Rightarrow> nat \<Rightarrow> bridge_identity \<Rightarrow> string \<Rightarrow> string \<Rightarrow> nat \<Rightarrow> bool
    \<Rightarrow> named_error + (probe_failure + bridge_identity) \<Rightarrow> named_tunnel \<Rightarrow> attempt_outcome option" where
  "judge_answer env pid identity local_url public_url attempt is_last answer m =
     (case answer of
        Inl e \<Rightarrow> settled (fail_named_start pid e m)
      | Inr (Inr public_identity) \<Rightarrow>
          if public_identity = identity
          then settle_and_take env pid identity local_url public_url attempt m
          else settled (fail_named_start pid NtWrongBridgeInstance m)
      | Inr (Inl failure) \<Rightarrow>
          if is_deterministic failure \<or> is_last
          then settled (fail_named_start pid (from_public_probe failure) m)
          else retry_later env pid attempt failure m)"

definition attempt_once ::
  "named_start \<Rightarrow> nat \<Rightarrow> bridge_identity \<Rightarrow> string \<Rightarrow> string \<Rightarrow> nat \<Rightarrow> bool
    \<Rightarrow> named_tunnel \<Rightarrow> attempt_outcome option" where
  "attempt_once env pid identity local_url public_url attempt is_last m =
     (let t = ns_attempts env attempt in
      case check_child (at_check t) of
        Inl e \<Rightarrow> settled (fail_named_start pid e m)
      | Inr _ \<Rightarrow>
          (case monitored_probe (at_probe t public_url) of
             None \<Rightarrow> None
           | Some answer \<Rightarrow>
               judge_answer env pid identity local_url public_url attempt is_last answer m))"

text \<open>\<open>left\<close> attempts follow this one. The last attempt does not ask for another one.\<close>

fun connect_attempts ::
  "named_start \<Rightarrow> nat \<Rightarrow> bridge_identity \<Rightarrow> string \<Rightarrow> string \<Rightarrow> nat \<Rightarrow> nat
    \<Rightarrow> named_tunnel \<Rightarrow> ((named_error + named_snapshot) \<times> named_tunnel) option" where
  "connect_attempts env pid identity lu pu attempt 0 m =
     (case attempt_once env pid identity lu pu attempt True m of
        Some (AttemptDone r m') \<Rightarrow> Some (r, m')
      | _ \<Rightarrow> None)"
| "connect_attempts env pid identity lu pu attempt (Suc left) m =
     (case attempt_once env pid identity lu pu attempt False m of
        None \<Rightarrow> None
      | Some (AttemptDone r m') \<Rightarrow> Some (r, m')
      | Some (AttemptRetry m') \<Rightarrow> connect_attempts env pid identity lu pu (Suc attempt) left m')"

text \<open>The start once the local bridge has answered: the token's file exists until it returns.\<close>

definition drop_token ::
  "io_error option \<Rightarrow> secret_file \<Rightarrow> (named_error + named_snapshot) \<times> named_tunnel
    \<Rightarrow> (named_error + named_snapshot) \<times> named_tunnel" where
  "drop_token fault f p = (fst p, (snd p)\<lparr>nt_files := drop_secret_file fault f (nt_files (snd p))\<rparr>)"

definition spawn_and_connect ::
  "named_start \<Rightarrow> secret_file \<Rightarrow> bridge_identity \<Rightarrow> string \<Rightarrow> string \<Rightarrow> named_tunnel
    \<Rightarrow> ((named_error + named_snapshot) \<times> named_tunnel) option" where
  "spawn_and_connect env f identity local_url public_url m =
     (case ns_spawn env (nc_binary (nt_config m)) (named_tunnel_launch_args (sf_path f) local_url)
         (nt_files m) of
        Inl e \<Rightarrow> Some (Inl (NtIo e), fail_without_child (NtIo e) m)
      | Inr pid \<Rightarrow>
          connect_attempts env pid identity local_url public_url 0
            (min (nc_max_network_retries (nt_config m)) DEFAULT_MAX_NETWORK_RETRIES)
            (m\<lparr>nt_status := NamedVerifyingPublic, nt_live := insert pid (nt_live m)\<rparr>))"

definition start_with_identity ::
  "named_start \<Rightarrow> string \<Rightarrow> bridge_identity \<Rightarrow> string \<Rightarrow> string \<Rightarrow> named_tunnel
    \<Rightarrow> ((named_error + named_snapshot) \<times> named_tunnel) option" where
  "start_with_identity env token identity local_url public_url m =
     (case create_secret_file (ns_secret env) (nc_runtime_dir (nt_config m)) ''cloudflared-token'' token
         (nt_files m) of
        (Inl e, fs) \<Rightarrow>
          Some (Inl (NtSecretFile e), fail_without_child (NtSecretFile e) (m\<lparr>nt_files := fs\<rparr>))
      | (Inr f, fs) \<Rightarrow>
          map_option (drop_token (ns_drop env) f)
            (spawn_and_connect env f identity local_url public_url
              (m\<lparr>nt_files := fs, nt_status := NamedStarting\<rparr>)))"

definition begin_verifying :: "named_tunnel \<Rightarrow> named_tunnel" where
  "begin_verifying m =
     m\<lparr>nt_status := NamedVerifyingLocal,
       nt_local_url := Some (profile_local_url (nc_profile (nt_config m))),
       nt_public_url := Some (profile_public_url (nc_profile (nt_config m))),
       nt_retry_attempt := 0, nt_failure_kind := None, nt_detail := None\<rparr>"

definition verify_local ::
  "named_start \<Rightarrow> string \<Rightarrow> named_tunnel \<Rightarrow> ((named_error + named_snapshot) \<times> named_tunnel) option" where
  "verify_local env token m =
     (let profile = nc_profile (nt_config m) in
      case ns_local_probe env (profile_local_url profile) of
        Some (Inr identity) \<Rightarrow>
          start_with_identity env token identity (profile_local_url profile)
            (profile_public_url profile) m
      | _ \<Rightarrow> Some (Inl NtLocalHealthUnavailable, fail_without_child NtLocalHealthUnavailable m))"

definition start_named ::
  "named_start \<Rightarrow> string \<Rightarrow> named_tunnel \<Rightarrow> ((named_error + named_snapshot) \<times> named_tunnel) option" where
  "start_named env token m =
     (case ensure_not_running (ns_running env) m of
        (Inl e, m1) \<Rightarrow> Some (Inl e, m1)
      | (Inr _, m1) \<Rightarrow>
          if blank token then Some (Inl NtTokenMissing, fail_without_child NtTokenMissing m1)
          else verify_local env token (begin_verifying m1))"

section \<open>Stopping and watching\<close>

definition stop_named :: "named_tunnel \<Rightarrow> named_snapshot \<times> named_tunnel" where
  "stop_named m =
     (let m1 = (state_at NamedStopped (stop_child_and_monitor (m\<lparr>nt_status := NamedStopping\<rparr>)))
            \<lparr>nt_local_identity := None, nt_last_runtime_probe := None\<rparr>
      in (named_snapshot_of m1, m1))"

definition terminate_named_now :: "named_tunnel \<Rightarrow> named_snapshot \<times> named_tunnel" where
  "terminate_named_now m =
     (let m1 = (state_at NamedStopped (stop_child_and_monitor (m\<lparr>nt_status := NamedStopping\<rparr>)))
            \<lparr>nt_local_identity := None, nt_last_runtime_probe := None\<rparr>
      in (named_snapshot_of m1, m1))"

text \<open>
  What a refresh sees: the process, the clock, the output, the probe. A process without a monitor
  would make it panic.
\<close>

record named_refresh =
  nr_wait :: try_wait
  nr_now :: nat
  nr_lines :: "string list"
  nr_probe :: "string \<Rightarrow> nat \<Rightarrow> probe_tick"

definition probed_runtime ::
  "bridge_identity \<Rightarrow> named_error + (probe_failure + bridge_identity) \<Rightarrow> named_tunnel \<Rightarrow> named_tunnel" where
  "probed_runtime identity answer m =
     (case answer of
        Inl e \<Rightarrow> fail_runtime e m
      | Inr (Inr public_identity) \<Rightarrow>
          if public_identity = identity
          then m\<lparr>nt_status := NamedReady, nt_failure_kind := None, nt_detail := None\<rparr>
          else fail_runtime NtWrongBridgeInstance m
      | Inr (Inl failure) \<Rightarrow>
          if is_deterministic failure then fail_runtime (from_public_probe failure) m
          else m\<lparr>nt_status := NamedDegraded, nt_failure_kind := None,
                 nt_detail := Some (probe_message failure)\<rparr>)"

definition refresh_running ::
  "named_refresh \<Rightarrow> named_tunnel \<Rightarrow> (named_snapshot \<times> named_tunnel) option" where
  "refresh_running env m =
     (case (nt_public_url m, nt_local_identity m) of
        (Some public_url, Some identity) \<Rightarrow>
          if \<not> nt_monitor m then None
          else map_option (\<lambda>answer.
              let m1 = probed_runtime identity answer (m\<lparr>nt_last_runtime_probe := Some (nr_now env)\<rparr>)
              in (named_snapshot_of m1, m1)) (monitored_probe (nr_probe env public_url))
      | _ \<Rightarrow> Some (named_snapshot_of m, m))"

definition refresh_runtime_health ::
  "named_refresh \<Rightarrow> bool \<Rightarrow> named_tunnel
    \<Rightarrow> ((named_error + named_snapshot) \<times> named_tunnel) option" where
  "refresh_runtime_health env force m =
     (case child_exited (nr_wait env) m of
        Inl e \<Rightarrow> Some (Inl (NtIo e), m)
      | Inr True \<Rightarrow>
          (let m1 = mark_child_exited m in Some (Inr (named_snapshot_of m1), m1))
      | Inr False \<Rightarrow>
          if nt_child m = None \<or> nt_status m \<notin> {NamedReady, NamedDegraded}
          then Some (Inr (named_snapshot_of m), m)
          else if \<not> force \<and> (case nt_last_runtime_probe m of
                None \<Rightarrow> False
              | Some t \<Rightarrow> nr_now env - t < nc_runtime_health_interval (nt_config m))
          then Some (Inr (named_snapshot_of m), m)
          else if nt_monitor m \<and> list_ex contains_token_rejection (nr_lines env)
          then (let m1 = fail_runtime NtTokenRejected m in Some (Inr (named_snapshot_of m1), m1))
          else map_option (\<lambda>(snap, m1). (Inr snap, m1)) (refresh_running env m))"

section \<open>What a start does\<close>

text \<open>
  The public address was shown to lead to the bridge itself: in one of the attempts the probe answered
  with its identity while cloudflared ran, which then ran on through the settle window, without a
  word of a rejected token.
\<close>

definition verified_attempt :: "named_start \<Rightarrow> nat \<Rightarrow> string \<Rightarrow> bridge_identity \<Rightarrow> nat \<Rightarrow> bool" where
  "verified_attempt env window public_url identity a \<longleftrightarrow>
     (let t = ns_attempts env a in
      (\<exists>i. ck_probe (at_probe t public_url i) = Some (Some (Inr identity))
         \<and> check_child (child_tick.truncate (at_probe t public_url i)) = Inr ()) \<and>
      (\<exists>j. at_settle_started t + window \<le> ck_now (at_settle t j)
         \<and> (\<forall>i \<le> Suc j. check_child (child_tick.truncate (at_settle t i)) = Inr ())))"

definition settle_window :: "named_config \<Rightarrow> nat" where
  "settle_window config = min (nc_startup_timeout config) DEFAULT_AUTHENTICATION_SETTLE_WINDOW"

text \<open>The manager between its attempts, and after a start.\<close>

definition connecting :: "nat \<Rightarrow> named_tunnel \<Rightarrow> bool" where
  "connecting pid m \<longleftrightarrow>
     nt_child m = None \<and> \<not> nt_monitor m \<and> nt_local_identity m = None \<and> nt_failure_kind m = None \<and>
     nt_live m \<subseteq> {pid} \<and>
     nt_local_url m = Some (profile_local_url (nc_profile (nt_config m))) \<and>
     nt_public_url m = Some (profile_public_url (nc_profile (nt_config m)))"

definition named_ok :: "named_tunnel \<Rightarrow> bool" where
  "named_ok m \<longleftrightarrow>
     (nt_child m \<noteq> None \<longleftrightarrow> nt_status m \<in> {NamedReady, NamedDegraded}) \<and>
     (nt_monitor m \<longleftrightarrow> nt_child m \<noteq> None) \<and>
     (nt_local_identity m \<noteq> None \<longleftrightarrow> nt_child m \<noteq> None) \<and>
     (nt_child m \<noteq> None \<longrightarrow>
        nt_local_url m = Some (profile_local_url (nc_profile (nt_config m))) \<and>
        nt_public_url m = Some (profile_public_url (nc_profile (nt_config m)))) \<and>
     (nt_failure_kind m \<noteq> None \<longleftrightarrow> nt_status m = NamedFailed) \<and>
     nt_status m \<in> {NamedStopped, NamedReady, NamedDegraded, NamedFailed} \<and>
     nt_live m \<subseteq> set_option (nt_child m)"

definition named_failed :: "named_error \<Rightarrow> named_tunnel \<Rightarrow> bool" where
  "named_failed e m \<longleftrightarrow>
     nt_status m = NamedFailed \<and> nt_failure_kind m = Some (failure_kind e) \<and>
     nt_detail m = Some (named_error_text e) \<and> nt_child m = None"

definition same_place :: "named_tunnel \<Rightarrow> named_tunnel \<Rightarrow> bool" where
  "same_place m m' \<longleftrightarrow> nt_files m' = nt_files m \<and> nt_config m' = nt_config m"

text \<open>How an attempt, or all of them, ends.\<close>

definition ends_well ::
  "named_start \<Rightarrow> nat \<Rightarrow> bridge_identity \<Rightarrow> named_tunnel \<Rightarrow> nat
    \<Rightarrow> (named_error + named_snapshot) \<times> named_tunnel \<Rightarrow> bool" where
  "ends_well env pid identity m a p \<longleftrightarrow>
     same_place m (snd p) \<and> named_ok (snd p) \<and>
     (case fst p of
        Inl e \<Rightarrow> named_failed e (snd p)
      | Inr snap \<Rightarrow> snap = named_snapshot_of (snd p) \<and> nt_status (snd p) = NamedReady \<and>
          nt_child (snd p) = Some pid \<and> nt_local_identity (snd p) = Some identity \<and>
          verified_attempt env (settle_window (nt_config m))
            (profile_public_url (nc_profile (nt_config m))) identity a)"

lemma fail_named_start_ends:
  "connecting pid m0 \<Longrightarrow> same_place m m0 \<Longrightarrow> ends_well env pid identity m a (fail_named_start pid e m0)"
  by (auto simp: ends_well_def fail_named_start_def connecting_def named_ok_def named_failed_def
      fail_without_child_def same_place_def)

lemma named_ready_ends:
  assumes "connecting pid m"
    and "verified_attempt env (settle_window (nt_config m))
      (profile_public_url (nc_profile (nt_config m))) identity a"
  shows "ends_well env pid identity m a
    (let m1 = named_ready env pid identity (profile_local_url (nc_profile (nt_config m)))
        (profile_public_url (nc_profile (nt_config m))) m
     in (Inr (named_snapshot_of m1), m1))"
  using assms
  by (auto simp: ends_well_def named_ready_def state_ready_def connecting_def named_ok_def
      same_place_def Let_def)

lemma probe_turn_answer:
  "probe_turn ticks i = Some (Inr (Inr identity)) \<longleftrightarrow>
     check_child (child_tick.truncate (ticks i)) = Inr () \<and> ck_probe (ticks i) = Some (Some (Inr identity))"
  by (auto simp: probe_turn_def split: sum.splits option.splits)

lemma monitored_probe_answer:
  "monitored_probe ticks = Some (Inr (Inr identity)) \<Longrightarrow>
     \<exists>i. ck_probe (ticks i) = Some (Some (Inr identity))
       \<and> check_child (child_tick.truncate (ticks i)) = Inr ()"
  unfolding monitored_probe_def poll_loop_Some_iff probe_turn_answer by blast

lemma settle_turn_None:
  "settle_turn deadline ticks i = None \<Longrightarrow> check_child (child_tick.truncate (ticks i)) = Inr ()"
  by (auto simp: settle_turn_def split: sum.splits if_splits)

lemma settle_turn_Inr:
  "settle_turn deadline ticks i = Some (Inr u) \<Longrightarrow>
     check_child (child_tick.truncate (ticks i)) = Inr () \<and> deadline \<le> ck_now (ticks i)
     \<and> check_child (child_tick.truncate (ticks (Suc i))) = Inr ()"
  by (auto simp: settle_turn_def split: sum.splits if_splits)

lemma monitor_child_settled:
  assumes "monitor_child_for_duration d started ticks = Some (Inr u)"
  shows "\<exists>j. started + d \<le> ck_now (ticks j)
    \<and> (\<forall>i \<le> Suc j. check_child (child_tick.truncate (ticks i)) = Inr ())"
proof -
  obtain j where j: "settle_turn (started + d) ticks j = Some (Inr u)"
    "\<forall>i. 0 \<le> i \<longrightarrow> i < j \<longrightarrow> settle_turn (started + d) ticks i = None"
    using assms unfolding monitor_child_for_duration_def poll_loop_Some_iff by blast
  have "check_child (child_tick.truncate (ticks i)) = Inr ()" if "i \<le> Suc j" for i
  proof -
    from that consider "i < j" | "i = j" | "i = Suc j" by linarith
    then show ?thesis
      by cases (use j(2) settle_turn_None [of "started + d" ticks i] settle_turn_Inr [OF j(1)] in auto)
  qed
  with settle_turn_Inr [OF j(1)] show ?thesis by blast
qed

text \<open>An attempt ends the start well, or leaves the manager ready for another one.\<close>

definition attempt_ok ::
  "named_start \<Rightarrow> nat \<Rightarrow> bridge_identity \<Rightarrow> nat \<Rightarrow> bool \<Rightarrow> named_tunnel \<Rightarrow> attempt_outcome \<Rightarrow> bool" where
  "attempt_ok env pid identity a is_last m out \<longleftrightarrow>
     (case out of
        AttemptDone r m' \<Rightarrow> ends_well env pid identity m a (r, m')
      | AttemptRetry m' \<Rightarrow> \<not> is_last \<and> connecting pid m' \<and> same_place m m')"

lemma settled_failure_ok:
  assumes "settled (fail_named_start pid e m0) = Some out" and "connecting pid m0" and "same_place m m0"
  shows "attempt_ok env pid identity a is_last m out"
  using fail_named_start_ends [OF assms(2,3)] assms(1) by (auto simp: attempt_ok_def settled_def)

lemma same_place_refl [simp]: "same_place m m"
  by (simp add: same_place_def)

lemma retry_later_ok:
  assumes run: "retry_later env pid a failure m = Some out" and c: "connecting pid m"
  shows "attempt_ok env pid identity a False m out"
proof -
  define m1 where "m1 = m\<lparr>nt_status := NamedRetrying, nt_retry_attempt := a + 1,
    nt_detail := Some (probe_message failure)\<rparr>"
  have m1: "connecting pid m1" "same_place m m1" "connecting pid (m1\<lparr>nt_status := NamedVerifyingPublic\<rparr>)"
    "same_place m (m1\<lparr>nt_status := NamedVerifyingPublic\<rparr>)"
    using c by (auto simp: m1_def connecting_def same_place_def)
  let ?w = "wait_for_retry (retry_delay (nt_config m) a) (at_retry_started (ns_attempts env a))
    (at_retry (ns_attempts env a))"
  have run1: "(case ?w of None \<Rightarrow> None | Some (Inl e) \<Rightarrow> settled (fail_named_start pid e m1)
      | Some (Inr _) \<Rightarrow> Some (AttemptRetry (m1\<lparr>nt_status := NamedVerifyingPublic\<rparr>))) = Some out"
    using run unfolding retry_later_def Let_def m1_def .
  then obtain w where w: "?w = Some w" by (cases ?w) auto
  show ?thesis
  proof (cases w)
    case (Inl e)
    with run1 w have "settled (fail_named_start pid e m1) = Some out" by simp
    then show ?thesis by (rule settled_failure_ok [OF _ m1(1,2)])
  next
    case (Inr u)
    with run1 w m1(3,4) show ?thesis by (auto simp: attempt_ok_def)
  qed
qed

lemma settle_and_take_ok:
  assumes run: "settle_and_take env pid identity (profile_local_url (nc_profile (nt_config m)))
      (profile_public_url (nc_profile (nt_config m))) a m = Some out" and c: "connecting pid m"
    and seen: "monitored_probe (at_probe (ns_attempts env a) (profile_public_url (nc_profile (nt_config m))))
      = Some (Inr (Inr identity))"
  shows "attempt_ok env pid identity a is_last m out"
proof -
  let ?t = "ns_attempts env a"
  let ?w = "monitor_child_for_duration (settle_window (nt_config m)) (at_settle_started ?t) (at_settle ?t)"
  have run1: "(case ?w of None \<Rightarrow> None | Some (Inl e) \<Rightarrow> settled (fail_named_start pid e m)
      | Some (Inr _) \<Rightarrow> (let m1 = named_ready env pid identity (profile_local_url (nc_profile (nt_config m)))
          (profile_public_url (nc_profile (nt_config m))) m
        in settled (Inr (named_snapshot_of m1), m1))) = Some out"
    using run by (simp add: settle_and_take_def Let_def settle_window_def)
  then obtain w where w: "?w = Some w" by (cases ?w) auto
  show ?thesis
  proof (cases w)
    case (Inl e)
    with run1 w have "settled (fail_named_start pid e m) = Some out" by simp
    then show ?thesis by (rule settled_failure_ok [OF _ c]) simp
  next
    case (Inr u)
    have "verified_attempt env (settle_window (nt_config m))
        (profile_public_url (nc_profile (nt_config m))) identity a"
      using monitored_probe_answer [OF seen] monitor_child_settled [OF w [unfolded Inr]]
      by (simp add: verified_attempt_def Let_def)
    from named_ready_ends [OF c this] run1 w Inr show ?thesis
      by (auto simp: settled_def attempt_ok_def Let_def)
  qed
qed

lemma judge_answer_ok:
  assumes run: "judge_answer env pid identity (profile_local_url (nc_profile (nt_config m)))
      (profile_public_url (nc_profile (nt_config m))) a is_last answer m = Some out"
    and c: "connecting pid m"
    and seen: "monitored_probe (at_probe (ns_attempts env a) (profile_public_url (nc_profile (nt_config m))))
      = Some answer"
  shows "attempt_ok env pid identity a is_last m out"
proof -
  have failed: ?thesis if "settled (fail_named_start pid e m) = Some out" for e
    using that by (rule settled_failure_ok [OF _ c]) simp
  consider e where "answer = Inl e" | failure where "answer = Inr (Inl failure)"
    | found where "answer = Inr (Inr found)"
    by (metis sum.exhaust)
  then show ?thesis
  proof cases
    case (1 e)
    with run show ?thesis by (intro failed [of e]) (simp add: judge_answer_def)
  next
    case (2 failure)
    show ?thesis
    proof (cases "is_deterministic failure \<or> is_last")
      case True
      with run 2 show ?thesis by (intro failed [of "from_public_probe failure"]) (auto simp: judge_answer_def)
    next
      case False
      with run 2 retry_later_ok [OF _ c, of env a failure out identity] show ?thesis
        by (simp add: judge_answer_def)
    qed
  next
    case (3 found)
    show ?thesis
    proof (cases "found = identity")
      case False
      with run 3 show ?thesis by (intro failed [of NtWrongBridgeInstance]) (simp add: judge_answer_def)
    next
      case True
      with run 3 seen show ?thesis
        by (intro settle_and_take_ok [OF _ c]) (simp_all add: judge_answer_def)
    qed
  qed
qed

lemma attempt_once_ok:
  assumes run: "attempt_once env pid identity (profile_local_url (nc_profile (nt_config m)))
      (profile_public_url (nc_profile (nt_config m))) a is_last m = Some out"
    and c: "connecting pid m"
  shows "attempt_ok env pid identity a is_last m out"
proof (cases "check_child (at_check (ns_attempts env a))")
  case (Inl e)
  with run have "settled (fail_named_start pid e m) = Some out" by (simp add: attempt_once_def Let_def)
  then show ?thesis by (rule settled_failure_ok [OF _ c]) simp
next
  case (Inr u)
  show ?thesis
  proof (cases "monitored_probe (at_probe (ns_attempts env a) (profile_public_url (nc_profile (nt_config m))))")
    case (Some answer)
    with run Inr show ?thesis
      by (intro judge_answer_ok [OF _ c Some]) (simp add: attempt_once_def Let_def)
  qed (use run Inr in \<open>simp add: attempt_once_def Let_def\<close>)
qed

lemma ends_well_from:
  "ends_well env pid identity m' a p \<Longrightarrow> same_place m m' \<Longrightarrow> ends_well env pid identity m a p"
  by (auto simp: ends_well_def same_place_def split: sum.splits)

lemma connect_attempts_ok:
  assumes "connect_attempts env pid identity (profile_local_url (nc_profile (nt_config m)))
      (profile_public_url (nc_profile (nt_config m))) a left m = Some p"
    and "connecting pid m"
  shows "\<exists>b. a \<le> b \<and> b \<le> a + left \<and> ends_well env pid identity m b p"
  using assms
proof (induction left arbitrary: a m)
  case 0
  obtain r m' where run: "attempt_once env pid identity (profile_local_url (nc_profile (nt_config m)))
      (profile_public_url (nc_profile (nt_config m))) a True m = Some (AttemptDone r m')" "p = (r, m')"
    using 0(1) by (auto split: option.splits attempt_outcome.splits)
  from attempt_once_ok [OF run(1) 0(2)] run(2) show ?case by (auto simp: attempt_ok_def)
next
  case (Suc left)
  let ?run = "attempt_once env pid identity (profile_local_url (nc_profile (nt_config m)))
      (profile_public_url (nc_profile (nt_config m))) a False m"
  obtain out where out: "?run = Some out" using Suc.prems(1) by (cases ?run) auto
  note good = attempt_once_ok [OF out Suc.prems(2)]
  show ?case
  proof (cases out)
    case (AttemptDone r m')
    with Suc.prems(1) out good show ?thesis by (auto simp: attempt_ok_def)
  next
    case (AttemptRetry m')
    with good have m': "connecting pid m'" "same_place m m'" by (simp_all add: attempt_ok_def)
    have "connect_attempts env pid identity (profile_local_url (nc_profile (nt_config m')))
        (profile_public_url (nc_profile (nt_config m'))) (Suc a) left m' = Some p"
      using Suc.prems(1) out AttemptRetry m'(2) by (simp add: same_place_def)
    from Suc.IH [OF this m'(1)] obtain b where "Suc a \<le> b" "b \<le> Suc a + left"
      "ends_well env pid identity m' b p" by blast
    with ends_well_from [OF _ m'(2)] show ?thesis by (intro exI [of _ b]) auto
  qed
qed

text \<open>
  What a start leaves: the manager is in order and the files are as before; it is ready with a
  verified address, or failed, or it was running already.
\<close>

definition start_result ::
  "named_start \<Rightarrow> string \<Rightarrow> named_tunnel \<Rightarrow> (named_error + named_snapshot) \<times> named_tunnel \<Rightarrow> bool" where
  "start_result env token m p \<longleftrightarrow>
     same_place m (snd p) \<and> named_ok (snd p) \<and>
     (case fst p of
        Inr snap \<Rightarrow> snap = named_snapshot_of (snd p) \<and> nt_status (snd p) = NamedReady \<and> \<not> blank token \<and>
          (\<exists>identity a. a \<le> 3 \<and>
             ns_local_probe env (profile_local_url (nc_profile (nt_config m))) = Some (Inr identity) \<and>
             nt_local_identity (snd p) = Some identity \<and>
             verified_attempt env (settle_window (nt_config m))
               (profile_public_url (nc_profile (nt_config m))) identity a)
      | Inl e \<Rightarrow> named_failed e (snd p)
          \<or> (nt_child m \<noteq> None \<and> snd p = m \<and> (e = NtAlreadyRunning \<or> (\<exists>t. e = NtIo t))))"

lemma named_failed_result:
  assumes "nt_child m1 = None" and "nt_live m1 = {}" and "\<not> nt_monitor m1" and "same_place m m1"
  shows "start_result env token m (Inl e, fail_without_child e m1)"
  using assms
  by (auto simp: start_result_def named_failed_def fail_without_child_def named_ok_def same_place_def)

lemma spawn_and_connect_ok:
  assumes run: "spawn_and_connect env f identity (profile_local_url (nc_profile (nt_config m)))
      (profile_public_url (nc_profile (nt_config m))) m = Some p"
    and c: "\<forall>pid. connecting pid m" and token: "\<not> blank token"
    and seen: "ns_local_probe env (profile_local_url (nc_profile (nt_config m))) = Some (Inr identity)"
  shows "start_result env token m p"
proof (cases "ns_spawn env (nc_binary (nt_config m)) (named_tunnel_launch_args (sf_path f)
    (profile_local_url (nc_profile (nt_config m)))) (nt_files m)")
  case (Inl e)
  have "nt_live m = {}"
  proof -
    have "nt_live m \<subseteq> {0}" "nt_live m \<subseteq> {1}" using c by (auto simp: connecting_def)
    then show ?thesis by auto
  qed
  with Inl run c named_failed_result [of m m env token "NtIo e"] show ?thesis
    by (simp add: spawn_and_connect_def connecting_def)
next
  case (Inr pid)
  define m1 where "m1 = m\<lparr>nt_status := NamedVerifyingPublic, nt_live := insert pid (nt_live m)\<rparr>"
  have m1: "connecting pid m1" "same_place m m1"
    using c by (auto simp: m1_def connecting_def same_place_def)
  have "connect_attempts env pid identity (profile_local_url (nc_profile (nt_config m1)))
      (profile_public_url (nc_profile (nt_config m1))) 0
      (min (nc_max_network_retries (nt_config m)) DEFAULT_MAX_NETWORK_RETRIES) m1 = Some p"
    using run Inr by (simp add: spawn_and_connect_def m1_def)
  from connect_attempts_ok [OF this m1(1)] obtain b where b: "ends_well env pid identity m1 b p" "b \<le> 3"
    by (auto simp: DEFAULT_MAX_NETWORK_RETRIES_def)
  from ends_well_from [OF b(1) m1(2)] b(2) seen token show ?thesis
    by (auto simp: ends_well_def start_result_def split: sum.splits)
qed

lemma start_with_identity_ok:
  assumes run: "start_with_identity env token identity (profile_local_url (nc_profile (nt_config m)))
      (profile_public_url (nc_profile (nt_config m))) m = Some p"
    and c: "\<forall>pid. connecting pid m" and token: "\<not> blank token"
    and seen: "ns_local_probe env (profile_local_url (nc_profile (nt_config m))) = Some (Inr identity)"
    and files: "sk_remove (ns_secret env) = None" "ns_drop env = None"
  shows "start_result env token m p"
proof -
  obtain x fs where create: "create_secret_file (ns_secret env) (nc_runtime_dir (nt_config m))
      ''cloudflared-token'' token (nt_files m) = (x, fs)" by fastforce
  note made = create_secret_file_exact [OF create files(1)]
  show ?thesis
  proof (cases x)
    case (Inl e)
    have "nt_live m \<subseteq> {0}" "nt_live m \<subseteq> {1}" using c by (auto simp: connecting_def)
    then have "nt_live m = {}" by auto
    with Inl made run create c
      named_failed_result [of "m\<lparr>nt_files := fs\<rparr>" m env token "NtSecretFile e"] show ?thesis
      by (auto simp: start_with_identity_def connecting_def same_place_def)
  next
    case (Inr f)
    define m1 where "m1 = m\<lparr>nt_files := fs, nt_status := NamedStarting\<rparr>"
    have c1: "\<forall>pid. connecting pid m1" and cfg: "nt_config m1 = nt_config m"
      using c by (auto simp: m1_def connecting_def)
    obtain q where q: "spawn_and_connect env f identity (profile_local_url (nc_profile (nt_config m1)))
        (profile_public_url (nc_profile (nt_config m1))) m1 = Some q" "p = drop_token None f q"
      using run create Inr files(2) by (auto simp: start_with_identity_def m1_def)
    have q': "start_result env token m1 q"
      by (rule spawn_and_connect_ok [OF q(1) c1 token]) (simp add: cfg seen)
    have "nt_files (snd q) = fs" using q' by (simp add: start_result_def same_place_def m1_def)
    then have "nt_files (snd p) = nt_files m"
      using made Inr q(2) by (auto simp: drop_token_def drop_secret_file_gone fun_upd_idem_iff)
    moreover have "nt_child m1 = None" using c1 by (simp add: connecting_def)
    ultimately show ?thesis
      using q' q(2) cfg
      by (auto simp: start_result_def drop_token_def same_place_def named_ok_def named_failed_def
          named_snapshot_of_def split: sum.splits)
  qed
qed

lemma ensure_not_running_cases:
  assumes "ensure_not_running w m = (r, m1)" and ok: "named_ok m"
  shows "case r of
      Inl e \<Rightarrow> nt_child m \<noteq> None \<and> m1 = m \<and> (e = NtAlreadyRunning \<or> (\<exists>t. e = NtIo t))
    | Inr _ \<Rightarrow> nt_child m1 = None \<and> nt_live m1 = {} \<and> \<not> nt_monitor m1 \<and> nt_local_identity m1 = None
        \<and> same_place m m1"
  using assms
  by (cases "nt_child m"; cases w)
    (auto simp: ensure_not_running_def child_exited_def mark_child_exited_def fail_without_child_def
      stop_child_and_monitor_def same_place_def named_ok_def Let_def split: if_splits)

lemma verify_local_ok:
  assumes run: "verify_local env token m = Some p" and c: "\<forall>pid. connecting pid m"
    and token: "\<not> blank token" and live: "nt_live m = {}"
    and files: "sk_remove (ns_secret env) = None" "ns_drop env = None"
  shows "start_result env token m p"
proof (cases "\<exists>identity. ns_local_probe env (profile_local_url (nc_profile (nt_config m))) = Some (Inr identity)")
  case True
  then obtain identity where seen:
    "ns_local_probe env (profile_local_url (nc_profile (nt_config m))) = Some (Inr identity)" by blast
  with run show ?thesis
    by (intro start_with_identity_ok [OF _ c token seen files]) (simp add: verify_local_def Let_def)
next
  case False
  with run have "p = (Inl NtLocalHealthUnavailable, fail_without_child NtLocalHealthUnavailable m)"
    by (auto simp: verify_local_def Let_def split: option.splits sum.splits)
  with named_failed_result [of m m] c live show ?thesis by (simp add: connecting_def)
qed

lemma start_named_ok:
  assumes run: "start_named env token m = Some p" and ok: "named_ok m"
    and files: "sk_remove (ns_secret env) = None" "ns_drop env = None"
  shows "start_result env token m p"
proof -
  obtain r m1 where e: "ensure_not_running (ns_running env) m = (r, m1)" by fastforce
  note cases = ensure_not_running_cases [OF e ok]
  show ?thesis
  proof (cases r)
    case (Inl x)
    with run e have "p = (Inl x, m1)" by (simp add: start_named_def)
    with Inl cases ok show ?thesis by (auto simp: start_result_def same_place_def)
  next
    case (Inr u)
    with cases have m1: "nt_child m1 = None" "nt_live m1 = {}" "\<not> nt_monitor m1"
      "nt_local_identity m1 = None" "same_place m m1" by simp_all
    show ?thesis
    proof (cases "blank token")
      case True
      with run e Inr have "p = (Inl NtTokenMissing, fail_without_child NtTokenMissing m1)"
        by (simp add: start_named_def)
      with named_failed_result [OF m1(1-3,5)] show ?thesis by simp
    next
      case False
      let ?m2 = "begin_verifying m1"
      have m2: "\<forall>pid. connecting pid ?m2" "same_place m ?m2" "nt_live ?m2 = {}" "nt_child ?m2 = None"
        using m1 by (auto simp: begin_verifying_def connecting_def same_place_def)
      have "verify_local env token ?m2 = Some p" using run e Inr False by (simp add: start_named_def)
      from verify_local_ok [OF this m2(1) False m2(3) files] m2(2,4) show ?thesis
        by (auto simp: start_result_def same_place_def split: sum.splits)
    qed
  qed
qed

section \<open>The manager over its life\<close>

text \<open>The faults of removing a token's file are left out: then nothing removes it.\<close>

inductive named_move :: "named_tunnel \<Rightarrow> named_tunnel \<Rightarrow> bool" where
  named_status: "named_status_op w m = (snap, m') \<Longrightarrow> named_move m m'"
| named_start: "start_named env token m = Some (r, m') \<Longrightarrow> sk_remove (ns_secret env) = None \<Longrightarrow>
    ns_drop env = None \<Longrightarrow> named_move m m'"
| named_stop: "stop_named m = (snap, m') \<Longrightarrow> named_move m m'"
| named_terminate: "terminate_named_now m = (snap, m') \<Longrightarrow> named_move m m'"
| named_refresh: "refresh_runtime_health env force m = Some (r, m') \<Longrightarrow> named_move m m'"
| named_exit: "named_move m (m\<lparr>nt_live := nt_live m - {pid}\<rparr>)"

definition new_named_state :: "file_map \<Rightarrow> named_tunnel \<Rightarrow> bool" where
  "new_named_state files m \<longleftrightarrow> (\<exists>config. m = new_named config files)"

lemma mark_child_exited_ok:
  "named_ok m \<Longrightarrow> named_ok (mark_child_exited m) \<and> same_place m (mark_child_exited m)"
  by (auto simp: mark_child_exited_def fail_without_child_def stop_child_and_monitor_def named_ok_def
      same_place_def)

lemma fail_runtime_ok:
  "named_ok m \<Longrightarrow> named_ok (fail_runtime e m) \<and> same_place m (fail_runtime e m)
     \<and> named_failed e (fail_runtime e m)"
  by (auto simp: fail_runtime_def fail_without_child_def stop_child_and_monitor_def named_ok_def
      same_place_def named_failed_def)

lemma stop_named_ok:
  assumes "stop_named m = (snap, m') \<or> terminate_named_now m = (snap, m')" and ok: "named_ok m"
  shows "named_ok m' \<and> same_place m m' \<and> nt_live m' = {}"
proof -
  have m': "m' = (state_at NamedStopped (stop_child_and_monitor (m\<lparr>nt_status := NamedStopping\<rparr>)))
      \<lparr>nt_local_identity := None, nt_last_runtime_probe := None\<rparr>"
    using assms(1) by (auto simp: stop_named_def terminate_named_now_def Let_def)
  have "nt_live m \<subseteq> set_option (nt_child m)" using ok by (simp add: named_ok_def)
  then show ?thesis
    unfolding m' by (auto simp: state_at_def stop_child_and_monitor_def named_ok_def same_place_def)
qed

lemma probed_runtime_ok:
  assumes "named_ok m" and "nt_child m \<noteq> None"
  shows "named_ok (probed_runtime identity answer m) \<and> same_place m (probed_runtime identity answer m)"
  using assms fail_runtime_ok [of m]
  by (cases answer; cases "projr answer") (auto simp: probed_runtime_def named_ok_def same_place_def)

text \<open>A refresh of a running tunnel.\<close>

lemma refresh_running_ok:
  assumes run: "refresh_running env m = Some (snap, m')" and ok: "named_ok m" and "nt_child m \<noteq> None"
  shows "\<exists>identity answer. nt_local_identity m = Some identity
    \<and> monitored_probe (nr_probe env (profile_public_url (nc_profile (nt_config m)))) = Some answer
    \<and> m' = probed_runtime identity answer (m\<lparr>nt_last_runtime_probe := Some (nr_now env)\<rparr>)
    \<and> snap = named_snapshot_of m'"
proof -
  obtain identity where "nt_local_identity m = Some identity"
    "nt_public_url m = Some (profile_public_url (nc_profile (nt_config m)))" "nt_monitor m"
    using ok assms(3) by (auto simp: named_ok_def)
  with run show ?thesis by (auto simp: refresh_running_def Let_def)
qed

lemma refresh_cases:
  assumes "refresh_runtime_health env force m = Some (r, m')"
  obtains (unknown) e where "r = Inl (NtIo e)" "m' = m" "child_exited (nr_wait env) m = Inl e"
  | (exited) "r = Inr (named_snapshot_of m')" "m' = mark_child_exited m" "child_exited (nr_wait env) m = Inr True"
  | (skipped) "r = Inr (named_snapshot_of m)" "m' = m" "force \<longrightarrow> nt_child m = None
      \<or> nt_status m \<notin> {NamedReady, NamedDegraded}"
  | (rejected) "r = Inr (named_snapshot_of m')" "m' = fail_runtime NtTokenRejected m"
      "list_ex contains_token_rejection (nr_lines env)" "child_exited (nr_wait env) m = Inr False"
  | (probed) snap where "r = Inr snap" "refresh_running env m = Some (snap, m')" "nt_child m \<noteq> None"
      "nt_status m \<in> {NamedReady, NamedDegraded}" "child_exited (nr_wait env) m = Inr False"
      "\<not> (nt_monitor m \<and> list_ex contains_token_rejection (nr_lines env))"
proof (cases "child_exited (nr_wait env) m")
  case (Inl e)
  with assms that(1) [of e] show ?thesis by (simp add: refresh_runtime_health_def)
next
  case (Inr gone)
  show ?thesis
  proof (cases gone)
    case True
    with assms Inr have "m' = mark_child_exited m" "r = Inr (named_snapshot_of (mark_child_exited m))"
      by (auto simp: refresh_runtime_health_def Let_def)
    with Inr True show ?thesis by (intro that(2)) auto
  next
    case False
    let ?idle = "nt_child m = None \<or> nt_status m \<notin> {NamedReady, NamedDegraded}"
    let ?recent = "\<not> force \<and> (case nt_last_runtime_probe m of None \<Rightarrow> False
      | Some t \<Rightarrow> nr_now env - t < nc_runtime_health_interval (nt_config m))"
    let ?rejected = "nt_monitor m \<and> list_ex contains_token_rejection (nr_lines env)"
    have run: "(if ?idle then Some (Inr (named_snapshot_of m), m)
      else if ?recent then Some (Inr (named_snapshot_of m), m)
      else if ?rejected then Some (Inr (named_snapshot_of (fail_runtime NtTokenRejected m)),
        fail_runtime NtTokenRejected m)
      else map_option (\<lambda>(snap, m1). (Inr snap, m1)) (refresh_running env m)) = Some (r, m')"
      using assms Inr False unfolding refresh_runtime_health_def Let_def by simp
    consider "?idle \<or> ?recent" | "\<not> ?idle \<and> \<not> ?recent" "?rejected"
      | "\<not> ?idle \<and> \<not> ?recent" "\<not> ?rejected"
      by argo
    then show ?thesis
    proof cases
      case 1
      with run have "r = Inr (named_snapshot_of m)" "m' = m" by (auto split: if_splits)
      with 1 show ?thesis by (intro that(3)) auto
    next
      case 2
      with run have "Some (Inr (named_snapshot_of (fail_runtime NtTokenRejected m)),
        fail_runtime NtTokenRejected m) = Some (r, m')" by (simp only: if_False if_True simp_thms)
      with 2 Inr False show ?thesis by (intro that(4)) auto
    next
      case 3
      with run have "map_option (\<lambda>(snap, m1). (Inr snap, m1)) (refresh_running env m) = Some (r, m')"
        by (simp only: if_False if_True simp_thms)
      with 3 Inr False show ?thesis by (cases "refresh_running env m") (auto intro!: that(5))
    qed
  qed
qed

lemma refresh_ok:
  assumes run: "refresh_runtime_health env force m = Some (r, m')" and ok: "named_ok m"
  shows "named_ok m' \<and> same_place m m'"
  using run
proof (cases rule: refresh_cases)
  case (exited)
  with mark_child_exited_ok [OF ok] show ?thesis by simp
next
  case (rejected)
  with fail_runtime_ok [OF ok] show ?thesis by simp
next
  case (probed snap)
  from refresh_running_ok [OF probed(2) ok probed(3)] obtain identity answer where
    "m' = probed_runtime identity answer (m\<lparr>nt_last_runtime_probe := Some (nr_now env)\<rparr>)" by blast
  moreover have "named_ok (m\<lparr>nt_last_runtime_probe := Some (nr_now env)\<rparr>)"
    using ok by (simp add: named_ok_def)
  ultimately show ?thesis
    using probed_runtime_ok [of "m\<lparr>nt_last_runtime_probe := Some (nr_now env)\<rparr>" identity answer] probed(3)
    by (simp add: same_place_def)
qed (use ok in simp_all)

lemma named_move_ok:
  assumes "named_move m m'" and ok: "named_ok m"
  shows "named_ok m' \<and> same_place m m'"
  using assms(1)
proof cases
  case (named_status w snap)
  with mark_child_exited_ok [OF ok] ok show ?thesis
    by (auto simp: named_status_op_def Let_def same_place_def split: if_splits)
next
  case (named_start env token r)
  from start_named_ok [OF this(1) ok this(2,3)] show ?thesis by (simp add: start_result_def)
next
  case (named_stop snap)
  with stop_named_ok [of m snap m'] ok show ?thesis by blast
next
  case (named_terminate snap)
  with stop_named_ok [of m snap m'] ok show ?thesis by blast
next
  case (named_refresh env force r)
  from refresh_ok [OF this ok] show ?thesis .
next
  case (named_exit pid)
  with ok show ?thesis by (auto simp: named_ok_def same_place_def)
qed

interpretation named: supervisor "new_named_state files" named_move nt_child nt_live
  "\<lambda>m. named_ok m \<and> nt_files m = files" for files
  by unfold_locales
    (use named_move_ok in \<open>auto simp: new_named_state_def new_named_def named_ok_def same_place_def\<close>)

text \<open>
  C18. However the named tunnel is started, watched and stopped, and whatever cloudflared and the
  network do: at most one cloudflared of the manager runs, and only while the tunnel is shown as ready
  or degraded; it then shows the addresses of its profile and knows the bridge's identity; a failure
  has a kind; and no file with a token is left, all files being as they were.
\<close>

theorem named_tunnel_safe:
  assumes "reached (new_named_state files) named_move m"
  shows "nt_live m \<subseteq> set_option (nt_child m) \<and> card (nt_live m) \<le> 1
    \<and> (nt_child m \<noteq> None \<longleftrightarrow> nt_status m \<in> {NamedReady, NamedDegraded})
    \<and> (nt_child m \<noteq> None \<longrightarrow> nt_local_identity m \<noteq> None \<and> nt_monitor m
        \<and> nt_public_url m = Some (profile_public_url (nc_profile (nt_config m))))
    \<and> (nt_failure_kind m \<noteq> None \<longleftrightarrow> nt_status m = NamedFailed)
    \<and> nt_files m = files"
  using named.reached_inv [OF assms] named.one_alive [OF assms] by (auto simp: named_ok_def)

section \<open>Starting returns\<close>

text \<open>Every probe ends and the clock passes every deadline.\<close>

definition prompt :: "named_config \<Rightarrow> named_start \<Rightarrow> bool" where
  "prompt config env \<longleftrightarrow>
     (\<forall>a u. \<exists>i. ck_probe (at_probe (ns_attempts env a) u i) \<noteq> None) \<and>
     (\<forall>a. \<exists>i. at_settle_started (ns_attempts env a) + settle_window config
        \<le> ck_now (at_settle (ns_attempts env a) i)) \<and>
     (\<forall>a. \<exists>i. at_retry_started (ns_attempts env a) + retry_delay config a
        \<le> ck_now (at_retry (ns_attempts env a) i))"

lemma prompt_waits:
  assumes "prompt config env"
  shows "monitored_probe (at_probe (ns_attempts env a) u) \<noteq> None"
    and "monitor_child_for_duration (settle_window config) (at_settle_started (ns_attempts env a))
      (at_settle (ns_attempts env a)) \<noteq> None"
    and "wait_for_retry (retry_delay config a) (at_retry_started (ns_attempts env a))
      (at_retry (ns_attempts env a)) \<noteq> None"
proof -
  let ?t = "ns_attempts env a"
  obtain i where "ck_probe (at_probe ?t u i) \<noteq> None" using assms unfolding prompt_def by blast
  then have "probe_turn (at_probe ?t u) i \<noteq> None" by (auto simp: probe_turn_def split: sum.splits)
  then show "monitored_probe (at_probe ?t u) \<noteq> None"
    unfolding monitored_probe_def by (rule poll_loop_returns) simp
  obtain i where "at_settle_started ?t + settle_window config \<le> ck_now (at_settle ?t i)"
    using assms unfolding prompt_def by blast
  then have "settle_turn (at_settle_started ?t + settle_window config) (at_settle ?t) i \<noteq> None"
    by (auto simp: settle_turn_def split: sum.splits)
  then show "monitor_child_for_duration (settle_window config) (at_settle_started ?t) (at_settle ?t) \<noteq> None"
    unfolding monitor_child_for_duration_def by (rule poll_loop_returns) simp
  obtain i where "at_retry_started ?t + retry_delay config a \<le> ck_now (at_retry ?t i)"
    using assms unfolding prompt_def by blast
  then have "retry_turn (at_retry_started ?t + retry_delay config a) (at_retry ?t) i \<noteq> None"
    by (auto simp: retry_turn_def split: sum.splits)
  then show "wait_for_retry (retry_delay config a) (at_retry_started ?t) (at_retry ?t) \<noteq> None"
    unfolding wait_for_retry_def by (rule poll_loop_returns) simp
qed

lemma settled_returns [simp]: "settled p \<noteq> None"
  by (simp add: settled_def)

lemma attempt_once_returns:
  assumes "prompt (nt_config m) env"
  shows "attempt_once env pid identity lu pu a is_last m \<noteq> None"
proof -
  let ?t = "ns_attempts env a"
  have take: "settle_and_take env pid identity lu pu a m \<noteq> None"
    using prompt_waits(2) [OF assms, of a]
    by (cases "monitor_child_for_duration (settle_window (nt_config m)) (at_settle_started ?t) (at_settle ?t)")
      (auto simp: settle_and_take_def Let_def settle_window_def settled_def split: sum.splits)
  have later: "retry_later env pid a failure m \<noteq> None" for failure
    using prompt_waits(3) [OF assms, of a]
    by (cases "wait_for_retry (retry_delay (nt_config m) a) (at_retry_started ?t) (at_retry ?t)")
      (auto simp: retry_later_def Let_def settled_def split: sum.splits)
  have "judge_answer env pid identity lu pu a is_last answer m \<noteq> None" for answer
    using take later by (auto simp: judge_answer_def settled_def split: sum.splits)
  then show ?thesis
    using prompt_waits(1) [OF assms, of a pu]
    by (cases "monitored_probe (at_probe ?t pu)")
      (auto simp: attempt_once_def Let_def settled_def split: sum.splits)
qed

lemma connect_attempts_returns:
  assumes "prompt (nt_config m) env" and "connecting pid m"
  shows "connect_attempts env pid identity (profile_local_url (nc_profile (nt_config m)))
      (profile_public_url (nc_profile (nt_config m))) a left m \<noteq> None"
  using assms
proof (induction left arbitrary: a m)
  case 0
  obtain out where out: "attempt_once env pid identity (profile_local_url (nc_profile (nt_config m)))
      (profile_public_url (nc_profile (nt_config m))) a True m = Some out"
    using attempt_once_returns [OF 0(1)] by blast
  with attempt_once_ok [OF out 0(2)] show ?case by (cases out) (auto simp: attempt_ok_def)
next
  case (Suc left)
  obtain out where out: "attempt_once env pid identity (profile_local_url (nc_profile (nt_config m)))
      (profile_public_url (nc_profile (nt_config m))) a False m = Some out"
    using attempt_once_returns [OF Suc.prems(1)] by blast
  show ?case
  proof (cases out)
    case (AttemptRetry m')
    with attempt_once_ok [OF out Suc.prems(2)] have "connecting pid m'" "nt_config m' = nt_config m"
      by (simp_all add: attempt_ok_def same_place_def)
    with Suc.IH [of m' "Suc a"] Suc.prems(1) out AttemptRetry show ?thesis by simp
  qed (use out in simp)
qed

lemma spawn_and_connect_returns:
  assumes "prompt (nt_config m) env" and "\<forall>pid. connecting pid m"
  shows "spawn_and_connect env f identity (profile_local_url (nc_profile (nt_config m)))
      (profile_public_url (nc_profile (nt_config m))) m \<noteq> None"
proof (cases "ns_spawn env (nc_binary (nt_config m)) (named_tunnel_launch_args (sf_path f)
    (profile_local_url (nc_profile (nt_config m)))) (nt_files m)")
  case (Inr pid)
  have "connecting pid (m\<lparr>nt_status := NamedVerifyingPublic, nt_live := insert pid (nt_live m)\<rparr>)"
    using assms(2) by (auto simp: connecting_def)
  from connect_attempts_returns [OF _ this, of env identity 0
      "min (nc_max_network_retries (nt_config m)) DEFAULT_MAX_NETWORK_RETRIES"] assms(1) Inr
  show ?thesis by (simp add: spawn_and_connect_def)
qed (simp add: spawn_and_connect_def)

lemma start_named_returns:
  assumes "prompt (nt_config m) env" and ok: "named_ok m"
  shows "start_named env token m \<noteq> None"
proof -
  obtain r m1 where e: "ensure_not_running (ns_running env) m = (r, m1)" by fastforce
  note cases = ensure_not_running_cases [OF e ok]
  show ?thesis
  proof (cases r)
    case (Inr u)
    let ?m2 = "begin_verifying m1"
    have m2: "nt_config ?m2 = nt_config m" "\<forall>pid. connecting pid (?m2\<lparr>nt_files := fs, nt_status := st\<rparr>)" for fs st
      using cases Inr by (auto simp: begin_verifying_def connecting_def same_place_def)
    have "spawn_and_connect env f identity (profile_local_url (nc_profile (nt_config m)))
        (profile_public_url (nc_profile (nt_config m))) (?m2\<lparr>nt_files := fs, nt_status := NamedStarting\<rparr>)
        \<noteq> None" for f identity fs
      using spawn_and_connect_returns [of "?m2\<lparr>nt_files := fs, nt_status := NamedStarting\<rparr>" env f identity]
        m2 assms(1) by simp
    then have "start_with_identity env token identity (profile_local_url (nc_profile (nt_config ?m2)))
        (profile_public_url (nc_profile (nt_config ?m2))) ?m2 \<noteq> None" for identity
      using m2(1)
      by (simp add: start_with_identity_def del: not_None_eq split: prod.splits sum.splits)
    then have "verify_local env token ?m2 \<noteq> None"
      by (auto simp: verify_local_def Let_def split: option.splits sum.splits)
    with e Inr show ?thesis by (simp add: start_named_def)
  qed (use e in \<open>simp add: start_named_def\<close>)
qed

text \<open>
  C19. Where every probe ends and the clock passes every deadline, starting the named tunnel returns,
  after at most four attempts. It succeeds only with a token that is not blank, and only where the
  bridge on this computer and the bridge behind the public hostname answered with the same identity
  while cloudflared ran, which then ran on through the settle window and never reported a rejected
  token. Otherwise the tunnel is shown as failed, with the kind and the text of the error, unless it
  was running already, or this could not be found out. No token is left in a file.
\<close>

theorem start_named_exact:
  assumes "reached (new_named_state files) named_move m" and "prompt (nt_config m) env"
    and "sk_remove (ns_secret env) = None" and "ns_drop env = None"
  shows "\<exists>r m'. start_named env token m = Some (r, m') \<and> nt_files m' = files \<and>
    (case r of
       Inr snap \<Rightarrow> nsn_status snap = NamedReady \<and> \<not> blank token \<and>
         (\<exists>identity a. a \<le> 3 \<and>
            ns_local_probe env (profile_local_url (nc_profile (nt_config m))) = Some (Inr identity) \<and>
            nt_local_identity m' = Some identity \<and>
            verified_attempt env (settle_window (nt_config m))
              (profile_public_url (nc_profile (nt_config m))) identity a)
     | Inl e \<Rightarrow> (nt_status m' = NamedFailed \<and> nt_failure_kind m' = Some (failure_kind e)
           \<and> nt_detail m' = Some (named_error_text e) \<and> nt_live m' = {})
         \<or> (nt_child m \<noteq> None \<and> m' = m \<and> (e = NtAlreadyRunning \<or> (\<exists>t. e = NtIo t))))"
proof -
  have ok: "named_ok m" "nt_files m = files" using named.reached_inv [OF assms(1)] by simp_all
  obtain r m' where run: "start_named env token m = Some (r, m')"
    using start_named_returns [OF assms(2) ok(1)] by fastforce
  have res: "start_result env token m (r, m')" by (rule start_named_ok [OF run ok(1) assms(3,4)])
  have "nt_live m' = {}" if "named_failed e m'" for e
    using that res by (auto simp: named_failed_def start_result_def named_ok_def)
  with run res ok(2) show ?thesis
    by (cases r)
      (auto simp: start_result_def same_place_def named_failed_def named_snapshot_of_def)
qed

text \<open>
  A forced look at a running named tunnel that returns shows it ready only where cloudflared still
  ran and the public hostname led to the bridge itself, and degraded only for a failure of the network
  that may pass; in every other case (cloudflared ended, the token was rejected, another bridge or a
  lasting error answered) the tunnel has failed and its cloudflared is gone.
\<close>

lemma runtime_refresh_safe:
  assumes "reached (new_named_state files) named_move m" and "nt_child m \<noteq> None"
    and "refresh_runtime_health env True m = Some (Inr snap, m')"
  shows "nt_status m' \<in> {NamedReady, NamedDegraded, NamedFailed}
    \<and> nsn_status snap = nt_status m'
    \<and> (nt_status m' = NamedReady \<longrightarrow> nr_wait env = Inr None \<and>
        (\<exists>i identity. nt_local_identity m = Some identity \<and>
          ck_probe (nr_probe env (profile_public_url (nc_profile (nt_config m))) i) = Some (Some (Inr identity))))
    \<and> (nt_status m' = NamedDegraded \<longrightarrow>
        (\<exists>failure. \<not> is_deterministic failure \<and> nt_detail m' = Some (probe_message failure)))
    \<and> (nt_status m' = NamedFailed \<longrightarrow> nt_live m' = {} \<and> nt_child m' = None)"
proof -
  have ok: "named_ok m" using named.reached_inv [OF assms(1)] by simp
  have ok': "named_ok m'" using refresh_ok [OF assms(3) ok] by simp
  have running: "nt_status m \<in> {NamedReady, NamedDegraded}" using ok assms(2) by (simp add: named_ok_def)
  have gone: "nt_live m' = {} \<and> nt_child m' = None" if "nt_status m' = NamedFailed"
    using ok' that by (auto simp: named_ok_def)
  from assms(3) show ?thesis
  proof (cases rule: refresh_cases)
    case (exited)
    then have "nt_status m' = NamedFailed" "snap = named_snapshot_of m'"
      by (simp_all add: mark_child_exited_def fail_without_child_def)
    with gone show ?thesis by (simp add: named_snapshot_of_def)
  next
    case (rejected)
    then have "nt_status m' = NamedFailed" "snap = named_snapshot_of m'"
      by (simp_all add: fail_runtime_def stop_child_and_monitor_def fail_without_child_def)
    with gone show ?thesis by (simp add: named_snapshot_of_def)
  next
    case (probed s)
    from refresh_running_ok [OF probed(2) ok probed(3)] obtain identity answer where a:
      "nt_local_identity m = Some identity"
      "monitored_probe (nr_probe env (profile_public_url (nc_profile (nt_config m)))) = Some answer"
      "m' = probed_runtime identity answer (m\<lparr>nt_last_runtime_probe := Some (nr_now env)\<rparr>)"
      "s = named_snapshot_of m'" by blast
    have alive: "nr_wait env = Inr None"
      using probed(5) assms(2) by (auto simp: child_exited_def split: option.splits sum.splits)
    consider e where "answer = Inl e" | failure where "answer = Inr (Inl failure)"
      | found where "answer = Inr (Inr found)"
      by (metis sum.exhaust)
    then show ?thesis
    proof cases
      case (1 e)
      with a(3) have "nt_status m' = NamedFailed"
        by (simp add: probed_runtime_def fail_runtime_def stop_child_and_monitor_def fail_without_child_def)
      with gone probed(1) a(4) show ?thesis by (simp add: named_snapshot_of_def)
    next
      case (2 failure)
      with a(3) have "nt_status m' = (if is_deterministic failure then NamedFailed else NamedDegraded)"
        "\<not> is_deterministic failure \<longrightarrow> nt_detail m' = Some (probe_message failure)"
        by (simp_all add: probed_runtime_def fail_runtime_def stop_child_and_monitor_def fail_without_child_def)
      with gone probed(1) a(4) show ?thesis by (auto simp: named_snapshot_of_def split: if_splits)
    next
      case (3 found)
      with a(3) have "nt_status m' = (if found = identity then NamedReady else NamedFailed)"
        by (simp add: probed_runtime_def fail_runtime_def stop_child_and_monitor_def fail_without_child_def)
      with gone probed(1) a alive 3
        monitored_probe_answer [of "nr_probe env (profile_public_url (nc_profile (nt_config m)))" found]
      show ?thesis by (auto simp: named_snapshot_of_def split: if_splits)
    qed
  qed (use running assms(2) in auto)
qed

section \<open>A tunnel that comes up\<close>

definition demo_identity :: bridge_identity where
  "demo_identity = \<lparr>bi_version = ''1'', bi_instance_id = ''here''\<rparr>"

text \<open>The first probe times out, the second finds the bridge; the clock moves in steps of 100.\<close>

definition calm :: child_tick where
  "calm = \<lparr>ck_lines = [], ck_wait = Inr None\<rparr>"

definition demo_named_start :: named_start where
  "demo_named_start =
     \<lparr>ns_running = Inr None, ns_local_probe = (\<lambda>url. Some (Inr demo_identity)),
      ns_secret = \<lparr>sk_mkdir = None, sk_uuid = ''u'', sk_open = None, sk_write = None, sk_sync = None,
        sk_remove = None\<rparr>,
      ns_spawn = (\<lambda>binary args files. Inr 9),
      ns_attempts = (\<lambda>a. \<lparr>at_check = calm,
        at_probe = (\<lambda>url i. \<lparr>ck_lines = [], ck_wait = Inr None, ck_probe = Some (if a = 0 then None else Some (Inr demo_identity))\<rparr>),
        at_settle_started = 0, at_settle = (\<lambda>i. \<lparr>ck_lines = [], ck_wait = Inr None, ck_now = 100 * i\<rparr>),
        at_retry_started = 0, at_retry = (\<lambda>i. \<lparr>ck_lines = [], ck_wait = Inr None, ck_now = 100 * i\<rparr>)\<rparr>),
      ns_ready_at = 1, ns_drop = None\<rparr>"

definition demo_named_config :: named_config where
  "demo_named_config = (default_named_config None ''/tmp'')
     \<lparr>nc_profile := \<lparr>np_hostname = ''b.example.com'', np_local_port = 57324\<rparr>\<rparr>"

lemma check_calm [simp]: "check_child calm = Inr ()"
  by (simp add: check_child_def calm_def)

lemma truncate_calm [simp]:
  "child_tick.truncate \<lparr>ck_lines = [], ck_wait = Inr None, ck_now = n\<rparr> = calm"
  "child_tick.truncate \<lparr>ck_lines = [], ck_wait = Inr None, ck_probe = p\<rparr> = calm"
  by (simp_all add: child_tick.defs calm_def)

lemma demo_prompt: "nc_retry_delays config = [1000, 2000, 4000] \<Longrightarrow> prompt config demo_named_start"
proof -
  assume d: "nc_retry_delays config = [1000, 2000, 4000]"
  have "\<exists>i. x \<le> 100 * i" for x :: nat by (intro exI [of _ x]) simp
  then show ?thesis by (simp add: prompt_def demo_named_start_def)
qed

lemma demo_probe:
  "monitored_probe (at_probe (ns_attempts demo_named_start a) u) =
     Some (Inr (if a = 0 then Inl ProbeTimeout else Inr demo_identity))"
  unfolding monitored_probe_def
  by (rule poll_loop_now) (simp add: probe_turn_def demo_named_start_def)

lemma demo_settle:
  "monitor_child_for_duration d (at_settle_started (ns_attempts demo_named_start a))
     (at_settle (ns_attempts demo_named_start a)) = Some (Inr ())"
  unfolding monitor_child_for_duration_def
  by (rule poll_loop_only [where k = d]) (simp_all add: settle_turn_def demo_named_start_def)

lemma demo_retry:
  "wait_for_retry d (at_retry_started (ns_attempts demo_named_start a))
     (at_retry (ns_attempts demo_named_start a)) = Some (Inr ())"
  unfolding wait_for_retry_def
  by (rule poll_loop_only [where k = d]) (simp_all add: retry_turn_def demo_named_start_def)

lemma demo_env [simp]:
  "at_check (ns_attempts demo_named_start a) = calm" "ns_running demo_named_start = Inr None"
  "ns_local_probe demo_named_start u = Some (Inr demo_identity)"
  "ns_spawn demo_named_start b as fs = Inr 9" "ns_drop demo_named_start = None"
  "ns_secret demo_named_start = \<lparr>sk_mkdir = None, sk_uuid = ''u'', sk_open = None, sk_write = None,
     sk_sync = None, sk_remove = None\<rparr>"
  by (simp_all add: demo_named_start_def)

lemma demo_first_attempt:
  "\<exists>m'. attempt_once demo_named_start pid demo_identity lu pu 0 False m = Some (AttemptRetry m')"
  by (simp add: attempt_once_def judge_answer_def retry_later_def demo_probe demo_retry Let_def
      is_deterministic_def image_iff)

lemma demo_second_attempt:
  "\<exists>snap m'. attempt_once demo_named_start pid demo_identity lu pu (Suc 0) is_last m =
     Some (AttemptDone (Inr snap) m')"
  by (simp add: attempt_once_def judge_answer_def settle_and_take_def demo_probe demo_settle Let_def
      settled_def)

lemma demo_connect:
  "\<exists>snap m'. connect_attempts demo_named_start pid demo_identity lu pu 0 (Suc n) m = Some (Inr snap, m')"
proof -
  obtain m1 where m1: "attempt_once demo_named_start pid demo_identity lu pu 0 False m = Some (AttemptRetry m1)"
    using demo_first_attempt by blast
  obtain snap m2 where "attempt_once demo_named_start pid demo_identity lu pu (Suc 0) (n = 0) m1 =
      Some (AttemptDone (Inr snap) m2)"
    using demo_second_attempt by blast
  with m1 show ?thesis by (cases n) auto
qed

lemma demo_named_started:
  "\<exists>snap m'. start_named demo_named_start ''token'' (new_named demo_named_config Map.empty) =
      Some (Inr snap, m')"
proof -
  let ?m = "new_named demo_named_config Map.empty"
  have config: "nt_config ?m = demo_named_config" "nc_retry_delays demo_named_config = [1000, 2000, 4000]"
    "min (nc_max_network_retries demo_named_config) DEFAULT_MAX_NETWORK_RETRIES = Suc 2"
    by (simp_all add: new_named_def demo_named_config_def default_named_config_def
        DEFAULT_MAX_NETWORK_RETRIES_def)
  have connect: "\<exists>snap m'. spawn_and_connect demo_named_start f demo_identity lu pu m = Some (Inr snap, m')"
    if "nt_config m = demo_named_config" for f lu pu m
    using demo_connect [of 9 lu pu 2] that config(3) by (simp add: spawn_and_connect_def)
  obtain x fs where create: "create_secret_file (ns_secret demo_named_start)
      (nc_runtime_dir demo_named_config) ''cloudflared-token'' ''token'' Map.empty = (x, fs)"
    by fastforce
  then obtain f where f: "x = Inr f"
    by (auto simp: create_secret_file_def create_at_path_def fs_create_new_def fs_write_def action_simps)
  have blank: "\<not> blank ''token''" by code_simp
  let ?m2 = "begin_verifying ?m"
  have m2: "nt_config ?m2 = demo_named_config" "nt_files ?m2 = Map.empty"
    by (simp_all add: begin_verifying_def new_named_def)
  have "ensure_not_running (Inr None) ?m = (Inr (), ?m)"
    by (simp add: ensure_not_running_def child_exited_def new_named_def)
  with blank have "start_named demo_named_start ''token'' ?m = verify_local demo_named_start ''token'' ?m2"
    by (simp add: start_named_def)
  also obtain lu pu where "\<dots> = start_with_identity demo_named_start ''token'' demo_identity lu pu ?m2"
    by (auto simp: verify_local_def Let_def)
  also have "\<dots> = map_option (drop_token None f) (spawn_and_connect demo_named_start f demo_identity lu pu
      (?m2\<lparr>nt_files := fs, nt_status := NamedStarting\<rparr>))"
    using create f m2 by (simp add: start_with_identity_def)
  finally show ?thesis
    using connect [of "?m2\<lparr>nt_files := fs, nt_status := NamedStarting\<rparr>" f lu pu] m2
    by (auto simp: drop_token_def)
qed

lemma demo_new_reached: "reached (new_named_state Map.empty) named_move (new_named demo_named_config Map.empty)"
  by (rule reached_start) (auto simp: new_named_state_def)

theorem start_named_exact_witness:
  "\<exists>snap m'. start_named demo_named_start ''token'' (new_named demo_named_config Map.empty) =
      Some (Inr snap, m') \<and> nsn_status snap = NamedReady \<and> nt_files m' = Map.empty"
proof -
  have "nc_retry_delays (nt_config (new_named demo_named_config Map.empty)) = [1000, 2000, 4000]"
    by (simp add: new_named_def demo_named_config_def default_named_config_def)
  from start_named_exact [OF demo_new_reached demo_prompt [OF this], of "''token''"]
  show ?thesis using demo_named_started by auto
qed

lemma demo_named_ready:
  "\<exists>m. reached (new_named_state Map.empty) named_move m \<and> nt_child m \<noteq> None"
proof -
  let ?m = "new_named demo_named_config Map.empty"
  obtain snap m' where run: "start_named demo_named_start ''token'' ?m = Some (Inr snap, m')"
    using demo_named_started by blast
  have ok: "named_ok ?m" using named.reached_inv [OF demo_new_reached] by simp
  have "start_result demo_named_start ''token'' ?m (Inr snap, m')"
    by (rule start_named_ok [OF run ok]) simp_all
  then have "nt_child m' \<noteq> None" by (simp add: start_result_def named_ok_def)
  moreover have "reached (new_named_state Map.empty) named_move m'"
    by (rule reached_step [OF demo_new_reached named_start [OF run]]) simp_all
  ultimately show ?thesis by blast
qed

theorem named_tunnel_safe_witness:
  "\<exists>m :: named_tunnel. nt_child m \<noteq> None \<and> nt_status m \<in> {NamedReady, NamedDegraded} \<and> card (nt_live m) \<le> 1
    \<and> nt_files m = Map.empty"
proof -
  obtain m where m: "reached (new_named_state Map.empty) named_move m" "nt_child m \<noteq> None"
    using demo_named_ready by blast
  from named_tunnel_safe [OF m(1)] m(2) show ?thesis by (intro exI [of _ m]) simp
qed

text \<open>The lines kept are one of two fixed texts, and at most 64, whatever cloudflared prints.\<close>

lemma output_is_sanitized:
  assumes "om = fold read_output_line ls \<lparr>om_events = 0, om_lines = []\<rparr>"
  shows "length (om_lines om) \<le> OUTPUT_RING_CAPACITY \<and> om_events om \<le> 64
    \<and> set (om_lines om) \<subseteq> {''cloudflared reported authentication failure'', ''cloudflared emitted output''}
    \<and> (fst (drain_token_rejected om) \<longleftrightarrow> list_ex contains_token_rejection ls)"
  unfolding assms
proof (induction ls rule: rev_induct)
  case (snoc l ls)
  let ?om = "fold read_output_line ls \<lparr>om_events = 0, om_lines = []\<rparr>"
  define kept where "kept = push_sanitized_line (if contains_token_rejection l
    then ''cloudflared reported authentication failure'' else ''cloudflared emitted output'') (om_lines ?om)"
  have "length kept \<le> OUTPUT_RING_CAPACITY"
    "set kept \<subseteq> {''cloudflared reported authentication failure'', ''cloudflared emitted output''}"
    using snoc by (auto simp: kept_def push_sanitized_line_def OUTPUT_RING_CAPACITY_def dest: in_set_dropD)
  moreover have "om_lines (read_output_line l ?om) = kept"
    "om_events (read_output_line l ?om) =
       (if contains_token_rejection l \<and> om_events ?om < 64 then om_events ?om + 1 else om_events ?om)"
    by (simp_all add: read_output_line_def Let_def kept_def)
  ultimately show ?case using snoc by (auto simp: drain_token_rejected_def)
qed (simp add: drain_token_rejected_def)

end
