(* ===== verification/Vapid_Keys.thy ===== *)
theory Vapid_Keys
  imports Local_Files
begin

text \<open>
  Where secrets are kept and the VAPID key that push messages are signed with:
  \<open>crates/desktop-core/src/secret_store.rs\<close>, \<open>crates/desktop-core/src/vapid_key.rs\<close> and, on the
  bridge's side, \<open>crates/bridge-core/src/vapid.rs\<close>. The keyring crate is a map with errors; the base64
  codec and the arithmetic of P-256 keys are parameters.
\<close>

section \<open>Secret stores\<close>

type_synonym secret_map = "string \<rightharpoonup> string"

datatype secret_error = SecretBackend string

definition CLOUDFLARE_TUNNEL_TOKEN_KEY :: string where
  "CLOUDFLARE_TUNNEL_TOKEN_KEY = ''cloudflare-tunnel-token''"

definition VAPID_PRIVATE_KEY_KEY :: string where
  "VAPID_PRIVATE_KEY_KEY = ''vapid-private-key''"

text \<open>The keyring of the system: the errors of making an entry and of the operation on it.\<close>

definition keyring_set ::
  "string option \<Rightarrow> string option \<Rightarrow> string \<Rightarrow> string \<Rightarrow> (secret_map, secret_error, unit) action" where
  "keyring_set entry_fault fault key value s =
     (case entry_fault of
        Some e \<Rightarrow> (Inl (SecretBackend e), s)
      | None \<Rightarrow>
          (case fault of
             Some e \<Rightarrow> (Inl (SecretBackend e), s)
           | None \<Rightarrow> (Inr (), s(key \<mapsto> value))))"

definition keyring_get ::
  "string option \<Rightarrow> string option \<Rightarrow> string \<Rightarrow> (secret_map, secret_error, string option) action" where
  "keyring_get entry_fault fault key s =
     (case entry_fault of
        Some e \<Rightarrow> (Inl (SecretBackend e), s)
      | None \<Rightarrow>
          (case fault of
             Some e \<Rightarrow> (Inl (SecretBackend e), s)
           | None \<Rightarrow> (Inr (s key), s)))"

definition keyring_delete ::
  "string option \<Rightarrow> string option \<Rightarrow> string \<Rightarrow> (secret_map, secret_error, unit) action" where
  "keyring_delete entry_fault fault key s =
     (case entry_fault of
        Some e \<Rightarrow> (Inl (SecretBackend e), s)
      | None \<Rightarrow>
          (case fault of
             Some e \<Rightarrow> (Inl (SecretBackend e), s)
           | None \<Rightarrow> (Inr (), s(key := None))))"

text \<open>The store in memory; its mutex may be poisoned.\<close>

definition memory_store_poisoned :: secret_error where
  "memory_store_poisoned = SecretBackend ''memory secret store mutex poisoned''"

definition memory_set :: "bool \<Rightarrow> string \<Rightarrow> string \<Rightarrow> (secret_map, secret_error, unit) action" where
  "memory_set poisoned key value s =
     (if poisoned then (Inl memory_store_poisoned, s) else (Inr (), s(key \<mapsto> value)))"

definition memory_get :: "bool \<Rightarrow> string \<Rightarrow> (secret_map, secret_error, string option) action" where
  "memory_get poisoned key s =
     (if poisoned then (Inl memory_store_poisoned, s) else (Inr (s key), s))"

definition memory_delete :: "bool \<Rightarrow> string \<Rightarrow> (secret_map, secret_error, unit) action" where
  "memory_delete poisoned key s =
     (if poisoned then (Inl memory_store_poisoned, s) else (Inr (), s(key := None)))"

section \<open>The key of the desktop app\<close>

record vapid_codec =
  vc_encode :: "string \<Rightarrow> string"
  vc_decode :: "string \<Rightarrow> string option"
  vc_public :: "string \<Rightarrow> string option"

record vapid_key_material =
  vk_private_key_base64 :: string
  vk_public_key_base64 :: string

datatype vapid_key_error = VapidSecretStore secret_error | VapidInvalidStoredKey

text \<open>\<open>vc_public\<close>: the encoded point of the public key, if the bytes are a private key.\<close>

definition key_material :: "vapid_codec \<Rightarrow> string \<Rightarrow> vapid_key_error + vapid_key_material" where
  "key_material c private_key_base64 =
     (case vc_decode c private_key_base64 of
        None \<Rightarrow> Inl VapidInvalidStoredKey
      | Some key_bytes \<Rightarrow>
          (case vc_public c key_bytes of
             None \<Rightarrow> Inl VapidInvalidStoredKey
           | Some point \<Rightarrow> Inr \<lparr>vk_private_key_base64 = private_key_base64,
               vk_public_key_base64 = vc_encode c point\<rparr>))"

definition load_or_create ::
  "vapid_codec \<Rightarrow> (string \<Rightarrow> ('s, secret_error, string option) action)
    \<Rightarrow> (string \<Rightarrow> string \<Rightarrow> ('s, secret_error, unit) action)
    \<Rightarrow> string \<Rightarrow> ('s, vapid_key_error, vapid_key_material) action" where
  "load_or_create c get_secret set_secret random_key =
     bind_ok
       (map_err VapidSecretStore
         (bind_ok (get_secret VAPID_PRIVATE_KEY_KEY) (\<lambda>stored.
           case stored of
             Some v \<Rightarrow> ok v
           | None \<Rightarrow>
               (let v = vc_encode c random_key
                in then_ok (set_secret VAPID_PRIVATE_KEY_KEY v) (ok v)))))
       (\<lambda>private_key s. (key_material c private_key, s))"

section \<open>The key of the bridge\<close>

record vapid_runtime_key =
  vr_private_key_base64 :: string
  vr_public_key_base64 :: string
  vr_public_key_bytes :: string

datatype vapid_runtime_error = VapidRuntimeIo | VapidRuntimeInvalidKey

text \<open>The file is removed whatever it holds.\<close>

definition from_secret_file ::
  "vapid_codec \<Rightarrow> io_error option \<Rightarrow> io_error option \<Rightarrow> string
    \<Rightarrow> (file_map, vapid_runtime_error, vapid_runtime_key) action" where
  "from_secret_file c read_fault remove_fault path fs =
     (let fs1 = best_effort (fs_remove remove_fault path) fs in
      case fs_read read_fault path fs of
        Inl e \<Rightarrow> (Inl VapidRuntimeIo, fs1)
      | Inr contents \<Rightarrow>
          (case vc_decode c (trim contents) of
             None \<Rightarrow> (Inl VapidRuntimeInvalidKey, fs1)
           | Some key_bytes \<Rightarrow>
               (case vc_public c key_bytes of
                  None \<Rightarrow> (Inl VapidRuntimeInvalidKey, fs1)
                | Some point \<Rightarrow> (Inr \<lparr>vr_private_key_base64 = trim contents,
                    vr_public_key_base64 = vc_encode c point, vr_public_key_bytes = point\<rparr>, fs1))))"

section \<open>The contract of a secret store\<close>

locale secret_store =
  fixes set_secret :: "string \<Rightarrow> string \<Rightarrow> ('s, secret_error, unit) action"
    and get_secret :: "string \<Rightarrow> ('s, secret_error, string option) action"
    and delete_secret :: "string \<Rightarrow> ('s, secret_error, unit) action"
    and secrets :: "'s \<Rightarrow> secret_map"
  assumes set_law: "set_secret k v s = (r, s') \<Longrightarrow>
      secrets s' = (if r = Inr () then (secrets s)(k \<mapsto> v) else secrets s)"
    and get_law: "get_secret k s = (q, s') \<Longrightarrow>
      secrets s' = secrets s \<and> (\<forall>v. q = Inr v \<longrightarrow> v = secrets s k)"
    and delete_law: "delete_secret k s = (r, s') \<Longrightarrow>
      secrets s' = (if r = Inr () then (secrets s)(k := None) else secrets s)"
begin

text \<open>The key is the stored one, or a new one that is stored before it is used.\<close>

lemma load_or_create_stored:
  assumes "load_or_create c get_secret set_secret random_key s = (Inr m, s')"
  shows "secrets s' = (secrets s)(VAPID_PRIVATE_KEY_KEY \<mapsto> vk_private_key_base64 m)
    \<and> key_material c (vk_private_key_base64 m) = Inr m
    \<and> vk_private_key_base64 m =
        (case secrets s VAPID_PRIVATE_KEY_KEY of None \<Rightarrow> vc_encode c random_key | Some v \<Rightarrow> v)"
proof -
  obtain r s1 where g: "get_secret VAPID_PRIVATE_KEY_KEY s = (r, s1)" by fastforce
  obtain stored where stored: "r = Inr stored"
    using assms g by (cases r) (auto simp: load_or_create_def action_simps)
  with get_law [OF g] have s1: "secrets s1 = secrets s" "stored = secrets s VAPID_PRIVATE_KEY_KEY" by auto
  have priv: "vk_private_key_base64 m = p" if "key_material c p = Inr m" for p
    using that by (auto simp: key_material_def split: option.splits)
  show ?thesis
  proof (cases stored)
    case (Some v)
    with assms g stored have "key_material c v = Inr m" "s' = s1"
      by (auto simp: load_or_create_def action_simps)
    moreover from this have "vk_private_key_base64 m = v" by (intro priv)
    moreover have "secrets s VAPID_PRIVATE_KEY_KEY = Some v" using s1(2) Some by simp
    ultimately show ?thesis using s1(1) by (simp add: fun_upd_idem)
  next
    case None
    let ?v = "vc_encode c random_key"
    obtain r2 s2 where w: "set_secret VAPID_PRIVATE_KEY_KEY ?v s1 = (r2, s2)" by fastforce
    with assms g stored None have "r2 = Inr ()" "key_material c ?v = Inr m" "s' = s2"
      by (cases r2; auto simp: load_or_create_def action_simps Let_def)+
    with set_law [OF w] s1 None priv [of ?v] show ?thesis by simp
  qed
qed

lemma load_again:
  assumes "load_or_create c get_secret set_secret random_key s = (Inr m, s')"
    and "load_or_create c get_secret set_secret random_key' s' = (Inr m', s'')"
  shows "m' = m \<and> secrets s'' = secrets s'"
  using load_or_create_stored [OF assms(1)] load_or_create_stored [OF assms(2)] by auto

end

interpretation keyring: secret_store "keyring_set ef f" "keyring_get ef f" "keyring_delete ef f" "\<lambda>s. s"
  for ef f
  by unfold_locales
    (auto simp: keyring_set_def keyring_get_def keyring_delete_def split: option.splits)

interpretation memory: secret_store "memory_set p" "memory_get p" "memory_delete p" "\<lambda>s. s" for p
  by unfold_locales (auto simp: memory_set_def memory_get_def memory_delete_def split: if_splits)

section \<open>From the keyring to the bridge\<close>

text \<open>
  C21. The VAPID key survives its way: a key that the desktop app loads or creates is in the keyring,
  and is loaded again as it is; where it is handed to the bridge in a secret file, the bridge reads
  the same private and public key from it, and the file is gone afterwards.
\<close>

theorem vapid_key_handover:
  assumes "\<And>t x. vc_decode c t = Some x \<Longrightarrow> trim t = t"
    and "load_or_create c (keyring_get None None) (keyring_set None None) random_key s = (Inr m, s')"
    and "create_secret_file io runtime_dir label (vk_private_key_base64 m) fs = (Inr f, fs1)"
    and "sk_remove io = None"
  shows "load_or_create c (keyring_get None None) (keyring_set None None) random_key' s' = (Inr m, s')
    \<and> (\<exists>k. from_secret_file c None None (sf_path f) fs1 = (Inr k, fs)
        \<and> vr_private_key_base64 k = vk_private_key_base64 m
        \<and> vr_public_key_base64 k = vk_public_key_base64 m
        \<and> vc_encode c (vr_public_key_bytes k) = vk_public_key_base64 m)"
proof -
  from keyring.load_or_create_stored [OF assms(2)]
  have key: "s' = s(VAPID_PRIVATE_KEY_KEY \<mapsto> vk_private_key_base64 m)"
    "key_material c (vk_private_key_base64 m) = Inr m" by blast+
  obtain x where x1: "vc_decode c (vk_private_key_base64 m) = Some x"
    using key(2) by (cases "vc_decode c (vk_private_key_base64 m)") (auto simp: key_material_def)
  obtain point where x2: "vc_public c x = Some point"
    using key(2) x1 by (cases "vc_public c x") (auto simp: key_material_def)
  have "vk_public_key_base64 m = vc_encode c point"
    using key(2) x1 x2 by (cases m) (auto simp: key_material_def)
  note x = x1 x2 this
  from create_secret_file_exact [OF assms(3,4)] have fs1: "fs (sf_path f) = None"
    "fs1 = fs(sf_path f \<mapsto> vk_private_key_base64 m)" by auto
  then have "from_secret_file c None None (sf_path f) fs1 =
      (Inr \<lparr>vr_private_key_base64 = vk_private_key_base64 m, vr_public_key_base64 = vc_encode c point,
         vr_public_key_bytes = point\<rparr>, fs)"
    using x assms(1) [OF x(1)] by (simp add: from_secret_file_def fs_read_def fun_upd_idem_iff)
  moreover have "load_or_create c (keyring_get None None) (keyring_set None None) random_key' s' = (Inr m, s')"
    using key(2) unfolding key(1) by (simp add: load_or_create_def keyring_get_def action_simps)
  ultimately show ?thesis using x(3) by simp
qed

definition demo_vapid_codec :: vapid_codec where
  "demo_vapid_codec = \<lparr>vc_encode = (\<lambda>x. ''k'' @ x),
     vc_decode = (\<lambda>t. if trim t = t \<and> starts_with t ''k'' then Some (drop 1 t) else None),
     vc_public = (\<lambda>x. Some (''p'' @ x))\<rparr>"

lemma demo_vapid_codec_simps [simp]:
  "vc_encode demo_vapid_codec x = ''k'' @ x" "vc_public demo_vapid_codec x = Some (''p'' @ x)"
  "vc_decode demo_vapid_codec t =
     (if trim t = t \<and> starts_with t ''k'' then Some (drop 1 t) else None)"
  by (simp_all add: demo_vapid_codec_def)

theorem vapid_key_handover_witness:
  "\<exists>m s' f fs1 k. load_or_create demo_vapid_codec (keyring_get None None) (keyring_set None None) ''abc''
        Map.empty = (Inr m, s') \<and>
     create_secret_file \<lparr>sk_mkdir = None, sk_uuid = ''u'', sk_open = None, sk_write = None,
        sk_sync = None, sk_remove = None\<rparr> ''/run'' ''vapid'' ''kabc'' Map.empty = (Inr f, fs1) \<and>
     from_secret_file demo_vapid_codec None None (sf_path f) fs1 = (Inr k, Map.empty) \<and>
     vr_public_key_base64 k = vk_public_key_base64 m"
proof -
  let ?io = "\<lparr>sk_mkdir = None, sk_uuid = ''u'', sk_open = None, sk_write = None,
        sk_sync = None, sk_remove = None\<rparr>"
  have "trim ''kabc'' = ''kabc''" by code_simp
  then have load: "load_or_create demo_vapid_codec (keyring_get None None) (keyring_set None None) ''abc''
      Map.empty = (Inr \<lparr>vk_private_key_base64 = ''kabc'', vk_public_key_base64 = ''kpabc''\<rparr>,
        [VAPID_PRIVATE_KEY_KEY \<mapsto> ''kabc''])"
    by (simp add: load_or_create_def keyring_get_def keyring_set_def action_simps key_material_def
        starts_with_def Let_def)
  obtain r fs1 where create: "create_secret_file ?io ''/run'' ''vapid'' ''kabc'' Map.empty = (r, fs1)"
    by fastforce
  then obtain f where f: "r = Inr f"
    by (auto simp: create_secret_file_def create_at_path_def fs_create_new_def fs_write_def action_simps)
  have "load_or_create demo_vapid_codec (keyring_get None None) (keyring_set None None) [] [VAPID_PRIVATE_KEY_KEY \<mapsto> ''kabc''] =
        (Inr \<lparr>vk_private_key_base64 = ''kabc'', vk_public_key_base64 = ''kpabc''\<rparr>, [VAPID_PRIVATE_KEY_KEY \<mapsto> ''kabc''])
      \<and> (\<exists>k. from_secret_file demo_vapid_codec None None (sf_path f) fs1 = (Inr k, Map.empty)
        \<and> vr_private_key_base64 k = vk_private_key_base64 \<lparr>vk_private_key_base64 = ''kabc'', vk_public_key_base64 = ''kpabc''\<rparr>
        \<and> vr_public_key_base64 k = vk_public_key_base64 \<lparr>vk_private_key_base64 = ''kabc'', vk_public_key_base64 = ''kpabc''\<rparr>
        \<and> vc_encode demo_vapid_codec (vr_public_key_bytes k) =
            vk_public_key_base64 \<lparr>vk_private_key_base64 = ''kabc'', vk_public_key_base64 = ''kpabc''\<rparr>)"
    by (rule vapid_key_handover [where io = ?io and runtime_dir = "''/run''" and label = "''vapid''", OF _ load])
      (use create f in \<open>auto split: if_splits\<close>)
  then obtain k where "from_secret_file demo_vapid_codec None None (sf_path f) fs1 = (Inr k, Map.empty)"
    "vr_public_key_base64 k = ''kpabc''" by auto
  with load create f show ?thesis by auto
qed

end
