(* ===== verification/Bridge_Process.thy ===== *)
theory Bridge_Process
  imports Local_Files
begin

text \<open>
  The manager of the bridge's sidecar process, \<open>crates/desktop-core/src/bridge_process.rs\<close>: the plan
  of a launch, starting and stopping, and the link that pairs a phone. Processes are numbers, IP
  addresses their texts; what the file system, the network and the sidecar answer is an argument of
  each operation. \<open>bp_live\<close> is not a field of the code: the processes the manager started and has
  neither ended nor seen ended; \<open>bp_environ\<close> is not one either: the environment each process was spawned with.
\<close>

section \<open>Data\<close>

datatype bridge_status =
  BridgeStopped | BridgeStarting | BridgeReady | BridgeDegraded | BridgeFailed | BridgeStopping

datatype port_policy = FlexiblePort | FixedPort

datatype ip_addr = IpV4 string | IpV6 string

record bridge_snapshot =
  bs_status :: bridge_status
  bs_pid :: "nat option"
  bs_port :: "u16 option"
  bs_port_policy :: port_policy
  bs_health_url :: "string option"
  bs_detail :: "string option"

record bridge_config =
  bc_sidecar_binary :: string
  bc_sidecar_args :: "string list"
  bc_extra_env :: "(string \<times> string) list"
  bc_app_data_dir :: string
  bc_pwa_dist_dir :: string
  bc_db_path :: "string option"
  bc_preferred_port :: "u16 option"
  bc_port_policy :: port_policy
  bc_bind_ip :: ip_addr
  bc_health_ip :: ip_addr
  bc_advertised_host :: string
  bc_debug_port :: u16
  bc_startup_timeout :: nat
  bc_health_poll_interval :: nat

definition localhost :: ip_addr where
  "localhost = IpV4 ''127.0.0.1''"

definition new_bridge_config :: "string \<Rightarrow> string \<Rightarrow> string \<Rightarrow> bridge_config" where
  "new_bridge_config sidecar_binary app_data_dir pwa_dist_dir =
     \<lparr>bc_sidecar_binary = sidecar_binary, bc_sidecar_args = [], bc_extra_env = [],
      bc_app_data_dir = app_data_dir, bc_pwa_dist_dir = pwa_dist_dir, bc_db_path = None,
      bc_preferred_port = Some 57324, bc_port_policy = FlexiblePort, bc_bind_ip = localhost,
      bc_health_ip = localhost, bc_advertised_host = ''127.0.0.1'', bc_debug_port = 9229,
      bc_startup_timeout = 10000, bc_health_poll_interval = 250\<rparr>"

record launch_plan =
  lp_instance_id :: string
  lp_port :: u16
  lp_bind_addr :: string
  lp_health_url :: string
  lp_advertised_bridge_url :: string
  lp_pairing_start_url :: string
  lp_db_path :: string
  lp_pwa_dist_dir :: string
  lp_log_dir :: string
  lp_runtime_dir :: string
  lp_stdout_log :: string
  lp_stderr_log :: string
  lp_control_token :: string
  lp_env :: "(string \<times> string) list"

datatype bridge_process_error =
    BpAlreadyRunning
  | BpSidecarMissing string
  | BpPwaDistMissing string
  | BpDbUnavailable string io_error
  | BpIo string io_error
  | BpPreferredPortUnavailable u16
  | BpSpawn string
  | BpChildExited string
  | BpHealthTimeout nat
  | BpHealthRequest string
  | BpInvalidControlToken
  | BpInvalidPairingResponse

fun bridge_error_text :: "bridge_process_error \<Rightarrow> string" where
  "bridge_error_text BpAlreadyRunning = ''bridge sidecar is already running''"
| "bridge_error_text (BpSidecarMissing p) = ''sidecar binary not found: '' @ p"
| "bridge_error_text (BpPwaDistMissing p) = ''PWA dist is missing index.html: '' @ p"
| "bridge_error_text (BpDbUnavailable p e) =
     ''bridge database is not writable: '' @ p @ '': '' @ io_error_text e"
| "bridge_error_text (BpIo p e) = ''bridge process I/O setup failed: '' @ p @ '': '' @ io_error_text e"
| "bridge_error_text (BpPreferredPortUnavailable p) =
     ''preferred bridge port '' @ decimal (unat p) @ '' is unavailable''"
| "bridge_error_text (BpSpawn e) = ''failed to spawn bridge sidecar: '' @ e"
| "bridge_error_text (BpChildExited s) = ''bridge sidecar exited before health became ready: '' @ s"
| "bridge_error_text (BpHealthTimeout d) =
     ''bridge health did not become ready within '' @ duration_debug d"
| "bridge_error_text (BpHealthRequest e) = ''bridge health request failed: '' @ e"
| "bridge_error_text BpInvalidControlToken = ''bridge control token cannot be sent as a header''"
| "bridge_error_text BpInvalidPairingResponse = ''bridge pairing start returned invalid response''"

record bridge_manager =
  bp_config :: bridge_config
  bp_control_token :: string
  bp_status :: bridge_status
  bp_plan :: "launch_plan option"
  bp_detail :: "string option"
  bp_child :: "nat option"
  bp_live :: "nat set"
  bp_environ :: "nat \<Rightarrow> (string \<times> string) list"

definition new_bridge_manager :: "bridge_config \<Rightarrow> string \<Rightarrow> bridge_manager" where
  "new_bridge_manager config token =
     \<lparr>bp_config = config, bp_control_token = token, bp_status = BridgeStopped, bp_plan = None,
      bp_detail = None, bp_child = None, bp_live = {}, bp_environ = (\<lambda>_. [])\<rparr>"

section \<open>The plan of a launch\<close>

fun host_for_url :: "ip_addr \<Rightarrow> string" where
  "host_for_url (IpV4 ip) = ip"
| "host_for_url (IpV6 ip) = ''['' @ ip @ '']''"

text \<open>What the system answers while a plan is made.\<close>

record plan_env =
  pe_is_file :: "string \<Rightarrow> bool"
  pe_mkdir :: "string \<Rightarrow> io_error option"
  pe_open_db :: "string \<Rightarrow> io_error option"
  pe_bind :: "u16 \<Rightarrow> bool"
  pe_bind_any :: "io_error + u16"
  pe_uuid :: string

definition validate_pwa_dist :: "plan_env \<Rightarrow> string \<Rightarrow> bridge_process_error + unit" where
  "validate_pwa_dist env path =
     (let index = path_join path ''index.html'' in
      if pe_is_file env index then Inr () else Inl (BpPwaDistMissing index))"

definition create_dir_all :: "plan_env \<Rightarrow> string \<Rightarrow> bridge_process_error + unit" where
  "create_dir_all env path =
     (case pe_mkdir env path of None \<Rightarrow> Inr () | Some e \<Rightarrow> Inl (BpIo path e))"

definition validate_db_writable :: "plan_env \<Rightarrow> string \<Rightarrow> bridge_process_error + unit" where
  "validate_db_writable env path =
     (case (case path_parent path of None \<Rightarrow> Inr () | Some parent \<Rightarrow> create_dir_all env parent) of
        Inl e \<Rightarrow> Inl e
      | Inr _ \<Rightarrow>
          (case pe_open_db env path of
             None \<Rightarrow> Inr ()
           | Some e \<Rightarrow> Inl (BpDbUnavailable path e)))"

text \<open>\<open>{bind_ip}:0\<close> in an error is the address's text without brackets.\<close>

fun ip_text :: "ip_addr \<Rightarrow> string" where
  "ip_text (IpV4 ip) = ip"
| "ip_text (IpV6 ip) = ip"

definition choose_port :: "plan_env \<Rightarrow> ip_addr \<Rightarrow> u16 option \<Rightarrow> port_policy \<Rightarrow> bridge_process_error + u16" where
  "choose_port env bind_ip preferred_port policy =
     (let any_port = (case pe_bind_any env of
            Inl e \<Rightarrow> Inl (BpIo (ip_text bind_ip @ '':0'') e)
          | Inr port \<Rightarrow> Inr port) in
      case preferred_port of
        None \<Rightarrow> any_port
      | Some port \<Rightarrow>
          if pe_bind env port then Inr port
          else if policy = FixedPort then Inl (BpPreferredPortUnavailable port)
          else any_port)"

definition plan_for :: "bridge_config \<Rightarrow> string \<Rightarrow> string \<Rightarrow> u16 \<Rightarrow> launch_plan" where
  "plan_for config control_token instance_id port =
     (let app_data_dir = bc_app_data_dir config;
          log_dir = path_join app_data_dir ''logs'';
          db_path = (case bc_db_path config of
            Some p \<Rightarrow> p | None \<Rightarrow> path_join app_data_dir ''bridge.sqlite'');
          port_text = decimal (unat port);
          bind_addr = host_for_url (bc_bind_ip config) @ '':'' @ port_text;
          control_bridge_url = ''http://'' @ host_for_url (bc_health_ip config) @ '':'' @ port_text
      in \<lparr>lp_instance_id = instance_id, lp_port = port, lp_bind_addr = bind_addr,
          lp_health_url = control_bridge_url @ ''/api/health'',
          lp_advertised_bridge_url = ''http://'' @ bc_advertised_host config @ '':'' @ port_text,
          lp_pairing_start_url = control_bridge_url @ ''/api/control/pairing/start'',
          lp_db_path = db_path, lp_pwa_dist_dir = bc_pwa_dist_dir config, lp_log_dir = log_dir,
          lp_runtime_dir = path_join app_data_dir ''runtime'',
          lp_stdout_log = path_join log_dir ''bridge-sidecar.stdout.log'',
          lp_stderr_log = path_join log_dir ''bridge-sidecar.stderr.log'',
          lp_control_token = control_token,
          lp_env =
            [(''CODEX_MOBILE_BRIDGE_BIND'', bind_addr),
             (''CODEX_MOBILE_BRIDGE_DB'', db_path),
             (''CODEX_MOBILE_BRIDGE_PWA_DIR'', bc_pwa_dist_dir config),
             (''CODEX_MOBILE_BRIDGE_DEBUG_PORT'', decimal (unat (bc_debug_port config))),
             (''CODEX_MOBILE_BRIDGE_CONTROL_TOKEN'', control_token),
             (''CODEX_MOBILE_BRIDGE_INSTANCE_ID'', instance_id)] @ bc_extra_env config\<rparr>)"

text \<open>The checks that come before, in the order of the code.\<close>

definition then_check :: "bridge_process_error + unit \<Rightarrow> bridge_process_error + 'a \<Rightarrow> bridge_process_error + 'a" where
  "then_check c k = (case c of Inl e \<Rightarrow> Inl e | Inr _ \<Rightarrow> k)"

definition prepare_launch_plan :: "plan_env \<Rightarrow> bridge_manager \<Rightarrow> bridge_process_error + launch_plan" where
  "prepare_launch_plan env m =
     (let config = bp_config m; dir = bc_app_data_dir config;
          db_path = (case bc_db_path config of
            Some p \<Rightarrow> p | None \<Rightarrow> path_join dir ''bridge.sqlite'') in
      then_check (if pe_is_file env (bc_sidecar_binary config) then Inr ()
                  else Inl (BpSidecarMissing (bc_sidecar_binary config)))
        (then_check (validate_pwa_dist env (bc_pwa_dist_dir config))
        (then_check (create_dir_all env dir)
        (then_check (create_dir_all env (path_join dir ''logs''))
        (then_check (create_dir_all env (path_join dir ''runtime''))
        (then_check (validate_db_writable env db_path)
          (case choose_port env (bc_bind_ip config) (bc_preferred_port config) (bc_port_policy config) of
             Inl e \<Rightarrow> Inl e
           | Inr port \<Rightarrow> Inr (plan_for config (bp_control_token m) (pe_uuid env) port))))))))"

section \<open>Starting and stopping\<close>

type_synonym try_wait = "string + string option"

text \<open>
  A turn of the wait for the sidecar's health: the process, the request (\<open>None\<close> when it failed or
  was refused, else the decoded status or the error of decoding), the clock.
\<close>

record health_turn =
  hh_wait :: try_wait
  hh_answer :: "(string + string) option"
  hh_now :: nat

definition bridge_health_turn ::
  "bridge_config \<Rightarrow> nat \<Rightarrow> health_turn \<Rightarrow> (bridge_process_error + bridge_status) option" where
  "bridge_health_turn config deadline t =
     (case hh_wait t of
        Inl e \<Rightarrow> Some (Inl (BpSpawn e))
      | Inr (Some status) \<Rightarrow> Some (Inl (BpChildExited status))
      | Inr None \<Rightarrow>
          (case hh_answer t of
             Some (Inl e) \<Rightarrow> Some (Inl (BpHealthRequest e))
           | Some (Inr status) \<Rightarrow>
               Some (Inr (if status = ''ok'' then BridgeReady else BridgeDegraded))
           | None \<Rightarrow>
               if deadline \<le> hh_now t then Some (Inl (BpHealthTimeout (bc_startup_timeout config)))
               else None))"

record bridge_start =
  be_wait :: try_wait
  be_token :: string
  be_plan :: plan_env
  be_reset_log :: "string \<Rightarrow> io_error option"
  be_spawn :: "string \<Rightarrow> string list \<Rightarrow> (string \<times> string) list \<Rightarrow> string + nat"
  be_client :: "string option"
  be_started :: nat
  be_health :: "string \<Rightarrow> nat \<Rightarrow> health_turn"

definition wait_for_health ::
  "bridge_config \<Rightarrow> bridge_start \<Rightarrow> launch_plan \<Rightarrow> (bridge_process_error + bridge_status) option" where
  "wait_for_health config env plan =
     (case be_client env of
        Some e \<Rightarrow> Some (Inl (BpHealthRequest e))
      | None \<Rightarrow>
          poll_loop (\<lambda>i. bridge_health_turn config (be_started env + bc_startup_timeout config)
            (be_health env (lp_health_url plan) i)) 0)"

definition bridge_snapshot_of :: "nat option \<Rightarrow> bridge_manager \<Rightarrow> bridge_snapshot" where
  "bridge_snapshot_of pid m =
     \<lparr>bs_status = bp_status m, bs_pid = pid, bs_port = map_option lp_port (bp_plan m),
      bs_port_policy = bc_port_policy (bp_config m),
      bs_health_url = map_option lp_health_url (bp_plan m), bs_detail = bp_detail m\<rparr>"

definition bridge_status_op :: "bridge_manager \<Rightarrow> bridge_snapshot" where
  "bridge_status_op m = bridge_snapshot_of (bp_child m) m"

definition drop_bridge_child :: "bridge_manager \<Rightarrow> bridge_manager" where
  "drop_bridge_child m = m\<lparr>bp_child := None, bp_live := bp_live m - set_option (bp_child m)\<rparr>"

text \<open>The part of \<open>start\<close> after the process was spawned.\<close>

definition await_bridge ::
  "bridge_start \<Rightarrow> launch_plan \<Rightarrow> nat \<Rightarrow> bridge_manager
    \<Rightarrow> ((bridge_process_error + bridge_snapshot) \<times> bridge_manager) option" where
  "await_bridge env plan pid m =
     (case wait_for_health (bp_config m) env plan of
        None \<Rightarrow> None
      | Some (Inr status) \<Rightarrow>
          (let m1 = m\<lparr>bp_status := status, bp_child := Some pid\<rparr>
           in Some (Inr (bridge_snapshot_of (Some pid) m1), m1))
      | Some (Inl e) \<Rightarrow>
          Some (Inl e, m\<lparr>bp_status := BridgeFailed, bp_detail := Some (bridge_error_text e),
            bp_live := bp_live m - {pid}\<rparr>))"

definition spawn_bridge ::
  "bridge_start \<Rightarrow> launch_plan \<Rightarrow> bridge_manager
    \<Rightarrow> ((bridge_process_error + bridge_snapshot) \<times> bridge_manager) option" where
  "spawn_bridge env plan m =
     (case (be_reset_log env (lp_stdout_log plan), be_reset_log env (lp_stderr_log plan)) of
        (Some e, _) \<Rightarrow> Some (Inl (BpIo (lp_stdout_log plan) e), m)
      | (None, Some e) \<Rightarrow> Some (Inl (BpIo (lp_stderr_log plan) e), m)
      | (None, None) \<Rightarrow>
          (let vars = lp_env plan in
           case be_spawn env (bc_sidecar_binary (bp_config m)) (bc_sidecar_args (bp_config m)) vars of
             Inl e \<Rightarrow> Some (Inl (BpSpawn e), m)
           | Inr pid \<Rightarrow> await_bridge env plan pid
               (m\<lparr>bp_live := insert pid (bp_live m), bp_environ := (bp_environ m)(pid := vars)\<rparr>)))"

definition launch_bridge ::
  "bridge_start \<Rightarrow> bridge_manager \<Rightarrow> ((bridge_process_error + bridge_snapshot) \<times> bridge_manager) option" where
  "launch_bridge env m =
     (let m1 = m\<lparr>bp_control_token := be_token env\<rparr> in
      case prepare_launch_plan (be_plan env) m1 of
        Inl e \<Rightarrow> Some (Inl e, m1)
      | Inr plan \<Rightarrow> spawn_bridge env plan
          (m1\<lparr>bp_status := BridgeStarting, bp_plan := Some plan, bp_detail := None\<rparr>))"

definition start_bridge ::
  "bridge_start \<Rightarrow> bridge_manager \<Rightarrow> ((bridge_process_error + bridge_snapshot) \<times> bridge_manager) option" where
  "start_bridge env m =
     (case bp_child m of
        None \<Rightarrow> launch_bridge env m
      | Some pid \<Rightarrow>
          (case be_wait env of
             Inl e \<Rightarrow> Some (Inl (BpSpawn e), m)
           | Inr None \<Rightarrow> Some (Inl BpAlreadyRunning, m)
           | Inr (Some status) \<Rightarrow> launch_bridge env (drop_bridge_child m)))"

definition stop_bridge :: "bridge_manager \<Rightarrow> bridge_snapshot \<times> bridge_manager" where
  "stop_bridge m =
     (let m1 = (drop_bridge_child (m\<lparr>bp_status := BridgeStopping\<rparr>))
            \<lparr>bp_status := BridgeStopped, bp_detail := None\<rparr>
      in (bridge_snapshot_of None m1, m1))"

definition terminate_bridge_now :: "bridge_manager \<Rightarrow> bridge_snapshot \<times> bridge_manager" where
  "terminate_bridge_now m =
     (let m1 = (drop_bridge_child (m\<lparr>bp_status := BridgeStopping\<rparr>))
            \<lparr>bp_status := BridgeStopped, bp_detail := None\<rparr>
      in (bridge_snapshot_of None m1, m1))"

definition restart_bridge ::
  "bridge_start \<Rightarrow> bridge_manager \<Rightarrow> ((bridge_process_error + bridge_snapshot) \<times> bridge_manager) option" where
  "restart_bridge env m = start_bridge env (snd (stop_bridge m))"

section \<open>The pairing link\<close>

definition is_unreserved :: "char \<Rightarrow> bool" where
  "is_unreserved b \<longleftrightarrow> is_ascii_alphanumeric b \<or> b \<in> set ''-_.~''"

definition hex_digit :: "nat \<Rightarrow> char" where
  "hex_digit n = (if n < 10 then char_of (48 + n) else char_of (55 + n))"

definition encode_byte :: "char \<Rightarrow> string" where
  "encode_byte b = (if is_unreserved b then [b]
     else [CHR ''%'', hex_digit (byte_of b div 16), hex_digit (byte_of b mod 16)])"

definition url_encode_component :: "string \<Rightarrow> string" where
  "url_encode_component value = concat (map encode_byte value)"

definition pairing_link_for_bridge_url :: "string \<Rightarrow> string \<Rightarrow> string" where
  "pairing_link_for_bridge_url bridge_url pairing_token =
     (let url = trim_end_char (CHR ''/'') bridge_url in
      url @ ''/?pairingToken='' @ url_encode_component pairing_token
        @ ''&bridgeUrl='' @ url_encode_component url)"

text \<open>A header value: tabs, and bytes from the space on but for the delete character.\<close>

definition header_value_ok :: "string \<Rightarrow> bool" where
  "header_value_ok v \<longleftrightarrow>
     list_all (\<lambda>b. byte_of b = 9 \<or> (32 \<le> byte_of b \<and> byte_of b \<noteq> 127)) v"

text \<open>The request to the bridge: its address and the control token; the token of the response.\<close>

definition create_pairing_link_for_bridge_url ::
  "(string \<Rightarrow> string \<Rightarrow> string + string) \<Rightarrow> string \<Rightarrow> bridge_manager \<Rightarrow> bridge_process_error + string" where
  "create_pairing_link_for_bridge_url post bridge_url m =
     (case bp_plan m of
        None \<Rightarrow> Inl BpInvalidPairingResponse
      | Some plan \<Rightarrow>
          if \<not> header_value_ok (lp_control_token plan) then Inl BpInvalidControlToken
          else (case post (lp_pairing_start_url plan) (lp_control_token plan) of
              Inl e \<Rightarrow> Inl (BpHealthRequest e)
            | Inr pairing_token \<Rightarrow>
                if pairing_token = [] then Inl BpInvalidPairingResponse
                else Inr (pairing_link_for_bridge_url bridge_url pairing_token)))"

definition create_pairing_link ::
  "(string \<Rightarrow> string \<Rightarrow> string + string) \<Rightarrow> bridge_manager \<Rightarrow> bridge_process_error + string" where
  "create_pairing_link post m =
     (case bp_plan m of
        None \<Rightarrow> Inl BpInvalidPairingResponse
      | Some plan \<Rightarrow> create_pairing_link_for_bridge_url post (lp_advertised_bridge_url plan) m)"

section \<open>What a phone reads from the link\<close>

definition hex_value :: "char \<Rightarrow> nat" where
  "hex_value c = (if is_ascii_digit c then byte_of c - 48 else byte_of c - 55)"

fun percent_decode :: "string \<Rightarrow> string" where
  "percent_decode [] = []"
| "percent_decode (c # cs) =
     (if c = CHR ''%'' then
        (case cs of
           a # b # rest \<Rightarrow> char_of (16 * hex_value a + hex_value b) # percent_decode rest
         | _ \<Rightarrow> c # percent_decode cs)
      else c # percent_decode cs)"

definition query_fields :: "string \<Rightarrow> (string \<times> string) list" where
  "query_fields q =
     List.map_filter (\<lambda>f. map_option (\<lambda>(k, v). (k, percent_decode v)) (split_once (CHR ''='') f))
       (split_on (\<lambda>c. c = CHR ''&'') q)"

lemma byte_of_less [simp]: "byte_of c < 256"
  by (simp add: byte_of_def)

lemma hex_value_digit [simp]: "n < 16 \<Longrightarrow> hex_value (hex_digit n) = n"
  by (auto simp: hex_value_def hex_digit_def is_ascii_digit_def byte_of_def)

lemma percent_decode_encode: "percent_decode (url_encode_component s) = s"
proof (induction s)
  case (Cons b s)
  have "byte_of b div 16 < 16" "byte_of b mod 16 < 16" using byte_of_less [of b] by linarith+
  moreover have "char_of (16 * (byte_of b div 16) + byte_of b mod 16) = b"
    unfolding mult_div_mod_eq by (simp add: byte_of_def)
  moreover have "b \<noteq> CHR ''%''" if "is_unreserved b"
    using that by (auto simp: is_unreserved_def is_ascii_alphanumeric_def is_ascii_digit_def
        is_ascii_alphabetic_def byte_of_def)
  ultimately show ?case using Cons by (auto simp: url_encode_component_def encode_byte_def)
qed (simp add: url_encode_component_def)

lemma encoded_bytes:
  assumes "c \<in> set (url_encode_component s)"
  shows "c \<noteq> CHR ''&'' \<and> c \<noteq> CHR ''=''"
proof -
  have digit: "hex_digit n \<noteq> CHR ''&'' \<and> hex_digit n \<noteq> CHR ''=''" if "n < 16" for n
  proof -
    from that have "byte_of (hex_digit n) = (if n < 10 then 48 + n else 55 + n)"
      by (simp add: hex_digit_def byte_of_def)
    with that have "byte_of (hex_digit n) \<noteq> 38 \<and> byte_of (hex_digit n) \<noteq> 61" by auto
    then show ?thesis by (auto simp: byte_of_def)
  qed
  from assms obtain b where b: "c \<in> set (encode_byte b)" by (auto simp: url_encode_component_def)
  have small: "byte_of b div 16 < 16" "byte_of b mod 16 < 16" using byte_of_less [of b] by linarith+
  show ?thesis
  proof (cases "is_unreserved b")
    case True
    with b have "c = b" by (simp add: encode_byte_def)
    with True show ?thesis
      by (auto simp: is_unreserved_def is_ascii_alphanumeric_def is_ascii_digit_def
          is_ascii_alphabetic_def byte_of_def)
  next
    case False
    with b digit [OF small(1)] digit [OF small(2)] show ?thesis by (auto simp: encode_byte_def)
  qed
qed

lemma split_once_field:
  "c \<notin> set k \<Longrightarrow> split_once c (k @ c # v) = Some (k, v)"
  by (induction k) (auto simp: split_once_def split: list.splits)

text \<open>
  C23. The link a phone scans says what it should, whatever bytes are in it: after the bridge's address
  without its final slashes it has a query of exactly two fields, which decode to the pairing token
  and to that address.
\<close>

theorem pairing_link_roundtrip:
  "\<exists>query. pairing_link_for_bridge_url bridge_url token =
      trim_end_char (CHR ''/'') bridge_url @ ''/?'' @ query
    \<and> query_fields query =
      [(''pairingToken'', token), (''bridgeUrl'', trim_end_char (CHR ''/'') bridge_url)]"
proof -
  let ?url = "trim_end_char (CHR ''/'') bridge_url"
  let ?a = "''pairingToken'' @ CHR ''='' # url_encode_component token"
  let ?b = "''bridgeUrl'' @ CHR ''='' # url_encode_component ?url"
  have free: "\<forall>c \<in> set ?a. c \<noteq> CHR ''&''" "\<forall>c \<in> set ?b. c \<noteq> CHR ''&''"
    using encoded_bytes by auto
  have "split_on (\<lambda>c. c = CHR ''&'') (?a @ CHR ''&'' # ?b) = [?a, ?b]"
    using split_on_free [of ?a "\<lambda>c. c = CHR ''&''"] split_on_free [of ?b "\<lambda>c. c = CHR ''&''"] free
    by (subst split_on_append) simp_all
  moreover have "split_once (CHR ''='') ?a = Some (''pairingToken'', url_encode_component token)"
    "split_once (CHR ''='') ?b = Some (''bridgeUrl'', url_encode_component ?url)"
    by (rule split_once_field, simp)+
  ultimately have "query_fields (?a @ CHR ''&'' # ?b) = [(''pairingToken'', token), (''bridgeUrl'', ?url)]"
    by (simp add: query_fields_def List.map_filter_def percent_decode_encode del: append_Cons append.simps)
  moreover have "pairing_link_for_bridge_url bridge_url token = ?url @ ''/?'' @ (?a @ CHR ''&'' # ?b)"
    by (simp add: pairing_link_for_bridge_url_def Let_def)
  ultimately show ?thesis by blast
qed

section \<open>The manager over its life\<close>

inductive bridge_move :: "bridge_manager \<Rightarrow> bridge_manager \<Rightarrow> bool" where
  bridge_start: "start_bridge env m = Some (r, m') \<Longrightarrow> bridge_move m m'"
| bridge_restart: "restart_bridge env m = Some (r, m') \<Longrightarrow> bridge_move m m'"
| bridge_stop: "stop_bridge m = (snap, m') \<Longrightarrow> bridge_move m m'"
| bridge_terminate: "terminate_bridge_now m = (snap, m') \<Longrightarrow> bridge_move m m'"
| bridge_exit: "bridge_move m (m\<lparr>bp_live := bp_live m - {pid}\<rparr>)"

definition new_bridge_state :: "bridge_manager \<Rightarrow> bool" where
  "new_bridge_state m \<longleftrightarrow> (\<exists>config token. m = new_bridge_manager config token)"

text \<open>
  The value a process sees for a variable, the last one given for it; and whether a process was given
  the manager's control token, which a setting of the user's own for the same variable would replace.
\<close>

definition given_var :: "(string \<times> string) list \<Rightarrow> string \<Rightarrow> string option" where
  "given_var vars name = map_of (rev vars) name"

definition token_var :: string where
  "token_var = ''CODEX_MOBILE_BRIDGE_CONTROL_TOKEN''"

definition knows_token :: "bridge_manager \<Rightarrow> nat \<Rightarrow> bool" where
  "knows_token m pid \<longleftrightarrow>
     (token_var \<notin> fst ` set (bc_extra_env (bp_config m)) \<longrightarrow>
        given_var (bp_environ m pid) token_var = Some (bp_control_token m))"

lemma knows_token_cong:
  "bp_config m' = bp_config m \<Longrightarrow> bp_control_token m' = bp_control_token m \<Longrightarrow>
   bp_environ m' pid = bp_environ m pid \<Longrightarrow> knows_token m' pid = knows_token m pid"
  by (simp add: knows_token_def)

lemma planned_token:
  assumes "token_var \<notin> fst ` set (bc_extra_env config)"
  shows "given_var (lp_env (plan_for config token uuid port)) token_var = Some token"
proof -
  have "map_of (rev (bc_extra_env config)) token_var = None"
    using assms by (simp add: map_of_eq_None_iff)
  then show ?thesis by (simp add: given_var_def plan_for_def Let_def token_var_def map_add_def)
qed

definition bridge_ok :: "bridge_manager \<Rightarrow> bool" where
  "bridge_ok m \<longleftrightarrow>
     bp_live m \<subseteq> set_option (bp_child m) \<and>
     (bp_child m \<noteq> None \<longrightarrow> bp_status m \<in> {BridgeReady, BridgeDegraded} \<and>
        map_option lp_control_token (bp_plan m) = Some (bp_control_token m)) \<and>
     (\<forall>pid. bp_child m = Some pid \<longrightarrow> knows_token m pid) \<and>
     (bp_status m = BridgeFailed \<longrightarrow> bp_detail m \<noteq> None) \<and> bp_status m \<noteq> BridgeStopping"

text \<open>How a launch ends: the process is taken, or no process is left.\<close>

definition launched ::
  "bridge_start \<Rightarrow> bridge_manager \<Rightarrow> (bridge_process_error + bridge_snapshot) \<times> bridge_manager \<Rightarrow> bool" where
  "launched env m p \<longleftrightarrow> bridge_ok (snd p) \<and>
     (case fst p of
        Inr snap \<Rightarrow> \<exists>plan pid i. bp_plan (snd p) = Some plan \<and> bp_child (snd p) = Some pid \<and>
          bp_control_token (snd p) = be_token env \<and>
          be_spawn env (bc_sidecar_binary (bp_config m)) (bc_sidecar_args (bp_config m)) (lp_env plan)
            = Inr pid \<and>
          hh_wait (be_health env (lp_health_url plan) i) = Inr None \<and>
          (\<exists>status. hh_answer (be_health env (lp_health_url plan) i) = Some (Inr status) \<and>
             bp_status (snd p) = (if status = ''ok'' then BridgeReady else BridgeDegraded)) \<and>
          snap = bridge_snapshot_of (Some pid) (snd p)
      | Inl e \<Rightarrow> bp_child (snd p) = None \<and> bp_live (snd p) = {})"

lemma launched_cong: "bp_config m = bp_config m' \<Longrightarrow> launched env m p = launched env m' p"
  by (simp add: launched_def cong: sum.case_cong)

lemma prepared_token:
  "prepare_launch_plan env m = Inr plan \<Longrightarrow> lp_control_token plan = bp_control_token m"
  by (auto simp: prepare_launch_plan_def then_check_def plan_for_def Let_def split: sum.splits)

lemma prepared_env:
  "prepare_launch_plan env m = Inr plan \<Longrightarrow> token_var \<notin> fst ` set (bc_extra_env (bp_config m)) \<Longrightarrow>
     given_var (lp_env plan) token_var = Some (bp_control_token m)"
  using planned_token
  by (auto simp: prepare_launch_plan_def then_check_def Let_def split: sum.splits)

lemma bridge_health_turn_Inr:
  "bridge_health_turn config d t = Some (Inr st) \<longleftrightarrow>
     hh_wait t = Inr None \<and> (\<exists>status. hh_answer t = Some (Inr status) \<and>
       st = (if status = ''ok'' then BridgeReady else BridgeDegraded))"
  by (auto simp: bridge_health_turn_def split: sum.splits option.splits)

lemma await_bridge_launched:
  assumes run: "await_bridge env plan pid m = Some p" and none: "bp_child m = None"
    and live: "bp_live m \<subseteq> {pid}" and knows: "knows_token m pid"
    and plan: "bp_plan m = Some plan" "lp_control_token plan = bp_control_token m"
      "bp_control_token m = be_token env" and m0: "bp_config m0 = bp_config m"
    and spawn: "be_spawn env (bc_sidecar_binary (bp_config m)) (bc_sidecar_args (bp_config m)) (lp_env plan)
      = Inr pid"
  shows "launched env m0 p"
proof -
  obtain w where w: "wait_for_health (bp_config m) env plan = Some w"
    using run by (cases "wait_for_health (bp_config m) env plan") (auto simp: await_bridge_def)
  show ?thesis
  proof (cases w)
    case (Inl e)
    with run w have "p = (Inl e, m\<lparr>bp_status := BridgeFailed, bp_detail := Some (bridge_error_text e),
        bp_live := bp_live m - {pid}\<rparr>)"
      by (simp add: await_bridge_def)
    with live none show ?thesis by (auto simp: launched_def bridge_ok_def)
  next
    case (Inr st)
    with w have "be_client env = None" by (cases "be_client env") (auto simp: wait_for_health_def)
    with w Inr obtain i where "bridge_health_turn (bp_config m)
        (be_started env + bc_startup_timeout (bp_config m)) (be_health env (lp_health_url plan) i) = Some (Inr st)"
      by (auto simp: wait_for_health_def poll_loop_Some_iff)
    then obtain status where "hh_wait (be_health env (lp_health_url plan) i) = Inr None"
      "hh_answer (be_health env (lp_health_url plan) i) = Some (Inr status)"
      "st = (if status = ''ok'' then BridgeReady else BridgeDegraded)"
      unfolding bridge_health_turn_Inr by blast
    moreover have "p = (Inr (bridge_snapshot_of (Some pid) (m\<lparr>bp_status := st, bp_child := Some pid\<rparr>)),
        m\<lparr>bp_status := st, bp_child := Some pid\<rparr>)"
      using run w Inr by (simp add: await_bridge_def Let_def)
    ultimately show ?thesis
      using live plan spawn m0 knows by (auto simp: launched_def bridge_ok_def knows_token_def)
  qed
qed

lemma launch_bridge_launched:
  assumes run: "launch_bridge env m = Some p" and m: "bp_child m = None" "bp_live m = {}" "bridge_ok m"
  shows "launched env m p"
proof -
  define m1 where "m1 = m\<lparr>bp_control_token := be_token env\<rparr>"
  have m1: "bridge_ok m1" "bp_child m1 = None" "bp_live m1 = {}"
    using m by (simp_all add: m1_def bridge_ok_def)
  show ?thesis
  proof (cases "prepare_launch_plan (be_plan env) m1")
    case (Inl e)
    with run m1 show ?thesis by (auto simp: launch_bridge_def launched_def m1_def)
  next
    case (Inr plan)
    define m2 where "m2 = m1\<lparr>bp_status := BridgeStarting, bp_plan := Some plan, bp_detail := None\<rparr>"
    have m2: "bridge_ok m2" "bp_child m2 = None" "bp_live m2 = {}" "bp_plan m2 = Some plan"
      "lp_control_token plan = bp_control_token m2" "bp_control_token m2 = be_token env"
      "bp_config m = bp_config m2"
      using m1 prepared_token [OF Inr] by (simp_all add: m2_def m1_def bridge_ok_def)
    have run2: "spawn_bridge env plan m2 = Some p"
      using run Inr by (simp add: launch_bridge_def m1_def m2_def)
    show ?thesis
    proof (cases "\<exists>pid. be_reset_log env (lp_stdout_log plan) = None \<and> be_reset_log env (lp_stderr_log plan) = None
        \<and> be_spawn env (bc_sidecar_binary (bp_config m2)) (bc_sidecar_args (bp_config m2)) (lp_env plan) = Inr pid")
      case True
      then obtain pid where "be_reset_log env (lp_stdout_log plan) = None"
        "be_reset_log env (lp_stderr_log plan) = None" and spawn:
        "be_spawn env (bc_sidecar_binary (bp_config m2)) (bc_sidecar_args (bp_config m2)) (lp_env plan) = Inr pid"
        by blast
      define m3 where "m3 = m2\<lparr>bp_live := insert pid (bp_live m2),
          bp_environ := (bp_environ m2)(pid := lp_env plan)\<rparr>"
      have run3: "await_bridge env plan pid m3 = Some p"
        using run2 spawn \<open>be_reset_log env (lp_stdout_log plan) = None\<close>
          \<open>be_reset_log env (lp_stderr_log plan) = None\<close> by (simp add: spawn_bridge_def m3_def)
      have "knows_token m3 pid"
        using prepared_env [OF Inr] by (simp add: knows_token_def m3_def m2_def)
      then show ?thesis by (intro await_bridge_launched [OF run3]) (use m2 spawn in \<open>simp_all add: m3_def\<close>)
    next
      case False
      with run2 obtain e where "p = (Inl e, m2)"
        by (auto simp: spawn_bridge_def Let_def split: option.splits sum.splits)
      with m2 show ?thesis by (simp add: launched_def)
    qed
  qed
qed

lemma drop_bridge_child_ok:
  "bridge_ok m \<Longrightarrow> bridge_ok (drop_bridge_child m) \<and> bp_child (drop_bridge_child m) = None
     \<and> bp_live (drop_bridge_child m) = {} \<and> bp_config (drop_bridge_child m) = bp_config m"
  by (auto simp: drop_bridge_child_def bridge_ok_def)

lemma start_bridge_launched:
  assumes "start_bridge env m = Some p" and ok: "bridge_ok m"
  shows "launched env m p \<or> (bp_child m \<noteq> None \<and> snd p = m \<and> (\<exists>e. fst p = Inl e))"
proof (cases "bp_child m")
  case None
  then have "bp_live m = {}" using ok by (simp add: bridge_ok_def)
  with None assms show ?thesis by (simp add: start_bridge_def launch_bridge_launched)
next
  case (Some pid)
  show ?thesis
  proof (cases "\<exists>status. be_wait env = Inr (Some status)")
    case True
    with assms(1) Some have "launch_bridge env (drop_bridge_child m) = Some p"
      by (auto simp: start_bridge_def)
    with drop_bridge_child_ok [OF ok] have "launched env (drop_bridge_child m) p"
      by (simp add: launch_bridge_launched)
    with launched_cong [of "drop_bridge_child m" m] drop_bridge_child_ok [OF ok] show ?thesis by simp
  next
    case False
    with assms(1) Some show ?thesis by (auto simp: start_bridge_def split: sum.splits option.splits)
  qed
qed

lemma stop_bridge_ok:
  assumes "stop_bridge m = (snap, m') \<or> terminate_bridge_now m = (snap, m')" and "bridge_ok m"
  shows "bridge_ok m' \<and> bp_child m' = None \<and> bp_live m' = {} \<and> bp_config m' = bp_config m"
proof -
  have "m' = (drop_bridge_child (m\<lparr>bp_status := BridgeStopping\<rparr>))\<lparr>bp_status := BridgeStopped, bp_detail := None\<rparr>"
    using assms(1) by (auto simp: stop_bridge_def terminate_bridge_now_def Let_def)
  with assms(2) show ?thesis by (auto simp: drop_bridge_child_def bridge_ok_def)
qed

lemma bridge_move_ok:
  assumes "bridge_move m m'" and ok: "bridge_ok m"
  shows "bridge_ok m'"
  using assms(1)
proof cases
  case (bridge_start env r)
  from start_bridge_launched [OF this ok] ok show ?thesis by (auto simp: launched_def)
next
  case (bridge_restart env r)
  obtain snap m1 where m1: "stop_bridge m = (snap, m1)" by fastforce
  with stop_bridge_ok ok have "bridge_ok m1" by blast
  from start_bridge_launched [OF _ this, of env "(r, m')"] bridge_restart m1 this show ?thesis
    by (auto simp: restart_bridge_def launched_def)
next
  case (bridge_stop snap)
  with stop_bridge_ok [of m snap m'] ok show ?thesis by blast
next
  case (bridge_terminate snap)
  with stop_bridge_ok [of m snap m'] ok show ?thesis by blast
next
  case (bridge_exit pid)
  then have "knows_token m' p = knows_token m p" for p by (intro knows_token_cong) simp_all
  with bridge_exit ok show ?thesis by (auto simp: bridge_ok_def)
qed

interpretation bridge_proc: supervisor new_bridge_state bridge_move bp_child bp_live bridge_ok
  by unfold_locales
    (use bridge_move_ok in \<open>auto simp: new_bridge_state_def new_bridge_manager_def bridge_ok_def\<close>)

text \<open>
  C22. Whatever the manager of the sidecar is asked: at most one sidecar it started runs, which is the
  one it holds; it holds one only while shown as ready or degraded; that process was spawned with the
  manager's control token as the value of \<open>CODEX_MOBILE_BRIDGE_CONTROL_TOKEN\<close> in its environment (unless
  the configuration's own extra variables set that name), and the plan the manager keeps, from which it
  sends its control requests, has the same token; and a failure always has a text.
\<close>

theorem bridge_one_process:
  assumes "reached new_bridge_state bridge_move m"
  shows "bp_live m \<subseteq> set_option (bp_child m) \<and> card (bp_live m) \<le> 1
    \<and> (bp_child m \<noteq> None \<longrightarrow> bp_status m \<in> {BridgeReady, BridgeDegraded}
        \<and> map_option lp_control_token (bp_plan m) = Some (bp_control_token m))
    \<and> (\<forall>pid. bp_child m = Some pid \<longrightarrow>
         ''CODEX_MOBILE_BRIDGE_CONTROL_TOKEN'' \<notin> fst ` set (bc_extra_env (bp_config m)) \<longrightarrow>
         map_of (rev (bp_environ m pid)) ''CODEX_MOBILE_BRIDGE_CONTROL_TOKEN'' = Some (bp_control_token m))
    \<and> (bp_status m = BridgeFailed \<longrightarrow> bp_detail m \<noteq> None) \<and> bp_status m \<noteq> BridgeStopping"
proof -
  have ok: "bridge_ok m" using bridge_proc.reached_inv [OF assms] by simp
  have "map_of (rev (bp_environ m pid)) token_var = Some (bp_control_token m)"
    if "bp_child m = Some pid" "token_var \<notin> fst ` set (bc_extra_env (bp_config m))" for pid
    using ok that by (simp add: bridge_ok_def knows_token_def given_var_def)
  then show ?thesis
    using ok bridge_proc.one_alive [OF assms] unfolding bridge_ok_def token_var_def by blast
qed

text \<open>
  A started manager: the sidecar answers at its second poll with a status that is not \<open>ok\<close>; it then
  exits and is started anew.
\<close>

definition demo_plan_env :: plan_env where
  "demo_plan_env = \<lparr>pe_is_file = (\<lambda>_. True), pe_mkdir = (\<lambda>_. None), pe_open_db = (\<lambda>_. None),
     pe_bind = (\<lambda>_. True), pe_bind_any = Inr 40000, pe_uuid = ''instance''\<rparr>"

definition demo_bridge_start :: "nat \<Rightarrow> bridge_start" where
  "demo_bridge_start pid =
     \<lparr>be_wait = Inr (Some ''exit status: 1''), be_token = ''control'', be_plan = demo_plan_env,
      be_reset_log = (\<lambda>_. None), be_spawn = (\<lambda>_ _ _. Inr pid), be_client = None, be_started = 0,
      be_health = (\<lambda>_ i. \<lparr>hh_wait = Inr None,
         hh_answer = (if i = 0 then None else Some (Inr ''starting'')), hh_now = 250 * i\<rparr>)\<rparr>"

definition demo_manager :: bridge_manager where
  "demo_manager = new_bridge_manager (new_bridge_config ''/bin/sidecar'' ''/data'' ''/pwa'') ''''"

lemma demo_bridge_started:
  "bp_child m = None \<or> bp_child m = Some pid' \<Longrightarrow> bp_config m = bp_config demo_manager \<Longrightarrow>
   \<exists>snap m'. start_bridge (demo_bridge_start pid) m = Some (Inr snap, m') \<and> bp_child m' = Some pid \<and>
     bp_status m' = BridgeDegraded \<and> bp_config m' = bp_config demo_manager"
proof -
  have turn: "poll_loop (\<lambda>i. bridge_health_turn (bp_config demo_manager) 10000
      \<lparr>hh_wait = Inr None, hh_answer = (if i = 0 then None else Some (Inr ''starting'')), hh_now = 250 * i\<rparr>) 0
      = Some (Inr BridgeDegraded)"
    by (subst poll_loop_next) (simp_all add: bridge_health_turn_def poll_loop_now)
  assume "bp_child m = None \<or> bp_child m = Some pid'" "bp_config m = bp_config demo_manager"
  then show ?thesis using turn
    by (auto simp: start_bridge_def launch_bridge_def spawn_bridge_def await_bridge_def Let_def
        wait_for_health_def prepare_launch_plan_def then_check_def validate_pwa_dist_def
        create_dir_all_def validate_db_writable_def choose_port_def drop_bridge_child_def
        demo_bridge_start_def demo_plan_env_def demo_manager_def new_bridge_manager_def
        new_bridge_config_def split: option.splits)
qed

theorem bridge_one_process_witness:
  "\<exists>snap m. start_bridge (demo_bridge_start 7) demo_manager = Some (Inr snap, m)
     \<and> bp_child m = Some 7 \<and> bp_live m \<subseteq> {7}
     \<and> map_of (rev (bp_environ m 7)) ''CODEX_MOBILE_BRIDGE_CONTROL_TOKEN'' = Some (bp_control_token m)"
proof -
  obtain snap m where m: "start_bridge (demo_bridge_start 7) demo_manager = Some (Inr snap, m)" "bp_child m = Some 7"
    and extra: "bc_extra_env (bp_config m) = []"
    using demo_bridge_started [of demo_manager 0 7] by (auto simp: demo_manager_def new_bridge_manager_def new_bridge_config_def)
  have "reached new_bridge_state bridge_move demo_manager"
    by (rule reached_start) (auto simp: new_bridge_state_def demo_manager_def)
  then have "reached new_bridge_state bridge_move m"
    by (rule reached_step) (rule bridge_move.intros(1) [OF m(1)])
  from bridge_one_process [OF this] m extra show ?thesis by simp
qed

lemma wait_for_health_returns:
  assumes "be_started env + bc_startup_timeout config \<le> hh_now (be_health env (lp_health_url plan) i)"
  shows "wait_for_health config env plan \<noteq> None"
proof -
  have "bridge_health_turn config (be_started env + bc_startup_timeout config)
      (be_health env (lp_health_url plan) i) \<noteq> None"
    using assms by (auto simp: bridge_health_turn_def split: sum.split option.split)
  then have "poll_loop (\<lambda>i. bridge_health_turn config (be_started env + bc_startup_timeout config)
      (be_health env (lp_health_url plan) i)) 0 \<noteq> None"
    by (rule poll_loop_returns) simp
  then show ?thesis by (auto simp: wait_for_health_def split: option.split)
qed

lemma launch_bridge_returns:
  assumes "\<forall>url. \<exists>i. be_started env + bc_startup_timeout (bp_config m) \<le> hh_now (be_health env url i)"
  shows "launch_bridge env m \<noteq> None"
proof -
  have health: "wait_for_health (bp_config m) env plan \<noteq> None" for plan
    using assms wait_for_health_returns by blast
  show ?thesis
    by (auto simp: health launch_bridge_def spawn_bridge_def await_bridge_def Let_def
        split: sum.splits option.splits)
qed

lemma start_bridge_returns:
  assumes "\<forall>url. \<exists>i. be_started env + bc_startup_timeout (bp_config m) \<le> hh_now (be_health env url i)"
  shows "start_bridge env m \<noteq> None"
  using launch_bridge_returns [of env m] launch_bridge_returns [of env "drop_bridge_child m"] assms
  by (auto simp: start_bridge_def drop_bridge_child_def split: sum.split option.split)

text \<open>
  Starting the sidecar always comes to an end once the clock reaches the deadline, whatever the
  sidecar does. It succeeds only with a process that was spawned from the plan the manager keeps and
  that answered a health request while it was running, and tells ready or degraded as it answered. When
  it fails no process of the manager is left, but for one that was running before, which it leaves
  as it is.
\<close>

lemma start_bridge_settles:
  assumes "reached new_bridge_state bridge_move m"
    and "\<forall>url. \<exists>i. be_started env + bc_startup_timeout (bp_config m) \<le> hh_now (be_health env url i)"
  shows "\<exists>r m'. start_bridge env m = Some (r, m') \<and>
    (case r of
       Inr snap \<Rightarrow> \<exists>plan pid i status. bp_plan m' = Some plan \<and> bp_child m' = Some pid \<and>
         be_spawn env (bc_sidecar_binary (bp_config m)) (bc_sidecar_args (bp_config m)) (lp_env plan) = Inr pid \<and>
         hh_wait (be_health env (lp_health_url plan) i) = Inr None \<and>
         hh_answer (be_health env (lp_health_url plan) i) = Some (Inr status) \<and>
         bp_status m' = (if status = ''ok'' then BridgeReady else BridgeDegraded) \<and>
         snap = bridge_snapshot_of (Some pid) m'
     | Inl e \<Rightarrow> bp_child m' = None \<and> bp_live m' = {} \<or> bp_child m \<noteq> None \<and> m' = m)"
proof -
  obtain r m' where run: "start_bridge env m = Some (r, m')"
    using start_bridge_returns [OF assms(2)] by auto
  from bridge_proc.reached_inv [OF assms(1)] have "bridge_ok m" by simp
  from start_bridge_launched [OF run this]
  have "launched env m (r, m') \<or> bp_child m \<noteq> None \<and> m' = m \<and> (\<exists>e. r = Inl e)" by simp
  then show ?thesis
  proof
    assume l: "launched env m (r, m')"
    show ?thesis
    proof (cases r)
      case (Inl e)
      with l run show ?thesis by (simp add: launched_def)
    next
      case (Inr snap)
      from l obtain plan pid i status where "bp_plan m' = Some plan" "bp_child m' = Some pid"
        "be_spawn env (bc_sidecar_binary (bp_config m)) (bc_sidecar_args (bp_config m)) (lp_env plan) = Inr pid"
        "hh_wait (be_health env (lp_health_url plan) i) = Inr None"
        "hh_answer (be_health env (lp_health_url plan) i) = Some (Inr status)"
        "bp_status m' = (if status = ''ok'' then BridgeReady else BridgeDegraded)"
        "snap = bridge_snapshot_of (Some pid) m'"
        unfolding launched_def Inr fst_conv snd_conv sum.case by blast
      with run Inr show ?thesis
        by (intro exI [of _ r] exI [of _ m'] conjI) (simp, simp only: sum.case, blast)
    qed
  next
    assume "bp_child m \<noteq> None \<and> m' = m \<and> (\<exists>e. r = Inl e)"
    with run show ?thesis by auto
  qed
qed

text \<open>
  Two ends of \<open>start\<close> that leave a wrong status: when the sidecar has exited and the checks before a
  launch fail, the manager still shows the status it had with a process; when the process cannot be
  spawned it shows that it is starting.
\<close>

lemma failed_checks_keep_status:
  assumes "bp_child m = Some pid" and "be_wait env = Inr (Some status)"
    and "prepare_launch_plan (be_plan env) ((drop_bridge_child m)\<lparr>bp_control_token := be_token env\<rparr>) = Inl e"
  shows "\<exists>m'. start_bridge env m = Some (Inl e, m') \<and> bp_child m' = None \<and> bp_status m' = bp_status m"
  using assms by (auto simp: start_bridge_def launch_bridge_def Let_def drop_bridge_child_def)

lemma failed_spawn_leaves_starting:
  assumes "bp_child m = None" and "be_reset_log env = (\<lambda>_. None)"
    and "prepare_launch_plan (be_plan env) (m\<lparr>bp_control_token := be_token env\<rparr>) = Inr plan"
    and "be_spawn env (bc_sidecar_binary (bp_config m)) (bc_sidecar_args (bp_config m)) (lp_env plan) = Inl e"
  shows "\<exists>m'. start_bridge env m = Some (Inl (BpSpawn e), m') \<and> bp_child m' = None
    \<and> bp_status m' = BridgeStarting"
  using assms by (auto simp: start_bridge_def launch_bridge_def spawn_bridge_def Let_def)

end
