(* ===== verification/Host_Bridge.thy ===== *)
theory Host_Bridge
  imports Approval
begin

text \<open>
  The script that \<open>crates/bridge-core/src/cdp.rs\<close> installs in the desktop app
  (\<open>CODEX_APP_SERVER_BRIDGE_SCRIPT\<close>), and what the expression of \<open>codex_rpc.rs\<close> that carries a
  request returns (\<open>cdp_rpc_expression\<close>). JavaScript values are JSON; \<open>undefined\<close> is \<open>None\<close>. The app's
  manager of conversations and its sender of requests are parameters; finding them in the page is
  not modelled. Numbers are integers that JavaScript holds exactly.
\<close>

section \<open>Values of JavaScript\<close>

type_synonym js = "json option"

text \<open>\<open>a?.k\<close>; no name read here is a property of an array, a string, a number or a boolean.\<close>

definition js_get :: "string \<Rightarrow> js \<Rightarrow> js" where
  "js_get k v = Option.bind v (json_get k)"

definition nullish :: "js \<Rightarrow> bool" where
  "nullish v \<longleftrightarrow> v = None \<or> v = Some JNull"

text \<open>\<open>a ?? b ?? ...\<close> and \<open>a || b\<close>.\<close>

fun js_first :: "js list \<Rightarrow> js" where
  "js_first [] = Some JNull"
| "js_first [v] = v"
| "js_first (v # w # vs) = (if nullish v then js_first (w # vs) else v)"

definition truthy :: "js \<Rightarrow> bool" where
  "truthy v \<longleftrightarrow>
     v \<notin> {None, Some JNull, Some (JBool False), Some (JPosInt 0), Some (JString [])}"

definition js_or :: "js \<Rightarrow> js \<Rightarrow> js" where
  "js_or a b = (if truthy a then a else b)"

definition is_object :: "js \<Rightarrow> bool" where
  "is_object v \<longleftrightarrow> (case v of Some (JObject _) \<Rightarrow> True | Some (JArray _) \<Rightarrow> True | _ \<Rightarrow> False)"

definition empty_object :: json where
  "empty_object = JObject []"

text \<open>A property that is \<open>undefined\<close> is left out when a value is returned.\<close>

definition js_object :: "(string \<times> js) list \<Rightarrow> json" where
  "js_object members =
     json_object (List.map_filter (\<lambda>(k, v). map_option (\<lambda>w. (k, w)) v) members)"

section \<open>What the expression returns\<close>

definition compact_thread :: "js \<Rightarrow> js \<Rightarrow> js" where
  "compact_thread request result =
     (let thread = js_first [js_get ''thread'' result, js_get ''thread'' (js_get ''data'' result),
            js_get ''data'' result, result] in
      if \<not> is_object thread then result
      else
        let nul = Some JNull;
            at = (\<lambda>k. js_get k thread);
            source = at ''source'';
            sub_agent = js_first [js_get ''subAgent'' source, js_get ''subagent'' source, nul];
            spawned = js_first [js_get ''thread_spawn'' sub_agent, js_get ''threadSpawn'' sub_agent, nul]
        in Some (js_object [(''thread'', Some (js_object
          [(''id'', js_first [at ''id'', at ''threadId'', at ''thread_id'',
              js_get ''threadId'' (js_get ''params'' request), nul]),
           (''title'', js_first [at ''title'', at ''name'', nul]),
           (''cwd'', js_first [at ''cwd'', at ''workingDirectory'', at ''working_directory'',
              js_get ''cwd'' result, nul]),
           (''modelProvider'', js_first [at ''modelProvider'', at ''model_provider'',
              js_get ''modelProvider'' result, nul]),
           (''preview'', js_first [at ''preview'', at ''summary'', nul]),
           (''createdAt'', js_first [at ''createdAt'', at ''created_at'', nul]),
           (''updatedAt'', js_first [at ''updatedAt'', at ''updated_at'', nul]),
           (''threadSource'', js_first [at ''threadSource'', at ''thread_source'', nul]),
           (''agentPath'', js_first [at ''agentPath'', at ''agent_path'',
              js_get ''agentPath'' spawned, js_get ''agent_path'' spawned, nul]),
           (''agentNickname'', js_first [at ''agentNickname'', at ''agent_nickname'',
              js_get ''agentNickname'' spawned, js_get ''agent_nickname'' spawned, nul])]))]))"

definition response_value :: "cdp_rpc_response_mode \<Rightarrow> js \<Rightarrow> js \<Rightarrow> js" where
  "response_value mode request result =
     (case mode of
        Full \<Rightarrow> result
      | Acknowledge \<Rightarrow> Some (json_object [(''accepted'', JBool True)])
      | CompactThread \<Rightarrow> compact_thread request result)"

section \<open>Pending approvals\<close>

definition APPROVAL_METHODS :: "string list" where
  "APPROVAL_METHODS =
     [''item/commandExecution/requestApproval'', ''item/fileChange/requestApproval'',
      ''item/permissions/requestApproval'', ''mcpServer/elicitation/request'']"

text \<open>A request of the app server, by its native id.\<close>

datatype native_id = NumberId int | TextId string

primrec id_text :: "native_id \<Rightarrow> string" where
  "id_text (NumberId i) = int_text i"
| "id_text (TextId s) = s"

record host_request =
  hr_id :: native_id
  hr_method :: string
  hr_params :: js

text \<open>
  The manager: its map of conversations, if it has one, in the order of insertion; a conversation may
  have no list of requests.
\<close>

record host_manager =
  hm_conversations :: "(string \<times> host_request list option) list option"
  hm_get_conversation :: "string \<Rightarrow> host_request list option"

definition requests_of :: "host_request list option \<Rightarrow> host_request list" where
  "requests_of conversation = unwrap_or [] conversation"

definition listed_approval :: "string \<Rightarrow> host_request \<Rightarrow> json" where
  "listed_approval thread_id r =
     json_object
       [(''threadId'', JString thread_id),
        (''requestId'', JString (id_text (hr_id r))),
        (''method'', JString (hr_method r)),
        (''params'', the (js_or (hr_params r) (Some empty_object)))]"

definition list_host_approvals :: "host_manager option \<Rightarrow> json list" where
  "list_host_approvals manager =
     (case Option.bind manager hm_conversations of
        None \<Rightarrow> []
      | Some conversations \<Rightarrow>
          concat (map (\<lambda>(thread_id, conversation).
              map (listed_approval thread_id)
                (filter (\<lambda>r. hr_method r \<in> set APPROVAL_METHODS) (requests_of conversation)))
            conversations))"

text \<open>The part before the last colon and the part after it.\<close>

definition split_last :: "char \<Rightarrow> string \<Rightarrow> (string \<times> string) option" where
  "split_last c s =
     (case dropWhile (\<lambda>x. x \<noteq> c) (rev s) of
        [] \<Rightarrow> None
      | _ # before \<Rightarrow> Some (rev before, rev (takeWhile (\<lambda>x. x \<noteq> c) (rev s))))"

definition parse_approval_id :: "js \<Rightarrow> string + (string option \<times> string)" where
  "parse_approval_id approval_id =
     (case approval_id of
        Some (JString s) \<Rightarrow>
          if s = [] then Inl ''Invalid Codex approval id''
          else (case split_last (CHR '':'') s of
              None \<Rightarrow> Inr (None, s)
            | Some (thread_id, request_id) \<Rightarrow>
                if thread_id = [] \<or> request_id = [] then Inr (None, s)
                else Inr (Some thread_id, request_id))
      | _ \<Rightarrow> Inl ''Invalid Codex approval id'')"

datatype host_reply =
    CommandDecision string native_id string
  | FileChangeDecision string native_id string
  | PermissionsReply string native_id json
  | ElicitationReply string native_id json

text \<open>The reply of the \<open>switch\<close>; \<open>None\<close> is its default branch, which throws.\<close>

definition host_answer :: "string \<Rightarrow> host_request \<Rightarrow> bool \<Rightarrow> host_reply option" where
  "host_answer thread_id r approve =
     (let accept = (if approve then ''accept'' else ''decline'') in
      if hr_method r = ''item/commandExecution/requestApproval'' then
        Some (CommandDecision thread_id (hr_id r) accept)
      else if hr_method r = ''item/fileChange/requestApproval'' then
        Some (FileChangeDecision thread_id (hr_id r) accept)
      else if hr_method r = ''item/permissions/requestApproval'' then
        Some (PermissionsReply thread_id (hr_id r) (json_object
          [(''permissions'', if approve
              then the (js_or (js_get ''permissions'' (hr_params r)) (Some empty_object))
              else empty_object),
           (''scope'', JString ''turn'')]))
      else if hr_method r = ''mcpServer/elicitation/request'' then
        Some (ElicitationReply thread_id (hr_id r) (json_object
          [(''action'', JString accept),
           (''content'', if approve then empty_object else JNull),
           (''_meta'', JNull)]))
      else None)"

definition answered :: "string \<Rightarrow> string \<Rightarrow> host_request \<Rightarrow> json" where
  "answered thread_id request_id r =
     json_object [(''accepted'', JBool True), (''threadId'', JString thread_id),
       (''requestId'', JString request_id), (''method'', JString (hr_method r))]"

text \<open>\<open>fails\<close>: with which error the manager rejects a reply. The result, and the replies that were sent.\<close>

fun answer_first ::
  "(host_reply \<Rightarrow> string option) \<Rightarrow> string \<Rightarrow> bool \<Rightarrow> string
    \<Rightarrow> (string \<times> host_request list option) list \<Rightarrow> (string + json) \<times> host_reply list" where
  "answer_first fails request_id approve missing [] = (Inl missing, [])"
| "answer_first fails request_id approve missing ((thread_id, conversation) # rest) =
     (case find (\<lambda>r. id_text (hr_id r) = request_id \<and> hr_method r \<in> set APPROVAL_METHODS)
         (requests_of conversation) of
        None \<Rightarrow> answer_first fails request_id approve missing rest
      | Some r \<Rightarrow>
          (case host_answer thread_id r approve of
             None \<Rightarrow> (Inl (''Unsupported Codex approval method: '' @ hr_method r), [])
           | Some reply \<Rightarrow>
               (case fails reply of
                  Some e \<Rightarrow> (Inl e, [reply])
                | None \<Rightarrow> (Inr (answered thread_id request_id r), [reply]))))"

definition not_found_text :: "js \<Rightarrow> string" where
  "not_found_text approval_id =
     ''Pending Codex approval not found: '' @
       (case approval_id of Some (JString s) \<Rightarrow> (if s = [] then ''unknown'' else s) | _ \<Rightarrow> ''unknown'')"

definition respond_to_approval ::
  "(host_reply \<Rightarrow> string option) \<Rightarrow> host_manager option \<Rightarrow> js \<Rightarrow> (string + json) \<times> host_reply list" where
  "respond_to_approval fails manager params =
     (case Option.bind manager (\<lambda>m. map_option (\<lambda>cs. (m, cs)) (hm_conversations m)) of
        None \<Rightarrow> (Inl ''ChatGPT approval manager is unavailable'', [])
      | Some (m, conversations) \<Rightarrow>
          (case parse_approval_id (js_get ''approvalId'' params) of
             Inl e \<Rightarrow> (Inl e, [])
           | Inr (requested, request_id) \<Rightarrow>
               answer_first fails request_id (js_get ''decision'' params = Some (JString ''approve''))
                 (not_found_text (js_get ''approvalId'' params))
                 (case requested of
                    Some thread_id \<Rightarrow> [(thread_id, hm_get_conversation m thread_id)]
                  | None \<Rightarrow> conversations)))"

section \<open>The bridge object\<close>

text \<open>\<open>a || b || ...\<close>.\<close>

fun js_any :: "js list \<Rightarrow> js" where
  "js_any [] = None"
| "js_any [v] = v"
| "js_any (v # w # vs) = (if truthy v then v else js_any (w # vs))"

definition js_items :: "js \<Rightarrow> json list option" where
  "js_items v = Option.bind v as_array"

definition first_text :: "js \<Rightarrow> string" where
  "first_text params =
     (case js_items (js_get ''input'' params) of
        None \<Rightarrow> []
      | Some parts \<Rightarrow>
          (case find (\<lambda>part. json_get ''type'' part = Some (JString ''text'') \<and>
                (\<exists>t. json_get ''text'' part = Some (JString t))) parts of
             None \<Rightarrow> []
           | Some part \<Rightarrow> unwrap_or [] (Option.bind (json_get ''text'' part) as_str)))"

text \<open>The spread \<open>...params\<close> after the defaults: its members win.\<close>

definition js_spread :: "(string \<times> json) list \<Rightarrow> json \<Rightarrow> json" where
  "js_spread defaults params =
     json_object (defaults @ unwrap_or [] (as_object params))"

definition started_thread :: "js \<Rightarrow> js \<Rightarrow> js" where
  "started_thread params result =
     (let thread_id = (case result of
            Some (JString s) \<Rightarrow> result
          | _ \<Rightarrow> js_any [js_get ''threadId'' result, js_get ''conversationId'' result,
                js_get ''id'' (js_get ''thread'' result), js_get ''id'' result]) in
      case thread_id of
        Some (JString t) \<Rightarrow>
          if t = [] then result
          else Some (json_object [(''thread'', json_object
            [(''id'', JString t),
             (''title'', JString (first_text params)),
             (''preview'', JString (first_text params)),
             (''cwd'', (case js_get ''cwd'' params of Some (JString c) \<Rightarrow> JString c | _ \<Rightarrow> JNull))])])
      | _ \<Rightarrow> result)"

text \<open>
  The app around the bridge: its manager, how it takes replies, and its sender of requests. The
  result of a request, and the replies it made.
\<close>

record host_app =
  ha_manager :: "host_manager option"
  ha_fails :: "host_reply \<Rightarrow> string option"
  ha_send :: "string \<Rightarrow> json \<Rightarrow> string + js"

definition host_rpc :: "host_app \<Rightarrow> json \<Rightarrow> (string + js) \<times> host_reply list" where
  "host_rpc app request =
     (case json_get ''method'' request of
        Some (JString m) \<Rightarrow>
          (let given = json_get ''params'' request;
               params = the (js_or given (Some empty_object)) in
           if m = ''codex-mobile/start-conversation'' then
             ((case ha_send app ''start-conversation'' (js_spread
                   [(''hostId'', JString ''local''),
                    (''preparePrimaryRuntimeForFirstTurn'', JBool False)] params) of
                 Inl e \<Rightarrow> Inl e
               | Inr result \<Rightarrow> Inr (started_thread (Some params) result)), [])
           else if m = ''codex-mobile/list-pending-approvals'' then
             (Inr (Some (JArray (list_host_approvals (ha_manager app)))), [])
           else if m = ''codex-mobile/respond-approval'' then
             (case respond_to_approval (ha_fails app) (ha_manager app) (Some params) of
                (Inl e, replies) \<Rightarrow> (Inl e, replies)
              | (Inr v, replies) \<Rightarrow> (Inr (Some v), replies))
           else
             (ha_send app ''send-cli-request-for-host'' (json_object
                [(''hostId'', JString ''local''), (''method'', JString m), (''params'', params),
                 (''timeoutMs'', JPosInt (if m = ''turn/start'' then 60000 else 30000))]), []))
      | _ \<Rightarrow> (Inl ''Invalid Codex mobile bridge request'', []))"

text \<open>
  The transport of \<open>codex_rpc.rs\<close> over the debugging protocol: the request goes to the bridge, and
  what the expression returns comes back, \<open>undefined\<close> as null. \<open>thrown\<close> is the text of an error that
  was thrown in the page.
\<close>

definition request_json :: "json_rpc_request \<Rightarrow> json" where
  "request_json r =
     json_object [(''jsonrpc'', JString (rq_jsonrpc r)), (''id'', JPosInt (rq_id r)),
       (''method'', JString (rq_method r)), (''params'', rq_params r)]"

definition host_transport :: "(string \<Rightarrow> string) \<Rightarrow> host_app \<Rightarrow> transport" where
  "host_transport thrown app sent_before r =
     (case fst (host_rpc app (request_json r)) of
        Inl e \<Rightarrow> Inl (Transport (''runtime evaluation failed: '' @ thrown e))
      | Inr v \<Rightarrow> Inr (unwrap_or JNull
          (response_value (response_mode (rq_method r)) (Some (request_json r)) v)))"

text \<open>The replies that a list of requests makes.\<close>

definition replies_to :: "host_app \<Rightarrow> json_rpc_request list \<Rightarrow> host_reply list" where
  "replies_to app rs = concat (map (\<lambda>r. snd (host_rpc app (request_json r))) rs)"

section \<open>A decision reaches its request\<close>

lemma split_last_here: "c \<notin> set b \<Longrightarrow> split_last c (a @ c # b) = Some (a, b)"
proof -
  assume "c \<notin> set b"
  then have free: "\<And>x. x \<in> set (rev b) \<Longrightarrow> x \<noteq> c" by auto
  have r: "rev (a @ c # b) = rev b @ c # rev a" by simp
  have "dropWhile (\<lambda>x. x \<noteq> c) (rev b @ c # rev a) = c # rev a"
    "takeWhile (\<lambda>x. x \<noteq> c) (rev b @ c # rev a) = rev b"
    by (subst dropWhile_append2 takeWhile_append2, erule free, simp)+
  then show ?thesis unfolding split_last_def r by simp
qed

lemma parse_approval_id_of:
  assumes "thread_id \<noteq> []" "request_id \<noteq> []" "CHR '':'' \<notin> set request_id"
  shows "parse_approval_id (Some (JString (thread_id @ '':'' @ request_id))) = Inr (Some thread_id, request_id)"
  using assms by (simp add: parse_approval_id_def split_last_here)

lemma truthy_object [simp]: "truthy (Some (json_object fs))"
  by (simp add: truthy_def json_object_def)

lemma js_or_object [simp]: "js_or (Some (json_object fs)) b = Some (json_object fs)"
  by (simp add: js_or_def)

lemma js_get_object [simp]: "js_get k (Some (json_object fs)) = map_of (rev fs) k"
  by (simp add: js_get_def)

lemma host_answer_approval: "hr_method r \<in> set APPROVAL_METHODS \<Longrightarrow> \<exists>reply. host_answer t r b = Some reply"
  by (auto simp: APPROVAL_METHODS_def host_answer_def Let_def)

text \<open>
  How the app server reads a reply: by which method, conversation and native id it finds the request,
  and whether the reply lets it go ahead. A reply about permissions names the ones that are granted:
  going ahead is granting what the request asked for, refusing is granting nothing.
\<close>

primrec reply_address :: "host_reply \<Rightarrow> string \<times> string \<times> native_id" where
  "reply_address (CommandDecision t i _) = (''item/commandExecution/requestApproval'', t, i)"
| "reply_address (FileChangeDecision t i _) = (''item/fileChange/requestApproval'', t, i)"
| "reply_address (PermissionsReply t i _) = (''item/permissions/requestApproval'', t, i)"
| "reply_address (ElicitationReply t i _) = (''mcpServer/elicitation/request'', t, i)"

definition asked_permissions :: "host_request \<Rightarrow> js" where
  "asked_permissions r =
     (let asked = js_get ''permissions'' (hr_params r) in if truthy asked then asked else Some (JObject []))"

primrec goes_ahead :: "host_request \<Rightarrow> host_reply \<Rightarrow> bool" where
  "goes_ahead r (CommandDecision _ _ word) \<longleftrightarrow> word = ''accept''"
| "goes_ahead r (FileChangeDecision _ _ word) \<longleftrightarrow> word = ''accept''"
| "goes_ahead r (PermissionsReply _ _ v) \<longleftrightarrow>
     js_get ''permissions'' (Some v) = asked_permissions r \<and> js_get ''scope'' (Some v) = Some (JString ''turn'')"
| "goes_ahead r (ElicitationReply _ _ v) \<longleftrightarrow> js_get ''action'' (Some v) = Some (JString ''accept'')"

primrec refuses :: "host_reply \<Rightarrow> bool" where
  "refuses (CommandDecision _ _ word) \<longleftrightarrow> word = ''decline''"
| "refuses (FileChangeDecision _ _ word) \<longleftrightarrow> word = ''decline''"
| "refuses (PermissionsReply _ _ v) \<longleftrightarrow> js_get ''permissions'' (Some v) = Some (JObject [])"
| "refuses (ElicitationReply _ _ v) \<longleftrightarrow>
     js_get ''action'' (Some v) = Some (JString ''decline'') \<and> js_get ''content'' (Some v) = Some JNull"

lemma truthy_some: "truthy v \<Longrightarrow> Some (the v) = v"
  by (auto simp: truthy_def)

lemma host_answer_says:
  assumes "host_answer thread_id r approve = Some reply"
  shows "reply_address reply = (hr_method r, thread_id, hr_id r)"
    and "approve \<Longrightarrow> goes_ahead r reply" and "\<not> approve \<Longrightarrow> refuses reply"
  using assms
  by (auto simp: host_answer_def Let_def asked_permissions_def js_or_def empty_object_def truthy_some
      split: if_splits)

lemma refused_not_ahead:
  assumes "refuses reply" and "goes_ahead r reply"
  shows "fst (reply_address reply) = ''item/permissions/requestApproval'' \<and> asked_permissions r = Some (JObject [])"
  using assms by (cases reply) auto

lemma answer_first_of:
  assumes "r \<in> set (requests_of conversation)" and "hr_method r \<in> set APPROVAL_METHODS"
    and "\<forall>r' \<in> set (requests_of conversation).
      hr_method r' \<in> set APPROVAL_METHODS \<longrightarrow> id_text (hr_id r') = id_text (hr_id r) \<longrightarrow> r' = r"
    and "host_answer thread_id r approve = Some reply"
  shows "answer_first fails (id_text (hr_id r)) approve missing ((thread_id, conversation) # rest) =
    (case fails reply of None \<Rightarrow> Inr (answered thread_id (id_text (hr_id r)) r) | Some e \<Rightarrow> Inl e, [reply])"
proof -
  let ?P = "\<lambda>r'. id_text (hr_id r') = id_text (hr_id r) \<and> hr_method r' \<in> set APPROVAL_METHODS"
  obtain r' where f: "find ?P (requests_of conversation) = Some r'"
    using assms(1,2) by (cases "find ?P (requests_of conversation)") (auto simp: find_None_iff)
  then have "r' \<in> set (requests_of conversation)" "?P r'"
    by (auto simp: find_Some_iff)
  with assms(3) have "r' = r" by blast
  with f assms(4) show ?thesis by (simp split: option.split)
qed

text \<open>What the bridge sends for a decision, and what the script makes of it.\<close>

definition approval_request_of :: "rpc_client \<Rightarrow> string \<Rightarrow> decision_kind \<Rightarrow> json_rpc_request" where
  "approval_request_of c approval_id kind =
     \<lparr>rq_jsonrpc = ''2.0'', rq_id = next_request_id c, rq_method = ''codex-mobile/respond-approval'',
      rq_params = json_object
        [(''approvalId'', JString approval_id), (''decision'', JString (decision_name kind))]\<rparr>"

lemma respond_approval_run:
  "respond_approval tr approval_id d c =
     (case tr (sent_requests c) (approval_request_of c approval_id (dec_decision d)) of
        Inl e \<Rightarrow> Inl e | Inr _ \<Rightarrow> Inr (),
      c\<lparr>next_request_id := next_request_id c + 1,
        sent_requests := sent_requests c @ [approval_request_of c approval_id (dec_decision d)]\<rparr>)"
  by (auto simp: respond_approval_def call_def approval_request_of_def Let_def action_simps
      split: sum.splits)

lemma host_rpc_approval:
  "host_rpc app (request_json (approval_request_of c approval_id kind)) =
     (case respond_to_approval (ha_fails app) (ha_manager app)
         (Some (rq_params (approval_request_of c approval_id kind))) of
        (Inl e, replies) \<Rightarrow> (Inl e, replies) | (Inr v, replies) \<Rightarrow> (Inr (Some v), replies))"
  by (simp add: host_rpc_def request_json_def approval_request_of_def)

text \<open>
  C24. The answer a phone gives to an approval it was shown arrives: when the bridge sends the decision
  under the identifier it gave the approval, the script makes exactly one reply, which reaches that very
  request of the app server, by its method, its conversation and its native id; it lets the request go
  ahead (accepts the command, the file change or the question, grants the permissions that were asked
  for) when the decision is to approve, and otherwise refuses it and grants nothing. The decision is reported as
  delivered exactly when the app takes the reply. This holds when the conversation is found under the
  identifier shown, when the request's identifier is not empty and has no colon, and when no other
  pending approval of the conversation has an identifier with the same text.
\<close>

theorem decision_reaches_request:
  assumes app: "ha_manager app = Some m" "hm_conversations m = Some conversations"
    "hm_get_conversation m thread_id = Some rs"
    and r: "r \<in> set rs" "hr_method r \<in> set APPROVAL_METHODS"
    "\<forall>r' \<in> set rs. hr_method r' \<in> set APPROVAL_METHODS \<longrightarrow> id_text (hr_id r') = id_text (hr_id r) \<longrightarrow> r' = r"
    and ids: "thread_id \<noteq> []" "id_text (hr_id r) \<noteq> []" "CHR '':'' \<notin> set (id_text (hr_id r))"
    and shown: "pa_thread_id p = thread_id" "pa_request_id p = id_text (hr_id r)"
    "detect_pending p now = Some approval"
  shows "\<exists>c' reply. respond_approval (host_transport thrown app) (ap_id approval) d c =
        (case ha_fails app reply of
           None \<Rightarrow> Inr ()
         | Some e \<Rightarrow> Inl (Transport (''runtime evaluation failed: '' @ thrown e)), c')
      \<and> replies_to app (drop (length (sent_requests c)) (sent_requests c')) = [reply]
      \<and> reply_address reply = (hr_method r, thread_id, hr_id r)
      \<and> (if dec_decision d = Approve then goes_ahead r reply else refuses reply)"
proof -
  obtain reply where reply: "host_answer thread_id r (dec_decision d = Approve) = Some reply"
    using host_answer_approval [OF r(2)] by blast
  have ident: "ap_id approval = thread_id @ '':'' @ id_text (hr_id r)"
    using shown by (auto simp: detect_pending_def split: option.splits)
  let ?req = "approval_request_of c (ap_id approval) (dec_decision d)"
  have params: "js_get ''approvalId'' (Some (rq_params ?req)) = Some (JString (ap_id approval))"
    "js_get ''decision'' (Some (rq_params ?req)) = Some (JString (decision_name (dec_decision d)))"
    by (simp_all add: approval_request_of_def)
  have approve: "decision_name (dec_decision d) = ''approve'' \<longleftrightarrow> dec_decision d = Approve"
    by (cases "dec_decision d") simp_all
  have "respond_to_approval (ha_fails app) (ha_manager app) (Some (rq_params ?req)) =
      (case ha_fails app reply of
         None \<Rightarrow> Inr (answered thread_id (id_text (hr_id r)) r) | Some e \<Rightarrow> Inl e, [reply])"
    using app answer_first_of [of r "Some rs" thread_id "dec_decision d = Approve" reply "ha_fails app"] r reply
      parse_approval_id_of [OF ids, folded ident]
    by (simp add: respond_to_approval_def params requests_of_def approve)
  then have rpc: "host_rpc app (request_json ?req) =
      (case ha_fails app reply of
         None \<Rightarrow> Inr (Some (answered thread_id (id_text (hr_id r)) r)) | Some e \<Rightarrow> Inl e, [reply])"
    unfolding host_rpc_approval by (simp split: option.split)
  then have "replies_to app [?req] = [reply]" by (simp add: replies_to_def)
  moreover have "host_transport thrown app (sent_requests c) ?req =
      (case ha_fails app reply of
         None \<Rightarrow> Inr (json_object [(''accepted'', JBool True)])
       | Some e \<Rightarrow> Inl (Transport (''runtime evaluation failed: '' @ thrown e)))"
    unfolding host_transport_def rpc
    by (simp add: approval_request_of_def response_mode_def response_value_def split: option.split)
  moreover note host_answer_says [OF reply]
  ultimately show ?thesis
    by (intro exI [of _ "c\<lparr>next_request_id := next_request_id c + 1, sent_requests := sent_requests c @ [?req]\<rparr>"]
        exI [of _ reply]) (auto simp: respond_approval_run split: option.splits)
qed

definition demo_request :: host_request where
  "demo_request =
     \<lparr>hr_id = NumberId 7, hr_method = ''item/fileChange/requestApproval'', hr_params = None\<rparr>"

definition demo_app :: host_app where
  "demo_app =
     \<lparr>ha_manager = Some \<lparr>hm_conversations = Some [(''a'', None), (''t'', Some [demo_request])],
        hm_get_conversation = (\<lambda>i. if i = ''t'' then Some [demo_request] else None)\<rparr>,
      ha_fails = (\<lambda>_. None), ha_send = (\<lambda>_ _. Inr None)\<rparr>"

definition demo_shown :: codex_pending_approval where
  "demo_shown = \<lparr>pa_thread_id = ''t'', pa_request_id = ''7'',
     pa_method = ''item/fileChange/requestApproval'', pa_params = empty_object\<rparr>"

theorem decision_reaches_request_witness:
  "\<exists>approval c' reply. detect_pending demo_shown 0 = Some approval
     \<and> respond_approval (host_transport id demo_app) (ap_id approval)
         \<lparr>dec_approval_id = ap_id approval, dec_decision = Reject, dec_comment = None,
          dec_device_id = ''d'', dec_decided_at = 0\<rparr> new_client = (Inr (), c')
     \<and> replies_to demo_app (sent_requests c') = [reply]
     \<and> reply_address reply = (''item/fileChange/requestApproval'', ''t'', NumberId 7) \<and> refuses reply"
proof -
  obtain approval where a: "detect_pending demo_shown 0 = Some approval"
    by (simp add: detect_pending_def demo_shown_def pending_kind_def)
  have i: "id_text (hr_id demo_request) = ''7''" by code_simp
  let ?d = "\<lparr>dec_approval_id = ap_id approval, dec_decision = Reject, dec_comment = None,
      dec_device_id = ''d'', dec_decided_at = 0\<rparr>"
  have m: "ha_manager demo_app = Some (the (ha_manager demo_app))"
    "hm_conversations (the (ha_manager demo_app)) = Some [(''a'', None), (''t'', Some [demo_request])]"
    "hm_get_conversation (the (ha_manager demo_app)) ''t'' = Some [demo_request]"
    "ha_fails demo_app = (\<lambda>_. None)"
    by (simp_all add: demo_app_def)
  have r: "hr_method demo_request \<in> set APPROVAL_METHODS"
    by (simp add: demo_request_def APPROVAL_METHODS_def)
  have "\<exists>c' reply. respond_approval (host_transport id demo_app) (ap_id approval) ?d new_client =
        (case ha_fails demo_app reply of
           None \<Rightarrow> Inr ()
         | Some e \<Rightarrow> Inl (Transport (''runtime evaluation failed: '' @ id e)), c')
      \<and> replies_to demo_app (drop (length (sent_requests new_client)) (sent_requests c')) = [reply]
      \<and> reply_address reply = (hr_method demo_request, ''t'', hr_id demo_request)
      \<and> (if dec_decision ?d = Approve then goes_ahead demo_request reply else refuses reply)"
    by (rule decision_reaches_request [OF m(1,2,3) _ r(1) _ _ _ _ _ _ a])
      (simp_all add: i demo_shown_def)
  then show ?thesis using a m(4) by (auto simp: new_client_def demo_request_def)
qed

text \<open>An identifier with a colon in it names another request, so the answer does not arrive.\<close>

lemma colon_in_request_id:
  assumes "CHR '':'' \<notin> set b" and "b \<noteq> []"
  shows "parse_approval_id (Some (JString (thread_id @ '':'' @ a @ '':'' @ b))) = Inr (Some (thread_id @ '':'' @ a), b)"
  using assms split_last_here [of "CHR '':''" b "thread_id @ '':'' @ a"] by (simp add: parse_approval_id_def)

section \<open>No reply but to a pending request\<close>

lemma answer_first_replies:
  assumes "answer_first fails request_id approve missing conversations = (res, replies)"
  shows "(replies = [] \<and> (\<exists>e. res = Inl e)) \<or>
    (\<exists>thread_id conversation r reply. (thread_id, conversation) \<in> set conversations \<and>
       r \<in> set (requests_of conversation) \<and> hr_method r \<in> set APPROVAL_METHODS \<and>
       id_text (hr_id r) = request_id \<and>
       host_answer thread_id r approve = Some reply \<and> replies = [reply] \<and>
       (case fails reply of None \<Rightarrow> \<exists>v. res = Inr v | Some e \<Rightarrow> res = Inl e))"
  using assms
proof (induction conversations)
  case (Cons x rest)
  obtain thread_id conversation where x: "x = (thread_id, conversation)" by fastforce
  let ?P = "\<lambda>r. id_text (hr_id r) = request_id \<and> hr_method r \<in> set APPROVAL_METHODS"
  show ?case
  proof (cases "find ?P (requests_of conversation)")
    case None
    with Cons.prems x have "answer_first fails request_id approve missing rest = (res, replies)" by simp
    from Cons.IH [OF this] show ?thesis
    proof (elim disjE exE conjE)
      fix e assume "replies = []" and "res = Inl e"
      then show ?thesis by blast
    next
      fix t cv r reply
      assume "(t, cv) \<in> set rest" "r \<in> set (requests_of cv)" "hr_method r \<in> set APPROVAL_METHODS"
        "id_text (hr_id r) = request_id" "host_answer t r approve = Some reply" "replies = [reply]"
        "case fails reply of None \<Rightarrow> \<exists>v. res = Inr v | Some e \<Rightarrow> res = Inl e"
      moreover from this have "(t, cv) \<in> set (x # rest)" by simp
      ultimately show ?thesis by blast
    qed
  next
    case (Some r)
    then have r: "r \<in> set (requests_of conversation)" "?P r" by (auto simp: find_Some_iff)
    then obtain reply where reply: "host_answer thread_id r approve = Some reply"
      using host_answer_approval by blast
    have "(res, replies) = (case fails reply of
        Some e \<Rightarrow> (Inl e, [reply]) | None \<Rightarrow> (Inr (answered thread_id request_id r), [reply]))"
      using Cons.prems x Some reply by simp
    with r reply x show ?thesis
      by (intro disjI2 exI [of _ thread_id] exI [of _ conversation] exI [of _ r] exI [of _ reply])
        (auto split: option.splits)
  qed
qed auto

lemma split_last_Some: "split_last c s = Some (a, b) \<Longrightarrow> s = a @ c # b"
proof -
  assume h: "split_last c s = Some (a, b)"
  then obtain x before where d: "dropWhile (\<lambda>x. x \<noteq> c) (rev s) = x # before" "a = rev before"
    "b = rev (takeWhile (\<lambda>x. x \<noteq> c) (rev s))"
    by (auto simp: split_last_def split: list.splits)
  have "x = c" using d(1) by (metis (mono_tags, lifting) dropWhile_eq_Cons_conv)
  have "takeWhile (\<lambda>x. x \<noteq> c) (rev s) @ c # before = rev s"
    using takeWhile_dropWhile_id [of "\<lambda>x. x \<noteq> c" "rev s"] d(1) \<open>x = c\<close> by simp
  from arg_cong [OF this, of rev] show ?thesis unfolding d(2,3) by simp
qed

lemma parse_approval_id_names:
  assumes "parse_approval_id v = Inr (requested, request_id)"
  shows "v = Some (JString (case requested of None \<Rightarrow> request_id | Some t \<Rightarrow> t @ '':'' @ request_id))"
  using assms
  by (auto simp: parse_approval_id_def dest!: split_last_Some split: option.splits json.splits if_splits prod.splits)

text \<open>
  C25. Whatever is sent to the script as an answer: at most one reply is made; it is addressed to a
  request that is pending in the desktop app, asks for an approval and is the one the answer names (by
  its conversation and its identifier, or by its identifier alone); it lets the request go ahead when the decision is
  the word \<open>approve\<close>, and on any other word, or none, refuses it and grants nothing. The answer is reported as
  accepted exactly when such a reply was made and taken.
\<close>

theorem replies_are_decisions:
  assumes "respond_to_approval fails manager params = (res, replies)"
  shows "length replies \<le> 1
    \<and> ((\<exists>v. res = Inr v) \<longleftrightarrow> (\<exists>reply \<in> set replies. fails reply = None))
    \<and> (\<forall>reply \<in> set replies. \<exists>m conversations thread_id conversation r.
        manager = Some m \<and> hm_conversations m = Some conversations \<and>
        ((thread_id, conversation) \<in> set conversations \<or> conversation = hm_get_conversation m thread_id) \<and>
        r \<in> set (requests_of conversation) \<and> hr_method r \<in> set APPROVAL_METHODS \<and>
        js_get ''approvalId'' params \<in> {Some (JString (thread_id @ '':'' @ id_text (hr_id r))),
          Some (JString (id_text (hr_id r)))} \<and>
        reply_address reply = (hr_method r, thread_id, hr_id r) \<and>
        (if js_get ''decision'' params = Some (JString ''approve'') then goes_ahead r reply
         else refuses reply))"
proof (cases "\<exists>m conversations. manager = Some m \<and> hm_conversations m = Some conversations")
  case False
  with assms show ?thesis by (cases manager) (auto simp: respond_to_approval_def)
next
  case True
  then obtain m conversations where m: "manager = Some m" "hm_conversations m = Some conversations" by blast
  show ?thesis
  proof (cases "parse_approval_id (js_get ''approvalId'' params)")
    case (Inl e)
    with assms m show ?thesis by (auto simp: respond_to_approval_def)
  next
    case (Inr q)
    obtain requested request_id where q: "q = (requested, request_id)" by fastforce
    let ?convs = "case requested of Some t \<Rightarrow> [(t, hm_get_conversation m t)] | None \<Rightarrow> conversations"
    have mem: "(t, cv) \<in> set ?convs \<Longrightarrow> (t, cv) \<in> set conversations \<or> cv = hm_get_conversation m t" for t cv
      by (cases requested) auto
    have run: "answer_first fails request_id (js_get ''decision'' params = Some (JString ''approve''))
        (not_found_text (js_get ''approvalId'' params)) ?convs = (res, replies)"
      using assms m Inr q by (simp add: respond_to_approval_def)
    from answer_first_replies [OF run] show ?thesis
    proof (elim disjE exE conjE)
      fix e assume "replies = []" and "res = Inl e"
      then show ?thesis by simp
    next
      fix t cv r reply
      assume "(t, cv) \<in> set ?convs" "r \<in> set (requests_of cv)" "hr_method r \<in> set APPROVAL_METHODS"
        "id_text (hr_id r) = request_id"
        and a: "host_answer t r (js_get ''decision'' params = Some (JString ''approve'')) = Some reply"
        and one: "replies = [reply]" "case fails reply of None \<Rightarrow> \<exists>v. res = Inr v | Some e \<Rightarrow> res = Inl e"
      moreover have "js_get ''approvalId'' params \<in> {Some (JString (t @ '':'' @ request_id)), Some (JString request_id)}"
        using parse_approval_id_names [OF Inr [unfolded q]] \<open>(t, cv) \<in> set ?convs\<close>
        by (cases requested) auto
      ultimately have "\<exists>m conversations thread_id conversation r.
        manager = Some m \<and> hm_conversations m = Some conversations \<and>
        ((thread_id, conversation) \<in> set conversations \<or> conversation = hm_get_conversation m thread_id) \<and>
        r \<in> set (requests_of conversation) \<and> hr_method r \<in> set APPROVAL_METHODS \<and>
        js_get ''approvalId'' params \<in> {Some (JString (thread_id @ '':'' @ id_text (hr_id r))),
          Some (JString (id_text (hr_id r)))} \<and>
        reply_address reply = (hr_method r, thread_id, hr_id r) \<and>
        (if js_get ''decision'' params = Some (JString ''approve'') then goes_ahead r reply
         else refuses reply)"
        using mem m host_answer_says [OF a]
        by (intro exI [of _ m] exI [of _ conversations] exI [of _ t] exI [of _ cv] exI [of _ r])
          (simp split: if_split)
      moreover have "length replies \<le> 1 \<and> ((\<exists>v. res = Inr v) \<longleftrightarrow> (\<exists>reply \<in> set replies. fails reply = None))"
        using one by (auto split: option.splits)
      ultimately show ?thesis unfolding one(1) by (simp only: list.set ball_simps simp_thms)
    qed
  qed
qed

theorem replies_are_decisions_witness:
  "\<exists>res. respond_to_approval (\<lambda>_. None) (ha_manager demo_app)
      (Some (json_object [(''approvalId'', JString ''t:7''), (''decision'', JString ''approve'')]))
    = (res, [FileChangeDecision ''t'' (NumberId 7) ''accept'']) \<and> (\<exists>v. res = Inr v)"
proof -
  have i: "id_text (hr_id demo_request) = ''7''" by code_simp
  have p: "parse_approval_id (Some (JString ''t:7'')) = Inr (Some ''t'', ''7'')"
    using parse_approval_id_of [of "''t''" "''7''"] by simp
  have a: "host_answer ''t'' demo_request True = Some (FileChangeDecision ''t'' (NumberId 7) ''accept'')"
    by (simp add: demo_request_def host_answer_def)
  have "hr_method demo_request \<in> set APPROVAL_METHODS"
    by (simp add: demo_request_def APPROVAL_METHODS_def)
  then have "answer_first (\<lambda>_. None) ''7'' True missing [(''t'', Some [demo_request])] =
      (Inr (answered ''t'' ''7'' demo_request), [FileChangeDecision ''t'' (NumberId 7) ''accept''])" for missing
    using answer_first_of [of demo_request "Some [demo_request]" "''t''" True _ "\<lambda>_. None" missing "[]", OF _ _ _ a]
    by (simp add: requests_of_def i)
  then have r: "respond_to_approval (\<lambda>_. None) (ha_manager demo_app)
      (Some (json_object [(''approvalId'', JString ''t:7''), (''decision'', JString ''approve'')]))
    = (Inr (answered ''t'' ''7'' demo_request), [FileChangeDecision ''t'' (NumberId 7) ''accept''])"
    by (simp add: respond_to_approval_def demo_app_def p)
  from replies_are_decisions [OF r] r show ?thesis by auto
qed

section \<open>A compact thread is the thread\<close>

definition plain_text :: "js \<Rightarrow> bool" where
  "plain_text v \<longleftrightarrow> nullish v \<or> (\<exists>s. v = Some (JString s))"

definition plain_number :: "js \<Rightarrow> bool" where
  "plain_number v \<longleftrightarrow> nullish v \<or> (\<exists>n. v = Some (JPosInt n))"

lemma map_of_rev_distinct: "distinct (map fst xs) \<Longrightarrow> map_of (rev xs) = map_of xs"
  by (subst map_of_inject_set) (simp_all add: rev_map [symmetric])

lemma json_get_js_object:
  "distinct (map fst members) \<Longrightarrow> json_get k (js_object members) = Option.bind (map_of members k) id"
proof -
  assume d: "distinct (map fst members)"
  let ?f = "\<lambda>(k, v). map_option (\<lambda>w. (k, w)) v"
  have keys: "fst ` set (List.map_filter ?f ms) \<subseteq> fst ` set ms" for ms
    by (force simp: List.map_filter_def)
  have "map_of (List.map_filter ?f ms) k = Option.bind (map_of ms k) id" if "distinct (map fst ms)" for ms
    using that
  proof (induction ms)
    case (Cons m ms)
    obtain k' v where m: "m = (k', v)" by fastforce
    have "k' \<notin> fst ` set (List.map_filter ?f ms)" using Cons.prems keys [of ms] m by force
    then have "map_of (List.map_filter ?f ms) k' = None" by (simp add: map_of_eq_None_iff)
    with Cons m show ?case by (cases v) (auto simp: List.map_filter_def)
  qed (simp add: List.map_filter_def)
  moreover have "distinct (map fst (List.map_filter ?f ms))" if "distinct (map fst ms)" for ms
    using that
  proof (induction ms)
    case (Cons m ms)
    then show ?case using keys [of ms] by (cases m; cases "snd m") (force simp: List.map_filter_def)+
  qed (simp add: List.map_filter_def)
  ultimately show ?thesis
    unfolding js_object_def json_get_object using d by (subst map_of_rev_distinct) blast+
qed

text \<open>Picking the first value that is there, and the first that is a string, are the same on such fields.\<close>

lemma string_field_first:
  assumes "\<forall>k \<in> set ks. plain_text (json_get k v)" and "rest \<noteq> []"
  shows "Option.bind (js_first (map (\<lambda>k. json_get k v) ks @ rest)) as_str =
    or_else (string_field v ks) (Option.bind (js_first rest) as_str)"
  using assms(1)
proof (induction ks)
  case (Cons k ks)
  have "map (\<lambda>k. json_get k v) ks @ rest \<noteq> []" using assms(2) by simp
  then obtain w ws where "map (\<lambda>k. json_get k v) ks @ rest = w # ws" by (meson list.exhaust)
  with Cons show ?case
    by (auto simp: plain_text_def nullish_def string_field_def)
qed (simp add: string_field_def)

lemma number_field_first:
  assumes "\<forall>k \<in> set ks. plain_number (json_get k v)" and "rest \<noteq> []"
  shows "Option.bind (js_first (map (\<lambda>k. json_get k v) ks @ rest)) as_u64 =
    or_else (number_field v ks) (Option.bind (js_first rest) as_u64)"
  using assms(1)
proof (induction ks)
  case (Cons k ks)
  have "map (\<lambda>k. json_get k v) ks @ rest \<noteq> []" using assms(2) by simp
  then obtain w ws where "map (\<lambda>k. json_get k v) ks @ rest = w # ws" by (meson list.exhaust)
  with Cons show ?case
    by (auto simp: plain_number_def nullish_def number_field_def)
qed (simp add: number_field_def)

lemma string_field_only:
  assumes "\<forall>k' \<in> set ks. json_get k' v = None"
  shows "string_field v (k # ks) = Option.bind (json_get k v) as_str"
proof -
  have "find_map (\<lambda>key. Option.bind (json_get key v) as_str) ks = None"
    unfolding find_map_None using assms by simp
  then show ?thesis by (simp add: string_field_def split: option.split)
qed

lemma number_field_only:
  assumes "\<forall>k' \<in> set ks. json_get k' v = None"
  shows "number_field v (k # ks) = Option.bind (json_get k v) as_u64"
proof -
  have "find_map (\<lambda>key. Option.bind (json_get key v) as_u64) ks = None"
    unfolding find_map_None using assms by simp
  then show ?thesis by (simp add: number_field_def split: option.split)
qed

lemma number_field_skip: "json_get k v = None \<Longrightarrow> number_field v (k # ks) = number_field v ks"
  by (simp add: number_field_def)

definition thread_text_keys :: "string list" where
  "thread_text_keys = [''id'', ''threadId'', ''thread_id'', ''title'', ''name'', ''cwd'', ''workingDirectory'',
     ''working_directory'', ''modelProvider'', ''model_provider'', ''preview'', ''summary'']"

definition number_keys :: "string list" where
  "number_keys = [''createdAt'', ''created_at'', ''updatedAt'', ''updated_at'']"

text \<open>
  Resuming a thread gives the thread, though the page returns only a compact copy: when the
  answer of the app server holds the thread and its fields are texts, numbers, null or absent, the
  thread the client reads from the copy has the identifier, the title, the preview and the time of
  creation that it would read from the whole answer, the working directory and the provider too if it
  has them. Its time of update is \<open>updatedAt\<close>, also where the thread says when it was last used.
\<close>

lemma compact_keeps_thread:
  assumes thread: "json_get ''thread'' result = Some (JObject t)"
    and outer: "extract_thread_value result = Some (JObject t)"
    and texts: "\<forall>k \<in> set thread_text_keys. plain_text (json_get k (JObject t))"
    and numbers: "\<forall>k \<in> set number_keys. plain_number (json_get k (JObject t))"
    and full: "map_thread (JObject t) = Inr whole"
  shows "\<exists>v copy. compact_thread request (Some result) = Some v
    \<and> Option.bind (extract_thread_value v) (\<lambda>w. case map_thread w of Inl e \<Rightarrow> None | Inr thr \<Rightarrow> Some thr) = Some copy
    \<and> ct_id copy = ct_id whole \<and> ct_title copy = ct_title whole \<and> ct_preview copy = ct_preview whole
    \<and> ct_created_at copy = ct_created_at whole
    \<and> (ct_cwd whole \<noteq> None \<longrightarrow> ct_cwd copy = ct_cwd whole)
    \<and> (ct_model_provider whole \<noteq> None \<longrightarrow> ct_model_provider copy = ct_model_provider whole)
    \<and> ct_updated_at copy = number_field (JObject t) [''updatedAt'', ''updated_at'']"
proof -
  let ?at = "\<lambda>k. json_get k (JObject t)"
  let ?nul = "Some JNull"
  have th: "js_first [js_get ''thread'' (Some result), js_get ''thread'' (js_get ''data'' (Some result)),
      js_get ''data'' (Some result), Some result] = Some (JObject t)"
    using thread by (simp add: js_get_def nullish_def)
  have at: "js_get k (Some (JObject t)) = ?at k" for k by (simp add: js_get_def)
  obtain fs where v: "compact_thread request (Some result) = Some (js_object [(''thread'', Some (js_object fs))])"
    and keys: "map fst fs = [''id'', ''title'', ''cwd'', ''modelProvider'', ''preview'', ''createdAt'', ''updatedAt'',
      ''threadSource'', ''agentPath'', ''agentNickname'']"
    and fs: "map_of fs ''id'' = Some (js_first (map ?at [''id'', ''threadId'', ''thread_id''] @
        [js_get ''threadId'' (js_get ''params'' request), ?nul]))"
      "map_of fs ''title'' = Some (js_first (map ?at [''title'', ''name''] @ [?nul]))"
      "map_of fs ''cwd'' = Some (js_first (map ?at [''cwd'', ''workingDirectory'', ''working_directory''] @
        [js_get ''cwd'' (Some result), ?nul]))"
      "map_of fs ''modelProvider'' = Some (js_first (map ?at [''modelProvider'', ''model_provider''] @
        [js_get ''modelProvider'' (Some result), ?nul]))"
      "map_of fs ''preview'' = Some (js_first (map ?at [''preview'', ''summary''] @ [?nul]))"
      "map_of fs ''createdAt'' = Some (js_first (map ?at [''createdAt'', ''created_at''] @ [?nul]))"
      "map_of fs ''updatedAt'' = Some (js_first (map ?at [''updatedAt'', ''updated_at''] @ [?nul]))"
    unfolding compact_thread_def th Let_def at is_object_def
    by (simp del: js_first.simps)
  have got: "json_get k (js_object fs) = Option.bind (map_of fs k) id" for k
    by (rule json_get_js_object) (simp add: keys)
  have none: "json_get k (js_object fs) = None" if "k \<notin> set (map fst fs)" for k
    using that unfolding got by (simp add: map_of_eq_None_iff [THEN iffD2])
  have absent: "k \<notin> {''id'', ''title'', ''cwd'', ''modelProvider'', ''preview'', ''createdAt'', ''updatedAt'',
      ''threadSource'', ''agentPath'', ''agentNickname''} \<Longrightarrow> json_get k (js_object fs) = None" for k
    by (rule none) (simp add: keys)
  have tf: "Option.bind (js_first (map ?at ks @ rest)) as_str =
      or_else (string_field (JObject t) ks) (Option.bind (js_first rest) as_str)"
    if "set ks \<subseteq> set thread_text_keys" "rest \<noteq> []" for ks rest
    by (rule string_field_first) (use texts that in auto)
  have nf: "Option.bind (js_first (map ?at ks @ rest)) as_u64 =
      or_else (number_field (JObject t) ks) (Option.bind (js_first rest) as_u64)"
    if "set ks \<subseteq> set number_keys" "rest \<noteq> []" for ks rest
    by (rule number_field_first) (use numbers that in auto)
  have taken: "json_get k (js_object fs) = v" if "map_of fs k = Some v" for k v
    using that by (simp add: got)
  note copied = fs [THEN taken]
  let ?f = "string_field (js_object fs)" and ?g = "string_field (JObject t)"
  let ?m = "number_field (js_object fs)" and ?n = "number_field (JObject t)"
  have single: "Option.bind (js_first [?nul]) as_str = None" "Option.bind (js_first [?nul]) as_u64 = None"
    by simp_all
  have ident: "?f thread_id_keys = or_else (?g thread_id_keys)
      (Option.bind (js_first [js_get ''threadId'' (js_get ''params'' request), ?nul]) as_str)"
    unfolding thread_id_keys_def
    by (subst string_field_only, simp add: absent) (subst copied, rule tf, simp_all add: thread_text_keys_def)
  have title: "?f [''title'', ''name''] = or_else (?g [''title'', ''name'']) None"
    by (subst string_field_only, simp add: absent)
      (subst copied, subst tf, simp_all only: single, simp_all add: thread_text_keys_def)
  have preview: "?f [''preview'', ''summary''] = or_else (?g [''preview'', ''summary'']) None"
    by (subst string_field_only, simp add: absent)
      (subst copied, subst tf, simp_all only: single, simp_all add: thread_text_keys_def)
  have cwd: "?f [''cwd'', ''workingDirectory'', ''working_directory''] =
      or_else (?g [''cwd'', ''workingDirectory'', ''working_directory''])
        (Option.bind (js_first [js_get ''cwd'' (Some result), ?nul]) as_str)"
    by (subst string_field_only, simp add: absent) (subst copied, rule tf, simp_all add: thread_text_keys_def)
  have provider: "?f [''modelProvider'', ''model_provider''] =
      or_else (?g [''modelProvider'', ''model_provider''])
        (Option.bind (js_first [js_get ''modelProvider'' (Some result), ?nul]) as_str)"
    by (subst string_field_only, simp add: absent) (subst copied, rule tf, simp_all add: thread_text_keys_def)
  have created: "?m [''createdAt'', ''created_at''] = or_else (?n [''createdAt'', ''created_at'']) None"
    by (subst number_field_only, simp add: absent)
      (subst copied, subst nf, simp_all only: single, simp_all add: number_keys_def)
  have updated: "?m [''recencyAt'', ''recency_at'', ''updatedAt'', ''updated_at''] =
      or_else (?n [''updatedAt'', ''updated_at'']) None"
    by (subst number_field_skip, simp add: absent, subst number_field_skip, simp add: absent,
        subst number_field_only, simp add: absent)
      (subst copied, subst nf, simp_all only: single, simp_all add: number_keys_def)
  obtain i where i: "?g thread_id_keys = Some i"
    and whole: "ct_id whole = i" "ct_title whole = ?g [''title'', ''name'']"
      "ct_cwd whole = ?g [''cwd'', ''workingDirectory'', ''working_directory'']"
      "ct_model_provider whole = ?g [''modelProvider'', ''model_provider'']"
      "ct_preview whole = ?g [''preview'', ''summary'']"
      "ct_created_at whole = ?n [''createdAt'', ''created_at'']"
    using full by (auto simp: map_thread_def split: option.splits)
  obtain copy where copy: "map_thread (js_object fs) = Inr copy" "ct_id copy = i"
    and parts: "ct_title copy = ?f [''title'', ''name'']"
      "ct_cwd copy = ?f [''cwd'', ''workingDirectory'', ''working_directory'']"
      "ct_model_provider copy = ?f [''modelProvider'', ''model_provider'']"
      "ct_preview copy = ?f [''preview'', ''summary'']"
      "ct_created_at copy = ?m [''createdAt'', ''created_at'']"
      "ct_updated_at copy = ?m [''recencyAt'', ''recency_at'', ''updatedAt'', ''updated_at'']"
    using ident unfolding i by (simp add: map_thread_def)
  have "json_get k (js_object [(''thread'', Some (js_object fs))]) =
      (if k = ''thread'' then Some (js_object fs) else None)" for k
    by (simp add: json_get_js_object)
  then have "extract_thread_value (js_object [(''thread'', Some (js_object fs))]) = Some (js_object fs)"
    by (simp add: extract_thread_value_def string_field_def thread_id_keys_def)
  then show ?thesis
    using v copy whole by (auto simp: parts title preview cwd provider created updated or_else_def
        split: option.splits)
qed

text \<open>A thread that says when it was last used: the list of threads shows that, the resumed thread does not.\<close>

lemma resumed_thread_is_older:
  "let t = json_object [(''id'', JString ''a''), (''updatedAt'', JPosInt 5), (''recencyAt'', JPosInt 9)] in
   map_option ct_updated_at (case map_thread t of Inl e \<Rightarrow> None | Inr thr \<Rightarrow> Some thr) = Some (Some 9) \<and>
   Option.bind (compact_thread None (Some (json_object [(''thread'', t)])))
     (\<lambda>v. Option.bind (extract_thread_value v)
       (\<lambda>w. case map_thread w of Inl e \<Rightarrow> None | Inr thr \<Rightarrow> Some (ct_updated_at thr))) = Some (Some 5)"
  by code_simp

definition demo_thread :: json where
  "demo_thread = JObject [(''id'', JString ''a''), (''name'', JString ''Title''), (''title'', JNull)]"

end
