(* ===== verification/Debugging_Client.thy ===== *)
theory Debugging_Client
  imports Codex_Rpc
begin

text \<open>
  The client of the desktop app's debugging port, \<open>crates/bridge-core/src/cdp.rs\<close>, and the diagnosis
  of \<open>crates/bridge-core/src/diagnostics.rs\<close>: which page is Codex, how a value is evaluated in it, and
  the stream of notifications that the injected script emits. A socket is the list of what arrives on
  it; after that it closes, or stays silent, and then an operation that waits for more does not return
  (\<open>None\<close>). The codecs of serde and the errors of sending are parameters.
\<close>

section \<open>Data\<close>

type_synonym u8 = "8 word"

record cdp_target =
  tg_id :: string
  tg_type :: string
  tg_title :: string
  tg_url :: string
  tg_web_socket_debugger_url :: "string option"
  tg_devtools_frontend_url :: "string option"

record cdp_notification =
  nf_method :: string
  nf_params :: json

datatype bridge_health_status = HealthOk | HealthDegraded

datatype bridge_connection_state =
    Connected | CodexNotRunning | CdpUnavailable | TargetNotFound | InjectFailed | RpcUnavailable
  | ReadOnly | Writable

fun connection_state_name :: "bridge_connection_state \<Rightarrow> string" where
  "connection_state_name Connected = ''connected''"
| "connection_state_name CodexNotRunning = ''codex_not_running''"
| "connection_state_name CdpUnavailable = ''cdp_unavailable''"
| "connection_state_name TargetNotFound = ''target_not_found''"
| "connection_state_name InjectFailed = ''inject_failed''"
| "connection_state_name RpcUnavailable = ''rpc_unavailable''"
| "connection_state_name ReadOnly = ''read_only''"
| "connection_state_name Writable = ''writable''"

record bridge_health =
  bh_status :: bridge_health_status
  bh_connection_state :: bridge_connection_state
  bh_target_id :: "string option"
  bh_target_title :: "string option"
  bh_reason :: "string option"

datatype cdp_error =
    CdpHttp string
  | CdpWebSocket string
  | CdpJson string
  | NoCodexTarget
  | MissingWebSocketUrl string
  | WebSocketClosed
  | CdpProtocol int string
  | RuntimeException string
  | MalformedResponse string
  | CdpInjectFailed

fun cdp_error_text :: "cdp_error \<Rightarrow> string" where
  "cdp_error_text (CdpHttp e) = ''cdp http request failed: '' @ e"
| "cdp_error_text (CdpWebSocket e) = ''cdp websocket failed: '' @ e"
| "cdp_error_text (CdpJson e) = ''cdp json failed: '' @ e"
| "cdp_error_text NoCodexTarget = ''codex page target not found''"
| "cdp_error_text (MissingWebSocketUrl t) =
     ''target '' @ t @ '' does not expose webSocketDebuggerUrl''"
| "cdp_error_text WebSocketClosed = ''cdp websocket closed before evaluation response''"
| "cdp_error_text (CdpProtocol code m) = ''cdp protocol error '' @ int_text code @ '': '' @ m"
| "cdp_error_text (RuntimeException e) = ''runtime evaluation failed: '' @ e"
| "cdp_error_text (MalformedResponse e) = ''malformed cdp response: '' @ e"
| "cdp_error_text CdpInjectFailed = ''codex app-server bridge injection failed''"

section \<open>The page of Codex\<close>

text \<open>The score so far, and whether anything of Codex was recognised.\<close>

definition add_points :: "bool \<Rightarrow> u8 \<Rightarrow> u8 \<times> bool \<Rightarrow> u8 \<times> bool" where
  "add_points c n p = (if c then (saturating_add (fst p) n, True) else p)"

definition url_points :: "string \<Rightarrow> u8 \<times> bool \<Rightarrow> u8 \<times> bool" where
  "url_points url p =
     add_points (contains url ''chatgpt.app'') 50
     (add_points (contains url ''codex.app'') 50
       (if url = ''app://-/index.html'' then add_points True 80 p
        else add_points (starts_with url ''app://-'') 60 p))"

definition title_points :: "string \<Rightarrow> u8 \<times> bool \<Rightarrow> u8 \<times> bool" where
  "title_points title p =
     (if title = ''codex'' then add_points True 30 p
      else if title = ''chatgpt'' then add_points True 30 p
      else if contains title ''codex'' then add_points True 20 p
      else add_points (contains title ''chatgpt'') 20 p)"

definition codex_target_score :: "cdp_target \<Rightarrow> u8 option" where
  "codex_target_score target =
     (let title = to_ascii_lowercase (tg_title target);
          url = to_ascii_lowercase (tg_url target);
          devtools_url = to_ascii_lowercase (unwrap_or [] (tg_devtools_frontend_url target)) in
      if contains title ''codex mobile'' \<or> contains title ''chatgpt classic''
        \<or> contains url ''chatgpt classic.app'' \<or> contains url ''chatgpt%20classic.app''
      then None
      else
        let (score, matched_codex) =
              add_points (contains url ''chatgpt'') 15
              (add_points (contains url ''codex'') 15
              (title_points title (url_points url (0, False)))) in
        if \<not> matched_codex then None
        else
          let s1 = (if contains title ''chatgpt'' \<and> (contains url ''codex'' \<or> contains url ''chatgpt'')
                    then saturating_add score 5 else score);
              s2 = (if tg_web_socket_debugger_url target \<noteq> None then saturating_add s1 1 else s1)
          in Some (if contains devtools_url ''devtools'' \<and> 0 < s2 then saturating_sub s2 1 else s2))"

text \<open>\<open>Iterator::max_by_key\<close>: the last of the elements with the greatest key.\<close>

fun max_by_key :: "('a \<Rightarrow> 'k::linorder) \<Rightarrow> 'a list \<Rightarrow> 'a option" where
  "max_by_key key [] = None"
| "max_by_key key (x # xs) =
     Some (foldl (\<lambda>best y. if key best \<le> key y then y else best) x xs)"

definition scored_targets :: "cdp_target list \<Rightarrow> (cdp_target \<times> u8) list" where
  "scored_targets targets =
     List.map_filter (\<lambda>t. map_option (\<lambda>score. (t, score)) (codex_target_score t))
       (filter (\<lambda>t. eq_ignore_ascii_case (tg_type t) ''page'') targets)"

definition select_codex_target :: "cdp_target list \<Rightarrow> cdp_error + cdp_target" where
  "select_codex_target targets =
     (case max_by_key snd (scored_targets targets) of
        None \<Rightarrow> Inl NoCodexTarget
      | Some (t, _) \<Rightarrow> Inr t)"

definition health_connected :: "cdp_target \<Rightarrow> bridge_health" where
  "health_connected target =
     \<lparr>bh_status = HealthOk, bh_connection_state = Connected, bh_target_id = Some (tg_id target),
      bh_target_title = Some (tg_title target), bh_reason = None\<rparr>"

definition health_degraded :: "bridge_connection_state \<Rightarrow> string option \<Rightarrow> bridge_health" where
  "health_degraded st reason =
     \<lparr>bh_status = HealthDegraded, bh_connection_state = st, bh_target_id = None,
      bh_target_title = None, bh_reason = reason\<rparr>"

definition bridge_health_from_targets :: "cdp_target list \<Rightarrow> bridge_health" where
  "bridge_health_from_targets targets =
     (case select_codex_target targets of
        Inr target \<Rightarrow> health_connected target
      | Inl NoCodexTarget \<Rightarrow> health_degraded TargetNotFound
          (Some ''No ChatGPT/Codex page target found on the CDP endpoint'')
      | Inl e \<Rightarrow> health_degraded CdpUnavailable (Some (cdp_error_text e)))"

definition bridge_health_of :: "cdp_error + cdp_target list \<Rightarrow> bridge_health" where
  "bridge_health_of targets =
     (case targets of
        Inr ts \<Rightarrow> bridge_health_from_targets ts
      | Inl e \<Rightarrow> health_degraded CdpUnavailable (Some (cdp_error_text e)))"

section \<open>Evaluating in the page\<close>

record cdp_protocol_error =
  pe_code :: int
  pe_message :: string

text \<open>The result: the value of the remote object, and the details of an exception.\<close>

record evaluate_response =
  er_result :: "(json option \<times> json option) option"
  er_error :: "cdp_protocol_error option"

record cdp_codec =
  cc_parse :: "string \<Rightarrow> string + json"
  cc_evaluate :: "json \<Rightarrow> string + evaluate_response"
  cc_notification :: "string \<Rightarrow> string + cdp_notification"

definition evaluate_response_value ::
  "cdp_codec \<Rightarrow> u64 \<Rightarrow> string \<Rightarrow> cdp_error + json option" where
  "evaluate_response_value c request_id text =
     (case cc_parse c text of
        Inl e \<Rightarrow> Inl (CdpJson e)
      | Inr v \<Rightarrow>
          if Option.bind (json_get ''id'' v) as_u64 \<noteq> Some request_id then Inr None
          else (case cc_evaluate c v of
              Inl e \<Rightarrow> Inl (CdpJson e)
            | Inr response \<Rightarrow>
                (case er_error response of
                   Some error \<Rightarrow> Inl (CdpProtocol (pe_code error) (pe_message error))
                 | None \<Rightarrow>
                     (case er_result response of
                        None \<Rightarrow> Inl (MalformedResponse ''missing result'')
                      | Some (v, Some exception) \<Rightarrow> Inl (RuntimeException (json_text exception))
                      | Some (v, None) \<Rightarrow> Inr (Some (unwrap_or JNull v))))))"

datatype ws_message = WsText string | WsPing string | WsPong string | WsClose | WsOther

text \<open>What arrives on a socket, and whether it closes after that.\<close>

type_synonym ws_input = "(string + ws_message) list \<times> bool"

fun await_value ::
  "cdp_codec \<Rightarrow> u64 \<Rightarrow> bool \<Rightarrow> (string + ws_message) list \<Rightarrow> (cdp_error + json) option" where
  "await_value c i closes [] = (if closes then Some (Inl WebSocketClosed) else None)"
| "await_value c i closes (Inl e # ms) = Some (Inl (CdpWebSocket e))"
| "await_value c i closes (Inr (WsText text) # ms) =
     (case evaluate_response_value c i text of
        Inl e \<Rightarrow> Some (Inl e)
      | Inr (Some v) \<Rightarrow> Some (Inr v)
      | Inr None \<Rightarrow> await_value c i closes ms)"
| "await_value c i closes (Inr _ # ms) = await_value c i closes ms"

definition evaluate_request :: "u64 \<Rightarrow> string \<Rightarrow> json" where
  "evaluate_request i expression =
     json_object [(''id'', JPosInt i), (''method'', JString ''Runtime.evaluate''),
       (''params'', json_object [(''expression'', JString expression),
          (''awaitPromise'', JBool True), (''returnByValue'', JBool True)])]"

text \<open>The network: connecting to an address, then what comes back for the text that is sent.\<close>

record cdp_network =
  cn_connect :: "string \<Rightarrow> string option"
  cn_send :: "string \<Rightarrow> string option"
  cn_input :: "string \<Rightarrow> ws_input"

definition evaluate_on_target ::
  "cdp_codec \<Rightarrow> cdp_network \<Rightarrow> cdp_target \<Rightarrow> string \<Rightarrow> (cdp_error + json) option" where
  "evaluate_on_target c net target expression =
     (case tg_web_socket_debugger_url target of
        None \<Rightarrow> Some (Inl (MissingWebSocketUrl (tg_id target)))
      | Some url \<Rightarrow>
          (case cn_connect net url of
             Some e \<Rightarrow> Some (Inl (CdpWebSocket e))
           | None \<Rightarrow>
               (let text = json_text (evaluate_request 1 expression) in
                case cn_send net text of
                  Some e \<Rightarrow> Some (Inl (CdpWebSocket e))
                | None \<Rightarrow> await_value c 1 (snd (cn_input net text)) (fst (cn_input net text)))))"

definition inject_app_server_bridge ::
  "cdp_codec \<Rightarrow> cdp_network \<Rightarrow> string \<Rightarrow> cdp_target \<Rightarrow> (cdp_error + unit) option" where
  "inject_app_server_bridge c net script target =
     map_option (\<lambda>r. case r of
         Inl e \<Rightarrow> Inl e
       | Inr injected \<Rightarrow> if as_bool injected = Some True then Inr () else Inl CdpInjectFailed)
       (evaluate_on_target c net target script)"

section \<open>The stream of notifications\<close>

definition CODEX_NOTIFICATION_BINDING :: string where
  "CODEX_NOTIFICATION_BINDING = ''__codexMobileBridgeNotification''"

definition notification_from_binding :: "cdp_codec \<Rightarrow> string \<Rightarrow> cdp_error + cdp_notification option" where
  "notification_from_binding c text =
     (case cc_parse c text of
        Inl e \<Rightarrow> Inl (CdpJson e)
      | Inr v \<Rightarrow>
          if Option.bind (json_get ''method'' v) as_str \<noteq> Some ''Runtime.bindingCalled''
            \<or> Option.bind (json_pointer [''params'', ''name''] v) as_str \<noteq> Some CODEX_NOTIFICATION_BINDING
          then Inr None
          else (case Option.bind (json_pointer [''params'', ''payload''] v) as_str of
              None \<Rightarrow> Inl (MalformedResponse ''Runtime.bindingCalled missing payload'')
            | Some payload \<Rightarrow>
                (case cc_notification c payload of
                   Inl e \<Rightarrow> Inl (CdpJson e)
                 | Inr n \<Rightarrow> Inr (Some n))))"

text \<open>The state: what is pending, what has still to arrive, and what was sent.\<close>

record cdp_stream =
  cs_pending :: "cdp_notification list"
  cs_incoming :: "(string + ws_message) list"
  cs_closes :: bool
  cs_sent :: "ws_message list"

type_synonym ws_faults = "ws_message list \<Rightarrow> ws_message \<Rightarrow> string option"

definition ws_send :: "ws_faults \<Rightarrow> ws_message \<Rightarrow> (cdp_stream, cdp_error, unit) action" where
  "ws_send fault m st =
     (case fault (cs_sent st) m of
        Some e \<Rightarrow> (Inl (CdpWebSocket e), st)
      | None \<Rightarrow> (Inr (), st\<lparr>cs_sent := cs_sent st @ [m]\<rparr>))"

definition as_i64 :: "json \<Rightarrow> int option" where
  "as_i64 v =
     (case v of
        JPosInt n \<Rightarrow> if uint n < 2 ^ 63 then Some (uint n) else None
      | JNegInt i \<Rightarrow> Some i
      | _ \<Rightarrow> None)"

text \<open>What a text that is no notification says to the command \<open>i\<close>, if it is the answer to it.\<close>

definition command_answer :: "u64 \<Rightarrow> json \<Rightarrow> (cdp_error + unit) option" where
  "command_answer i v =
     (if Option.bind (json_get ''id'' v) as_u64 \<noteq> Some i then None
      else case json_get ''error'' v of
          Some error \<Rightarrow> Some (Inl (CdpProtocol
            (unwrap_or 0 (Option.bind (json_get ''code'' error) as_i64))
            (unwrap_or ''unknown CDP protocol error'' (Option.bind (json_get ''message'' error) as_str))))
        | None \<Rightarrow>
            (case json_pointer [''result'', ''exceptionDetails''] v of
               Some exception \<Rightarrow> Some (Inl (RuntimeException (json_text exception)))
             | None \<Rightarrow> Some (Inr ())))"

text \<open>The loop of \<open>send_command\<close> over what arrives.\<close>

fun await_command ::
  "cdp_codec \<Rightarrow> ws_faults \<Rightarrow> u64 \<Rightarrow> (string + ws_message) list \<Rightarrow> cdp_stream
    \<Rightarrow> ((cdp_error + unit) \<times> cdp_stream) option" where
  "await_command c fault i [] st =
     (if cs_closes st then Some (Inl WebSocketClosed, st\<lparr>cs_incoming := []\<rparr>) else None)"
| "await_command c fault i (Inl e # ms) st = Some (Inl (CdpWebSocket e), st\<lparr>cs_incoming := ms\<rparr>)"
| "await_command c fault i (Inr (WsText text) # ms) st =
     (case notification_from_binding c text of
        Inl e \<Rightarrow> Some (Inl e, st\<lparr>cs_incoming := ms\<rparr>)
      | Inr (Some n) \<Rightarrow> await_command c fault i ms (st\<lparr>cs_pending := cs_pending st @ [n]\<rparr>)
      | Inr None \<Rightarrow>
          (case cc_parse c text of
             Inl e \<Rightarrow> Some (Inl (CdpJson e), st\<lparr>cs_incoming := ms\<rparr>)
           | Inr v \<Rightarrow>
               (case command_answer i v of
                  None \<Rightarrow> await_command c fault i ms st
                | Some r \<Rightarrow> Some (r, st\<lparr>cs_incoming := ms\<rparr>))))"
| "await_command c fault i (Inr (WsPing payload) # ms) st =
     (case ws_send fault (WsPong payload) st of
        (Inl e, st') \<Rightarrow> Some (Inl e, st'\<lparr>cs_incoming := ms\<rparr>)
      | (Inr _, st') \<Rightarrow> await_command c fault i ms st')"
| "await_command c fault i (Inr WsClose # ms) st = Some (Inl WebSocketClosed, st\<lparr>cs_incoming := ms\<rparr>)"
| "await_command c fault i (Inr _ # ms) st = await_command c fault i ms st"

definition send_command ::
  "cdp_codec \<Rightarrow> ws_faults \<Rightarrow> u64 \<Rightarrow> string \<Rightarrow> json \<Rightarrow> cdp_stream
    \<Rightarrow> ((cdp_error + unit) \<times> cdp_stream) option" where
  "send_command c fault i mth params st =
     (case ws_send fault (WsText (json_text (json_object
          [(''id'', JPosInt i), (''method'', JString mth), (''params'', params)]))) st of
        (Inl e, st') \<Rightarrow> Some (Inl e, st')
      | (Inr _, st') \<Rightarrow> await_command c fault i (cs_incoming st') st')"

text \<open>A command after another one, if that one was answered.\<close>

definition then_command ::
  "((cdp_error + unit) \<times> cdp_stream) option
    \<Rightarrow> (cdp_stream \<Rightarrow> ((cdp_error + unit) \<times> cdp_stream) option)
    \<Rightarrow> ((cdp_error + unit) \<times> cdp_stream) option" where
  "then_command r k =
     (case r of
        None \<Rightarrow> None
      | Some (Inl e, st) \<Rightarrow> Some (Inl e, st)
      | Some (Inr _, st) \<Rightarrow> k st)"

definition subscribe_commands ::
  "cdp_codec \<Rightarrow> ws_faults \<Rightarrow> string \<Rightarrow> cdp_stream \<Rightarrow> ((cdp_error + unit) \<times> cdp_stream) option" where
  "subscribe_commands c fault expression st =
     then_command (then_command
       (send_command c fault 1 ''Runtime.enable'' (json_object []) st)
       (send_command c fault 2 ''Runtime.addBinding''
         (json_object [(''name'', JString CODEX_NOTIFICATION_BINDING)])))
       (send_command c fault 3 ''Runtime.evaluate'' (json_object
          [(''expression'', JString expression), (''awaitPromise'', JBool True),
           (''returnByValue'', JBool True)]))"

definition connect_stream ::
  "cdp_codec \<Rightarrow> ws_faults \<Rightarrow> (string \<Rightarrow> string + ws_input) \<Rightarrow> string \<Rightarrow> cdp_target
    \<Rightarrow> (cdp_error + cdp_stream) option" where
  "connect_stream c fault open_socket expression target =
     (case tg_web_socket_debugger_url target of
        None \<Rightarrow> Some (Inl (MissingWebSocketUrl (tg_id target)))
      | Some url \<Rightarrow>
          (case open_socket url of
             Inl e \<Rightarrow> Some (Inl (CdpWebSocket e))
           | Inr (ms, closes) \<Rightarrow>
               map_option (\<lambda>(r, st). case r of Inl e \<Rightarrow> Inl e | Inr _ \<Rightarrow> Inr st)
                 (subscribe_commands c fault expression
                   \<lparr>cs_pending = [], cs_incoming = ms, cs_closes = closes, cs_sent = []\<rparr>)))"

fun await_notification ::
  "cdp_codec \<Rightarrow> ws_faults \<Rightarrow> (string + ws_message) list \<Rightarrow> cdp_stream
    \<Rightarrow> ((cdp_error + cdp_notification option) \<times> cdp_stream) option" where
  "await_notification c fault [] st =
     (if cs_closes st then Some (Inr None, st\<lparr>cs_incoming := []\<rparr>) else None)"
| "await_notification c fault (Inl e # ms) st = Some (Inl (CdpWebSocket e), st\<lparr>cs_incoming := ms\<rparr>)"
| "await_notification c fault (Inr (WsText text) # ms) st =
     (case notification_from_binding c text of
        Inl e \<Rightarrow> Some (Inl e, st\<lparr>cs_incoming := ms\<rparr>)
      | Inr (Some n) \<Rightarrow> Some (Inr (Some n), st\<lparr>cs_incoming := ms\<rparr>)
      | Inr None \<Rightarrow> await_notification c fault ms st)"
| "await_notification c fault (Inr (WsPing payload) # ms) st =
     (case ws_send fault (WsPong payload) st of
        (Inl e, st') \<Rightarrow> Some (Inl e, st'\<lparr>cs_incoming := ms\<rparr>)
      | (Inr _, st') \<Rightarrow> await_notification c fault ms st')"
| "await_notification c fault (Inr WsClose # ms) st = Some (Inr None, st\<lparr>cs_incoming := ms\<rparr>)"
| "await_notification c fault (Inr _ # ms) st = await_notification c fault ms st"

definition next_notification ::
  "cdp_codec \<Rightarrow> ws_faults \<Rightarrow> cdp_stream
    \<Rightarrow> ((cdp_error + cdp_notification option) \<times> cdp_stream) option" where
  "next_notification c fault st =
     (case cs_pending st of
        n # rest \<Rightarrow> Some (Inr (Some n), st\<lparr>cs_pending := rest\<rparr>)
      | [] \<Rightarrow> await_notification c fault (cs_incoming st) st)"

section \<open>No notification is lost\<close>

text \<open>The notifications in what arrives, up to the first end or error.\<close>

fun notifications_in :: "cdp_codec \<Rightarrow> (string + ws_message) list \<Rightarrow> cdp_notification list" where
  "notifications_in c [] = []"
| "notifications_in c (Inl e # ms) = []"
| "notifications_in c (Inr (WsText text) # ms) =
     (case notification_from_binding c text of
        Inl e \<Rightarrow> []
      | Inr (Some n) \<Rightarrow> n # notifications_in c ms
      | Inr None \<Rightarrow> notifications_in c ms)"
| "notifications_in c (Inr WsClose # ms) = []"
| "notifications_in c (Inr _ # ms) = notifications_in c ms"

text \<open>A stream is a queue: what it holds, then what will arrive.\<close>

definition queue_of :: "cdp_codec \<Rightarrow> cdp_stream \<Rightarrow> cdp_notification list" where
  "queue_of c st = cs_pending st @ notifications_in c (cs_incoming st)"

fun read_stream ::
  "cdp_codec \<Rightarrow> ws_faults \<Rightarrow> nat \<Rightarrow> cdp_stream \<Rightarrow> cdp_notification list" where
  "read_stream c fault 0 st = []"
| "read_stream c fault (Suc k) st =
     (case next_notification c fault st of
        Some (Inr (Some n), st') \<Rightarrow> n # read_stream c fault k st'
      | _ \<Rightarrow> [])"

lemma await_command_queue:
  assumes "await_command c (\<lambda>_ _. None) i ms st = Some (Inr u, st')"
  shows "queue_of c st' = cs_pending st @ notifications_in c ms"
  using assms
proof (induction ms arbitrary: st)
  case (Cons m ms)
  show ?case
  proof (cases m)
    case (Inr w)
    with Cons show ?thesis
      by (cases w) (auto simp: queue_of_def ws_send_def split: sum.splits option.splits)
  qed (use Cons in simp)
qed (simp split: if_splits)

lemma send_command_queue:
  assumes "send_command c (\<lambda>_ _. None) i mth params st = Some (Inr u, st')"
  shows "queue_of c st' = queue_of c st"
  using assms await_command_queue [of c i _ _ u st']
  by (auto simp: send_command_def ws_send_def queue_of_def)

text \<open>A reading of the queue \<open>q\<close>: its first notification, or nothing when it is empty.\<close>

definition reads ::
  "cdp_codec \<Rightarrow> cdp_notification list
    \<Rightarrow> ((cdp_error + cdp_notification option) \<times> cdp_stream) option \<Rightarrow> bool" where
  "reads c q r \<longleftrightarrow>
     (case r of Some (Inr (Some n), st') \<Rightarrow> q = n # queue_of c st' | _ \<Rightarrow> q = [])"

lemma reads_simps [simp]:
  "reads c q None \<longleftrightarrow> q = []"
  "reads c q (Some (Inl e, st)) \<longleftrightarrow> q = []"
  "reads c q (Some (Inr None, st)) \<longleftrightarrow> q = []"
  "reads c q (Some (Inr (Some n), st)) \<longleftrightarrow> q = n # queue_of c st"
  by (simp_all add: reads_def)

lemma await_notification_queue:
  assumes "cs_pending st = []"
  shows "reads c (notifications_in c ms) (await_notification c (\<lambda>_ _. None) ms st)"
  using assms
proof (induction ms arbitrary: st)
  case (Cons m ms)
  show ?case
  proof (cases m)
    case (Inr w)
    with Cons show ?thesis
      by (cases w) (auto simp: queue_of_def ws_send_def split: sum.split option.split)
  qed simp
qed simp

lemma next_notification_queue: "reads c (queue_of c st) (next_notification c (\<lambda>_ _. None) st)"
proof (cases "cs_pending st")
  case Nil
  with await_notification_queue [OF this, of c "cs_incoming st"] show ?thesis
    by (simp add: next_notification_def queue_of_def)
qed (simp add: next_notification_def queue_of_def)

lemma read_stream_queue: "read_stream c (\<lambda>_ _. None) k st = take k (queue_of c st)"
proof (induction k arbitrary: st)
  case (Suc k)
  show ?case
    using next_notification_queue [of c st] Suc
    by (auto split: sum.split option.split)
qed simp

text \<open>
  C26. A subscription loses no notification and keeps their order: what the stream gives, notification
  by notification, are those among everything that arrived since the socket was opened, also those
  that came while the commands of the subscription were waiting for their answers. A ping that cannot
  be answered would end it.
\<close>

theorem stream_loses_nothing:
  assumes "tg_web_socket_debugger_url target = Some url" and "open_socket url = Inr (arriving, closes)"
    and "connect_stream c (\<lambda>_ _. None) open_socket expression target = Some (Inr st)"
  shows "read_stream c (\<lambda>_ _. None) k st = take k (notifications_in c arriving)"
proof -
  let ?st = "\<lparr>cs_pending = [], cs_incoming = arriving, cs_closes = closes, cs_sent = []\<rparr>"
  have sub: "queue_of c st2 = queue_of c st1"
    if "subscribe_commands c (\<lambda>_ _. None) expression st1 = Some (Inr u, st2)" for st1 st2 u
    using that by (auto simp: subscribe_commands_def then_command_def dest!: send_command_queue
        split: option.splits sum.splits)
  obtain r st' where r: "subscribe_commands c (\<lambda>_ _. None) expression ?st = Some (r, st')"
    using assms by (auto simp: connect_stream_def)
  with assms have "\<exists>u. subscribe_commands c (\<lambda>_ _. None) expression ?st = Some (Inr u, st)"
    by (cases r) (auto simp: connect_stream_def)
  with sub have "queue_of c st = queue_of c ?st" by blast
  then show ?thesis by (simp add: read_stream_queue queue_of_def)
qed

definition demo_codec :: cdp_codec where
  "demo_codec =
     \<lparr>cc_parse = (\<lambda>text. Inr (if length text = 1
        then json_object [(''id'', JPosInt (if text = ''1'' then 1 else if text = ''2'' then 2 else 3))]
        else json_object [(''method'', JString ''Runtime.bindingCalled''),
          (''params'', json_object [(''name'', JString CODEX_NOTIFICATION_BINDING),
             (''payload'', JString text)])])),
      cc_evaluate = (\<lambda>v. Inr \<lparr>er_result = Some (None, None), er_error = None\<rparr>),
      cc_notification = (\<lambda>payload. Inr \<lparr>nf_method = payload, nf_params = JNull\<rparr>)\<rparr>"

definition demo_page :: cdp_target where
  "demo_page =
     \<lparr>tg_id = ''p'', tg_type = ''page'', tg_title = ''ChatGPT'', tg_url = ''app://-/index.html'',
      tg_web_socket_debugger_url = Some ''ws://p'', tg_devtools_frontend_url = None\<rparr>"

theorem stream_loses_nothing_witness:
  "\<exists>st. connect_stream demo_codec (\<lambda>_ _. None)
       (\<lambda>_. Inr (map (\<lambda>t. Inr (WsText t)) [''1'', ''early'', ''2'', ''3'', ''late''], True)) [] demo_page
       = Some (Inr st)
     \<and> map nf_method (read_stream demo_codec (\<lambda>_ _. None) 5 st) = [''early'', ''late'']"
proof -
  let ?arriving = "map (\<lambda>t. Inr (WsText t)) [''1'', ''early'', ''2'', ''3'', ''late''] :: (string + ws_message) list"
  let ?open = "(\<lambda>_. Inr (?arriving, True)) :: string \<Rightarrow> string + ws_input"
  have answers: "notification_from_binding demo_codec w =
      (if length w = 1 then Inr None else Inr (Some \<lparr>nf_method = w, nf_params = JNull\<rparr>))"
    "command_answer i (json_object [(''id'', JPosInt j)]) = (if i = j then Some (Inr ()) else None)" for w i j
    by (auto simp: notification_from_binding_def command_answer_def demo_codec_def Let_def)
  have parse: "cc_parse demo_codec [x] = Inr (json_object [(''id'', JPosInt (if [x] = ''1'' then 1 else if [x] = ''2'' then 2 else 3))])" for x
    by (simp add: demo_codec_def)
  obtain st where st: "connect_stream demo_codec (\<lambda>_ _. None) ?open [] demo_page = Some (Inr st)"
    by (simp add: connect_stream_def subscribe_commands_def then_command_def send_command_def ws_send_def
        answers parse demo_page_def)
  have "map nf_method (take 5 (notifications_in demo_codec ?arriving)) = [''early'', ''late'']"
    by (simp add: answers)
  have url: "tg_web_socket_debugger_url demo_page = Some ''ws://p''" by (simp add: demo_page_def)
  from stream_loses_nothing [OF url refl st, of 5] st
    \<open>map nf_method (take 5 (notifications_in demo_codec ?arriving)) = _\<close>
  show ?thesis by metis
qed

section \<open>Which page is chosen\<close>

lemma max_by_key_snoc:
  "max_by_key key (xs @ [y]) =
     (case max_by_key key xs of
        None \<Rightarrow> Some y | Some b \<Rightarrow> Some (if key b \<le> key y then y else b))"
  by (cases xs) simp_all

lemma max_by_key_mem: "max_by_key key xs = Some x \<Longrightarrow> x \<in> set xs"
  by (induction xs arbitrary: x rule: rev_induct) (auto simp: max_by_key_snoc split: option.splits if_splits)

lemma max_by_key_exists: "xs \<noteq> [] \<Longrightarrow> \<exists>x. max_by_key key xs = Some x"
  by (cases xs) simp_all

lemma max_by_key_split:
  "max_by_key key xs = Some x \<longleftrightarrow>
     (\<exists>before after. xs = before @ x # after \<and> (\<forall>y \<in> set before. key y \<le> key x) \<and>
        (\<forall>y \<in> set after. key y < key x))"
proof
  show "\<exists>before after. xs = before @ x # after \<and> (\<forall>y \<in> set before. key y \<le> key x) \<and>
      (\<forall>y \<in> set after. key y < key x)" if "max_by_key key xs = Some x"
    using that
  proof (induction xs arbitrary: x rule: rev_induct)
    case (snoc y xs)
    show ?case
    proof (cases "max_by_key key xs")
      case None
      then have "xs = []" using max_by_key_exists [of xs key] by (cases "xs = []") auto
      moreover from this snoc.prems have "y = x" by simp
      ultimately have "xs @ [y] = [] @ x # []" by simp
      then show ?thesis by (intro exI [of _ "[]"] exI [of _ "[]"]) simp
    next
      case (Some b)
      from snoc.IH [OF Some] obtain before after where b: "xs = before @ b # after"
        "\<forall>y \<in> set before. key y \<le> key b" "\<forall>y \<in> set after. key y < key b" by blast
      show ?thesis
      proof (cases "key b \<le> key y")
        case True
        with snoc.prems Some have "x = y" by (simp add: max_by_key_snoc)
        moreover have "\<forall>z \<in> set xs. key z \<le> key y" using b True by (auto intro: order_trans less_imp_le)
        ultimately show ?thesis by (intro exI [of _ xs] exI [of _ "[]"]) simp
      next
        case False
        with snoc.prems Some have "x = b" by (simp add: max_by_key_snoc)
        with b False show ?thesis by (intro exI [of _ before] exI [of _ "after @ [y]"]) auto
      qed
    qed
  qed simp
  assume "\<exists>before after. xs = before @ x # after \<and> (\<forall>y \<in> set before. key y \<le> key x) \<and>
      (\<forall>y \<in> set after. key y < key x)"
  then obtain before after where "xs = before @ x # after" "\<forall>y \<in> set before. key y \<le> key x"
    "\<forall>y \<in> set after. key y < key x" by blast
  then show "max_by_key key xs = Some x"
  proof (induction after arbitrary: xs rule: rev_induct)
    case Nil
    then show ?case
      by (auto simp: max_by_key_snoc dest: max_by_key_mem split: option.split)
  next
    case (snoc y after)
    then have "max_by_key key (before @ x # after) = Some x" by simp
    then have "max_by_key key ((before @ x # after) @ [y]) = Some x"
      unfolding max_by_key_snoc using snoc.prems by (auto dest: leD)
    with snoc.prems show ?case by simp
  qed
qed

lemma map_filter_split:
  "List.map_filter f xs = before @ y # after \<longleftrightarrow>
     (\<exists>b x a. xs = b @ x # a \<and> List.map_filter f b = before \<and> f x = Some y \<and> List.map_filter f a = after)"
proof
  show "\<exists>b x a. xs = b @ x # a \<and> List.map_filter f b = before \<and> f x = Some y \<and> List.map_filter f a = after"
    if "List.map_filter f xs = before @ y # after"
    using that
  proof (induction xs arbitrary: before)
    case (Cons z xs)
    note IH = Cons.IH and eq = Cons.prems
    show ?case
    proof (cases "f z")
      case None
      with eq have "List.map_filter f xs = before @ y # after" by (simp add: List.map_filter_def)
      from IH [OF this] obtain b x a where "xs = b @ x # a" "List.map_filter f b = before" "f x = Some y"
        "List.map_filter f a = after" by blast
      with None show ?thesis
        by (intro exI [of _ "z # b"] exI [of _ x] exI [of _ a]) (simp add: List.map_filter_def)
    next
      case (Some w)
      show ?thesis
      proof (cases before)
        case Nil
        with Some eq show ?thesis
          by (intro exI [of _ "[]"] exI [of _ z] exI [of _ xs]) (simp add: List.map_filter_def)
      next
        case (Cons w' before')
        with Some eq have w: "w' = w" "List.map_filter f xs = before' @ y # after"
          by (simp_all add: List.map_filter_def)
        from IH [OF w(2)] obtain b x a where "xs = b @ x # a" "List.map_filter f b = before'"
          "f x = Some y" "List.map_filter f a = after" by blast
        with Some Cons w(1) show ?thesis
          by (intro exI [of _ "z # b"] exI [of _ x] exI [of _ a]) (simp add: List.map_filter_def)
      qed
    qed
  qed (simp add: List.map_filter_def)
qed (auto simp: List.map_filter_def)

text \<open>What \<open>select_codex_target\<close> compares: the score of a page.\<close>

definition page_score :: "cdp_target \<Rightarrow> u8 option" where
  "page_score t = (if eq_ignore_ascii_case (tg_type t) ''page'' then codex_target_score t else None)"

lemma scored_targets_eq:
  "scored_targets ts = List.map_filter (\<lambda>t. map_option (\<lambda>s. (t, s)) (page_score t)) ts"
  by (induction ts) (simp_all add: scored_targets_def List.map_filter_def page_score_def)

lemma scored_mem: "(t, s) \<in> set (scored_targets ts) \<longleftrightarrow> t \<in> set ts \<and> page_score t = Some s"
  by (force simp: scored_targets_eq List.map_filter_def)

lemma target_none:
  "select_codex_target targets = Inl e \<longleftrightarrow>
     e = NoCodexTarget \<and> (\<forall>t \<in> set targets. page_score t = None)"
proof -
  have "scored_targets targets = [] \<longleftrightarrow> (\<forall>t \<in> set targets. page_score t = None)"
    by (induction targets) (auto simp: scored_targets_eq List.map_filter_def split: option.splits)
  then show ?thesis
    using max_by_key_exists [of "scored_targets targets" snd]
    by (cases "scored_targets targets = []") (auto simp: select_codex_target_def)
qed

text \<open>
  The page the bridge talks to is the one with the best score among the pages it recognises, the
  last of these if there are several, and there is an error exactly when it recognises none. It is
  never a page of the bridge itself nor of ChatGPT Classic.
\<close>

lemma target_selected_iff:
  "(select_codex_target targets = Inr t \<longleftrightarrow>
      (\<exists>before after s. targets = before @ t # after \<and> page_score t = Some s
        \<and> (\<forall>t' \<in> set before. \<forall>s'. page_score t' = Some s' \<longrightarrow> s' \<le> s)
        \<and> (\<forall>t' \<in> set after. \<forall>s'. page_score t' = Some s' \<longrightarrow> s' < s)))
   \<and> (\<forall>e. select_codex_target targets = Inl e \<longleftrightarrow>
      e = NoCodexTarget \<and> (\<forall>t \<in> set targets. page_score t = None))
   \<and> (select_codex_target targets = Inr t \<longrightarrow>
      \<not> contains (to_ascii_lowercase (tg_title t)) ''codex mobile''
      \<and> \<not> contains (to_ascii_lowercase (tg_title t)) ''chatgpt classic'')"
proof -
  let ?f = "\<lambda>t. map_option (\<lambda>s. (t, s)) (page_score t)"
  have inr: "select_codex_target targets = Inr t \<longleftrightarrow> (\<exists>s. max_by_key snd (scored_targets targets) = Some (t, s))"
    by (auto simp: select_codex_target_def split: option.split)
  have chosen: "select_codex_target targets = Inr t \<longleftrightarrow>
      (\<exists>before after s. targets = before @ t # after \<and> page_score t = Some s
        \<and> (\<forall>t' \<in> set before. \<forall>s'. page_score t' = Some s' \<longrightarrow> s' \<le> s)
        \<and> (\<forall>t' \<in> set after. \<forall>s'. page_score t' = Some s' \<longrightarrow> s' < s))"
    (is "_ \<longleftrightarrow> ?best")
  proof
    assume "select_codex_target targets = Inr t"
    then obtain s where "max_by_key snd (scored_targets targets) = Some (t, s)" using inr by blast
    then obtain b a where "List.map_filter ?f targets = b @ (t, s) # a"
      and b: "\<forall>y \<in> set b. snd y \<le> s" and a: "\<forall>y \<in> set a. snd y < s"
      unfolding max_by_key_split scored_targets_eq by auto
    then obtain before x after where m: "targets = before @ x # after" "List.map_filter ?f before = b"
      "?f x = Some (t, s)" "List.map_filter ?f after = a"
      unfolding map_filter_split by blast
    then have x: "x = t" "page_score t = Some s" by auto
    have "s' \<le> s" if "t' \<in> set before" "page_score t' = Some s'" for t' s'
      using that b scored_mem [of t' s' before] m(2) by (force simp: scored_targets_eq)
    moreover have "s' < s" if "t' \<in> set after" "page_score t' = Some s'" for t' s'
      using that a scored_mem [of t' s' after] m(4) by (force simp: scored_targets_eq)
    ultimately show ?best using m(1) x by blast
  next
    assume ?best
    then obtain before after s where m: "targets = before @ t # after" "page_score t = Some s"
      "\<forall>t' \<in> set before. \<forall>s'. page_score t' = Some s' \<longrightarrow> s' \<le> s"
      "\<forall>t' \<in> set after. \<forall>s'. page_score t' = Some s' \<longrightarrow> s' < s" by blast
    have "scored_targets targets = scored_targets before @ (t, s) # scored_targets after"
      using m(1,2) by (simp add: scored_targets_eq List.map_filter_def)
    moreover have "\<forall>y \<in> set (scored_targets before). snd y \<le> s" "\<forall>y \<in> set (scored_targets after). snd y < s"
      using m(3,4) by (auto simp: scored_mem)
    ultimately have "max_by_key snd (scored_targets targets) = Some (t, s)"
      unfolding max_by_key_split by auto
    then show "select_codex_target targets = Inr t" using inr by blast
  qed
  have "\<not> contains (to_ascii_lowercase (tg_title t)) ''codex mobile''
      \<and> \<not> contains (to_ascii_lowercase (tg_title t)) ''chatgpt classic''" if "page_score t = Some s" for s
    using that by (auto simp: page_score_def codex_target_score_def Let_def split: if_splits)
  with chosen target_none show ?thesis by blast
qed

definition demo_other :: cdp_target where
  "demo_other = demo_page\<lparr>tg_title := ''Codex Mobile Bridge'', tg_url := ''http://127.0.0.1/codex''\<rparr>"

text \<open>The sum of the points never reaches the largest score, so pages compare as their sums do.\<close>

definition points_inv :: "nat \<Rightarrow> u8 \<times> bool \<Rightarrow> bool" where
  "points_inv k p \<longleftrightarrow> unat (fst p) \<le> k \<and> (snd p \<longrightarrow> 15 \<le> unat (fst p))"

lemma add_points_inv:
  "points_inv k p \<Longrightarrow> 15 \<le> unat n \<Longrightarrow> k + unat n \<le> 255 \<Longrightarrow> points_inv (k + unat n) (add_points c n p)"
  by (auto simp: points_inv_def add_points_def unat_saturating_add)

lemma points_inv_mono: "points_inv k p \<Longrightarrow> k \<le> l \<Longrightarrow> points_inv l p"
  by (auto simp: points_inv_def)

lemma url_points_inv: "points_inv 180 (url_points url (0, False))"
proof -
  have start: "points_inv 0 (0, False)" by (simp add: points_inv_def)
  have "points_inv 80 (if url = ''app://-/index.html'' then add_points True 80 (0, False)
      else add_points (starts_with url ''app://-'') 60 (0, False))"
    using add_points_inv [OF start, of 80 True]
      points_inv_mono [OF add_points_inv [OF start, of 60 "starts_with url ''app://-''"], of 80] by simp
  from add_points_inv [OF this, of 50 "contains url ''codex.app''"]
  have "points_inv 130 (add_points (contains url ''codex.app'') 50
      (if url = ''app://-/index.html'' then add_points True 80 (0, False)
      else add_points (starts_with url ''app://-'') 60 (0, False)))" by simp
  from add_points_inv [OF this, of 50 "contains url ''chatgpt.app''"] show ?thesis
    by (simp add: url_points_def)
qed

lemma title_points_inv: "points_inv 180 p \<Longrightarrow> points_inv 210 (title_points title p)"
proof -
  assume p: "points_inv 180 p"
  have "points_inv 210 (add_points c 30 p)" "points_inv 210 (add_points c 20 p)" for c
    using add_points_inv [OF p, of 30 c] points_inv_mono [OF add_points_inv [OF p, of 20 c], of 210] by simp_all
  then show ?thesis by (simp add: title_points_def)
qed

lemma target_score_bounds:
  assumes "codex_target_score t = Some s"
  shows "14 \<le> unat s \<and> unat s \<le> 246"
proof -
  define title where "title = to_ascii_lowercase (tg_title t)"
  define url where "url = to_ascii_lowercase (tg_url t)"
  define p where "p = add_points (contains url ''chatgpt'') 15 (add_points (contains url ''codex'') 15
      (title_points title (url_points url (0, False))))"
  have "points_inv 225 (add_points (contains url ''codex'') 15 (title_points title (url_points url (0, False))))"
    using add_points_inv [OF title_points_inv [OF url_points_inv], of 15] by simp
  from add_points_inv [OF this, of 15 "contains url ''chatgpt''"] have p: "points_inv 240 p"
    by (simp add: p_def)
  define s1 where "s1 = (if contains title ''chatgpt'' \<and> (contains url ''codex'' \<or> contains url ''chatgpt'')
      then saturating_add (fst p) 5 else fst p)"
  define s2 where "s2 = (if tg_web_socket_debugger_url t \<noteq> None then saturating_add s1 1 else s1)"
  have m: "snd p" "s = s2 \<or> s = saturating_sub s2 1"
    using assms by (auto simp: codex_target_score_def Let_def s1_def s2_def p_def title_def url_def
        split: if_splits prod.splits)
  with p have "15 \<le> unat (fst p)" "unat (fst p) \<le> 240" by (auto simp: points_inv_def)
  then have "15 \<le> unat s1 \<and> unat s1 \<le> 245" by (simp add: s1_def unat_saturating_add)
  then have "15 \<le> unat s2 \<and> unat s2 \<le> 246" by (simp add: s2_def unat_saturating_add)
  then have "14 \<le> unat s2" "unat s2 \<le> 246" "unat (saturating_sub s2 1) = unat s2 - 1"
    by (simp_all add: unat_saturating_sub)
  with m(2) \<open>15 \<le> unat s2 \<and> _\<close> show ?thesis by auto
qed

section \<open>Diagnosis\<close>

fun codex_rpc_error_text :: "codex_rpc_error \<Rightarrow> string" where
  "codex_rpc_error_text (Transport e) = ''json-rpc transport failed: '' @ e"
| "codex_rpc_error_text (InvalidResponse mth reason) =
     ''json-rpc method '' @ mth @ '' returned invalid response: '' @ reason"
| "codex_rpc_error_text (Unsupported mth) = ''json-rpc method '' @ mth @ '' is not implemented yet''"

datatype diagnostics_status = DiagnosticsOk | DiagnosticsDegraded

record diagnostics_report =
  dr_status :: diagnostics_status
  dr_connection_state :: bridge_connection_state
  dr_detail :: "string option"

definition report_ok :: "bridge_connection_state \<Rightarrow> diagnostics_report" where
  "report_ok st = \<lparr>dr_status = DiagnosticsOk, dr_connection_state = st, dr_detail = None\<rparr>"

definition report_degraded :: "bridge_connection_state \<Rightarrow> string \<Rightarrow> diagnostics_report" where
  "report_degraded st detail =
     \<lparr>dr_status = DiagnosticsDegraded, dr_connection_state = st, dr_detail = Some detail\<rparr>"

definition default_report :: diagnostics_report where
  "default_report = report_degraded CodexNotRunning ''Codex diagnostics have not run yet''"

definition diagnose_app_server :: "transport \<Rightarrow> rpc_client \<Rightarrow> diagnostics_report \<times> rpc_client" where
  "diagnose_app_server tr c =
     (case list_threads tr c of
        (Inl e, c1) \<Rightarrow> (report_degraded RpcUnavailable (codex_rpc_error_text e), c1)
      | (Inr [], c1) \<Rightarrow> (report_ok Writable, c1)
      | (Inr (first_thread # _), c1) \<Rightarrow>
          (case list_turns tr (ct_id first_thread) c1 of
             (Inl e, c2) \<Rightarrow> (report_degraded RpcUnavailable (codex_rpc_error_text e), c2)
           | (Inr _, c2) \<Rightarrow> (report_ok Writable, c2)))"

text \<open>\<open>transport_to\<close>: the transport over the debugging protocol to a page.\<close>

definition diagnose_cdp_app_server ::
  "cdp_codec \<Rightarrow> cdp_network \<Rightarrow> string \<Rightarrow> (cdp_target \<Rightarrow> transport) \<Rightarrow> cdp_error + cdp_target list
    \<Rightarrow> diagnostics_report option" where
  "diagnose_cdp_app_server c net script transport_to port_answer =
     (case port_answer of
        Inl e \<Rightarrow> Some (report_degraded CdpUnavailable (cdp_error_text e))
      | Inr targets \<Rightarrow>
          (case select_codex_target targets of
             Inl NoCodexTarget \<Rightarrow> Some (report_degraded TargetNotFound
               ''No ChatGPT/Codex page target found on the CDP endpoint'')
           | Inl e \<Rightarrow> Some (report_degraded CdpUnavailable (cdp_error_text e))
           | Inr target \<Rightarrow>
               (case inject_app_server_bridge c net script target of
                  None \<Rightarrow> None
                | Some (Inl e) \<Rightarrow> Some (report_degraded InjectFailed (cdp_error_text e))
                | Some (Inr _) \<Rightarrow> Some (fst (diagnose_app_server (transport_to target) new_client)))))"

text \<open>
  The diagnosis names the first thing that is broken, and says the bridge can be used exactly when
  nothing is: the debugging port answers, a page of Codex is there, the script could be installed,
  the threads can be listed, and so can the turns of the first thread.
\<close>

lemma diagnosis_exact:
  assumes "diagnose_cdp_app_server c net script transport_to port_answer = Some report"
  shows "(dr_status report = DiagnosticsOk \<longleftrightarrow>
        (\<exists>targets target ts c'. port_answer = Inr targets \<and> select_codex_target targets = Inr target
          \<and> inject_app_server_bridge c net script target = Some (Inr ())
          \<and> list_threads (transport_to target) new_client = (Inr ts, c')
          \<and> (\<forall>t rest. ts = t # rest \<longrightarrow>
              (\<exists>turns c''. list_turns (transport_to target) (ct_id t) c' = (Inr turns, c'')))))
    \<and> (dr_connection_state report = CdpUnavailable \<longleftrightarrow> (\<exists>e. port_answer = Inl e))
    \<and> (dr_connection_state report = TargetNotFound \<longleftrightarrow>
        (\<exists>targets. port_answer = Inr targets \<and> (\<forall>t \<in> set targets. page_score t = None)))
    \<and> (dr_connection_state report = InjectFailed \<longleftrightarrow>
        (\<exists>targets target e. port_answer = Inr targets \<and> select_codex_target targets = Inr target
          \<and> inject_app_server_bridge c net script target = Some (Inl e)))
    \<and> (dr_status report = DiagnosticsOk \<longleftrightarrow> dr_detail report = None)
    \<and> (dr_status report = DiagnosticsOk \<longleftrightarrow> dr_connection_state report = Writable)"
proof (cases port_answer)
  case (Inl e)
  with assms have "report = report_degraded CdpUnavailable (cdp_error_text e)"
    by (simp add: diagnose_cdp_app_server_def)
  with Inl show ?thesis by (simp add: report_degraded_def)
next
  case (Inr targets)
  note port_answer = this
  show ?thesis
  proof (cases "select_codex_target targets")
    case (Inl e)
    then have e: "e = NoCodexTarget" "\<forall>t \<in> set targets. page_score t = None"
      using target_none by blast+
    with assms port_answer Inl have "report = report_degraded TargetNotFound
        ''No ChatGPT/Codex page target found on the CDP endpoint''"
      by (simp add: diagnose_cdp_app_server_def)
    with port_answer Inl e show ?thesis by (simp add: report_degraded_def)
  next
    case (Inr target)
    note sel = this
    then have found: "\<not> (\<forall>t \<in> set targets. page_score t = None)" using target_none [of targets] by auto
    obtain i where i: "inject_app_server_bridge c net script target = Some i"
      using assms port_answer sel by (cases "inject_app_server_bridge c net script target")
        (auto simp: diagnose_cdp_app_server_def)
    show ?thesis
    proof (cases i)
      case (Inl e)
      with assms port_answer sel i have "report = report_degraded InjectFailed (cdp_error_text e)"
        by (simp add: diagnose_cdp_app_server_def)
      with port_answer sel i Inl found show ?thesis by (simp add: report_degraded_def)
    next
      case (Inr u)
      with assms port_answer sel i have r: "report = fst (diagnose_app_server (transport_to target) new_client)"
        by (simp add: diagnose_cdp_app_server_def)
      from port_answer sel i Inr found show ?thesis
        unfolding r diagnose_app_server_def
        by (auto simp: report_degraded_def report_ok_def split: sum.splits prod.splits list.splits)
    qed
  qed
qed

definition demo_network :: cdp_network where
  "demo_network = \<lparr>cn_connect = (\<lambda>_. None), cn_send = (\<lambda>_. None),
     cn_input = (\<lambda>_. ([Inr (WsPing ''x''), Inr (WsText ''1'')], True))\<rparr>"

end
