(* ===== verification/Codex_Launch.thy ===== *)
theory Codex_Launch
  imports Supervised_Process
begin

text \<open>
  Finding and launching the Codex desktop app, \<open>crates/desktop-core/src/codex_launch.rs\<close>: the manager
  that attaches to the app, launches it or tells the user what to do, and the host of macOS it asks.
  What commands, the file system and the debugging port answer is given; \<open>CodexDesktopHost\<close> is the
  record of the answers of one run.
\<close>

section \<open>Data\<close>

record launch_config =
  lc_app_name :: string
  lc_app_path_candidates :: "string list"
  lc_process_names :: "string list"
  lc_debug_port :: u16
  lc_launch_timeout :: nat
  lc_cdp_poll_interval :: nat

definition default_codex_app_candidates :: "string option \<Rightarrow> string list" where
  "default_codex_app_candidates home =
     (let in_home = (\<lambda>app. case home of
            None \<Rightarrow> [] | Some h \<Rightarrow> [path_join (path_join h ''Applications'') app])
      in [''/Applications/ChatGPT.app''] @ in_home ''ChatGPT.app''
         @ [''/Applications/Codex.app''] @ in_home ''Codex.app'')"

definition default_launch_config :: "string option \<Rightarrow> launch_config" where
  "default_launch_config home =
     \<lparr>lc_app_name = ''ChatGPT / Codex'',
      lc_app_path_candidates = default_codex_app_candidates home,
      lc_process_names = [''ChatGPT'', ''Codex''], lc_debug_port = 9229,
      lc_launch_timeout = 10000, lc_cdp_poll_interval = 250\<rparr>"

datatype launch_status =
    InstallInstructions | Attached | Launched | NeedsUserRestartConfirmation | ManualInstructions

record launch_command =
  lm_program :: string
  lm_args :: "string list"

record launch_outcome =
  lo_status :: launch_status
  lo_debug_port :: u16
  lo_app_path :: "string option"
  lo_launch_command :: "launch_command option"
  lo_detail :: "string option"
  lo_instructions :: "string list"

datatype launch_error =
    LaunchMessage string
  | LaunchIo string string
  | LaunchCommandFailed string string

fun launch_error_text :: "launch_error \<Rightarrow> string" where
  "launch_error_text (LaunchMessage m) = m"
| "launch_error_text (LaunchIo action source) = action @ '' failed: '' @ source"
| "launch_error_text (LaunchCommandFailed program status) =
     ''command failed: '' @ program @ '' exited with '' @ status"

text \<open>
  What the host answers: whether the app is there and running, and what a launch command and the poll
  with number \<open>i\<close> of the debugging port come to. \<open>cd_now\<close> is the clock after a poll.
\<close>

record desktop_host =
  cd_find_app :: "launch_error + string option"
  cd_is_running :: "launch_error + bool"
  cd_ready :: "launch_error + bool"
  cd_launch :: "launch_command \<Rightarrow> launch_error + unit"
  cd_started :: nat
  cd_poll :: "nat \<Rightarrow> (launch_error + bool) \<times> nat"

section \<open>The manager\<close>

definition launch_command_for :: "launch_config \<Rightarrow> string \<Rightarrow> launch_command" where
  "launch_command_for config app_path =
     \<lparr>lm_program = ''open'',
      lm_args = [''-n'', app_path, ''--args'',
        ''--remote-debugging-port='' @ decimal (unat (lc_debug_port config))]\<rparr>"

definition install_instructions :: "launch_config \<Rightarrow> launch_outcome" where
  "install_instructions config =
     \<lparr>lo_status = InstallInstructions, lo_debug_port = lc_debug_port config, lo_app_path = None,
      lo_launch_command = None, lo_detail = Some (lc_app_name config @ '' is not installed''),
      lo_instructions = [''Install '' @ lc_app_name config @ '' for macOS.'',
        ''Open it once, sign in, then return to Codex Mobile Bridge.'']\<rparr>"

definition needs_restart_confirmation ::
  "launch_config \<Rightarrow> string \<Rightarrow> string option \<Rightarrow> launch_outcome" where
  "needs_restart_confirmation config app_path detail =
     \<lparr>lo_status = NeedsUserRestartConfirmation, lo_debug_port = lc_debug_port config,
      lo_app_path = Some app_path, lo_launch_command = None,
      lo_detail = (case detail of
          Some d \<Rightarrow> Some d
        | None \<Rightarrow> Some (lc_app_name config @ '' is already running without CDP on port ''
            @ decimal (unat (lc_debug_port config)))),
      lo_instructions = [''Quit '' @ lc_app_name config @ '' after current tasks are safe to stop.'',
        ''Then let Codex Mobile Bridge launch it with the debug port enabled.'']\<rparr>"

definition manual_instructions ::
  "launch_config \<Rightarrow> string option \<Rightarrow> launch_command option \<Rightarrow> string \<Rightarrow> launch_outcome" where
  "manual_instructions config app_path command detail =
     \<lparr>lo_status = ManualInstructions, lo_debug_port = lc_debug_port config, lo_app_path = app_path,
      lo_launch_command = command, lo_detail = Some detail,
      lo_instructions = [''Quit '' @ lc_app_name config @ '' if it is currently running.'',
        ''Launch '' @ lc_app_name config @ '' with --remote-debugging-port=''
          @ decimal (unat (lc_debug_port config)) @ ''.'',
        ''Return to Codex Mobile Bridge and retry attach.'']\<rparr>"

definition started_outcome ::
  "launch_config \<Rightarrow> launch_status \<Rightarrow> string \<Rightarrow> launch_command option \<Rightarrow> launch_outcome" where
  "started_outcome config st app_path command =
     \<lparr>lo_status = st, lo_debug_port = lc_debug_port config, lo_app_path = Some app_path,
      lo_launch_command = command, lo_detail = None, lo_instructions = []\<rparr>"

definition attach_or_request_restart :: "launch_config \<Rightarrow> desktop_host \<Rightarrow> string \<Rightarrow> launch_outcome" where
  "attach_or_request_restart config host app_path =
     (case cd_ready host of
        Inr True \<Rightarrow> started_outcome config Attached app_path None
      | Inr False \<Rightarrow> needs_restart_confirmation config app_path None
      | Inl e \<Rightarrow> needs_restart_confirmation config app_path (Some (launch_error_text e)))"

definition cdp_ready_turn :: "nat \<Rightarrow> (launch_error + bool) \<times> nat \<Rightarrow> bool option" where
  "cdp_ready_turn deadline t =
     (if fst t = Inr True then Some True else if deadline \<le> snd t then Some False else None)"

definition wait_for_cdp_ready :: "launch_config \<Rightarrow> desktop_host \<Rightarrow> bool option" where
  "wait_for_cdp_ready config host =
     poll_loop (\<lambda>i. cdp_ready_turn (cd_started host + lc_launch_timeout config) (cd_poll host i)) 0"

text \<open>The outcome, and the commands that were run.\<close>

definition ensure_ready ::
  "launch_config \<Rightarrow> desktop_host \<Rightarrow> (launch_outcome \<times> launch_command list) option" where
  "ensure_ready config host =
     (case cd_find_app host of
        Inl e \<Rightarrow> Some (manual_instructions config None None (launch_error_text e), [])
      | Inr None \<Rightarrow> Some (install_instructions config, [])
      | Inr (Some app_path) \<Rightarrow>
          (case cd_is_running host of
             Inl e \<Rightarrow> Some (manual_instructions config (Some app_path) None (launch_error_text e), [])
           | Inr True \<Rightarrow> Some (attach_or_request_restart config host app_path, [])
           | Inr False \<Rightarrow>
               (let command = launch_command_for config app_path in
                case cd_launch host command of
                  Inl e \<Rightarrow> Some (manual_instructions config (Some app_path) (Some command)
                    (launch_error_text e), [command])
                | Inr _ \<Rightarrow>
                    (case wait_for_cdp_ready config host of
                       None \<Rightarrow> None
                     | Some True \<Rightarrow> Some (started_outcome config Launched app_path (Some command), [command])
                     | Some False \<Rightarrow> Some (manual_instructions config (Some app_path) (Some command)
                         (lc_app_name config @ '' did not expose CDP on port ''
                           @ decimal (unat (lc_debug_port config)) @ '' within ''
                           @ duration_debug (lc_launch_timeout config)), [command])))))"

section \<open>The host of macOS\<close>

definition find_app :: "(string \<Rightarrow> bool) \<Rightarrow> launch_config \<Rightarrow> launch_error + string option" where
  "find_app is_dir config = Inr (find is_dir (lc_app_path_candidates config))"

definition command_line_matches_main_app :: "string \<Rightarrow> string \<Rightarrow> bool" where
  "command_line_matches_main_app command_line app_path =
     starts_with command_line (path_join app_path ''Contents/MacOS'' @ ''/'')"

text \<open>
  \<open>pgrep\<close>: the error of running it, or whether it found the process; \<open>ps\<close>: its error, the status it
  failed with, or the lines it printed.
\<close>

fun pgrep_any :: "(string \<Rightarrow> string + bool) \<Rightarrow> string list \<Rightarrow> launch_error + bool" where
  "pgrep_any pgrep [] = Inr False"
| "pgrep_any pgrep (name # names) =
     (case pgrep name of
        Inl e \<Rightarrow> Inl (LaunchIo ''detect ChatGPT/Codex process'' e)
      | Inr True \<Rightarrow> Inr True
      | Inr False \<Rightarrow> pgrep_any pgrep names)"

definition is_running ::
  "(string \<Rightarrow> string + bool) \<Rightarrow> string + (string + string list) \<Rightarrow> launch_config \<Rightarrow> launch_error + bool" where
  "is_running pgrep ps config =
     (case pgrep_any pgrep (lc_process_names config) of
        Inl e \<Rightarrow> Inl e
      | Inr True \<Rightarrow> Inr True
      | Inr False \<Rightarrow>
          (case ps of
             Inl e \<Rightarrow> Inl (LaunchIo ''detect ChatGPT/Codex command path'' e)
           | Inr (Inl status) \<Rightarrow> Inl (LaunchCommandFailed ''ps'' status)
           | Inr (Inr printed) \<Rightarrow> Inr (list_ex (\<lambda>line.
               list_ex (command_line_matches_main_app line) (lc_app_path_candidates config)) printed)))"

text \<open>The debugging port: an error of making the client, or the status of the answer, if one came.\<close>

definition cdp_ready :: "string + u16 option \<Rightarrow> launch_error + bool" where
  "cdp_ready answer =
     (case answer of
        Inl e \<Rightarrow> Inl (LaunchMessage e)
      | Inr None \<Rightarrow> Inr False
      | Inr (Some code) \<Rightarrow> Inr (200 \<le> code \<and> code < 300))"

text \<open>Running a command: the error of starting it, or the text of its status if it failed.\<close>

definition launch_with_debug_port ::
  "(launch_command \<Rightarrow> string + string option) \<Rightarrow> launch_command \<Rightarrow> launch_error + unit" where
  "launch_with_debug_port run command =
     (case run command of
        Inl e \<Rightarrow> Inl (LaunchIo ''launch ChatGPT/Codex'' e)
      | Inr None \<Rightarrow> Inr ()
      | Inr (Some status) \<Rightarrow> Inl (LaunchCommandFailed (lm_program command) status))"

section \<open>What a run does\<close>

lemma wait_for_cdp_ready_returns:
  assumes "cd_started host + lc_launch_timeout config \<le> snd (cd_poll host i)"
  shows "wait_for_cdp_ready config host \<noteq> None"
  unfolding wait_for_cdp_ready_def
  by (rule poll_loop_returns [of _ i]) (use assms in \<open>auto simp: cdp_ready_turn_def\<close>)

lemma cdp_ready_turn_iff:
  "cdp_ready_turn d t = Some True \<longleftrightarrow> fst t = Inr True"
  "cdp_ready_turn d t = None \<longleftrightarrow> fst t \<noteq> Inr True \<and> snd t < d"
  by (auto simp: cdp_ready_turn_def)

lemma wait_for_cdp_ready_True:
  "wait_for_cdp_ready config host = Some True \<longleftrightarrow>
     (\<exists>k. fst (cd_poll host k) = Inr True \<and>
        (\<forall>j < k. fst (cd_poll host j) \<noteq> Inr True \<and>
           snd (cd_poll host j) < cd_started host + lc_launch_timeout config))"
  by (simp add: wait_for_cdp_ready_def poll_loop_Some_iff cdp_ready_turn_iff)

text \<open>
  Making the app ready always comes to an end once the clock passes the deadline. The app is
  launched exactly when it is installed and known not to run, once, with the debugging port; a running
  app is never touched. It is reported as attached or launched only when the debugging port answered,
  and otherwise the outcome says what to do.
\<close>

lemma app_launched_only_when_stopped:
  assumes "\<exists>i. cd_started host + lc_launch_timeout config \<le> snd (cd_poll host i)"
  shows "\<exists>outcome commands. ensure_ready config host = Some (outcome, commands)
    \<and> commands = (case (cd_find_app host, cd_is_running host) of
          (Inr (Some app_path), Inr False) \<Rightarrow> [launch_command_for config app_path] | _ \<Rightarrow> [])
    \<and> (lo_status outcome = Attached \<longleftrightarrow>
        (\<exists>app_path. cd_find_app host = Inr (Some app_path)) \<and> cd_is_running host = Inr True \<and> cd_ready host = Inr True)
    \<and> (lo_status outcome = Launched \<longleftrightarrow>
        (\<exists>app_path. cd_find_app host = Inr (Some app_path) \<and> cd_is_running host = Inr False
          \<and> cd_launch host (launch_command_for config app_path) = Inr ()
          \<and> (\<exists>k. fst (cd_poll host k) = Inr True \<and> (\<forall>j < k. fst (cd_poll host j) \<noteq> Inr True
              \<and> snd (cd_poll host j) < cd_started host + lc_launch_timeout config))))
    \<and> (lo_detail outcome = None \<longleftrightarrow> lo_status outcome \<in> {Attached, Launched})
    \<and> (lo_instructions outcome = [] \<longleftrightarrow> lo_status outcome \<in> {Attached, Launched})"
proof -
  obtain i where "cd_started host + lc_launch_timeout config \<le> snd (cd_poll host i)" using assms by blast
  from wait_for_cdp_ready_returns [OF this] obtain w where w: "wait_for_cdp_ready config host = Some w"
    by auto
  note outcomes = started_outcome_def manual_instructions_def install_instructions_def
    needs_restart_confirmation_def attach_or_request_restart_def
  show ?thesis
    unfolding wait_for_cdp_ready_True [symmetric] w
    by (cases "cd_find_app host"; cases "cd_is_running host"; cases w)
      (auto simp: ensure_ready_def outcomes w Let_def split: option.split sum.split bool.split)
qed

definition demo_host :: desktop_host where
  "demo_host =
     \<lparr>cd_find_app = Inr (Some ''/Applications/Codex.app''), cd_is_running = Inr False,
      cd_ready = Inr False, cd_launch = (\<lambda>_. Inr ()), cd_started = 0,
      cd_poll = (\<lambda>i. (Inr (3 \<le> i), 250 * i))\<rparr>"

text \<open>Only the app itself counts as running, not its helpers in other directories of the bundle.\<close>

lemma helper_is_not_the_app:
  "command_line_matches_main_app ''/Applications/Codex.app/Contents/MacOS/Codex --flag'' ''/Applications/Codex.app''"
  "\<not> command_line_matches_main_app ''/Applications/Codex.app/Contents/Frameworks/Helper'' ''/Applications/Codex.app''"
  by code_simp+

end
