(* ===== verification/Diagnostics_Bundle.thy ===== *)
theory Diagnostics_Bundle
  imports Rust_Text
begin

text \<open>
  The bundle of diagnostics a user can send, \<open>crates/desktop-core/src/diagnostics_bundle.rs\<close>: which
  secrets and paths are taken out of the texts in it, and that they are out. The \<open>url\<close> crate's parser is
  a parameter that gives the host of a URL.
\<close>

section \<open>Data\<close>

datatype diagnostic_status = CheckOk | CheckDegraded | CheckFailed | CheckUnknown

record diagnostic_check =
  dc_status :: diagnostic_status
  dc_label :: string
  dc_detail :: "string option"

record diagnostic_log =
  dl_source :: string
  dl_text :: string

record bundle_input =
  bi_app_version :: string
  bi_sidecar_version :: "string option"
  bi_codex_adapter :: diagnostic_check
  bi_bridge :: diagnostic_check
  bi_tunnel :: diagnostic_check
  bi_recent_connection_states :: "string list"
  bi_logs :: "diagnostic_log list"

record diagnostics_bundle =
  db_generated_at :: u64
  db_app_version :: string
  db_sidecar_version :: "string option"
  db_codex_adapter :: diagnostic_check
  db_bridge :: diagnostic_check
  db_tunnel :: diagnostic_check
  db_recent_connection_states :: "string list"
  db_logs :: "diagnostic_log list"

definition REDACTED_SECRET :: string where
  "REDACTED_SECRET = ''[REDACTED]''"

definition REDACTED_PATH :: string where
  "REDACTED_PATH = ''[LOCAL_PATH]''"

section \<open>Values after a marker\<close>

definition newline :: char where
  "newline = CHR 0x0A"

text \<open>\<open>str::lines\<close>: a carriage return before the end of a line goes with it.\<close>

definition strip_cr :: "string \<Rightarrow> string" where
  "strip_cr l = (if l \<noteq> [] \<and> last l = CHR 0x0D then butlast l else l)"

definition rust_lines :: "string \<Rightarrow> string list" where
  "rust_lines text =
     (let parts = split_on (\<lambda>c. c = newline) text in
      map strip_cr (butlast parts) @ (if last parts = [] then [] else [last parts]))"

definition find_marker :: "string \<Rightarrow> bool \<Rightarrow> string \<Rightarrow> nat option" where
  "find_marker marker case_insensitive line =
     (if case_insensitive then find_text (to_ascii_lowercase marker) (to_ascii_lowercase line)
      else find_text marker line)"

definition redact_line :: "string \<Rightarrow> bool \<Rightarrow> string \<Rightarrow> string \<Rightarrow> string" where
  "redact_line marker case_insensitive replacement line =
     (case find_marker marker case_insensitive line of
        Some index \<Rightarrow> take (index + length marker) line @ '' '' @ replacement
      | None \<Rightarrow> line)"

definition redact_after_marker_with ::
  "string \<Rightarrow> bool \<Rightarrow> string \<Rightarrow> string \<Rightarrow> string" where
  "redact_after_marker_with marker case_insensitive replacement text =
     (let output = concat (map (\<lambda>line. redact_line marker case_insensitive replacement line @ [newline])
            (rust_lines text))
      in if ends_with text [newline] then output else butlast output)"

definition redact_after_marker :: "string \<Rightarrow> bool \<Rightarrow> string \<Rightarrow> string" where
  "redact_after_marker marker case_insensitive text =
     redact_after_marker_with marker case_insensitive REDACTED_SECRET text"

definition redact_header_value :: "string \<Rightarrow> string \<Rightarrow> string" where
  "redact_header_value header_name text = redact_after_marker (header_name @ '':'') True text"

definition redact_assignment_value :: "string \<Rightarrow> string \<Rightarrow> string" where
  "redact_assignment_value key text = redact_after_marker (key @ ''='') False text"

section \<open>Push endpoints\<close>

definition endpoint_end :: "bool \<Rightarrow> string \<Rightarrow> nat" where
  "endpoint_end quoted v =
     (if quoted then length (takeWhile (\<lambda>c. c \<noteq> CHR 0x22) v)
      else length (concat (takeWhile (\<lambda>c. \<not> is_whitespace c) (utf8_chars v))))"

definition redacted_endpoint :: "(string \<Rightarrow> string option) \<Rightarrow> string \<Rightarrow> string" where
  "redacted_endpoint host_of endpoint =
     ''https://'' @ (case host_of endpoint of Some h \<Rightarrow> h | None \<Rightarrow> ''invalid-endpoint'')
       @ ''/[REDACTED]''"

lemma find_text_bound: "find_text pat s = Some i \<Longrightarrow> i + length pat \<le> length s"
proof (induction s arbitrary: i)
  case (Cons c s)
  show ?case
  proof (cases "starts_with (c # s) pat")
    case True
    with Cons.prems have "i = 0" by simp
    moreover from True have "length pat \<le> length (c # s)"
      by (metis starts_with_prefix prefix_length_le)
    ultimately show ?thesis by simp
  qed (use Cons in auto)
qed (auto split: if_splits)

text \<open>The markers are not empty, so the loop gets shorter; an empty one would loop for ever.\<close>

function redact_endpoint_after_marker ::
  "(string \<Rightarrow> string option) \<Rightarrow> string \<Rightarrow> bool \<Rightarrow> string \<Rightarrow> string" where
  "redact_endpoint_after_marker host_of marker quoted remaining =
     (if marker = [] then remaining
      else case find_text marker remaining of
        None \<Rightarrow> remaining
      | Some index \<Rightarrow>
          (let value_start = index + length marker;
               v = drop value_start remaining;
               value_end = endpoint_end quoted v
           in take value_start remaining @ redacted_endpoint host_of (take value_end v)
              @ redact_endpoint_after_marker host_of marker quoted (drop value_end v)))"
  by pat_completeness auto

termination redact_endpoint_after_marker
  by (relation "measure (\<lambda>(host_of, marker, quoted, remaining). length remaining)")
    (auto simp flip: length_greater_0_conv dest!: find_text_bound)

declare redact_endpoint_after_marker.simps [simp del]

definition redact_push_endpoints :: "(string \<Rightarrow> string option) \<Rightarrow> string \<Rightarrow> string" where
  "redact_push_endpoints host_of text =
     fold (\<lambda>(marker, quoted). redact_endpoint_after_marker host_of marker quoted)
       [(''endpoint='', False),
        ([CHR 0x22] @ ''endpoint'' @ [CHR 0x22] @ '':'' @ [CHR 0x22], True),
        ([CHR 0x22] @ ''endpoint'' @ [CHR 0x22] @ '': '' @ [CHR 0x22], True)] text"

section \<open>Tokens\<close>

definition is_token_character :: "scalar \<Rightarrow> bool" where
  "is_token_character c \<longleftrightarrow>
     (case c of [b] \<Rightarrow> is_ascii_alphanumeric b \<or> b \<in> set ''-_.'' | _ \<Rightarrow> False)"

definition is_api_key_like :: "string \<Rightarrow> bool" where
  "is_api_key_like token \<longleftrightarrow>
     starts_with token ''sk-'' \<or> starts_with token ''sk-ant-'' \<or> starts_with token ''ghp_''
     \<or> starts_with token ''gho_''"

definition is_ascii_hexdigit :: "char \<Rightarrow> bool" where
  "is_ascii_hexdigit c \<longleftrightarrow>
     is_ascii_digit c \<or> (65 \<le> byte_of c \<and> byte_of c \<le> 70) \<or> (97 \<le> byte_of c \<and> byte_of c \<le> 102)"

definition is_uuid_like :: "string \<Rightarrow> bool" where
  "is_uuid_like token \<longleftrightarrow>
     (let parts = split_on (\<lambda>c. c = CHR ''-'') token in
      length parts = 5 \<and>
      list_all2 (\<lambda>part n. length part = n \<and> list_all is_ascii_hexdigit part) parts [8, 4, 4, 4, 12])"

definition flush_token :: "(string \<Rightarrow> bool) \<Rightarrow> string \<Rightarrow> string" where
  "flush_token is_secret token =
     (if token = [] then [] else if is_secret token then REDACTED_SECRET else token)"

text \<open>The loop over the characters, with the token read so far.\<close>

fun redact_tokens_loop :: "(string \<Rightarrow> bool) \<Rightarrow> scalar list \<Rightarrow> string \<Rightarrow> string" where
  "redact_tokens_loop is_secret [] token = flush_token is_secret token"
| "redact_tokens_loop is_secret (c # cs) token =
     (if is_token_character c then redact_tokens_loop is_secret cs (token @ c)
      else flush_token is_secret token @ c @ redact_tokens_loop is_secret cs [])"

definition redact_matching_tokens :: "(string \<Rightarrow> bool) \<Rightarrow> string \<Rightarrow> string" where
  "redact_matching_tokens is_secret text = redact_tokens_loop is_secret (utf8_chars text) []"

definition redact_api_key_like_tokens :: "string \<Rightarrow> string" where
  "redact_api_key_like_tokens text = redact_matching_tokens is_api_key_like text"

definition redact_uuid_like_tokens :: "string \<Rightarrow> string" where
  "redact_uuid_like_tokens text = redact_matching_tokens is_uuid_like text"

section \<open>Local paths\<close>

definition local_prefixes :: "string list" where
  "local_prefixes = [''/Users/'', ''/var/folders/'', ''/private/var/folders/'']"

definition first_local_path_offset :: "string \<Rightarrow> nat option" where
  "first_local_path_offset text =
     (case List.map_filter (\<lambda>p. find_text p text) local_prefixes of
        [] \<Rightarrow> None
      | offsets \<Rightarrow> Some (Min (set offsets)))"

definition is_path_boundary :: "scalar \<Rightarrow> bool" where
  "is_path_boundary c \<longleftrightarrow>
     is_whitespace c \<or> c \<in> set (map (\<lambda>x. [x]) ([CHR 0x22, CHR 0x27] @ ''<>()[]{},;''))"

text \<open>Up to the first boundary after the first character.\<close>

definition local_path_len :: "string \<Rightarrow> nat" where
  "local_path_len text =
     (case utf8_chars text of
        [] \<Rightarrow> 0
      | c # cs \<Rightarrow> length c + length (concat (takeWhile (\<lambda>c. \<not> is_path_boundary c) cs)))"

lemma first_offset_Some:
  assumes "first_local_path_offset text = Some i"
  shows "\<exists>p \<in> set local_prefixes. find_text p text = Some i"
    and "\<forall>p \<in> set local_prefixes. \<forall>j. find_text p text = Some j \<longrightarrow> i \<le> j"
proof -
  let ?offsets = "List.map_filter (\<lambda>p. find_text p text) local_prefixes"
  have ne: "?offsets \<noteq> []" and i: "i = Min (set ?offsets)"
    using assms by (auto simp: first_local_path_offset_def split: list.splits)
  then have "i \<in> set ?offsets" by simp
  then show "\<exists>p \<in> set local_prefixes. find_text p text = Some i"
    by (auto simp: List.map_filter_def)
  show "\<forall>p \<in> set local_prefixes. \<forall>j. find_text p text = Some j \<longrightarrow> i \<le> j"
    using ne unfolding i by (force simp: List.map_filter_def intro!: Min_le)
qed

lemma first_offset_None:
  "first_local_path_offset text = None \<longleftrightarrow> (\<forall>p \<in> set local_prefixes. \<not> contains text p)"
  by (auto simp: first_local_path_offset_def contains_def local_prefixes_def List.map_filter_def
      split: option.splits list.splits)

lemma local_path_len_pos: "s \<noteq> [] \<Longrightarrow> 0 < local_path_len s"
  by (cases s) (simp_all add: local_path_len_def)

lemma first_offset_bound:
  assumes "first_local_path_offset text = Some i"
  shows "i < length text"
proof -
  obtain p where p: "p \<in> set local_prefixes" "find_text p text = Some i"
    using first_offset_Some(1) [OF assms] by blast
  then have "p \<noteq> []" by (auto simp: local_prefixes_def)
  with find_text_bound [OF p(2)] show ?thesis by (cases p) auto
qed

function redact_local_paths :: "string \<Rightarrow> string" where
  "redact_local_paths remainder =
     (case first_local_path_offset remainder of
        None \<Rightarrow> remainder
      | Some start \<Rightarrow>
          take start remainder @ REDACTED_PATH
            @ redact_local_paths (drop (start + local_path_len (drop start remainder)) remainder))"
  by pat_completeness auto

termination redact_local_paths
proof (relation "measure length", simp)
  fix remainder :: string and start
  assume "first_local_path_offset remainder = Some start"
  then have "start < length remainder" by (rule first_offset_bound)
  moreover from this have "0 < local_path_len (drop start remainder)" by (intro local_path_len_pos) simp
  ultimately show "(drop (start + local_path_len (drop start remainder)) remainder, remainder) \<in> measure length"
    by simp
qed

declare redact_local_paths.simps [simp del]

section \<open>The bundle\<close>

text \<open>The values after a marker, in the order they are taken out: marker, case, replacement.\<close>

definition redaction_steps :: "(string \<times> bool \<times> string) list" where
  "redaction_steps =
     [(''authorization:'', True, REDACTED_SECRET),
      (''x-bridge-control-token:'', True, REDACTED_SECRET),
      (''CODEX_MOBILE_BRIDGE_CONTROL_TOKEN='', False, REDACTED_SECRET),
      (''CLOUDFLARE_TUNNEL_TOKEN='', False, REDACTED_SECRET),
      (''CLOUDFLARE_TUNNEL_TOKEN_FILE_CONTENTS='', False, REDACTED_SECRET),
      (''TUNNEL_TOKEN='', False, REDACTED_SECRET),
      (''token_file_contents='', False, REDACTED_SECRET),
      (''VAPID_PRIVATE_KEY='', False, REDACTED_SECRET),
      (''VAPID_SECRET='', False, REDACTED_SECRET),
      (''vapid-private-key='', False, REDACTED_SECRET),
      (''CODEX_MOBILE_BRIDGE_VAPID_KEY_FILE='', False, REDACTED_PATH),
      (''OPENAI_API_KEY='', False, REDACTED_SECRET),
      (''ANTHROPIC_API_KEY='', False, REDACTED_SECRET),
      (''--token '', False, REDACTED_SECRET),
      (''--token='', False, REDACTED_SECRET),
      (''--token-file '', False, REDACTED_PATH),
      (''--token-file='', False, REDACTED_PATH),
      (''p256dh='', False, REDACTED_SECRET),
      (''auth='', False, REDACTED_SECRET),
      ([CHR 0x22] @ ''p256dh'' @ [CHR 0x22] @ '':'' @ [CHR 0x22], False, REDACTED_SECRET),
      ([CHR 0x22] @ ''p256dh'' @ [CHR 0x22] @ '': '' @ [CHR 0x22], False, REDACTED_SECRET),
      ([CHR 0x22] @ ''auth'' @ [CHR 0x22] @ '':'' @ [CHR 0x22], False, REDACTED_SECRET),
      ([CHR 0x22] @ ''auth'' @ [CHR 0x22] @ '': '' @ [CHR 0x22], False, REDACTED_SECRET)]"

definition redact_marked_values :: "string \<Rightarrow> string" where
  "redact_marked_values text =
     fold (\<lambda>(marker, ci, replacement). redact_after_marker_with marker ci replacement)
       redaction_steps text"

definition redact_sensitive_text :: "(string \<Rightarrow> string option) \<Rightarrow> string \<Rightarrow> string" where
  "redact_sensitive_text host_of text =
     redact_local_paths (redact_uuid_like_tokens (redact_api_key_like_tokens
       (redact_push_endpoints host_of (redact_marked_values text))))"

definition check_ok :: "string \<Rightarrow> diagnostic_check" where
  "check_ok label = \<lparr>dc_status = CheckOk, dc_label = label, dc_detail = None\<rparr>"

definition check_degraded :: "string \<Rightarrow> string \<Rightarrow> diagnostic_check" where
  "check_degraded label detail =
     \<lparr>dc_status = CheckDegraded, dc_label = label, dc_detail = Some detail\<rparr>"

definition check_failed :: "string \<Rightarrow> string \<Rightarrow> diagnostic_check" where
  "check_failed label detail =
     \<lparr>dc_status = CheckFailed, dc_label = label, dc_detail = Some detail\<rparr>"

definition check_unknown :: "string \<Rightarrow> diagnostic_check" where
  "check_unknown label = \<lparr>dc_status = CheckUnknown, dc_label = label, dc_detail = None\<rparr>"

definition redacted_check :: "(string \<Rightarrow> string option) \<Rightarrow> diagnostic_check \<Rightarrow> diagnostic_check" where
  "redacted_check host_of check =
     check\<lparr>dc_label := redact_sensitive_text host_of (dc_label check),
       dc_detail := map_option (redact_sensitive_text host_of) (dc_detail check)\<rparr>"

definition build_diagnostics_bundle ::
  "(string \<Rightarrow> string option) \<Rightarrow> u64 \<Rightarrow> bundle_input \<Rightarrow> diagnostics_bundle" where
  "build_diagnostics_bundle host_of now input =
     \<lparr>db_generated_at = now, db_app_version = bi_app_version input,
      db_sidecar_version = bi_sidecar_version input,
      db_codex_adapter = redacted_check host_of (bi_codex_adapter input),
      db_bridge = redacted_check host_of (bi_bridge input),
      db_tunnel = redacted_check host_of (bi_tunnel input),
      db_recent_connection_states =
        map (redact_sensitive_text host_of) (bi_recent_connection_states input),
      db_logs = map (\<lambda>log. \<lparr>dl_source = dl_source log,
        dl_text = redact_sensitive_text host_of (dl_text log)\<rparr>) (bi_logs input)\<rparr>"

section \<open>No local path is left\<close>

lemma sublist_cut:
  assumes "c \<notin> set p"
  shows "sublist p (a @ c # b) \<longleftrightarrow> sublist p a \<or> sublist p b"
proof -
  have "sublist p a" if "p = xs1 @ xs2" "suffix xs1 a" "prefix xs2 (c # b)" for xs1 xs2
  proof (cases xs2)
    case Nil
    with that show ?thesis by (simp add: suffix_imp_sublist)
  next
    case (Cons x xs)
    with that assms show ?thesis by simp
  qed
  moreover have "sublist p b" if "sublist p (c # b)"
    using that assms unfolding sublist_Cons_right by (cases p) auto
  ultimately show ?thesis
    unfolding sublist_append by (auto intro: sublist_order.order_trans [OF _ sublist_Cons_right [THEN iffD2]])
qed

lemma find_text_within:
  "sublist p (take n s) \<Longrightarrow> \<exists>j. find_text p s = Some j \<and> j + length p \<le> n"
proof (induction s arbitrary: n)
  case (Cons c s)
  show ?case
  proof (cases "starts_with (c # s) p")
    case True
    with sublist_length_le [OF Cons.prems] show ?thesis by simp
  next
    case False
    obtain m where n: "n = Suc m" using Cons.prems False by (cases n) (auto simp: starts_with_def)
    have "\<not> prefix p (c # take m s)"
      using False by (metis starts_with_prefix prefix_order.trans take_is_prefix take_Suc_Cons)
    with Cons.prems n have "sublist p (take m s)" by (simp add: sublist_Cons_right)
    from Cons.IH [OF this] obtain j where "find_text p s = Some j" "j + length p \<le> m" by blast
    with False n show ?thesis by simp
  qed
qed (auto)

lemma before_first_offset:
  assumes "first_local_path_offset s = Some i" and "p \<in> set local_prefixes"
  shows "\<not> sublist p (take i s)"
proof
  assume "sublist p (take i s)"
  then obtain j where "find_text p s = Some j" "j + length p \<le> i" using find_text_within by blast
  moreover from this have "i \<le> j" using first_offset_Some(2) [OF assms(1)] assms(2) by blast
  ultimately have "length p = 0" by linarith
  with assms(2) show False by (auto simp: local_prefixes_def)
qed

lemma no_local_path_left:
  assumes "p \<in> set local_prefixes"
  shows "\<not> contains (redact_local_paths s) p"
proof (induction s rule: redact_local_paths.induct)
  case (1 remainder)
  show ?case
  proof (cases "first_local_path_offset remainder")
    case None
    then have "redact_local_paths remainder = remainder" by (subst redact_local_paths.simps) simp
    with None assms show ?thesis by (simp add: first_offset_None)
  next
    case (Some start)
    let ?rest = "redact_local_paths (drop (start + local_path_len (drop start remainder)) remainder)"
    have out: "redact_local_paths remainder =
        take start remainder @ CHR ''['' # ''LOCAL_PATH'' @ CHR '']'' # ?rest"
      using Some by (subst redact_local_paths.simps) (simp add: REDACTED_PATH_def)
    have p: "CHR ''['' \<notin> set p" "CHR '']'' \<notin> set p" "CHR ''/'' \<in> set p"
      using assms by (auto simp: local_prefixes_def)
    have "\<not> sublist p ''LOCAL_PATH''"
      using p(3) set_mono_sublist [of p "''LOCAL_PATH''"] by auto
    moreover have "\<not> sublist p ?rest" using 1 [OF Some] by (simp add: contains_iff)
    ultimately show ?thesis
      unfolding out contains_iff sublist_cut [OF p(1)] sublist_cut [OF p(2)]
      using before_first_offset [OF Some assms] by simp
  qed
qed

section \<open>No secret token is left\<close>

abbreviation breaks_token :: "scalar \<Rightarrow> bool" where
  "breaks_token c \<equiv> \<not> is_token_character c"

text \<open>The tokens of a text: its longest runs of token characters.\<close>

definition token_words :: "string \<Rightarrow> scalar list list" where
  "token_words s = words_by breaks_token (utf8_chars s)"

definition flush_scalars :: "(string \<Rightarrow> bool) \<Rightarrow> scalar list \<Rightarrow> scalar list" where
  "flush_scalars is_secret tok =
     (if tok = [] then [] else if is_secret (concat tok) then map (\<lambda>b. [b]) REDACTED_SECRET else tok)"

fun redact_scalars :: "(string \<Rightarrow> bool) \<Rightarrow> scalar list \<Rightarrow> scalar list \<Rightarrow> scalar list" where
  "redact_scalars is_secret [] tok = flush_scalars is_secret tok"
| "redact_scalars is_secret (c # cs) tok =
     (if is_token_character c then redact_scalars is_secret cs (tok @ [c])
      else flush_scalars is_secret tok @ c # redact_scalars is_secret cs [])"

definition redacted_word :: "scalar list" where
  "redacted_word = map (\<lambda>b. [b]) ''REDACTED''"

lemma token_scalar: "is_token_character c \<Longrightarrow> c \<noteq> [] \<and> starts_scalar c \<and> scalar_like c"
  by (auto simp: is_token_character_def starts_scalar_def scalar_like_def is_ascii_alphanumeric_def
      is_ascii_digit_def is_ascii_alphabetic_def is_continuation_def byte_of_def split: list.splits)

lemma concat_singletons [simp]: "concat (map (\<lambda>b. [b]) s) = s"
  by (induction s) auto

lemma flush_token_scalars:
  "\<forall>c \<in> set tok. is_token_character c \<Longrightarrow> flush_token P (concat tok) = concat (flush_scalars P tok)"
  using token_scalar by (cases tok) (auto simp: flush_token_def flush_scalars_def)

lemma redact_tokens_scalars:
  "\<forall>c \<in> set tok. is_token_character c \<Longrightarrow>
     redact_tokens_loop P cs (concat tok) = concat (redact_scalars P cs tok)"
proof (induction cs arbitrary: tok)
  case (Cons c cs)
  show ?case
  proof (cases "is_token_character c")
    case True
    with Cons.prems Cons.IH [of "tok @ [c]"] show ?thesis by simp
  next
    case False
    with flush_token_scalars [OF Cons.prems, of P] Cons.IH [of "[]"] show ?thesis by simp
  qed
qed (simp add: flush_token_scalars)

lemma redact_scalars_from:
  "\<forall>c \<in> set tok. is_token_character c \<Longrightarrow> c \<in> set (redact_scalars P cs tok) \<Longrightarrow>
     c \<in> set cs \<or> (starts_scalar c \<and> scalar_like c)"
proof (induction cs arbitrary: tok)
  case Nil
  then show ?case using token_scalar
    by (auto simp: flush_scalars_def REDACTED_SECRET_def starts_scalar_def scalar_like_def
        is_continuation_def byte_of_def split: if_splits)
next
  case (Cons c' cs)
  have flush: "c \<in> set (flush_scalars P tok) \<Longrightarrow> starts_scalar c \<and> scalar_like c"
    using Cons.prems(1) token_scalar
    by (auto simp: flush_scalars_def REDACTED_SECRET_def starts_scalar_def scalar_like_def
        is_continuation_def byte_of_def split: if_splits)
  show ?case
  proof (cases "is_token_character c'")
    case True
    with Cons.prems Cons.IH [of "tok @ [c']"] show ?thesis by auto
  next
    case False
    with Cons.prems Cons.IH [of "[]"] flush show ?thesis by auto
  qed
qed

lemma utf8_redact_scalars:
  "utf8_chars (concat (redact_scalars P (utf8_chars s) [])) = redact_scalars P (utf8_chars s) []"
proof (rule utf8_chars_concat)
  show "\<forall>c \<in> set (redact_scalars P (utf8_chars s) []). scalar_like c"
    using redact_scalars_from [of "[]"] utf8_chars_scalar by fastforce
  show "\<forall>c \<in> set (tl (redact_scalars P (utf8_chars s) [])). starts_scalar c"
  proof (cases "utf8_chars s")
    case (Cons c0 cs)
    have rest: "\<forall>c \<in> set cs. starts_scalar c"
      using utf8_chars_tl_starts [of _ s] Cons by simp
    show ?thesis
    proof (cases "is_token_character c0")
      case True
      then have "\<forall>c \<in> set (redact_scalars P cs [c0]). starts_scalar c"
        using redact_scalars_from [of "[c0]"] rest by fastforce
      moreover have "c \<in> set (tl xs) \<Longrightarrow> c \<in> set xs" for c :: scalar and xs by (cases xs) auto
      ultimately show ?thesis using Cons True by auto
    next
      case False
      then have "\<forall>c \<in> set (redact_scalars P cs []). starts_scalar c"
        using redact_scalars_from [of "[]"] rest by fastforce
      with Cons False show ?thesis by (simp add: flush_scalars_def)
    qed
  qed (simp add: flush_scalars_def)
qed

lemma words_flush:
  assumes "\<forall>c \<in> set tok. is_token_character c"
  shows "words_by breaks_token (flush_scalars P tok) =
    map (\<lambda>w. if P (concat w) then redacted_word else w) (words_by breaks_token tok)"
proof -
  have red: "words_by breaks_token (map (\<lambda>b. [b]) REDACTED_SECRET) = [redacted_word]"
    unfolding REDACTED_SECRET_def redacted_word_def by code_simp
  show ?thesis using assms red by (auto simp: flush_scalars_def words_by_free)
qed

lemma words_redact_scalars:
  "\<forall>c \<in> set tok. is_token_character c \<Longrightarrow>
     words_by breaks_token (redact_scalars P cs tok) =
       map (\<lambda>w. if P (concat w) then redacted_word else w) (words_by breaks_token (tok @ cs))"
proof (induction cs arbitrary: tok)
  case Nil
  then show ?case by (simp add: words_flush)
next
  case (Cons c cs)
  show ?case
  proof (cases "is_token_character c")
    case True
    with Cons.prems Cons.IH [of "tok @ [c]"] show ?thesis by simp
  next
    case False
    with Cons.prems Cons.IH [of "[]"] show ?thesis by (simp add: words_by_append words_flush)
  qed
qed

lemma token_words_redact:
  "token_words (redact_matching_tokens P s) =
     map (\<lambda>w. if P (concat w) then redacted_word else w) (token_words s)"
proof -
  have "redact_matching_tokens P s = concat (redact_scalars P (utf8_chars s) [])"
    using redact_tokens_scalars [of "[]" P "utf8_chars s"] by (simp add: redact_matching_tokens_def)
  then show ?thesis
    using words_redact_scalars [of "[]" P "utf8_chars s"]
    by (simp add: token_words_def utf8_redact_scalars)
qed

section \<open>Taking out paths makes no token\<close>

lemma find_text_at: "find_text p s = Some i \<Longrightarrow> prefix p (drop i s)"
proof (induction s arbitrary: i)
  case (Cons c s)
  then show ?case by (auto simp: starts_with_prefix split: if_splits)
qed (auto split: if_splits)

lemma path_starts:
  assumes "first_local_path_offset s = Some i"
  shows "\<exists>t. drop i s = CHR ''/'' # t"
proof -
  obtain p where "p \<in> set local_prefixes" "prefix p (drop i s)"
    using first_offset_Some(1) [OF assms] find_text_at by blast
  then show ?thesis by (auto simp: local_prefixes_def prefix_def)
qed

lemma boundary_breaks: "is_path_boundary c \<Longrightarrow> breaks_token c"
  by (auto simp: is_path_boundary_def is_whitespace_def is_token_character_def is_ascii_alphanumeric_def
      is_ascii_digit_def is_ascii_alphabetic_def byte_of_def split: list.splits)

lemma redact_local_paths_start:
  "redact_local_paths s = [] \<longleftrightarrow> s = []" and
  redact_local_paths_hd: "s \<noteq> [] \<Longrightarrow> hd (redact_local_paths s) \<in> {hd s, CHR ''[''}"
proof -
  have "s = [] \<longrightarrow> first_local_path_offset s = None"
    using first_offset_bound [of s] by (cases "first_local_path_offset s") auto
  then show "redact_local_paths s = [] \<longleftrightarrow> s = []"
    by (subst redact_local_paths.simps) (auto simp: REDACTED_PATH_def split: option.splits)
  show "hd (redact_local_paths s) \<in> {hd s, CHR ''[''}" if "s \<noteq> []"
    using that
    by (subst redact_local_paths.simps)
      (cases s, auto simp: REDACTED_PATH_def take_Cons' split: option.splits)
qed

definition path_word :: "scalar list" where
  "path_word = map (\<lambda>b. [b]) ''LOCAL_PATH''"

lemma token_words_around:
  assumes "x = [] \<or> \<not> is_continuation (hd x)"
  shows "token_words (a @ REDACTED_PATH @ x) = token_words a @ path_word # token_words x"
proof -
  have u: "utf8_chars (a @ REDACTED_PATH @ x) = utf8_chars a @ ''['' # (path_word @ '']'' # utf8_chars x)"
  proof -
    have "utf8_chars (a @ REDACTED_PATH @ x) = utf8_chars a @ utf8_chars (REDACTED_PATH @ x)"
      by (rule utf8_chars_append) (simp add: REDACTED_PATH_def is_continuation_def byte_of_def)
    also have "utf8_chars (REDACTED_PATH @ x) = utf8_chars REDACTED_PATH @ utf8_chars x"
      by (rule utf8_chars_append [OF assms])
    also have "utf8_chars REDACTED_PATH = ''['' # path_word @ ['']'']"
      unfolding REDACTED_PATH_def path_word_def by code_simp
    finally show ?thesis by simp
  qed
  have breaks: "breaks_token ''[''" "breaks_token '']''" by code_simp+
  have word: "words_by breaks_token path_word = [path_word]" unfolding path_word_def by code_simp
  show ?thesis
    unfolding token_words_def u words_by_append [of breaks_token, OF breaks(1)]
      words_by_append [of breaks_token, OF breaks(2)] word by simp
qed

lemma token_words_paths: "set (token_words (redact_local_paths s)) \<subseteq> insert path_word (set (token_words s))"
proof (induction s rule: redact_local_paths.induct)
  case (1 r)
  show ?case
  proof (cases "first_local_path_offset r")
    case None
    then have "redact_local_paths r = r" by (subst redact_local_paths.simps) simp
    then show ?thesis by auto
  next
    case (Some start)
    define path where "path = drop start r"
    define rest where "rest = drop (local_path_len path) path"
    obtain t where t: "path = CHR ''/'' # t" using path_starts [OF Some] by (auto simp: path_def)
    obtain us where us: "utf8_chars path = (CHR ''/'' # takeWhile is_continuation t) # us"
      by (simp add: t)
    let ?taken = "takeWhile (\<lambda>c. \<not> is_path_boundary c) us"
    let ?left = "dropWhile (\<lambda>c. \<not> is_path_boundary c) us"
    have "path = concat (utf8_chars path)" by simp
    also have "\<dots> = (CHR ''/'' # takeWhile is_continuation t) @ concat ?taken @ concat ?left"
      unfolding us by (simp flip: concat_append)
    finally have left_rest: "rest = concat ?left"
      unfolding rest_def local_path_len_def us by simp
    have chars: "utf8_chars rest = ?left"
      using utf8_chars_sublist [of path "(CHR ''/'' # takeWhile is_continuation t) # ?taken" ?left "[]"]
      by (simp add: us left_rest)
    have start: "rest = [] \<or> \<not> is_continuation (hd rest)"
    proof (cases ?left)
      case Nil
      with left_rest show ?thesis by simp
    next
      case (Cons c cs)
      then have "c \<in> set us" by (metis list.set_intros(1) set_dropWhileD)
      then have "starts_scalar c" using utf8_chars_tl_starts [of c path] by (simp add: us)
      with left_rest Cons show ?thesis by (cases c) (auto simp: starts_scalar_def)
    qed
    have left: "words_by breaks_token (?taken @ ?left) = words_by breaks_token ?taken @ words_by breaks_token ?left"
    proof (cases ?left)
      case (Cons c cs)
      then have "is_path_boundary c" by (metis hd_dropWhile list.sel(1) list.distinct(1))
      then have "breaks_token c" by (rule boundary_breaks)
      with Cons show ?thesis
        using words_by_append [of breaks_token c ?taken cs] words_by_append [of breaks_token c "[]" cs] by simp
    next
      case Nil
      then show ?thesis by (simp only: words_by_Nil append_Nil2)
    qed
    have slash: "breaks_token (CHR ''/'' # takeWhile is_continuation t)"
      by (auto simp: is_token_character_def is_ascii_alphanumeric_def is_ascii_digit_def
          is_ascii_alphabetic_def byte_of_def split: list.splits)
    have "utf8_chars r = utf8_chars (take start r) @ utf8_chars path"
      using utf8_chars_append [of path "take start r"] by (simp add: path_def [symmetric] t is_continuation_def byte_of_def)
        (simp add: path_def flip: t)
    then have words: "token_words r = token_words (take start r) @ words_by breaks_token ?taken @ token_words rest"
      unfolding token_words_def us chars using words_by_append [of breaks_token, OF slash] left by simp
    have x: "redact_local_paths rest = [] \<or> \<not> is_continuation (hd (redact_local_paths rest))"
      using start redact_local_paths_start [of rest] redact_local_paths_hd [of rest]
      by (auto simp: is_continuation_def byte_of_def)
    have "rest = drop (start + local_path_len (drop start r)) r"
      by (simp add: rest_def path_def add.commute)
    moreover from this have "redact_local_paths r = take start r @ REDACTED_PATH @ redact_local_paths rest"
      using Some by (subst redact_local_paths.simps) simp
    ultimately show ?thesis
      using 1 [OF Some] words token_words_around [OF x, of "take start r"] by auto
  qed
qed

section \<open>What follows a marker is not shown\<close>

abbreviation segments :: "string \<Rightarrow> string list" where
  "segments t \<equiv> split_on (\<lambda>c. c = newline) t"

lemma join_segments: "join_with [newline] (segments t) = t"
proof (induction t)
  case (Cons c t)
  obtain s ss where "segments t = s # ss" by (meson list.exhaust split_on_nonempty)
  with Cons show ?case by (cases ss) auto
qed simp

lemma segments_free: "l \<in> set (segments t) \<Longrightarrow> newline \<notin> set l"
proof (induction t arbitrary: l)
  case (Cons c t)
  obtain s ss where "segments t = s # ss" by (meson list.exhaust split_on_nonempty)
  with Cons show ?case by (auto split: if_splits)
qed simp

lemma segments_join:
  "ls \<noteq> [] \<Longrightarrow> \<forall>l \<in> set ls. newline \<notin> set l \<Longrightarrow> segments (join_with [newline] ls) = ls"
proof (induction ls)
  case (Cons l ls)
  have l: "segments l = [l]" using Cons.prems by (intro split_on_free) auto
  show ?case
  proof (cases ls)
    case (Cons l' ls')
    with Cons.IH Cons.prems l show ?thesis by (simp add: join_with_Cons split_on_append)
  qed (simp add: l)
qed simp

lemma segments_append:
  "segments (a @ b) = butlast (segments a) @ [last (segments a) @ hd (segments b)] @ tl (segments b)"
proof (induction a)
  case Nil
  obtain s ss where "segments b = s # ss" by (meson list.exhaust split_on_nonempty)
  then show ?case by simp
next
  case (Cons c a)
  obtain s ss where s: "segments a = s # ss" by (meson list.exhaust split_on_nonempty)
  obtain x xs where x: "segments (a @ b) = x # xs" by (meson list.exhaust split_on_nonempty)
  show ?case
  proof (cases "c = newline")
    case False
    show ?thesis using Cons x s False by (cases ss) auto
  qed (use Cons s in auto)
qed

lemma ends_with_newline: "ends_with t [newline] \<longleftrightarrow> butlast (segments t) \<noteq> [] \<and> last (segments t) = []"
proof (induction t rule: rev_induct)
  case (snoc c t)
  show ?case
    using segments_append [of t "[c]"] by (auto simp: ends_with_def suffix_def butlast_append)
qed (simp add: ends_with_def)

lemma join_lines: "ls \<noteq> [] \<Longrightarrow> concat (map (\<lambda>l. f l @ [newline]) ls) = join_with [newline] (map f ls) @ [newline]"
  by (induction ls) (auto simp: join_with_Cons)

lemma redact_line_Nil: "m \<noteq> [] \<Longrightarrow> redact_line m ci r [] = []"
  by (auto simp: redact_line_def find_marker_def to_ascii_lowercase_def)

text \<open>Taking out what follows a marker, line by line.\<close>

definition redact_segments :: "string \<Rightarrow> bool \<Rightarrow> string \<Rightarrow> string list \<Rightarrow> string list" where
  "redact_segments m ci r ls =
     map (\<lambda>l. redact_line m ci r (strip_cr l)) (butlast ls) @ [redact_line m ci r (last ls)]"

lemma redact_after_marker_segments:
  assumes "m \<noteq> []"
  shows "redact_after_marker_with m ci r t = join_with [newline] (redact_segments m ci r (segments t))"
proof -
  let ?f = "redact_line m ci r" and ?init = "map strip_cr (butlast (segments t))"
  have snoc: "join_with [newline] (ls @ [l]) = (if ls = [] then l else join_with [newline] ls @ [newline] @ l)"
    for ls and l :: string
    by (induction ls) (auto simp: join_with_Cons)
  show ?thesis
  proof (cases "last (segments t) = []")
    case True
    then have lines: "rust_lines t = ?init" by (simp add: rust_lines_def Let_def)
    show ?thesis
    proof (cases "butlast (segments t) = []")
      case None: True
      with True lines show ?thesis
        by (simp add: redact_after_marker_with_def redact_segments_def redact_line_Nil [OF assms]
            ends_with_newline)
    next
      case False
      with True lines join_lines [of ?init ?f] show ?thesis
        by (simp add: redact_after_marker_with_def redact_segments_def redact_line_Nil [OF assms]
            ends_with_newline snoc comp_def)
    qed
  next
    case False
    then have lines: "rust_lines t = ?init @ [last (segments t)]" by (simp add: rust_lines_def Let_def)
    with False join_lines [of "?init @ [last (segments t)]" ?f] show ?thesis
      by (simp add: redact_after_marker_with_def redact_segments_def ends_with_newline comp_def butlast_append)
  qed
qed

lemma find_text_iff:
  "find_text p s = Some i \<longleftrightarrow> i \<le> length s \<and> prefix p (drop i s) \<and> (\<forall>j < i. \<not> prefix p (drop j s))"
proof (induction s arbitrary: i)
  case (Cons c s)
  show ?case
  proof (cases "prefix p (c # s)")
    case True
    then have "find_text p (c # s) = Some 0" by (simp add: starts_with_prefix)
    with True show ?thesis by (cases i) auto
  next
    case False
    then have f: "find_text p (c # s) = map_option Suc (find_text p s)" by (simp add: starts_with_prefix)
    show ?thesis
    proof (cases i)
      case (Suc k)
      have "find_text p (c # s) = Some i \<longleftrightarrow> find_text p s = Some k" unfolding f Suc by auto
      with Cons.IH [of k] False show ?thesis by (simp add: Suc All_less_Suc2)
    next
      case 0
      with False f show ?thesis by simp
    qed
  qed
qed auto

lemma prefix_drop_take:
  fixes p :: string
  shows "j + length p \<le> k \<Longrightarrow> take k s = take k t \<Longrightarrow> prefix p (drop j s) \<longleftrightarrow> prefix p (drop j t)"
proof -
  assume k: "j + length p \<le> k" "take k s = take k t"
  have part: "take (length p) (drop j u) = take (length p) (drop j (take k u))" for u :: string
    using k(1) by (simp add: drop_take min_absorb1)
  have "prefix p u \<longleftrightarrow> take (length p) u = p" for u :: string
    using starts_with_prefix [of u p] by (simp add: starts_with_def)
  with part [of s] part [of t] k(2) show ?thesis by simp
qed

lemma find_text_prefix:
  assumes "find_text p s = Some i" and "i + length p \<le> k" and "take k s = take k t"
  shows "find_text p t = Some i"
proof -
  have "prefix p (drop j s) \<longleftrightarrow> prefix p (drop j t)" if "j \<le> i" for j
    using prefix_drop_take [of j p k s t] that assms(2,3) by simp
  moreover have "i \<le> length t"
    using find_text_bound [OF assms(1)] assms(2,3) by (metis add_leD1 le_trans length_take min.bounded_iff)
  ultimately show ?thesis using assms(1) unfolding find_text_iff by auto
qed

lemma find_marker_prefix:
  assumes "find_marker m ci s = Some i" and "i + length m \<le> k" and "take k s = take k t"
  shows "find_marker m ci t = Some i"
proof (cases ci)
  case True
  have "take k (to_ascii_lowercase s) = take k (to_ascii_lowercase t)"
    using assms(3) by (simp add: to_ascii_lowercase_def take_map)
  with True assms(1,2) find_text_prefix [of "to_ascii_lowercase m" "to_ascii_lowercase s" i k]
  show ?thesis by (simp add: find_marker_def to_ascii_lowercase_def)
next
  case False
  with assms find_text_prefix [of m s i k t] show ?thesis by (simp add: find_marker_def)
qed

lemma find_marker_bound: "find_marker m ci s = Some i \<Longrightarrow> i + length m \<le> length s"
  using find_text_bound [of "to_ascii_lowercase m" "to_ascii_lowercase s" i] find_text_bound [of m s i]
  by (cases ci) (simp_all add: find_marker_def to_ascii_lowercase_def)

lemma find_marker_within:
  assumes "w = m \<or> ci \<and> to_ascii_lowercase w = to_ascii_lowercase m"
  shows "\<exists>i. find_marker m ci (a @ w @ s) = Some i \<and> i + length m \<le> length (a @ w)"
proof -
  have len: "length w = length m"
    using assms by (auto simp: to_ascii_lowercase_def dest: map_eq_imp_length_eq)
  show ?thesis
  proof (cases ci)
    case True
    with assms have "to_ascii_lowercase w = to_ascii_lowercase m" by auto
    then have "sublist (to_ascii_lowercase m) (take (length (a @ w)) (to_ascii_lowercase (a @ w @ s)))"
      using len by (simp add: to_ascii_lowercase_def suffix_imp_sublist)
    from find_text_within [OF this] True show ?thesis
      by (simp add: find_marker_def to_ascii_lowercase_def)
  next
    case False
    with assms have "w = m" by auto
    then have "sublist m (take (length (a @ w)) (a @ w @ s))" by (simp add: suffix_imp_sublist)
    from find_text_within [OF this] False show ?thesis by (simp add: find_marker_def)
  qed
qed

text \<open>Two lines that differ, if at all, only behind the first marker.\<close>

definition agrees :: "string \<Rightarrow> bool \<Rightarrow> string \<Rightarrow> string \<Rightarrow> bool" where
  "agrees m ci l1 l2 \<longleftrightarrow>
     l1 = l2 \<or>
     (\<exists>i. find_marker m ci l1 = Some i \<and> take (i + length m) l1 = take (i + length m) l2)"

lemma agrees_same: "agrees m ci l l"
  by (simp add: agrees_def)

lemma agrees_hidden:
  assumes "agrees m ci l1 l2"
  shows "redact_line m ci r l1 = redact_line m ci r l2"
proof (cases "l1 = l2")
  case False
  with assms obtain i where i: "find_marker m ci l1 = Some i"
    "take (i + length m) l1 = take (i + length m) l2" by (auto simp: agrees_def)
  then have "find_marker m ci l2 = Some i" using find_marker_prefix by blast
  with i show ?thesis by (simp add: redact_line_def)
qed simp

text \<open>Another marker either stands before the values that differ, and takes them both out, or leaves
  what is before them.\<close>

lemma redact_line_keeps:
  assumes "k \<le> length l" and "\<forall>j. find_marker m ci l = Some j \<longrightarrow> k < j + length m"
  shows "take k (redact_line m ci r l) = take k l"
  using assms find_marker_bound [of m ci l]
  by (fastforce simp: redact_line_def split: option.splits)

lemma agrees_redact:
  assumes "agrees m ci l1 l2"
  shows "agrees m ci (redact_line m' ci' r l1) (redact_line m' ci' r l2)"
proof (cases "l1 = l2")
  case False
  with assms obtain i where i: "find_marker m ci l1 = Some i"
    and same: "take (i + length m) l1 = take (i + length m) l2" by (auto simp: agrees_def)
  define k where "k = i + length m"
  note same = same [folded k_def]
  have k1: "k \<le> length l1" using find_marker_bound [OF i] by (simp add: k_def)
  then have k2: "k \<le> length l2" using same by (metis length_take min.absorb2 min.cobounded1)
  show ?thesis
  proof (cases "\<exists>j. find_marker m' ci' l1 = Some j \<and> j + length m' \<le> k")
    case True
    then obtain j where j: "find_marker m' ci' l1 = Some j" "j + length m' \<le> k" by blast
    then have "find_marker m' ci' l2 = Some j" using find_marker_prefix same by blast
    moreover have "take (j + length m') l1 = take (j + length m') l2"
      using j(2) same by (metis min.absorb1 take_take)
    ultimately show ?thesis using j(1) by (simp add: redact_line_def agrees_same)
  next
    case no: False
    moreover have "\<not> (\<exists>j. find_marker m' ci' l2 = Some j \<and> j + length m' \<le> k)"
      using no find_marker_prefix same [symmetric] by blast
    ultimately have "take k (redact_line m' ci' r l1) = take k l1"
      and "take k (redact_line m' ci' r l2) = take k l2"
      using redact_line_keeps [OF k1] redact_line_keeps [OF k2] by (meson not_le)+
    with i same find_marker_prefix [OF i, of k "redact_line m' ci' r l1"] show ?thesis
      by (auto simp: agrees_def k_def)
  qed
qed (simp add: agrees_same)

lemma find_marker_last:
  assumes "find_marker m ci l = Some i" and "m \<noteq> []" and "last m \<noteq> CHR 0x0D"
  shows "l ! (i + length m - 1) \<noteq> CHR 0x0D"
proof -
  have at: "p ! (length p - 1) = s ! (j + length p - 1)"
    if found: "find_text p s = Some j" and "p \<noteq> []" for p s j
  proof -
    obtain rest where "drop j s = p @ rest" using find_text_at [OF found] by (auto simp: prefix_def)
    then have "drop j s ! (length p - 1) = p ! (length p - 1)"
      using \<open>p \<noteq> []\<close> by (simp add: nth_append)
    then show ?thesis using find_text_bound [OF found] \<open>p \<noteq> []\<close> by (simp add: Suc_leI)
  qed
  have bound: "i + length m - 1 < length l"
    using find_marker_bound [OF assms(1)] assms(2) by (cases m) auto
  have low: "to_ascii_lowercase_char c = CHR 0x0D \<longleftrightarrow> c = CHR 0x0D" for c
    using byte_of_lowercase_iff [of 13 c] unfolding byte_of_inject [symmetric] by (simp add: byte_of_def)
  show ?thesis
  proof (cases ci)
    case True
    with assms at [of "to_ascii_lowercase m" "to_ascii_lowercase l" i]
    have "to_ascii_lowercase_char (last m) = to_ascii_lowercase_char (l ! (i + length m - 1))"
      using bound by (simp add: find_marker_def to_ascii_lowercase_def last_conv_nth)
    with low assms(3) show ?thesis by metis
  next
    case False
    with assms at [of m l i] show ?thesis by (simp add: find_marker_def last_conv_nth)
  qed
qed

lemma strip_cr_keeps:
  assumes "0 < k" and "k \<le> length l" and "l ! (k - 1) \<noteq> CHR 0x0D"
  shows "take k (strip_cr l) = take k l"
proof (cases "k = length l")
  case True
  with assms have "last l \<noteq> CHR 0x0D" by (simp add: last_conv_nth)
  then show ?thesis by (simp add: strip_cr_def)
qed (use assms in \<open>simp add: strip_cr_def butlast_conv_take min_absorb1\<close>)

lemma agrees_strip:
  assumes "agrees m ci l1 l2" and m: "m \<noteq> []" "last m \<noteq> CHR 0x0D"
  shows "agrees m ci (strip_cr l1) (strip_cr l2)"
proof (cases "l1 = l2")
  case False
  with assms(1) obtain i where i: "find_marker m ci l1 = Some i"
    and same: "take (i + length m) l1 = take (i + length m) l2" by (auto simp: agrees_def)
  define k where "k = i + length m"
  have k1: "k \<le> length l1" "0 < k" using find_marker_bound [OF i] m by (simp_all add: k_def)
  have k2: "k \<le> length l2" using k1 same [folded k_def] by (metis length_take min.absorb2 min.cobounded1)
  have j: "find_marker m ci l2 = Some i" using find_marker_prefix [OF i _ same] by simp
  have "take k (strip_cr l1) = take k l1" "take k (strip_cr l2) = take k l2"
    using strip_cr_keeps [OF k1(2,1)] strip_cr_keeps [OF k1(2) k2]
      find_marker_last [OF i m] find_marker_last [OF j m] by (simp_all add: k_def)
  with same find_marker_prefix [OF i, of k "strip_cr l1"] show ?thesis
    by (auto simp: agrees_def k_def)
qed (simp add: agrees_same)

definition good_step :: "string \<times> bool \<times> string \<Rightarrow> bool" where
  "good_step = (\<lambda>(m, ci, r).
     m \<noteq> [] \<and> last m \<noteq> CHR 0x0D \<and> newline \<notin> set m \<and> newline \<notin> set r)"

lemma redaction_steps_good: "step \<in> set redaction_steps \<Longrightarrow> good_step step"
proof -
  have "list_all good_step redaction_steps" by code_simp
  then show "step \<in> set redaction_steps \<Longrightarrow> good_step step" by (simp add: list_all_iff)
qed

lemma segments_redact:
  assumes "m \<noteq> []" and "newline \<notin> set r"
  shows "segments (redact_after_marker_with m ci r t) = redact_segments m ci r (segments t)"
proof -
  have red: "newline \<notin> set l \<Longrightarrow> newline \<notin> set (redact_line m ci r l)" for l
    using assms(2) set_take_subset [of _ l]
    by (auto simp: redact_line_def newline_def split: option.splits)
  have strip: "newline \<notin> set l \<Longrightarrow> newline \<notin> set (strip_cr l)" for l
    by (auto simp: strip_cr_def dest: in_set_butlastD)
  have "segments t \<noteq> []" by (rule split_on_nonempty)
  then have "\<forall>l \<in> set (redact_segments m ci r (segments t)). newline \<notin> set l"
    using segments_free [of _ t] red strip
    by (auto simp: redact_segments_def dest: in_set_butlastD)
  then show ?thesis
    unfolding redact_after_marker_segments [OF assms(1)]
    by (intro segments_join) (simp_all add: redact_segments_def)
qed

lemma redact_segments_agree:
  assumes "list_all2 (agrees m ci) ls1 ls2" and "ls1 \<noteq> []" and m: "m \<noteq> []" "last m \<noteq> CHR 0x0D"
  shows "list_all2 (agrees m ci) (redact_segments m' ci' r ls1) (redact_segments m' ci' r ls2)"
    and "redact_segments m ci r ls1 = redact_segments m ci r ls2"
proof -
  obtain a x b y where ls: "ls1 = a @ [x]" "ls2 = b @ [y]"
    using assms(1,2) by (metis append_butlast_last_id list_all2_Nil2)
  with assms(1) have len: "length a = length b" by (auto dest: list_all2_lengthD)
  with assms(1) ls have ab: "list_all2 (agrees m ci) a b" "agrees m ci x y"
    by (simp_all add: list_all2_append)
  show "list_all2 (agrees m ci) (redact_segments m' ci' r ls1) (redact_segments m' ci' r ls2)"
    using ab len by (simp add: ls redact_segments_def list_all2_append list_all2_map1 list_all2_map2
        agrees_redact) (erule list_all2_mono, intro agrees_redact agrees_strip m)
  have "map (\<lambda>l. redact_line m ci r (strip_cr l)) a = map (\<lambda>l. redact_line m ci r (strip_cr l)) b"
    using ab(1) by (induction rule: list_all2_induct) (auto intro!: agrees_hidden agrees_strip m)
  with agrees_hidden [OF ab(2)] show "redact_segments m ci r ls1 = redact_segments m ci r ls2"
    by (simp add: ls redact_segments_def)
qed

definition redact_step :: "string \<times> bool \<times> string \<Rightarrow> string \<Rightarrow> string" where
  "redact_step = (\<lambda>(marker, ci, replacement). redact_after_marker_with marker ci replacement)"

lemma steps_agree:
  assumes m: "m \<noteq> []" "last m \<noteq> CHR 0x0D" and "\<forall>step \<in> set steps. good_step step"
    and "list_all2 (agrees m ci) (segments t1) (segments t2)"
  shows "list_all2 (agrees m ci) (segments (fold redact_step steps t1)) (segments (fold redact_step steps t2))"
  using assms(3,4)
proof (induction steps arbitrary: t1 t2)
  case (Cons step steps)
  obtain m' ci' r where step: "step = (m', ci', r)" by (cases step) auto
  with Cons.prems(1) have "m' \<noteq> []" "newline \<notin> set r" by (auto simp: good_step_def)
  then have "list_all2 (agrees m ci) (segments (redact_step step t1)) (segments (redact_step step t2))"
    using redact_segments_agree(1) [OF Cons.prems(2) split_on_nonempty m]
    by (simp add: redact_step_def step segments_redact)
  with Cons show ?case by simp
qed simp

lemma marked_value_irrelevant:
  assumes "(m, ci, r) \<in> set redaction_steps"
    and w: "w = m \<or> ci \<and> to_ascii_lowercase w = to_ascii_lowercase m"
    and s: "newline \<notin> set s1" "newline \<notin> set s2"
    and post: "post = [] \<or> hd post = newline"
  shows "redact_marked_values (pre @ w @ s1 @ post) = redact_marked_values (pre @ w @ s2 @ post)"
proof -
  obtain before after where steps: "redaction_steps = before @ (m, ci, r) # after"
    using split_list [OF assms(1)] by blast
  have good: "good_step (m, ci, r)" "\<forall>step \<in> set before. good_step step"
    by (rule redaction_steps_good, simp add: steps) (simp add: redaction_steps_good steps)
  then have m: "m \<noteq> []" "last m \<noteq> CHR 0x0D" "newline \<notin> set m" "newline \<notin> set r"
    by (auto simp: good_step_def)
  have low: "to_ascii_lowercase_char c = newline \<longleftrightarrow> c = newline" for c
    using byte_of_lowercase_iff [of 10 c]
    unfolding byte_of_inject [symmetric] by (simp add: byte_of_def newline_def)
  have in_low: "newline \<in> set (to_ascii_lowercase u) \<longleftrightarrow> newline \<in> set u" for u
  proof -
    have "newline = to_ascii_lowercase_char c \<longleftrightarrow> c = newline" for c using low [of c] by metis
    then show ?thesis by (simp add: to_ascii_lowercase_def image_iff)
  qed
  have "newline \<notin> set w" using w m(3) in_low [of w] in_low [of m] by auto
  define a where "a = last (segments pre)"
  have front: "segments (pre @ w @ s @ post) = butlast (segments pre) @ [a @ w @ s] @ tl (segments post)"
    if "newline \<notin> set s" for s
  proof -
    have "segments (w @ s) = [w @ s]" using that \<open>newline \<notin> set w\<close> by (intro split_on_free) auto
    moreover have "hd (segments post) = []" using post by (cases post) auto
    ultimately have "segments ((w @ s) @ post) = (w @ s) # tl (segments post)"
      using segments_append [of "w @ s" post] by simp
    then show ?thesis using segments_append [of pre "w @ s @ post"] by (simp add: a_def)
  qed
  obtain i where i: "find_marker m ci (a @ w @ s1) = Some i" "i + length m \<le> length (a @ w)"
    using find_marker_within [OF w] by blast
  then have "agrees m ci (a @ w @ s1) (a @ w @ s2)"
    using take_append [of "i + length m" "a @ w"] by (simp add: agrees_def)
  then have "list_all2 (agrees m ci) (segments (pre @ w @ s1 @ post)) (segments (pre @ w @ s2 @ post))"
    unfolding front [OF s(1)] front [OF s(2)]
    by (intro list_all2_appendI) (auto intro: list_all2_refl agrees_same)
  note same = steps_agree [OF m(1,2) good(2) this]
  have "segments (redact_step (m, ci, r) (fold redact_step before (pre @ w @ s1 @ post))) =
      segments (redact_step (m, ci, r) (fold redact_step before (pre @ w @ s2 @ post)))"
    using redact_segments_agree(2) [OF same split_on_nonempty m(1,2)] m(1,4)
    by (simp add: redact_step_def segments_redact)
  then have "redact_step (m, ci, r) (fold redact_step before (pre @ w @ s1 @ post)) =
      redact_step (m, ci, r) (fold redact_step before (pre @ w @ s2 @ post))"
    by (metis join_segments)
  then show ?thesis
    unfolding redact_marked_values_def redact_step_def [symmetric] steps by simp
qed

section \<open>What a bundle shows\<close>

text \<open>The texts of a bundle that come from the machine: labels, details, connection states and logs.\<close>

definition check_texts :: "diagnostic_check \<Rightarrow> string list" where
  "check_texts check = dc_label check # (case dc_detail check of Some d \<Rightarrow> [d] | None \<Rightarrow> [])"

definition bundle_texts :: "diagnostics_bundle \<Rightarrow> string list" where
  "bundle_texts b =
     check_texts (db_codex_adapter b) @ check_texts (db_bridge b) @ check_texts (db_tunnel b)
       @ db_recent_connection_states b @ map dl_text (db_logs b)"

definition input_texts :: "bundle_input \<Rightarrow> string list" where
  "input_texts b =
     check_texts (bi_codex_adapter b) @ check_texts (bi_bridge b) @ check_texts (bi_tunnel b)
       @ bi_recent_connection_states b @ map dl_text (bi_logs b)"

lemma redacted_check_texts:
  "check_texts (redacted_check host_of c) = map (redact_sensitive_text host_of) (check_texts c)"
  by (simp add: check_texts_def redacted_check_def split: option.splits)

lemma build_bundle_texts:
  "bundle_texts (build_diagnostics_bundle host_of now input) =
     map (redact_sensitive_text host_of) (input_texts input)"
  by (simp add: bundle_texts_def input_texts_def build_diagnostics_bundle_def redacted_check_texts)

lemma plain_words:
  "\<not> is_api_key_like (concat redacted_word)" "\<not> is_uuid_like (concat redacted_word)"
  "\<not> is_api_key_like (concat path_word)" "\<not> is_uuid_like (concat path_word)"
  unfolding redacted_word_def path_word_def by code_simp+

lemma no_secret_words:
  assumes "w \<in> set (token_words (redact_sensitive_text host_of t))"
  shows "\<not> is_api_key_like (concat w) \<and> \<not> is_uuid_like (concat w)"
proof -
  define a where "a = redact_push_endpoints host_of (redact_marked_values t)"
  define b where "b = redact_api_key_like_tokens a"
  define c where "c = redact_uuid_like_tokens b"
  have b: "\<not> is_api_key_like (concat w)" if "w \<in> set (token_words b)" for w
    using that plain_words
    by (auto simp: b_def redact_api_key_like_tokens_def token_words_redact split: if_splits)
  have c: "\<not> is_api_key_like (concat w) \<and> \<not> is_uuid_like (concat w)" if "w \<in> set (token_words c)" for w
    using that plain_words b
    by (auto simp: c_def redact_uuid_like_tokens_def token_words_redact split: if_splits)
  have "w = path_word \<or> w \<in> set (token_words c)"
    using assms token_words_paths [of c]
    by (auto simp: redact_sensitive_text_def a_def [symmetric] b_def [symmetric] c_def [symmetric])
  with c plain_words show ?thesis by blast
qed

text \<open>
  C27. No text of a bundle has one of the prefixes of local paths anywhere in it, and none of its
  tokens, the longest runs of letters, digits, \<open>-\<close>, \<open>_\<close> and \<open>.\<close>, looks like an API key or a UUID.
\<close>
theorem bundle_shows_no_secret:
  assumes "t \<in> set (bundle_texts (build_diagnostics_bundle host_of now input))"
  shows "(\<forall>p \<in> set local_prefixes. \<not> contains t p) \<and>
    (\<forall>w \<in> set (token_words t). \<not> is_api_key_like (concat w) \<and> \<not> is_uuid_like (concat w))"
proof -
  obtain t0 where t: "t = redact_sensitive_text host_of t0"
    using assms by (auto simp: build_bundle_texts)
  then have "\<forall>p \<in> set local_prefixes. \<not> contains t p"
    by (simp add: redact_sensitive_text_def no_local_path_left)
  with t no_secret_words show ?thesis by blast
qed

text \<open>
  C28. A value that follows one of the markers on its line (a header name in any case, an environment
  assignment, an option of \<open>cloudflared\<close> or a key of a push subscription) has no effect on the
  redacted text: two texts that differ only in that value are redacted to the same text.
\<close>
theorem marked_values_hidden:
  assumes "(m, ci, r) \<in> set redaction_steps"
    and "w = m \<or> ci \<and> eq_ignore_ascii_case w m"
    and "newline \<notin> set s1" and "newline \<notin> set s2"
    and "post = [] \<or> hd post = newline"
  shows "redact_sensitive_text host_of (pre @ w @ s1 @ post) =
    redact_sensitive_text host_of (pre @ w @ s2 @ post)"
  using marked_value_irrelevant [of m ci r w s1 s2 post pre] assms
  by (simp add: redact_sensitive_text_def eq_ignore_ascii_case_def)

section \<open>Concrete texts\<close>

definition demo_host :: "string \<Rightarrow> string option" where
  "demo_host u = (if starts_with u ''https://'' then Some ''push.example'' else None)"

definition demo_check :: diagnostic_check where
  "demo_check = check_degraded ''up'' ''key sk-abc at /Users/x/y''"

definition demo_input :: bundle_input where
  "demo_input = \<lparr>bi_app_version = ''1'', bi_sidecar_version = None, bi_codex_adapter = demo_check,
     bi_bridge = demo_check, bi_tunnel = demo_check, bi_recent_connection_states = [], bi_logs = []\<rparr>"

theorem bundle_shows_no_secret_witness:
  "''key [REDACTED] at [LOCAL_PATH]'' \<in> set (bundle_texts (build_diagnostics_bundle demo_host 7 demo_input))
   \<and> \<not> contains ''key [REDACTED] at [LOCAL_PATH]'' ''/Users/''"
proof -
  have "redact_sensitive_text demo_host ''key sk-abc at /Users/x/y'' = ''key [REDACTED] at [LOCAL_PATH]''"
    by code_simp
  then have m: "''key [REDACTED] at [LOCAL_PATH]''
      \<in> set (bundle_texts (build_diagnostics_bundle demo_host 7 demo_input))"
    by (simp add: build_bundle_texts input_texts_def demo_input_def demo_check_def check_degraded_def check_texts_def)
  with bundle_shows_no_secret [OF m] show ?thesis by (simp add: local_prefixes_def)
qed

theorem marked_values_hidden_witness:
  "redact_sensitive_text demo_host (''GET / Authorization:'' @ '' Bearer abc'' @ []) =
   redact_sensitive_text demo_host (''GET / Authorization:'' @ '' x'' @ [])"
proof -
  have 1: "(''authorization:'', True, REDACTED_SECRET) \<in> set redaction_steps"
    by (simp add: redaction_steps_def)
  have 2: "''Authorization:'' = ''authorization:'' \<or>
      True \<and> eq_ignore_ascii_case ''Authorization:'' ''authorization:''"
    by code_simp
  have 3: "newline \<notin> set '' Bearer abc''" "newline \<notin> set '' x''" by (simp_all add: newline_def)
  show ?thesis
    using marked_values_hidden [OF 1 2 3, of "[]" demo_host "''GET / ''"] by simp
qed

text \<open>A UUID that ends a sentence is not taken out: the period belongs to its token.\<close>

lemma uuid_before_period:
  "redact_uuid_like_tokens ''thread 123e4567-e89b-12d3-a456-426614174000'' = ''thread [REDACTED]''"
  "redact_uuid_like_tokens ''thread 123e4567-e89b-12d3-a456-426614174000.'' =
     ''thread 123e4567-e89b-12d3-a456-426614174000.''"
  by code_simp+

text \<open>A path with a space in it is only taken out up to the space.\<close>

lemma path_with_space:
  "redact_local_paths ''/Users/x/Library/Application Support/codex/key'' = ''[LOCAL_PATH] Support/codex/key''"
  by code_simp

end
