(* ===== verification/Api_State.thy ===== *)
theory Api_State
  imports Pairing Live_Events Message_Delivery Workspace Uploads Debugging_Client
begin

text \<open>
  The state of the HTTP API, \<open>AppState\<close> of \<open>crates/bridge-core/src/http_api.rs\<close>, its errors with the
  status and the body each becomes, and what a request brings: its headers, and what the environment
  answers while it is handled. The bridge opens the stores of pairing and of notifications on one
  database file, so the model has one database.
\<close>

section \<open>Errors\<close>

datatype api_error =
    ApiUnauthorized
  | ApiBadRequest string
  | ApiForbidden string
  | ApiNotFound string
  | ApiUnsupportedMediaType string
  | ApiInternal string
  | ApiAdapterUnavailable
  | ApiPushUnavailable
  | ApiInvalidSubscription
  | ApiWorkspace api_error_code string
  | ApiPairing pairing_error
  | ApiAdapter codex_rpc_error

fun api_error_from_workspace :: "workspace_validation_error \<Rightarrow> api_error" where
  "api_error_from_workspace Required = ApiWorkspace WorkspaceRequired ''workspace is required''"
| "api_error_from_workspace NotAllowed = ApiWorkspace WorkspaceNotAllowed ''workspace is not allowed''"
| "api_error_from_workspace Unavailable = ApiWorkspace WorkspaceUnavailable ''workspace is unavailable''"

fun api_error_from_upload :: "upload_error \<Rightarrow> api_error" where
  "api_error_from_upload (UploadBadRequest m) = ApiBadRequest m"
| "api_error_from_upload (UploadInternal m) = ApiInternal m"
| "api_error_from_upload (UploadUnsupported m) = ApiUnsupportedMediaType m"

record error_response =
  er_status :: nat
  er_code :: api_error_code
  er_message :: string

fun error_into_response :: "api_error \<Rightarrow> error_response" where
  "error_into_response ApiUnauthorized =
     \<lparr>er_status = 401, er_code = Unauthorized, er_message = ''unauthorized''\<rparr>"
| "error_into_response (ApiBadRequest m) =
     \<lparr>er_status = 400, er_code = InvalidRequest, er_message = m\<rparr>"
| "error_into_response (ApiForbidden m) =
     \<lparr>er_status = 403, er_code = Forbidden, er_message = m\<rparr>"
| "error_into_response (ApiNotFound m) =
     \<lparr>er_status = 404, er_code = NotFound, er_message = m\<rparr>"
| "error_into_response (ApiUnsupportedMediaType m) =
     \<lparr>er_status = 415, er_code = UnsupportedMediaType, er_message = m\<rparr>"
| "error_into_response (ApiInternal m) =
     \<lparr>er_status = 500, er_code = InternalError, er_message = m\<rparr>"
| "error_into_response ApiAdapterUnavailable =
     \<lparr>er_status = 502, er_code = AdapterError, er_message = ''desktop adapter is unavailable''\<rparr>"
| "error_into_response ApiPushUnavailable =
     \<lparr>er_status = 409, er_code = PushUnavailable,
      er_message = ''push notifications are unavailable for this origin''\<rparr>"
| "error_into_response ApiInvalidSubscription =
     \<lparr>er_status = 400, er_code = InvalidSubscriptionCode, er_message = ''push subscription is invalid''\<rparr>"
| "error_into_response (ApiWorkspace code m) =
     \<lparr>er_status = 400, er_code = code, er_message = m\<rparr>"
| "error_into_response (ApiPairing InvalidToken) =
     \<lparr>er_status = 400, er_code = InvalidPairingToken, er_message = ''invalid pairing token''\<rparr>"
| "error_into_response (ApiPairing TokenAlreadyUsed) =
     \<lparr>er_status = 400, er_code = InvalidPairingToken, er_message = ''invalid pairing token''\<rparr>"
| "error_into_response (ApiPairing ExpiredToken) =
     \<lparr>er_status = 400, er_code = ExpiredPairingToken, er_message = ''expired token''\<rparr>"
| "error_into_response (ApiPairing DeviceRevoked) =
     \<lparr>er_status = 403, er_code = DeviceRevokedCode, er_message = ''device revoked''\<rparr>"
| "error_into_response (ApiPairing DeviceNotFound) =
     \<lparr>er_status = 404, er_code = DeviceNotFoundCode, er_message = ''device not found''\<rparr>"
| "error_into_response (ApiAdapter e) =
     \<lparr>er_status = 502, er_code = AdapterError, er_message = codex_rpc_error_text e\<rparr>"

section \<open>The state\<close>

text \<open>When the title of a thread may be asked for again; an \<open>Instant\<close> is a number of milliseconds.\<close>

record enrichment_retry =
  rt_attempts :: u32
  rt_next_attempt_at :: nat

text \<open>
  \<open>as_live\<close> holds what notifications change (the database, the hub, histories, caches, approvals and
  images); \<open>as_adapter\<close> says whether the bridge found the desktop app, \<open>as_vapid_key\<close> is the public
  key, \<open>as_push_runtime\<close> whether the dispatcher queues pushes.
\<close>

record api_state =
  as_live :: live_state
  as_pairing :: pairing_manager
  as_dedupe :: dedupe_cache
  as_refresh_failures :: "string \<rightharpoonup> u64"
  as_retries :: "string \<rightharpoonup> enrichment_retry"
  as_subagents :: "string set"
  as_client :: rpc_client
  as_adapter :: bool
  as_control_token :: string
  as_instance_id :: string
  as_diagnostics :: diagnostics_report
  as_vapid_key :: "string option"
  as_push_runtime :: bool

type_synonym 'a api = "(api_state, api_error, 'a) action"

definition api_db :: "api_state \<Rightarrow> db" where
  "api_db st = store_db (lv_bridge (as_live st))"

definition with_db :: "db \<Rightarrow> api_state \<Rightarrow> api_state" where
  "with_db s st = st\<lparr>as_live := (as_live st)\<lparr>lv_bridge := (lv_bridge (as_live st))\<lparr>store_db := s\<rparr>\<rparr>\<rparr>"

definition with_live :: "(live_state \<Rightarrow> live_state) \<Rightarrow> api_state \<Rightarrow> api_state" where
  "with_live f st = st\<lparr>as_live := f (as_live st)\<rparr>"

definition api_access :: "api_state \<Rightarrow> public_access_context" where
  "api_access st = access (lv_bridge (as_live st))"

definition with_access :: "public_access_context \<Rightarrow> api_state \<Rightarrow> api_state" where
  "with_access c st = st\<lparr>as_live := (as_live st)\<lparr>lv_bridge := (lv_bridge (as_live st))\<lparr>access := c\<rparr>\<rparr>\<rparr>"

definition api_hub :: "api_state \<Rightarrow> json event_hub" where
  "api_hub st = hub_of (as_live st)"

definition with_api_hub :: "(json event_hub \<Rightarrow> nat \<times> json event_hub) \<Rightarrow> api_state \<Rightarrow> api_state" where
  "with_api_hub f = with_live (with_hub f)"

text \<open>
  A call of the pairing manager. Its store is the database, so the manager is given the database as
  its store, and gives it back.
\<close>

definition pairing_of :: "api_state \<Rightarrow> pairing_manager" where
  "pairing_of st = (as_pairing st)\<lparr>pm_store := api_db st\<rparr>"

definition with_pairing :: "pairing_manager \<Rightarrow> api_state \<Rightarrow> api_state" where
  "with_pairing pm st =
     with_db (pm_store pm) (st\<lparr>as_pairing := pm\<lparr>pm_store := pm_store (as_pairing st)\<rparr>\<rparr>)"

definition on_pairing :: "'a pairing_op \<Rightarrow> (api_state, pairing_error, 'a) action" where
  "on_pairing m st = (case m (pairing_of st) of (r, pm) \<Rightarrow> (r, with_pairing pm st))"

text \<open>A call of the notification store, its error replaced.\<close>

definition on_db :: "api_error \<Rightarrow> 'a db_op \<Rightarrow> 'a api" where
  "on_db e m st =
     (case m (api_db st) of
        (Inl _, s) \<Rightarrow> (Inl e, with_db s st)
      | (Inr a, s) \<Rightarrow> (Inr a, with_db s st))"

text \<open>A call of the adapter; \<open>?\<close> turns its error.\<close>

definition on_client :: "'a rpc \<Rightarrow> 'a api" where
  "on_client m st =
     (case m (as_client st) of
        (Inl e, c) \<Rightarrow> (Inl (ApiAdapter e), st\<lparr>as_client := c\<rparr>)
      | (Inr a, c) \<Rightarrow> (Inr a, st\<lparr>as_client := c\<rparr>))"

definition modify :: "('s \<Rightarrow> 's) \<Rightarrow> ('s, 'e, unit) action" where
  "modify f s = (Inr (), f s)"

definition gets :: "('s \<Rightarrow> 'a) \<Rightarrow> ('s, 'e, 'a) action" where
  "gets f s = (Inr (f s), s)"

definition lift_sum :: "('e \<Rightarrow> api_error) \<Rightarrow> 'e + 'a \<Rightarrow> 'a api" where
  "lift_sum f r = (case r of Inl e \<Rightarrow> err (f e) | Inr a \<Rightarrow> ok a)"

lemma modify_run [action_simps]: "modify f s = (Inr (), f s)"
  by (simp add: modify_def)

lemma gets_run [action_simps]: "gets f s = (Inr (f s), s)"
  by (simp add: gets_def)

lemma lift_sum_run [action_simps]:
  "lift_sum f r s = ((case r of Inl e \<Rightarrow> Inl (f e) | Inr a \<Rightarrow> Inr a), s)"
  by (simp add: lift_sum_def err_def ok_def split: sum.split)

section \<open>A request\<close>

text \<open>\<open>HeaderMap::get\<close>, by the lower-case name; \<open>to_str\<close> gives a text of visible ASCII.\<close>

type_synonym header_map = "string \<rightharpoonup> string"

definition header_to_str :: "string \<Rightarrow> string option" where
  "header_to_str v =
     (if list_all (\<lambda>c. 32 \<le> byte_of c \<and> byte_of c < 127 \<or> c = CHR 0x09) v then Some v else None)"

text \<open>What \<open>url::Url\<close> gives besides the fields \<open>public_access.rs\<close> reads.\<close>

record api_url = url +
  url_username :: string
  url_password :: "string option"
  url_userinfo :: string

datatype file_error = PermissionDenied | OtherFileError

record api_env =
  en_now :: u64
  en_mint_now :: u64
  en_instant :: "nat \<Rightarrow> nat"
  en_uuid :: string
  en_hash :: "string \<Rightarrow> string"
  en_parse_url :: "string \<Rightarrow> api_url option"
  en_base64url :: "string \<Rightarrow> string option"
  en_transport :: transport
  en_decode_approval :: "json \<Rightarrow> codex_pending_approval option"
  en_live :: live_env
  en_assets :: "nat \<Rightarrow> nat \<Rightarrow> u64 \<times> string"
  en_upload :: upload_env
  en_files :: file_system
  en_read :: "string \<Rightarrow> file_error + string"
  en_debug :: bool
  en_version :: string

definition plain_parser :: "api_env \<Rightarrow> url_parser" where
  "plain_parser env s = map_option url.truncate (en_parse_url env s)"

section \<open>What the errors become\<close>

lemma error_status_range: "er_status (error_into_response e) \<in> {400, 401, 403, 404, 409, 415, 500, 502}"
  by (cases e rule: error_into_response.cases) simp_all

lemmas api_state_defs = api_db_def with_db_def with_live_def api_access_def with_access_def api_hub_def
  with_api_hub_def

lemma with_db_simps [simp]:
  "api_db (with_db s st) = s" "as_pairing (with_db s st) = as_pairing st"
  "as_refresh_failures (with_db s st) = as_refresh_failures st"
  "as_control_token (with_db s st) = as_control_token st"
  "api_hub (with_db s st) = api_hub st" "api_access (with_db s st) = api_access st"
  "as_vapid_key (with_db s st) = as_vapid_key st" "with_db s (with_db t st) = with_db s st"
  "with_db (api_db st) st = st"
  by (simp_all add: api_state_defs hub_of_def)

lemma with_db_update [simp]:
  "api_db (st\<lparr>as_pairing := pm\<rparr>) = api_db st" "api_db (st\<lparr>as_refresh_failures := f\<rparr>) = api_db st"
  "api_db (with_api_hub g st) = api_db st" "api_db (with_access c st) = api_db st"
  by (simp_all add: api_state_defs with_hub_def)

lemma pairing_of_with_pairing [simp]: "pairing_of (with_pairing pm st) = pm"
  by (simp add: pairing_of_def with_pairing_def with_db_def api_db_def)

lemma pairing_of_fields [simp]:
  "pm_store (pairing_of st) = api_db st" "session_tokens (pairing_of st) = session_tokens (as_pairing st)"
  "pairing_tokens (pairing_of st) = pairing_tokens (as_pairing st)"
  by (simp_all add: pairing_of_def)

text \<open>A manager whose store alone changed.\<close>

lemma with_pairing_store: "with_pairing ((pairing_of st)\<lparr>pm_store := s\<rparr>) st = with_db s st"
  by (simp add: pairing_of_def with_pairing_def with_db_def)

end
