(* ===== verification/Api_Access.thy ===== *)
theory Api_Access
  imports Api_State
begin

text \<open>
  Who may call the HTTP API, \<open>crates/bridge-core/src/http_api.rs\<close>: the tokens a request carries, the
  guard of each route, pairing and the sessions of devices, the public address, and the settings and
  subscriptions of notifications. A handler runs from its first to its last step; the requests of
  other devices come before or after it.
\<close>

section \<open>Tokens\<close>

definition BRIDGE_CONTROL_TOKEN_HEADER :: string where
  "BRIDGE_CONTROL_TOKEN_HEADER = ''x-bridge-control-token''"

definition header_text :: "string \<Rightarrow> header_map \<Rightarrow> string option" where
  "header_text name headers = Option.bind (headers name) header_to_str"

definition bearer_token_from_headers :: "header_map \<Rightarrow> string option" where
  "bearer_token_from_headers headers =
     option_filter (\<lambda>token. token \<noteq> [])
       (Option.bind (header_text ''authorization'' headers) (strip_prefix ''Bearer ''))"

definition control_token_from_headers :: "header_map \<Rightarrow> string option" where
  "control_token_from_headers headers =
     option_filter (\<lambda>token. token \<noteq> []) (header_text BRIDGE_CONTROL_TOKEN_HEADER headers)"

definition token_from_query :: "string \<Rightarrow> string option" where
  "token_from_query q =
     find_map (\<lambda>param. option_filter (\<lambda>token. token \<noteq> []) (strip_prefix ''token='' param))
       (split_on (\<lambda>c. c = CHR ''&'') q)"

definition authenticate_token :: "api_env \<Rightarrow> string \<Rightarrow> string api" where
  "authenticate_token env token =
     map_err (\<lambda>_. ApiUnauthorized) (on_pairing (validate_session_token (en_now env) token))"

definition require_control_token :: "header_map \<Rightarrow> unit api" where
  "require_control_token headers =
     (case or_else (bearer_token_from_headers headers) (control_token_from_headers headers) of
        None \<Rightarrow> err ApiUnauthorized
      | Some token \<Rightarrow>
          bind_ok (gets as_control_token) (\<lambda>control.
            if token = control then ok () else err ApiUnauthorized))"

definition require_bearer_auth :: "api_env \<Rightarrow> header_map \<Rightarrow> string api" where
  "require_bearer_auth env headers =
     (case bearer_token_from_headers headers of
        None \<Rightarrow> err ApiUnauthorized
      | Some token \<Rightarrow> authenticate_token env token)"

definition require_websocket_auth :: "api_env \<Rightarrow> header_map \<Rightarrow> string option \<Rightarrow> string api" where
  "require_websocket_auth env headers uri_query =
     (case or_else (bearer_token_from_headers headers) (token_from_query (unwrap_or [] uri_query)) of
        None \<Rightarrow> err ApiUnauthorized
      | Some token \<Rightarrow> authenticate_token env token)"

section \<open>Pairing and sessions\<close>

record pairing_start_response =
  ps_pairing_token :: string
  ps_expires_in_ms :: u64

definition start_pairing :: "api_env \<Rightarrow> pairing_start_response api" where
  "start_pairing env =
     bind_ok (map_err ApiPairing (on_pairing (create_token (en_now env) (en_uuid env)))) (\<lambda>token.
       ok \<lparr>ps_pairing_token = token, ps_expires_in_ms = DEFAULT_PAIRING_TOKEN_TTL_MS\<rparr>)"

definition refresh_failure_key :: "string \<Rightarrow> string" where
  "refresh_failure_key did = to_ascii_lowercase (trim did)"

definition record_refresh_failure :: "string \<Rightarrow> unit api" where
  "record_refresh_failure key = modify (\<lambda>st. st\<lparr>as_refresh_failures :=
     (as_refresh_failures st)(key \<mapsto> saturating_add (unwrap_or 0 (as_refresh_failures st key)) 1)\<rparr>)"

definition clear_refresh_failures :: "string \<Rightarrow> unit api" where
  "clear_refresh_failures key =
     modify (\<lambda>st. st\<lparr>as_refresh_failures := (as_refresh_failures st)(key := None)\<rparr>)"

record session_refresh_request =
  sr_device_id :: string
  sr_device_secret :: string

definition refresh_session :: "api_env \<Rightarrow> session_refresh_request \<Rightarrow> device_registration api" where
  "refresh_session env request st =
     (let key = refresh_failure_key (sr_device_id request) in
      case on_pairing (create_session (en_hash env) (en_now env) (en_uuid env)
          (sr_device_id request) (sr_device_secret request)) st of
        (Inr registration, st') \<Rightarrow> then_ok (clear_refresh_failures key) (ok registration) st'
      | (Inl _, st') \<Rightarrow> then_ok (record_refresh_failure key) (err ApiUnauthorized) st')"

record pairing_complete_request =
  pc_pairing_token :: string
  pc_device_id :: string
  pc_display_name :: string
  pc_device_secret :: string
  pc_origin :: "string option"

text \<open>
  Of the raw text: whether the part between \<open>://\<close> and the first slash, question mark or hash sign
  has an at sign, and whether nothing but a slash follows.
\<close>

definition split_scheme :: "string \<Rightarrow> string option" where
  "split_scheme v = map_option (\<lambda>i. drop (i + 3) v) (find_text ''://'' v)"

definition raw_origin_shape :: "string \<Rightarrow> bool \<times> bool" where
  "raw_origin_shape v =
     (case split_scheme v of
        None \<Rightarrow> (False, False)
      | Some remainder \<Rightarrow>
          (let authority = takeWhile (\<lambda>c. c \<notin> set ''/?#'') remainder;
               rest = drop (length authority) remainder
           in (CHR ''@'' \<in> set authority, rest = [] \<or> rest = ''/'')))"

definition normalized_pairing_origin :: "api_env \<Rightarrow> string option \<Rightarrow> api_error + string option" where
  "normalized_pairing_origin env v =
     (case v of
        None \<Rightarrow> Inr None
      | Some text \<Rightarrow>
          (case en_parse_url env text of
             None \<Rightarrow> Inl (ApiBadRequest ''origin must be a valid http(s) origin'')
           | Some u \<Rightarrow>
               if scheme u \<notin> {''http'', ''https''}
               then Inl (ApiBadRequest ''origin must be a valid http(s) origin'')
               else if trim text \<noteq> text \<or> fst (raw_origin_shape text) \<or> \<not> snd (raw_origin_shape text)
                 \<or> url_userinfo u \<noteq> [] \<or> url_path u \<noteq> ''/'' \<or> query u \<noteq> None \<or> fragment u \<noteq> None
               then Inl (ApiBadRequest ''origin must not include credentials, path, query, or fragment'')
               else Inr (Some (ascii_origin u))))"

definition complete_pairing :: "api_env \<Rightarrow> pairing_complete_request \<Rightarrow> device_registration api" where
  "complete_pairing env request =
     bind_ok (lift_sum id (normalized_pairing_origin env (pc_origin request))) (\<lambda>origin.
       map_err ApiPairing (on_pairing (register_device_with_origin (en_hash env) (en_now env)
         (en_mint_now env) (en_uuid env) (pc_pairing_token request) (pc_device_id request)
         (pc_display_name request) (pc_device_secret request) origin)))"

record device_response =
  dr_device_id :: string
  dr_display_name :: string
  dr_paired_origin :: "string option"
  dr_created_at :: u64
  dr_last_seen_at :: u64

definition device_response_of :: "device \<Rightarrow> device_response" where
  "device_response_of d =
     \<lparr>dr_device_id = device_id d, dr_display_name = display_name d,
      dr_paired_origin = paired_origin d, dr_created_at = dev_created_at d,
      dr_last_seen_at = last_seen_at d\<rparr>"

definition list_devices :: "device_response list api" where
  "list_devices =
     bind_ok (map_err ApiPairing (on_pairing active_paired_devices)) (\<lambda>ds. ok (map device_response_of ds))"

definition revoke_device_route :: "api_env \<Rightarrow> string \<Rightarrow> unit api" where
  "revoke_device_route env did =
     then_ok (map_err ApiPairing (on_pairing (revoke_paired_device (en_now env) did)))
       (then_ok (modify (with_api_hub (disconnect_device did)))
         (on_db (ApiInternal ''notification cleanup failed'') (delete_device_notification_data did)))"

section \<open>The public address\<close>

definition set_public_access_context :: "api_env \<Rightarrow> public_access_context \<Rightarrow> unit api" where
  "set_public_access_context env context st =
     (let previous = api_access st in
      case update_access (plain_parser env) context previous of
        (Inl _, _) \<Rightarrow> (Inl (ApiBadRequest ''invalid remote access context''), st)
      | (Inr _, c) \<Rightarrow>
          (let st' = with_access c st in
           if mode previous = Named \<and>
              (mode context \<noteq> Named \<or> public_origin previous \<noteq> public_origin context)
           then bind_ok (on_db (ApiInternal ''notification outbox unavailable'')
                  (fail_pending_deliveries ''public_access_changed'' (en_now env))) (\<lambda>_. ok ()) st'
           else (Inr (), st')))"

text \<open>\<open>trim_end_matches('/')\<close>.\<close>

definition trim_end_slashes :: "string \<Rightarrow> string" where
  "trim_end_slashes v = rev (dropWhile (\<lambda>c. c = CHR ''/'') (rev v))"

definition normalized_http_origin :: "api_env \<Rightarrow> string \<Rightarrow> string option" where
  "normalized_http_origin env v =
     (if trim v \<noteq> v then None
      else case en_parse_url env v of
          None \<Rightarrow> None
        | Some u \<Rightarrow>
            if scheme u \<notin> {''http'', ''https''} \<or> url_username u \<noteq> [] \<or> url_password u \<noteq> None
              \<or> url_path u \<noteq> ''/'' \<or> query u \<noteq> None \<or> fragment u \<noteq> None
            then None
            else if trim_end_slashes v = ascii_origin u then Some (ascii_origin u) else None)"

definition effective_request_origin :: "api_env \<Rightarrow> header_map \<Rightarrow> string option" where
  "effective_request_origin env headers =
     or_else (Option.bind (header_text ''origin'' headers) (normalized_http_origin env))
       (Option.bind (option_filter (\<lambda>p. p \<in> {''http'', ''https''})
            (map_option (\<lambda>v. trim (hd (split_on (\<lambda>c. c = CHR '','') v)))
              (header_text ''x-forwarded-proto'' headers))) (\<lambda>protocol.
         Option.bind (header_text ''host'' headers) (\<lambda>host.
           normalized_http_origin env (protocol @ ''://'' @ trim host))))"

section \<open>Notifications\<close>

record notification_settings_input =
  ns_enabled :: bool
  ns_alert_kinds :: alert_kind_settings
  ns_sound_enabled :: bool
  ns_vibration_enabled :: bool

datatype subscription_state = SubscriptionUnavailable | NotEnabled | ActiveSubscription | NeedsRepair

record notification_settings_response =
  nr_settings :: notification_settings_input
  nr_capabilities :: notification_capabilities
  nr_subscription_state :: subscription_state

definition named_request :: "public_access_context \<Rightarrow> string option \<Rightarrow> bool" where
  "named_request context request_origin \<longleftrightarrow>
     mode context = Named \<and> public_origin context = request_origin
     \<and> (case request_origin of None \<Rightarrow> False | Some origin \<Rightarrow> starts_with origin ''https://'')"

definition response_capabilities :: "public_access_context \<Rightarrow> bool \<Rightarrow> bool \<Rightarrow> notification_capabilities" where
  "response_capabilities context named push_available =
     (capabilities_of context)\<lparr>fixed_https := named,
       cap_delivery_mode := (if push_available then WebPush else ForegroundOnly),
       system_notifications := push_available\<rparr>"

definition subscription_state_of :: "string option \<Rightarrow> push_subscription option \<Rightarrow> subscription_state" where
  "subscription_state_of request_origin found =
     (case found of
        None \<Rightarrow> NotEnabled
      | Some subscription \<Rightarrow>
          if invalidated_at subscription = None \<and> sub_origin subscription = unwrap_or [] request_origin
          then ActiveSubscription else NeedsRepair)"

definition notification_settings_response ::
  "api_env \<Rightarrow> string \<Rightarrow> header_map \<Rightarrow> notification_settings_response api" where
  "notification_settings_response env did headers =
     bind_ok (on_db (ApiInternal ''notification settings unavailable'') (settings_for_device did))
       (\<lambda>settings. bind_ok (gets api_access) (\<lambda>context. bind_ok (gets as_vapid_key) (\<lambda>key.
          let request_origin = effective_request_origin env headers;
              named = named_request context request_origin;
              push_available = named \<and> key \<noteq> None in
          bind_ok
            (if \<not> push_available then ok SubscriptionUnavailable
             else bind_ok (on_db (ApiInternal ''push subscription unavailable'')
                 (subscription_for_device did))
               (\<lambda>found. ok (subscription_state_of request_origin found)))
            (\<lambda>state. ok
              \<lparr>nr_settings = \<lparr>ns_enabled = set_enabled settings, ns_alert_kinds = alert_kinds settings,
                 ns_sound_enabled = sound_enabled settings,
                 ns_vibration_enabled = vibration_enabled settings\<rparr>,
               nr_capabilities = response_capabilities context named push_available,
               nr_subscription_state = state\<rparr>))))"

definition put_notification_settings ::
  "api_env \<Rightarrow> string \<Rightarrow> header_map \<Rightarrow> notification_settings_input \<Rightarrow> notification_settings_response api" where
  "put_notification_settings env did headers input =
     then_ok (on_db (ApiInternal ''notification settings unavailable'') (save_settings
         \<lparr>set_device_id = did, set_enabled = ns_enabled input, alert_kinds = ns_alert_kinds input,
          sound_enabled = ns_sound_enabled input, vibration_enabled = ns_vibration_enabled input,
          set_updated_at = en_now env\<rparr>))
       (notification_settings_response env did headers)"

definition on_bridge :: "api_error \<Rightarrow> (json bridge, bridge_error, 'a) action \<Rightarrow> 'a api" where
  "on_bridge e m st =
     (case m (lv_bridge (as_live st)) of
        (Inl _, b) \<Rightarrow> (Inl e, with_live (\<lambda>l. l\<lparr>lv_bridge := b\<rparr>) st)
      | (Inr a, b) \<Rightarrow> (Inr a, with_live (\<lambda>l. l\<lparr>lv_bridge := b\<rparr>) st))"

definition send_test_notification :: "api_env \<Rightarrow> string \<Rightarrow> alert_event api" where
  "send_test_notification env did =
     (let event = \<lparr>al_event_id = ''test-alert-'' @ en_uuid env, al_kind = Completed,
            al_thread_id = ''notification-test'', al_thread_title = ''Codex Mobile Bridge'',
            al_occurred_at = en_now env\<rparr> in
      bind_ok (gets as_push_runtime) (\<lambda>has_runtime.
        bind_ok (on_bridge (ApiInternal ''test notification unavailable'')
            (dispatch_test_to_device (payload_to_json (le_codecs (en_live env))) (en_now env)
              has_runtime did event))
          (\<lambda>_. ok event)))"

definition require_named_push_origin :: "api_env \<Rightarrow> header_map \<Rightarrow> string api" where
  "require_named_push_origin env headers =
     bind_ok (gets api_access) (\<lambda>context.
       case (mode context, public_origin context, effective_request_origin env headers) of
         (Named, Some address, Some request_origin) \<Rightarrow>
           if address = request_origin \<and> starts_with address ''https://''
           then ok address else err ApiPushUnavailable
       | _ \<Rightarrow> err ApiPushUnavailable)"

definition get_push_public_key :: "api_env \<Rightarrow> header_map \<Rightarrow> string api" where
  "get_push_public_key env headers =
     bind_ok (require_named_push_origin env headers) (\<lambda>_.
       bind_ok (gets as_vapid_key) (\<lambda>key.
         case key of None \<Rightarrow> err ApiPushUnavailable | Some k \<Rightarrow> ok k))"

record push_subscription_request =
  pr_origin :: string
  pr_endpoint :: string
  pr_p256dh :: string
  pr_auth :: string

definition validate_push_subscription :: "api_env \<Rightarrow> push_subscription_request \<Rightarrow> api_error + unit" where
  "validate_push_subscription env request =
     (if 4096 < length (pr_endpoint request) \<or> 512 < length (pr_p256dh request)
        \<or> 512 < length (pr_auth request)
      then Inl ApiInvalidSubscription
      else case en_parse_url env (pr_endpoint request) of
          None \<Rightarrow> Inl ApiInvalidSubscription
        | Some u \<Rightarrow>
            if scheme u \<noteq> ''https'' \<or> host_str u = None \<or> url_username u \<noteq> []
              \<or> url_password u \<noteq> None \<or> fragment u \<noteq> None
            then Inl ApiInvalidSubscription
            else (case (en_base64url env (pr_p256dh request), en_base64url env (pr_auth request)) of
                (Some p, Some a) \<Rightarrow>
                  if length p \<noteq> 65 \<or> length a \<noteq> 16 then Inl ApiInvalidSubscription else Inr ()
              | _ \<Rightarrow> Inl ApiInvalidSubscription))"

definition save_push_subscription ::
  "api_env \<Rightarrow> string \<Rightarrow> header_map \<Rightarrow> push_subscription_request \<Rightarrow> unit api" where
  "save_push_subscription env did headers request =
     bind_ok (gets as_vapid_key) (\<lambda>key.
       if key = None then err ApiPushUnavailable
       else bind_ok (require_named_push_origin env headers) (\<lambda>named_origin.
         if pr_origin request \<noteq> named_origin
           \<or> normalized_http_origin env (pr_origin request) \<noteq> Some named_origin
         then err ApiPushUnavailable
         else then_ok (lift_sum id (validate_push_subscription env request))
           (on_db (ApiInternal ''push subscription unavailable'') (save_subscription
             \<lparr>sub_device_id = did, sub_origin = pr_origin request, endpoint = pr_endpoint request,
              p256dh = pr_p256dh request, auth = pr_auth request, sub_created_at = en_now env,
              last_success_at = None, invalidated_at = None\<rparr>))))"

definition delete_push_subscription :: "string \<Rightarrow> unit api" where
  "delete_push_subscription did =
     on_db (ApiInternal ''push subscription cleanup failed'') (delete_subscription did)"

section \<open>Health and diagnostics\<close>

record health_response =
  hl_status :: string
  hl_connection_state :: string
  hl_version :: string
  hl_instance_id :: string

fun diagnostics_status_name :: "diagnostics_status \<Rightarrow> string" where
  "diagnostics_status_name DiagnosticsOk = ''ok''"
| "diagnostics_status_name DiagnosticsDegraded = ''degraded''"

definition health :: "api_env \<Rightarrow> health_response api" where
  "health env = gets (\<lambda>st.
     \<lparr>hl_status = diagnostics_status_name (dr_status (as_diagnostics st)),
      hl_connection_state = connection_state_name (dr_connection_state (as_diagnostics st)),
      hl_version = en_version env, hl_instance_id = as_instance_id st\<rparr>)"

definition control_diagnostics ::
  "api_env \<Rightarrow> (diagnostics_report \<times> push_subscription_diagnostic list) api" where
  "control_diagnostics env st =
     (case push_subscription_diagnostics
         (\<lambda>e. Option.bind (en_parse_url env e) host_str) (api_db st) of
        (r, s) \<Rightarrow> (Inr (as_diagnostics st, case r of Inl _ \<Rightarrow> [] | Inr ds \<Rightarrow> ds), with_db s st))"

end
