(* ===== verification/Session_Api.thy ===== *)
theory Session_Api
  imports Api_State
begin

text \<open>
  The sessions of the HTTP API, \<open>crates/bridge-core/src/http_api.rs\<close>: the list of sessions and how
  titles are completed, approvals and decisions, starting a session, sending a message, the events of
  a session and its images. A handler runs from its first to its last step; where it draws several
  clock readings or identifiers, they are numbered.
\<close>

section \<open>The list of sessions\<close>

definition snapshot_has_resolved_title :: "session_snapshot \<Rightarrow> bool" where
  "snapshot_has_resolved_title s \<longleftrightarrow> snap_title s \<noteq> snap_thread_id s \<and> \<not> blank (snap_title s)"

definition merge_optional_metadata :: "string option \<Rightarrow> string option \<Rightarrow> string option" where
  "merge_optional_metadata target source =
     (if (case target of None \<Rightarrow> True | Some v \<Rightarrow> blank v) \<and> source \<noteq> None then source else target)"

definition merge_snapshot_metadata :: "session_snapshot \<Rightarrow> session_snapshot \<Rightarrow> session_snapshot" where
  "merge_snapshot_metadata target source =
     target\<lparr>snap_title :=
         (if \<not> snapshot_has_resolved_title target \<and> snapshot_has_resolved_title source
          then snap_title source else snap_title target),
       snap_cwd := merge_optional_metadata (snap_cwd target) (snap_cwd source),
       snap_model_provider :=
         merge_optional_metadata (snap_model_provider target) (snap_model_provider source),
       snap_preview := merge_optional_metadata (snap_preview target) (snap_preview source)\<rparr>"

definition remember_subagent_classification :: "codex_thread \<Rightarrow> api_state \<Rightarrow> api_state" where
  "remember_subagent_classification thread st =
     (if is_subagent_thread thread
      then st\<lparr>as_subagents := insert (ct_id thread) (as_subagents st)\<rparr> else st)"

definition BASE_RETRY_DELAY :: nat where
  "BASE_RETRY_DELAY = 1000"

definition MAX_RETRY_DELAY :: nat where
  "MAX_RETRY_DELAY = 30000"

definition next_retry :: "nat \<Rightarrow> enrichment_retry option \<Rightarrow> enrichment_retry option" where
  "next_retry now found =
     (case found of
        None \<Rightarrow> Some \<lparr>rt_attempts = 1, rt_next_attempt_at = now + BASE_RETRY_DELAY\<rparr>
      | Some retry \<Rightarrow>
          if now < rt_next_attempt_at retry then None
          else
            let attempts = saturating_add (rt_attempts retry) 1;
                multiplier = 2 ^ min (unat (saturating_sub attempts 1)) 5
            in Some \<lparr>rt_attempts = attempts,
                 rt_next_attempt_at = now + min (BASE_RETRY_DELAY * multiplier) MAX_RETRY_DELAY\<rparr>)"

definition begin_snapshot_enrichment_attempt :: "nat \<Rightarrow> string \<Rightarrow> api_state \<Rightarrow> bool \<times> api_state" where
  "begin_snapshot_enrichment_attempt now thread_id st =
     (case next_retry now (as_retries st thread_id) of
        None \<Rightarrow> (False, st)
      | Some retry \<Rightarrow> (True, st\<lparr>as_retries := (as_retries st)(thread_id \<mapsto> retry)\<rparr>))"

definition forget_retry :: "string \<Rightarrow> api_state \<Rightarrow> api_state" where
  "forget_retry thread_id st = st\<lparr>as_retries := (as_retries st)(thread_id := None)\<rparr>"

text \<open>An error of the desktop app, or no thread in its answer, leaves the snapshot.\<close>

definition resume_for_metadata ::
  "transport \<Rightarrow> session_snapshot \<Rightarrow> api_state \<Rightarrow> session_snapshot \<times> api_state" where
  "resume_for_metadata tr snapshot st =
     (case resume_thread tr (snap_thread_id snapshot) (as_client st) of
        (Inr (Some resumed), c) \<Rightarrow>
          (merge_snapshot_metadata snapshot (snapshot_from_thread resumed),
           remember_subagent_classification resumed (st\<lparr>as_client := c\<rparr>))
      | (_, c) \<Rightarrow> (snapshot, st\<lparr>as_client := c\<rparr>))"

definition with_cached_metadata :: "api_state \<Rightarrow> session_snapshot \<Rightarrow> session_snapshot" where
  "with_cached_metadata st snapshot =
     (case snapshot_for_thread (snap_thread_id snapshot) (api_hub st) of
        None \<Rightarrow> snapshot
      | Some cached \<Rightarrow> merge_snapshot_metadata snapshot cached)"

definition enrich_snapshot_metadata ::
  "transport \<Rightarrow> nat \<Rightarrow> session_snapshot \<Rightarrow> api_state \<Rightarrow> session_snapshot \<times> api_state" where
  "enrich_snapshot_metadata tr now snapshot0 st =
     (let snapshot = with_cached_metadata st snapshot0 in
      if snapshot_has_resolved_title snapshot
      then (snapshot, forget_retry (snap_thread_id snapshot) st)
      else case begin_snapshot_enrichment_attempt now (snap_thread_id snapshot) st of
          (False, st1) \<Rightarrow> (snapshot, st1)
        | (True, st1) \<Rightarrow>
            (case resume_for_metadata tr snapshot st1 of
               (enriched, st2) \<Rightarrow>
                 (enriched, if snapshot_has_resolved_title enriched
                    then forget_retry (snap_thread_id enriched) st2 else st2)))"

definition snapshot_for_listed_thread ::
  "transport \<Rightarrow> nat \<Rightarrow> codex_thread \<Rightarrow> api_state \<Rightarrow> session_snapshot \<times> api_state" where
  "snapshot_for_listed_thread tr now thread st =
     enrich_snapshot_metadata tr now (snapshot_from_thread thread)
       (remember_subagent_classification thread st)"

fun store_listed :: "api_env \<Rightarrow> nat \<Rightarrow> codex_thread list \<Rightarrow> api_state \<Rightarrow> api_state" where
  "store_listed env i [] st = st"
| "store_listed env i (t # ts) st =
     (case snapshot_for_listed_thread (en_transport env) (en_instant env i) t st of
        (snapshot, st') \<Rightarrow> store_listed env (Suc i) ts (with_api_hub (set_snapshot snapshot) st'))"

fun enrich_all :: "api_env \<Rightarrow> nat \<Rightarrow> session_snapshot list \<Rightarrow> api_state \<Rightarrow> api_state" where
  "enrich_all env i [] st = st"
| "enrich_all env i (s # ss) st =
     (case enrich_snapshot_metadata (en_transport env) (en_instant env i) s st of
        (enriched, st') \<Rightarrow> enrich_all env (Suc i) ss
          (if enriched \<noteq> s then with_api_hub (set_snapshot enriched) st' else st'))"

record session_list_item =
  si_snapshot :: session_snapshot
  si_is_subagent :: bool

definition session_items :: "api_state \<Rightarrow> session_list_item list" where
  "session_items st =
     map (\<lambda>s. \<lparr>si_snapshot = s, si_is_subagent = snap_thread_id s \<in> as_subagents st\<rparr>)
       (all_snapshots (api_hub st))"

definition list_sessions :: "api_env \<Rightarrow> session_list_item list api" where
  "list_sessions env =
     then_ok
       (bind_ok (gets as_adapter) (\<lambda>adapter.
         if \<not> adapter then ok ()
         else bind_ok (on_client (list_threads (en_transport env))) (\<lambda>threads.
           then_ok (modify (store_listed env 0 threads))
             (modify (\<lambda>st. enrich_all env (length threads) (all_snapshots (api_hub st)) st)))))
       (gets session_items)"

definition list_workspaces :: "api_env \<Rightarrow> workspace_option list api" where
  "list_workspaces env =
     bind_ok (gets as_adapter) (\<lambda>adapter.
       if \<not> adapter then err ApiAdapterUnavailable
       else bind_ok (on_client (list_threads (en_transport env))) (\<lambda>threads.
         ok (workspace_options (en_files env) threads)))"

section \<open>Approvals\<close>

definition is_dev_approval_id :: "string \<Rightarrow> bool" where
  "is_dev_approval_id approval_id = starts_with approval_id ''dev-approval-''"

definition insert_approval ::
  "json approval_request \<Rightarrow> json approval_request list \<Rightarrow> json approval_request list" where
  "insert_approval a rows = row_upsert ap_id (\<lambda>old new. new) a rows"

definition refresh_approvals ::
  "json approval_request list \<Rightarrow> json approval_request list \<Rightarrow> json approval_request list" where
  "refresh_approvals found rows =
     fold insert_approval found (filter (\<lambda>a. is_dev_approval_id (ap_id a)) rows)"

definition adapter_approvals :: "api_env \<Rightarrow> json approval_request list api" where
  "adapter_approvals env =
     bind_ok (gets as_adapter) (\<lambda>adapter.
       if \<not> adapter then ok []
       else bind_ok (on_client (list_pending_approvals (en_decode_approval env) (en_transport env)))
         (\<lambda>pending. ok (List.map_filter (\<lambda>p. detect_pending p (en_now env)) pending)))"

definition sorted_approvals :: "json approval_request list \<Rightarrow> json approval_request list" where
  "sorted_approvals rows = sort_key (\<lambda>a. (ap_thread_id a, ap_id a)) rows"

definition list_approvals :: "api_env \<Rightarrow> json approval_request list api" where
  "list_approvals env =
     bind_ok (adapter_approvals env) (\<lambda>found.
       then_ok (modify (with_live (\<lambda>l. l\<lparr>lv_approvals := refresh_approvals found (lv_approvals l)\<rparr>)))
         (gets (\<lambda>st. sorted_approvals (lv_approvals (as_live st)))))"

record approval_decision_request =
  ad_decision :: decision_kind
  ad_comment :: "string option"

definition decide_approval ::
  "api_env \<Rightarrow> string \<Rightarrow> string \<Rightarrow> approval_decision_request \<Rightarrow> unit api" where
  "decide_approval env approval_id did request =
     (let decision = \<lparr>dec_approval_id = approval_id, dec_decision = ad_decision request,
            dec_comment = ad_comment request, dec_device_id = did, dec_decided_at = en_now env\<rparr> in
      bind_ok (gets as_adapter) (\<lambda>adapter.
        then_ok
          (if adapter \<and> \<not> is_dev_approval_id approval_id
           then on_client (respond_approval (en_transport env) approval_id decision) else ok ())
          (then_ok
            (modify (with_live (\<lambda>l. l\<lparr>lv_approvals :=
               row_delete (\<lambda>a. ap_id a = approval_id) (lv_approvals l)\<rparr>)))
            (modify (with_api_hub (publish (ApprovalResolved decision)))))))"

record dev_approval_request =
  da_thread_id :: "string option"
  da_kind :: "approval_kind option"
  da_title :: "string option"
  da_detail :: "string option"
  da_risk_hint :: "string option"

definition dev_thread_id :: "dev_approval_request \<Rightarrow> json event_hub \<Rightarrow> string" where
  "dev_thread_id request h =
     (case option_filter (\<lambda>t. \<not> blank t) (da_thread_id request) of
        Some t \<Rightarrow> t
      | None \<Rightarrow> (case all_snapshots h of [] \<Rightarrow> ''dev-thread'' | s # _ \<Rightarrow> snap_thread_id s))"

definition dev_approval :: "u64 \<Rightarrow> string \<Rightarrow> dev_approval_request \<Rightarrow> json approval_request" where
  "dev_approval now thread_id request =
     \<lparr>ap_id = ''dev-approval-'' @ u64_to_string now, ap_thread_id = thread_id,
      ap_kind = unwrap_or Command (da_kind request),
      ap_title = unwrap_or ''Dev approval smoke test'' (da_title request),
      ap_detail = unwrap_or ''echo approval smoke test'' (da_detail request),
      ap_risk_hint = or_else (da_risk_hint request)
        (Some ''Debug-only fake approval from local bridge.''),
      ap_raw = Some (json_object [(''source'', JString ''dev_approval_trigger'')]),
      ap_created_at = now, ap_expires_at = None\<rparr>"

definition mark_waiting :: "u64 \<Rightarrow> string \<Rightarrow> session_snapshot \<Rightarrow> session_snapshot" where
  "mark_waiting now approval_id snap =
     snap\<lparr>snap_pending_approval_ids :=
         (if approval_id \<in> set (snap_pending_approval_ids snap) then snap_pending_approval_ids snap
          else snap_pending_approval_ids snap @ [approval_id]),
       snap_status := WaitingForApproval, snap_updated_at := now\<rparr>"

definition trigger_dev_approval :: "api_env \<Rightarrow> dev_approval_request \<Rightarrow> json approval_request api" where
  "trigger_dev_approval env request =
     (if \<not> en_debug env then err (ApiNotFound ''dev approval trigger not available'')
      else bind_ok (gets (\<lambda>st. dev_thread_id request (api_hub st))) (\<lambda>thread_id.
        let approval = dev_approval (en_now env) thread_id request in
        then_ok (modify (with_live (\<lambda>l. l\<lparr>lv_approvals := insert_approval approval (lv_approvals l)\<rparr>)))
          (then_ok (modify (\<lambda>st.
              case snapshot_for_thread thread_id (api_hub st) of
                None \<Rightarrow> st
              | Some snap \<Rightarrow>
                  with_api_hub (set_snapshot (mark_waiting (en_now env) (ap_id approval) snap)) st))
            (then_ok (modify (with_api_hub (publish (ApprovalRequest approval))))
              (ok approval)))))"

section \<open>Starting a session and sending a message\<close>

definition event_for_user_message ::
  "string \<Rightarrow> string \<Rightarrow> string \<Rightarrow> stored_image list \<Rightarrow> u64 \<Rightarrow> string option \<Rightarrow> json session_event" where
  "event_for_user_message uuid thread_id text attachments created_at client_id =
     \<lparr>ev_id = unwrap_or uuid client_id, ev_thread_id = thread_id, ev_type = Message,
      ev_payload = json_object
        ([(''role'', JString ''user''), (''text'', JString text)]
         @ (if attachments = [] then []
            else [(''attachments'', JArray (map (\<lambda>a. json_object
               [(''type'', JString ''image''), (''path'', JString (st_path a)),
                (''name'', JString (st_name a))]) attachments))])
         @ (case client_id of
              None \<Rightarrow> []
            | Some c \<Rightarrow> [(''bridgeEcho'', JBool True), (''clientMessageId'', JString c)])),
      ev_created_at = created_at\<rparr>"

definition register_event_assets ::
  "(nat \<Rightarrow> u64 \<times> string) \<Rightarrow> json session_event \<Rightarrow> json session_event api" where
  "register_event_assets env e st =
     (case register_local_assets env e (lv_assets (as_live st)) of
        (e', reg) \<Rightarrow> (Inr e', with_live (\<lambda>l. l\<lparr>lv_assets := reg\<rparr>) st))"

definition publish_user_message :: "api_env \<Rightarrow> json session_event \<Rightarrow> unit api" where
  "publish_user_message env e =
     bind_ok (register_event_assets (en_assets env 0) e) (\<lambda>e'.
       modify (with_live (publish_session_event e')))"

record create_session_request =
  cr_text :: string
  cr_cwd :: "string option"
  cr_attachments :: "incoming_image list"

definition created_snapshot :: "u64 \<Rightarrow> string \<Rightarrow> codex_thread \<Rightarrow> session_snapshot" where
  "created_snapshot now display_text thread =
     (let s = snapshot_from_thread thread in
      s\<lparr>snap_updated_at := (if snap_updated_at s = 0 then now else snap_updated_at s),
        snap_preview := (if unwrap_or [] (snap_preview s) = [] then Some display_text else snap_preview s),
        snap_title := (if snap_title s = snap_thread_id s \<or> blank (snap_title s)
                       then session_title_from_text display_text else snap_title s),
        snap_status := Running\<rparr>)"

definition create_session_route :: "api_env \<Rightarrow> create_session_request \<Rightarrow> session_snapshot api" where
  "create_session_route env request =
     (let text = trim (cr_text request) in
      if text = [] \<and> cr_attachments request = []
      then err (ApiBadRequest ''session text or attachment is required'')
      else bind_ok (gets as_adapter) (\<lambda>adapter.
        if \<not> adapter then err ApiAdapterUnavailable
        else bind_ok (on_client (list_threads (en_transport env))) (\<lambda>threads.
          bind_ok (lift_sum api_error_from_workspace
              (validate_workspace (en_files env) threads (cr_cwd request))) (\<lambda>workspace.
          bind_ok (lift_sum api_error_from_upload
              (store_incoming_image_attachments (en_upload env) (cr_attachments request))) (\<lambda>attachments.
          bind_ok (on_client (start_thread (en_transport env) (wo_cwd workspace) text
              (codex_image_attachments attachments))) (\<lambda>thread.
            let snapshot = created_snapshot (en_now env) (preview_text text attachments) thread in
            then_ok (modify (with_api_hub (set_snapshot snapshot)))
              (then_ok (publish_user_message env (event_for_user_message (en_uuid env)
                  (snap_thread_id snapshot) text attachments (en_now env) None))
                (ok snapshot))))))))"

definition deliver_user_message ::
  "api_env \<Rightarrow> string \<Rightarrow> string \<Rightarrow> incoming_image list \<Rightarrow> string option \<Rightarrow> unit api" where
  "deliver_user_message env thread_id text incoming_images client_id =
     bind_ok (lift_sum api_error_from_upload
         (store_incoming_image_attachments (en_upload env) incoming_images)) (\<lambda>attachments.
       then_ok
         (bind_ok (gets as_adapter) (\<lambda>adapter.
           if adapter then on_client (send_user_message (en_transport env) thread_id text
             (codex_image_attachments attachments)) else ok ()))
         (publish_user_message env (event_for_user_message (en_uuid env) thread_id text attachments
           (en_now env) client_id)))"

record send_message_request =
  sm_text :: string
  sm_attachments :: "incoming_image list"

definition CLIENT_MESSAGE_ID_HEADER :: string where
  "CLIENT_MESSAGE_ID_HEADER = ''x-codex-client-message-id''"

definition client_message_id_from_headers :: "header_map \<Rightarrow> api_error + string option" where
  "client_message_id_from_headers headers =
     (case client_message_id (map_option header_to_str (headers CLIENT_MESSAGE_ID_HEADER)) of
        Inl m \<Rightarrow> Inl (ApiBadRequest m)
      | Inr c \<Rightarrow> Inr c)"

text \<open>The delivery of the owner of a message id, and what it leaves in the cache.\<close>

definition deliver_as_owner ::
  "api_env \<Rightarrow> string \<Rightarrow> string \<Rightarrow> string \<Rightarrow> incoming_image list \<Rightarrow> string option \<Rightarrow> unit api" where
  "deliver_as_owner env key thread_id text images client_id st =
     (case deliver_user_message env thread_id text images client_id st of
        (Inr _, st') \<Rightarrow> (Inr (), st'\<lparr>as_dedupe := complete_message key (as_dedupe st')\<rparr>)
      | (Inl e, st') \<Rightarrow> (Inl e, st'\<lparr>as_dedupe := fail_message key (as_dedupe st')\<rparr>))"

text \<open>\<open>None\<close>: the request waits for another one with its message id, which is being delivered.\<close>

definition send_message ::
  "api_env \<Rightarrow> string \<Rightarrow> string \<Rightarrow> header_map \<Rightarrow> send_message_request \<Rightarrow> api_state
    \<Rightarrow> ((api_error + unit) \<times> api_state) option" where
  "send_message env did thread_id headers request st =
     (let text = trim (sm_text request) in
      if text = [] \<and> sm_attachments request = []
      then Some (Inl (ApiBadRequest ''message text or attachment is required''), st)
      else case client_message_id_from_headers headers of
          Inl e \<Rightarrow> Some (Inl e, st)
        | Inr None \<Rightarrow>
            Some (deliver_user_message env thread_id text (sm_attachments request) None st)
        | Inr (Some c) \<Rightarrow>
            (case claim_message 0 (message_dedupe_key did thread_id c) (as_dedupe st) of
               (ClaimWait n, _) \<Rightarrow> None
             | (ClaimCompleted, cache') \<Rightarrow> Some (Inr (), st\<lparr>as_dedupe := cache'\<rparr>)
             | (ClaimOwner key n, cache') \<Rightarrow>
                 Some (deliver_as_owner env key thread_id text (sm_attachments request) (Some c)
                   (st\<lparr>as_dedupe := cache'\<rparr>))))"

end
