(* ===== verification/Session_Events.thy ===== *)
theory Session_Events
  imports Api_State
begin

text \<open>
  The events of a session and its images over HTTP, \<open>crates/bridge-core/src/http_api.rs\<close>: the query
  and the headers that page them, the pages of turns the desktop app is asked for, the cache they are
  merged into, and what of them a phone gets.
\<close>

section \<open>The query\<close>

definition optional_event_header :: "header_map \<Rightarrow> string \<Rightarrow> api_error + string option" where
  "optional_event_header headers name =
     (case headers name of
        None \<Rightarrow> Inr None
      | Some v \<Rightarrow>
          (case header_to_str v of
             None \<Rightarrow> Inl (ApiBadRequest ''invalid event pagination header'')
           | Some t \<Rightarrow>
               if trim t = [] then Inl (ApiBadRequest ''event pagination header is empty'')
               else Inr (Some (trim t))))"

text \<open>\<open>str::parse::<usize>\<close>.\<close>

definition parse_limit :: "string \<Rightarrow> api_error + nat" where
  "parse_limit v =
     (case parse_u64 v of
        None \<Rightarrow> Inl (ApiBadRequest ''invalid event page limit'')
      | Some n \<Rightarrow> Inr (unat n))"

definition limit_with_headers :: "header_map \<Rightarrow> nat option \<Rightarrow> api_error + nat option" where
  "limit_with_headers headers limit =
     (case limit of
        Some n \<Rightarrow> Inr (Some n)
      | None \<Rightarrow>
          (case optional_event_header headers ''x-codex-events-limit'' of
             Inl e \<Rightarrow> Inl e
           | Inr None \<Rightarrow> Inr None
           | Inr (Some v) \<Rightarrow> map_sum id Some (parse_limit v)))"

definition cursor_with_headers ::
  "header_map \<Rightarrow> string \<Rightarrow> string option \<Rightarrow> api_error + string option" where
  "cursor_with_headers headers name given =
     (case given of Some c \<Rightarrow> Inr (Some c) | None \<Rightarrow> optional_event_header headers name)"

definition query_with_headers :: "header_map \<Rightarrow> events_query \<Rightarrow> events_query api" where
  "query_with_headers headers q =
     bind_ok (lift_sum id (limit_with_headers headers (q_limit q))) (\<lambda>limit.
       bind_ok (lift_sum id (cursor_with_headers headers ''x-codex-events-before'' (q_before q))) (\<lambda>before.
         bind_ok (lift_sum id (cursor_with_headers headers ''x-codex-events-since'' (q_since q))) (\<lambda>since.
           ok \<lparr>q_limit = limit, q_before = before, q_since = since\<rparr>)))"

section \<open>The cache of a session\<close>

definition cache_of :: "string \<Rightarrow> api_state \<Rightarrow> adapter_event_cache" where
  "cache_of thread_id st = unwrap_or default_cache (lv_caches (as_live st) thread_id)"

definition with_cache ::
  "string \<Rightarrow> (adapter_event_cache \<Rightarrow> adapter_event_cache) \<Rightarrow> api_state \<Rightarrow> api_state" where
  "with_cache thread_id f st =
     with_live (\<lambda>l. l\<lparr>lv_caches := (lv_caches l)(thread_id \<mapsto> f (cache_of thread_id st))\<rparr>) st"

definition merge_turns ::
  "string \<Rightarrow> codex_turn list \<Rightarrow> adapter_event_cache \<Rightarrow> adapter_event_cache" where
  "merge_turns thread_id turns c =
     c\<lparr>ac_events := replace_adapter_turn_events (ac_events c) (events_from_turns thread_id turns)
         (List.map_filter tn_id turns) (active_turn_ids turns)\<rparr>"

definition first_page_cursor :: "string option \<Rightarrow> adapter_event_cache \<Rightarrow> adapter_event_cache" where
  "first_page_cursor page_cursor c =
     (if ac_loaded_older c then c else c\<lparr>ac_next_cursor := page_cursor\<rparr>)"

definition MAX_ADAPTER_HISTORY_PAGES_PER_REQUEST :: nat where
  "MAX_ADAPTER_HISTORY_PAGES_PER_REQUEST = 4"

text \<open>The cursor of the next page to ask for, if the cache does not reach far enough back.\<close>

definition wanted_page :: "string \<Rightarrow> nat \<Rightarrow> adapter_event_cache \<Rightarrow> string option" where
  "wanted_page before limit c =
     (case position (\<lambda>e. ev_id e = before) (ac_events c) of
        None \<Rightarrow> None
      | Some i \<Rightarrow> if limit \<le> i then None else ac_next_cursor c)"

definition merge_older :: "string \<Rightarrow> codex_turn_page \<Rightarrow> adapter_event_cache \<Rightarrow> nat \<times> adapter_event_cache" where
  "merge_older thread_id page c =
     (case merge_adapter_events (ac_events c) (events_from_turns thread_id (pg_turns page)) of
        (added, es) \<Rightarrow>
          (added, c\<lparr>ac_events := es, ac_next_cursor := pg_next_cursor page, ac_loaded_older := True\<rparr>))"

primrec load_older :: "api_env \<Rightarrow> string \<Rightarrow> string \<Rightarrow> nat \<Rightarrow> nat \<Rightarrow> unit api" where
  "load_older env thread_id before limit 0 = ok ()"
| "load_older env thread_id before limit (Suc k) = (\<lambda>st.
     case wanted_page before limit (cache_of thread_id st) of
       None \<Rightarrow> (Inr (), st)
     | Some page_cursor \<Rightarrow>
         bind_ok (on_client (list_turns_page (en_transport env) thread_id (Some page_cursor))) (\<lambda>page st1.
           (case merge_older thread_id page (cache_of thread_id st1) of
              (added, c) \<Rightarrow>
                let st2 = with_cache thread_id (\<lambda>_. c) st1 in
                if added = 0 \<and> ac_next_cursor c = Some page_cursor then (Inr (), st2)
                else load_older env thread_id before limit k st2)) st)"

definition adapter_events_for_query ::
  "api_env \<Rightarrow> string \<Rightarrow> events_query \<Rightarrow> (json session_event list \<times> bool) api" where
  "adapter_events_for_query env thread_id q =
     bind_ok (on_client (list_turns_page (en_transport env) thread_id None)) (\<lambda>first_page.
     bind_ok (lift_sum ApiBadRequest (page_limit q)) (\<lambda>limit.
     then_ok (modify (with_cache thread_id (\<lambda>c. first_page_cursor (pg_next_cursor first_page)
         (merge_turns thread_id (pg_turns first_page) c))))
     (then_ok
       (case q_before q of None \<Rightarrow> ok ()
        | Some before \<Rightarrow>
            load_older env thread_id before limit MAX_ADAPTER_HISTORY_PAGES_PER_REQUEST)
     (bind_ok (gets (cache_of thread_id)) (\<lambda>c.
       then_ok (modify (with_live (replace_session_event_history thread_id (ac_events c))))
         (ok (ac_events c, ac_next_cursor c \<noteq> None)))))))"

section \<open>The events of a session\<close>

definition all_turn_events :: "api_env \<Rightarrow> string \<Rightarrow> json session_event list api" where
  "all_turn_events env thread_id =
     bind_ok (on_client (list_turns (en_transport env) thread_id)) (\<lambda>turns.
     then_ok (modify (with_cache thread_id (merge_turns thread_id turns)))
     (bind_ok (gets (cache_of thread_id)) (\<lambda>c.
       then_ok (modify (with_live (replace_session_event_history thread_id (ac_events c))))
         (ok (ac_events c)))))"

fun mobile_session_events ::
  "(nat \<Rightarrow> nat \<Rightarrow> u64 \<times> string) \<Rightarrow> nat \<Rightarrow> json session_event list \<Rightarrow> asset_registry
    \<Rightarrow> json session_event list \<times> asset_registry" where
  "mobile_session_events env i [] reg = ([], reg)"
| "mobile_session_events env i (e # es) reg =
     (case register_local_assets (env i) e reg of
        (e', reg') \<Rightarrow>
          (case mobile_session_events env (Suc i) es reg' of
             (es', reg'') \<Rightarrow> (session_event_for_mobile e' # es', reg'')))"

definition for_mobile :: "api_env \<Rightarrow> json session_event list \<Rightarrow> json session_event list api" where
  "for_mobile env es st =
     (case mobile_session_events (en_assets env) 0 es (lv_assets (as_live st)) of
        (es', reg) \<Rightarrow> (Inr es', with_live (\<lambda>l. l\<lparr>lv_assets := reg\<rparr>) st))"

datatype events_response = AllEvents "json session_event list" | PageOfEvents events_page

text \<open>The page says there is more when the desktop app has older turns than the cache.\<close>

definition with_older :: "bool \<Rightarrow> json session_event list \<Rightarrow> events_page \<Rightarrow> events_page" where
  "with_older older events page =
     (if older \<and> pg_before_cursor page = (case events of [] \<Rightarrow> None | e # _ \<Rightarrow> Some (ev_id e))
      then page\<lparr>pg_has_more_before := True\<rparr> else page)"

definition events_of_session ::
  "api_env \<Rightarrow> string \<Rightarrow> events_query \<Rightarrow> (json session_event list \<times> bool) api" where
  "events_of_session env thread_id q =
     bind_ok (gets as_adapter) (\<lambda>adapter.
       if \<not> adapter
       then gets (\<lambda>st. (unwrap_or [] (lv_history (as_live st) thread_id), False))
       else if is_paginated q then adapter_events_for_query env thread_id q
       else bind_ok (all_turn_events env thread_id) (\<lambda>es. ok (es, False)))"

definition list_session_events ::
  "api_env \<Rightarrow> string \<Rightarrow> header_map \<Rightarrow> events_query \<Rightarrow> events_response api" where
  "list_session_events env thread_id headers q0 =
     bind_ok (query_with_headers headers q0) (\<lambda>q.
     then_ok (if is_paginated q then lift_sum ApiBadRequest (validate_query q) else ok ())
     (bind_ok (events_of_session env thread_id q) (\<lambda>(events, older).
       if \<not> is_paginated q
       then bind_ok (for_mobile env events) (\<lambda>es. ok (AllEvents es))
       else bind_ok (lift_sum ApiBadRequest (paginate_session_events events q)) (\<lambda>page0.
         let page = with_older older events page0 in
         bind_ok (for_mobile env (pg_events page)) (\<lambda>es.
           ok (PageOfEvents (page\<lparr>pg_events := es\<rparr>)))))))"

section \<open>Images\<close>

record image_response =
  ir_content_type :: string
  ir_bytes :: string

definition get_local_image_asset :: "api_env \<Rightarrow> u64 \<Rightarrow> string \<Rightarrow> image_response api" where
  "get_local_image_asset env now token st =
     (case path_for now token (lv_assets (as_live st)) of
        (found, reg) \<Rightarrow>
          (let st' = with_live (\<lambda>l. l\<lparr>lv_assets := reg\<rparr>) st in
           case found of
             None \<Rightarrow> (Inl (ApiNotFound ''local image asset not found''), st')
           | Some path \<Rightarrow>
               (case image_content_type path of
                  None \<Rightarrow> (Inl (ApiUnsupportedMediaType ''unsupported media type''), st')
                | Some content_type \<Rightarrow>
                    (case en_read env path of
                       Inr bytes \<Rightarrow>
                         (Inr \<lparr>ir_content_type = content_type, ir_bytes = bytes\<rparr>, st')
                     | Inl PermissionDenied \<Rightarrow>
                         (Inl (ApiForbidden ''local image asset permission denied''), st')
                     | Inl OtherFileError \<Rightarrow>
                         (Inl (ApiNotFound ''local image asset not found''), st')))))"

end
