(* ===== verification/Api_Routes.thy ===== *)
theory Api_Routes
  imports Api_Access Session_Api Session_Events
begin

text \<open>
  The routes of \<open>crates/bridge-core/src/http_api.rs\<close>: the table of routes with the guard of each, what
  a request is after axum has matched its path and read its body, the handler a guarded request is
  given to, and the bridge as a sequence of requests and of notifications of Codex.
\<close>

section \<open>The routes\<close>

datatype http_method = HttpGet | HttpPost | HttpPut | HttpDelete

datatype guard = NoGuard | BearerGuard | WebsocketGuard | ControlGuard

type_synonym route = "http_method \<times> string"

definition authenticated_phone_routes :: "route list" where
  "authenticated_phone_routes =
     [(HttpGet, ''/api/assets/local-image/:asset_token''),
      (HttpGet, ''/api/sessions''), (HttpPost, ''/api/sessions''),
      (HttpGet, ''/api/workspaces''),
      (HttpGet, ''/api/sessions/:thread_id/events''),
      (HttpPost, ''/api/sessions/:thread_id/messages''),
      (HttpGet, ''/api/approvals''),
      (HttpGet, ''/api/notification-settings''), (HttpPut, ''/api/notification-settings''),
      (HttpPost, ''/api/notifications/test''),
      (HttpGet, ''/api/push/public-key''),
      (HttpPost, ''/api/push/subscription''), (HttpDelete, ''/api/push/subscription''),
      (HttpPost, ''/api/approvals/:approval_id/decision'')]"

definition phone_routes :: "(guard \<times> route) list" where
  "phone_routes =
     [(NoGuard, HttpGet, ''/api/health''), (NoGuard, HttpPost, ''/api/pairing/complete''),
      (NoGuard, HttpPost, ''/api/session/refresh'')]
     @ map (Pair BearerGuard) authenticated_phone_routes
     @ [(WebsocketGuard, HttpGet, ''/ws'')]"

definition control_routes :: "(guard \<times> route) list" where
  "control_routes = map (Pair ControlGuard)
     [(HttpPost, ''/api/control/pairing/start''), (HttpGet, ''/api/control/diagnostics''),
      (HttpPut, ''/api/control/remote-access''), (HttpGet, ''/api/control/devices''),
      (HttpDelete, ''/api/control/devices/:id''), (HttpPost, ''/api/control/dev/approvals'')]"

definition build_router :: "(guard \<times> route) list" where
  "build_router = phone_routes @ control_routes"

text \<open>A request whose path and body were read; the rest of what it brings are its headers.\<close>

datatype api_call =
    GetHealth
  | CompletePairing pairing_complete_request
  | RefreshSession session_refresh_request
  | GetLocalImage string
  | ListSessions
  | CreateSessionCall create_session_request
  | ListWorkspaces
  | ListSessionEvents string events_query
  | SendMessage string send_message_request
  | ListApprovals
  | GetSettings
  | PutSettings notification_settings_input
  | SendTest
  | GetPublicKey
  | SaveSubscription push_subscription_request
  | DeleteSubscription
  | DecideApproval string approval_decision_request
  | OpenWebsocket
  | StartPairing
  | ControlDiagnostics
  | SetPublicAccess public_access_context
  | ListDevices
  | RevokeDevice string
  | TriggerDevApproval dev_approval_request

fun route_of :: "api_call \<Rightarrow> route" where
  "route_of GetHealth = (HttpGet, ''/api/health'')"
| "route_of (CompletePairing _) = (HttpPost, ''/api/pairing/complete'')"
| "route_of (RefreshSession _) = (HttpPost, ''/api/session/refresh'')"
| "route_of (GetLocalImage _) = (HttpGet, ''/api/assets/local-image/:asset_token'')"
| "route_of ListSessions = (HttpGet, ''/api/sessions'')"
| "route_of (CreateSessionCall _) = (HttpPost, ''/api/sessions'')"
| "route_of ListWorkspaces = (HttpGet, ''/api/workspaces'')"
| "route_of (ListSessionEvents _ _) = (HttpGet, ''/api/sessions/:thread_id/events'')"
| "route_of (SendMessage _ _) = (HttpPost, ''/api/sessions/:thread_id/messages'')"
| "route_of ListApprovals = (HttpGet, ''/api/approvals'')"
| "route_of GetSettings = (HttpGet, ''/api/notification-settings'')"
| "route_of (PutSettings _) = (HttpPut, ''/api/notification-settings'')"
| "route_of SendTest = (HttpPost, ''/api/notifications/test'')"
| "route_of GetPublicKey = (HttpGet, ''/api/push/public-key'')"
| "route_of (SaveSubscription _) = (HttpPost, ''/api/push/subscription'')"
| "route_of DeleteSubscription = (HttpDelete, ''/api/push/subscription'')"
| "route_of (DecideApproval _ _) = (HttpPost, ''/api/approvals/:approval_id/decision'')"
| "route_of OpenWebsocket = (HttpGet, ''/ws'')"
| "route_of StartPairing = (HttpPost, ''/api/control/pairing/start'')"
| "route_of ControlDiagnostics = (HttpGet, ''/api/control/diagnostics'')"
| "route_of (SetPublicAccess _) = (HttpPut, ''/api/control/remote-access'')"
| "route_of ListDevices = (HttpGet, ''/api/control/devices'')"
| "route_of (RevokeDevice _) = (HttpDelete, ''/api/control/devices/:id'')"
| "route_of (TriggerDevApproval _) = (HttpPost, ''/api/control/dev/approvals'')"

definition guard_of :: "api_call \<Rightarrow> guard option" where
  "guard_of rq = map_option fst (find (\<lambda>(g, r). r = route_of rq) build_router)"

section \<open>A request\<close>

text \<open>The guard gives the identity of the device, which the control routes and the open ones have not.\<close>

definition guard_call :: "api_env \<Rightarrow> header_map \<Rightarrow> string option \<Rightarrow> guard \<Rightarrow> string option api" where
  "guard_call env headers uri_query g =
     (case g of
        NoGuard \<Rightarrow> ok None
      | BearerGuard \<Rightarrow> bind_ok (require_bearer_auth env headers) (\<lambda>did. ok (Some did))
      | WebsocketGuard \<Rightarrow> bind_ok (require_websocket_auth env headers uri_query) (\<lambda>did. ok (Some did))
      | ControlGuard \<Rightarrow> then_ok (require_control_token headers) (ok None))"

datatype api_reply =
    HealthReply health_response
  | SessionReply device_registration
  | ImageReply image_response
  | SessionsReply "session_list_item list"
  | SnapshotReply session_snapshot
  | WorkspacesReply "workspace_option list"
  | EventsReply events_response
  | AcceptedReply
  | ApprovalsReply "json approval_request list"
  | ApprovalReply "json approval_request"
  | SettingsReply notification_settings_response
  | AlertReply alert_event
  | PublicKeyReply string
  | NoContentReply
  | StreamReply "json event_subscriber"
  | PairingStartReply pairing_start_response
  | DiagnosticsReply diagnostics_report "push_subscription_diagnostic list"
  | DevicesReply "device_response list"

definition reply_as :: "('a \<Rightarrow> api_reply) \<Rightarrow> 'a api \<Rightarrow> api_reply api" where
  "reply_as f m = bind_ok m (\<lambda>a. ok (f a))"

text \<open>A subscriber of the hub, which from then on has one more receiver.\<close>

definition open_stream :: "string \<Rightarrow> json event_subscriber api" where
  "open_stream did =
     bind_ok (gets (\<lambda>st. subscribe_with_device (Some did) [] (api_hub st))) (\<lambda>subscriber.
       then_ok (modify (with_api_hub (\<lambda>h. (0, h\<lparr>receivers := Suc (receivers h)\<rparr>))))
         (ok subscriber))"

text \<open>The handlers that answer at once, of a request of the device \<open>did\<close>.\<close>

fun respond :: "api_env \<Rightarrow> header_map \<Rightarrow> string \<Rightarrow> api_call \<Rightarrow> api_reply api" where
  "respond env headers did GetHealth = reply_as HealthReply (health env)"
| "respond env headers did (CompletePairing request) =
     reply_as SessionReply (complete_pairing env request)"
| "respond env headers did (RefreshSession request) =
     reply_as SessionReply (refresh_session env request)"
| "respond env headers did (GetLocalImage token) =
     reply_as ImageReply (get_local_image_asset env (en_now env) token)"
| "respond env headers did ListSessions = reply_as SessionsReply (list_sessions env)"
| "respond env headers did (CreateSessionCall request) =
     reply_as SnapshotReply (create_session_route env request)"
| "respond env headers did ListWorkspaces = reply_as WorkspacesReply (list_workspaces env)"
| "respond env headers did (ListSessionEvents thread_id q) =
     reply_as EventsReply (list_session_events env thread_id headers q)"
| "respond env headers did (SendMessage thread_id request) = ok AcceptedReply"
| "respond env headers did ListApprovals = reply_as ApprovalsReply (list_approvals env)"
| "respond env headers did GetSettings =
     reply_as SettingsReply (notification_settings_response env did headers)"
| "respond env headers did (PutSettings input) =
     reply_as SettingsReply (put_notification_settings env did headers input)"
| "respond env headers did SendTest = reply_as AlertReply (send_test_notification env did)"
| "respond env headers did GetPublicKey = reply_as PublicKeyReply (get_push_public_key env headers)"
| "respond env headers did (SaveSubscription request) =
     reply_as (\<lambda>_. NoContentReply) (save_push_subscription env did headers request)"
| "respond env headers did DeleteSubscription =
     reply_as (\<lambda>_. NoContentReply) (delete_push_subscription did)"
| "respond env headers did (DecideApproval approval_id request) =
     reply_as (\<lambda>_. AcceptedReply) (decide_approval env approval_id did request)"
| "respond env headers did OpenWebsocket = reply_as StreamReply (open_stream did)"
| "respond env headers did StartPairing = reply_as PairingStartReply (start_pairing env)"
| "respond env headers did ControlDiagnostics =
     reply_as (\<lambda>(d, p). DiagnosticsReply d p) (control_diagnostics env)"
| "respond env headers did (SetPublicAccess context) =
     reply_as (\<lambda>_. NoContentReply) (set_public_access_context env context)"
| "respond env headers did ListDevices = reply_as DevicesReply list_devices"
| "respond env headers did (RevokeDevice target) =
     reply_as (\<lambda>_. NoContentReply) (revoke_device_route env target)"
| "respond env headers did (TriggerDevApproval request) =
     reply_as ApprovalReply (trigger_dev_approval env request)"

text \<open>\<open>None\<close>: the request waits, which only a message can whose identifier is being delivered.\<close>

definition perform ::
  "api_env \<Rightarrow> header_map \<Rightarrow> string \<Rightarrow> api_call \<Rightarrow> api_state
    \<Rightarrow> ((api_error + api_reply) \<times> api_state) option" where
  "perform env headers did rq st =
     (case rq of
        SendMessage thread_id request \<Rightarrow>
          map_option (\<lambda>(r, st'). (map_sum id (\<lambda>_. AcceptedReply) r, st'))
            (send_message env did thread_id headers request st)
      | _ \<Rightarrow> Some (respond env headers did rq st))"

text \<open>No route: axum's \<open>404\<close>.\<close>

definition handle ::
  "api_env \<Rightarrow> header_map \<Rightarrow> string option \<Rightarrow> api_call \<Rightarrow> api_state
    \<Rightarrow> ((api_error + api_reply) \<times> api_state) option" where
  "handle env headers uri_query rq st =
     (case guard_of rq of
        None \<Rightarrow> Some (Inl (ApiNotFound []), st)
      | Some g \<Rightarrow>
          (case guard_call env headers uri_query g st of
             (Inl e, st') \<Rightarrow> Some (Inl e, st')
           | (Inr did, st') \<Rightarrow> perform env headers (unwrap_or [] did) rq st'))"

datatype bridge_step =
    Request api_env header_map "string option" api_call
  | Notification live_env codex_raw_event

text \<open>A request that waits has changed nothing.\<close>

fun take_step :: "bridge_step \<Rightarrow> api_state \<Rightarrow> api_state" where
  "take_step (Request env headers uri_query rq) st =
     (case handle env headers uri_query rq st of None \<Rightarrow> st | Some (r, st') \<Rightarrow> st')"
| "take_step (Notification env n) st = with_live (\<lambda>l. snd (apply_codex_notification env n l)) st"

definition bridge_run :: "bridge_step list \<Rightarrow> api_state \<Rightarrow> api_state" where
  "bridge_run steps st = fold take_step steps st"

lemma guard_of_simps [simp]:
  "guard_of GetHealth = Some NoGuard" "guard_of (CompletePairing r) = Some NoGuard"
  "guard_of (RefreshSession f) = Some NoGuard" "guard_of (GetLocalImage t) = Some BearerGuard"
  "guard_of ListSessions = Some BearerGuard" "guard_of (CreateSessionCall c) = Some BearerGuard"
  "guard_of ListWorkspaces = Some BearerGuard" "guard_of (ListSessionEvents t q) = Some BearerGuard"
  "guard_of (SendMessage t m) = Some BearerGuard" "guard_of ListApprovals = Some BearerGuard"
  "guard_of GetSettings = Some BearerGuard" "guard_of (PutSettings i) = Some BearerGuard"
  "guard_of SendTest = Some BearerGuard" "guard_of GetPublicKey = Some BearerGuard"
  "guard_of (SaveSubscription p) = Some BearerGuard" "guard_of DeleteSubscription = Some BearerGuard"
  "guard_of (DecideApproval t d) = Some BearerGuard" "guard_of OpenWebsocket = Some WebsocketGuard"
  "guard_of StartPairing = Some ControlGuard" "guard_of ControlDiagnostics = Some ControlGuard"
  "guard_of (SetPublicAccess c') = Some ControlGuard" "guard_of ListDevices = Some ControlGuard"
  "guard_of (RevokeDevice t) = Some ControlGuard" "guard_of (TriggerDevApproval v) = Some ControlGuard"
  by (simp_all add: guard_of_def build_router_def phone_routes_def control_routes_def
      authenticated_phone_routes_def)

lemma guard_of_Some: "\<exists>g. guard_of rq = Some g"
  by (cases rq) simp_all

end
