(* ===== verification/Api_Frames.thy ===== *)
theory Api_Frames
  imports Api_Routes
begin

text \<open>
  What each handler of the HTTP API leaves unchanged: all but those of pairing leave the pairing
  manager and the table of devices, and keep the invariant of the notification tables. The locale
  \<open>pairing_kept\<close> is the contract of a property of the pairing state that its calls keep; inside it the
  property is carried over every request and every notification of Codex.
\<close>

section \<open>What the handlers leave of the pairing state\<close>

definition kept :: "device list \<Rightarrow> bool \<Rightarrow> db \<Rightarrow> bool" where
  "kept ds i s \<longleftrightarrow> devices s = ds \<and> (i \<longrightarrow> store_inv s)"

definition frame :: "pairing_manager \<Rightarrow> device list \<Rightarrow> bool \<Rightarrow> api_state \<Rightarrow> bool" where
  "frame pm ds i st \<longleftrightarrow> as_pairing st = pm \<and> kept ds i (api_db st)"

lemma maintains_snd: "maintains P m \<Longrightarrow> P s \<Longrightarrow> P (snd (m s))"
  by (simp add: maintains_def)

lemma keptI:
  "maintains (\<lambda>s. devices s = ds) m \<Longrightarrow> maintains store_inv m \<Longrightarrow> maintains (kept ds i) m"
  by (auto simp: maintains_def kept_def)

lemma write_devices: "(\<And>s. devices (f s) = devices s) \<Longrightarrow> maintains (\<lambda>s. devices s = ds) (sql_write b f)"
  by (rule sql_write_maintains) simp_all

lemma read_devices: "maintains (\<lambda>s. devices s = ds) (sql_read f)"
  by (rule sql_read_maintains) simp

lemma push_diagnostics_inv: "maintains store_inv (push_subscription_diagnostics host)"
  unfolding push_subscription_diagnostics_def by (rule sql_read_maintains) simp

lemma subscription_for_device_inv: "maintains store_inv (subscription_for_device did)"
  unfolding subscription_for_device_def by (rule sql_read_maintains) simp

lemma keeps_written [maintains_intros]:
  "maintains (kept ds i) (save_settings x)" "maintains (kept ds i) (save_subscription sub)"
  "maintains (kept ds i) (delete_subscription did)"
  "maintains (kept ds i) (delete_device_notification_data did)"
  "maintains (kept ds i) (save_alert_state enc a)"
  by (rule keptI; (rule maintains_intros)?;
      auto simp: save_settings_def save_subscription_def delete_subscription_def
        delete_device_notification_data_def save_alert_state_def intro!: write_devices)+

lemma keeps_read [maintains_intros]:
  "maintains (kept ds i) (settings_for_device did)" "maintains (kept ds i) enabled_settings"
  "maintains (kept ds i) (active_subscription did)"
  "maintains (kept ds i) (subscription_for_device did)"
  "maintains (kept ds i) (push_subscription_diagnostics host)"
  by (rule keptI; (rule maintains_intros subscription_for_device_inv push_diagnostics_inv)?;
      auto simp: settings_for_device_def enabled_settings_def active_subscription_def
        subscription_for_device_def push_subscription_diagnostics_def intro!: read_devices)+

lemma keeps_called [maintains_intros]:
  "maintains (kept ds i) (fail_pending_deliveries category now)"
  "maintains (kept ds i) (enqueue_delivery d)"
  "maintains (kept ds i) (alert_state_for_thread dec tid)"
  by (rule keptI; (rule maintains_intros)?;
      auto simp: fail_pending_deliveries_def enqueue_delivery_def alert_state_for_thread_def
        with_params_def split: if_splits option.splits sum.splits intro!: sql_call_maintains)+


lemma keeps_dispatch [maintains_intros]:
  "maintains (\<lambda>w. kept ds i (store_db w)) (dispatch to_json now rt ev)"
  by (intro dispatch_store maintains_intros)

lemma keeps_dispatch_test [maintains_intros]:
  "maintains (\<lambda>w. kept ds i (store_db w)) (dispatch_test_to_device to_json at rt did ev)"
proof -
  have "maintains (\<lambda>w :: 'a bridge. kept ds i (store_db w))
      (bind_ok (on_notification_store (settings_for_device did)) (\<lambda>st.
        bind_ok (enqueue_push to_json at rt st ev True acc) (\<lambda>queued.
          if queued then ok 0 else send_alert did ev)))" for acc
    by (intro maintains_intros enqueue_push_store send_alert_store)
  then show ?thesis by (simp add: maintains_def dispatch_test_to_device_def Let_def)
qed

lemma keeps_dispatched:
  "kept ds i (store_db w) \<Longrightarrow> kept ds i (store_db (snd (dispatch to_json now rt ev w)))"
  by (rule maintains_snd [where P = "\<lambda>w. kept ds i (store_db w)", OF keeps_dispatch])

lemma keeps_alerts:
  assumes "kept ds i (store_db (lv_bridge l))"
  shows "kept ds i (store_db (lv_bridge (process_snapshot_alerts env snap l)))"
proof -
  have each: "kept ds i (store_db b) \<Longrightarrow> kept ds i (store_db (dispatch_each env evs b))" for evs b
    by (induction evs arbitrary: b) (simp_all add: keeps_dispatched)
  have obs: "maintains (\<lambda>w. kept ds i (store_db w)) (observe_thread c snap native)" for c native
    unfolding observe_thread_def Let_def by (intro maintains_intros)
  obtain r b where r: "observe_thread (le_codecs env) snap (snap_pending_approval_ids snap) (lv_bridge l) = (r, b)"
    by fastforce
  have "kept ds i (store_db b)" using maintainsD [OF obs r] assms by simp
  with r show ?thesis by (auto simp: process_snapshot_alerts_def each split: sum.splits)
qed

lemma live_db:
  "store_db (lv_bridge (publish_session_event e l)) = store_db (lv_bridge l)"
  "store_db (lv_bridge (with_hub f l)) = store_db (lv_bridge l)"
  "store_db (lv_bridge (cache_live_adapter_event e l)) = store_db (lv_bridge l)"
  "store_db (lv_bridge (replace_session_event_history t es l)) = store_db (lv_bridge l)"
  by (simp_all add: publish_session_event_def with_hub_def record_session_event_def
      cache_live_adapter_event_def replace_session_event_history_def Let_def)

lemma keeps_notification:
  assumes "kept ds i (store_db (lv_bridge l))"
  shows "kept ds i (store_db (lv_bridge (snd (apply_codex_notification env n l))))"
proof -
  have pub: "store_db (lv_bridge (snd (publish_live_event env e l))) = store_db (lv_bridge l)" for e l
    by (auto simp: publish_live_event_def live_db Let_def split: prod.splits)
  have snap: "update_snapshot_from_live_event e a l = (s, l') \<Longrightarrow> store_db (lv_bridge l') = store_db (lv_bridge l)"
    for e a l s l'
    by (auto simp: update_snapshot_from_live_event_def live_db Let_def split: if_splits)
  have app: "record_live_approval n t c l = (a, l') \<Longrightarrow> store_db (lv_bridge l') = store_db (lv_bridge l)"
    for t c l a l'
    by (auto simp: record_live_approval_def live_db split: option.splits)
  have upd: "kept ds i (store_db (lv_bridge (update_from_event env n e l)))" for e
    using assms by (auto simp: update_from_event_def snap app intro!: keeps_alerts
        split: prod.splits option.splits)
  show ?thesis
    using assms upd by (auto simp: apply_codex_notification_def pub Let_def split: option.splits)
qed

section \<open>Frames of the handlers\<close>

lemma frame_on_db [maintains_intros]:
  "maintains (kept ds i) m \<Longrightarrow> maintains (frame pm ds i) (on_db e m)"
  by (auto simp: maintains_def frame_def on_db_def split: prod.splits sum.splits)

lemma frame_on_client [maintains_intros]: "maintains (frame pm ds i) (on_client m)"
  by (auto simp: maintains_def frame_def on_client_def api_db_def split: prod.splits sum.splits)

lemma frame_on_bridge [maintains_intros]:
  "maintains (\<lambda>w. kept ds i (store_db w)) m \<Longrightarrow> maintains (frame pm ds i) (on_bridge e m)"
  by (auto simp: maintains_def frame_def on_bridge_def api_db_def with_live_def
      split: prod.splits sum.splits)

lemma frame_gets [maintains_intros]: "maintains P (gets f)"
  by (simp add: maintains_def gets_def)

lemma frame_lift_sum [maintains_intros]: "maintains P (lift_sum f r)"
  by (simp add: maintains_def lift_sum_run)

lemma frame_map_err [maintains_intros]: "maintains P m \<Longrightarrow> maintains P (map_err f m)"
  by (auto simp: maintains_def map_err_def split: prod.splits sum.splits)

lemma frame_reply_as [maintains_intros]: "maintains P m \<Longrightarrow> maintains P (reply_as f m)"
  unfolding reply_as_def by (intro maintains_intros)

text \<open>A change of the state that leaves its manager and its database.\<close>

definition elsewhere :: "(api_state \<Rightarrow> api_state) \<Rightarrow> bool" where
  "elsewhere f \<longleftrightarrow> (\<forall>st. as_pairing (f st) = as_pairing st \<and> api_db (f st) = api_db st)"

lemma elsewhereD: "elsewhere f \<Longrightarrow> frame pm ds i st \<Longrightarrow> frame pm ds i (f st)"
  by (simp add: elsewhere_def frame_def)

lemma frame_modify: "elsewhere f \<Longrightarrow> maintains (frame pm ds i) (modify f)"
  by (simp add: maintains_def modify_def elsewhereD)

lemma elsewhere_live:
  "(\<And>l. store_db (lv_bridge (f l)) = store_db (lv_bridge l)) \<Longrightarrow> elsewhere (with_live f)"
  by (simp add: elsewhere_def with_live_def api_db_def)

lemma elsewhere_hub: "elsewhere (with_api_hub f)"
  unfolding with_api_hub_def by (rule elsewhere_live) (simp add: live_db)


lemma elsewhere_id: "elsewhere (\<lambda>st. st)"
  by (simp add: elsewhere_def)

definition same_place :: "api_state \<Rightarrow> api_state \<Rightarrow> bool" where
  "same_place st st' \<longleftrightarrow> as_pairing st' = as_pairing st \<and> api_db st' = api_db st"

lemma same_place_simps [simp]:
  "same_place st st" "same_place st (forget_retry t st') = same_place st st'"
  "same_place st (remember_subagent_classification th st') = same_place st st'"
  "same_place (remember_subagent_classification th st) st' = same_place st st'"
  "same_place st (st'\<lparr>as_client := c\<rparr>) = same_place st st'"
  "same_place st (st'\<lparr>as_retries := r\<rparr>) = same_place st st'"
  "same_place st (with_api_hub g st') = same_place st st'"
  by (simp_all add: same_place_def forget_retry_def remember_subagent_classification_def api_state_defs
      with_hub_def)

lemma same_place_trans: "same_place st st' \<Longrightarrow> same_place st' st'' \<Longrightarrow> same_place st st''"
  by (simp add: same_place_def)

lemma same_place_via_hub:
  "same_place (with_api_hub g st') st'' \<Longrightarrow> same_place st st' \<Longrightarrow> same_place st st''"
  by (simp add: same_place_def api_state_defs with_hub_def)

lemma enrich_place:
  assumes "enrich_snapshot_metadata tr now s st = (e, st')"
  shows "same_place st st'"
proof -
  have resume: "same_place st st'" if "resume_for_metadata tr s st = (e, st')" for s e st st'
    using that by (auto simp: resume_for_metadata_def split: prod.splits sum.splits option.splits)
  have attempt: "same_place st st'" if "begin_snapshot_enrichment_attempt now t st = (g, st')" for t g st st'
    using that by (auto simp: begin_snapshot_enrichment_attempt_def split: option.splits)
  show ?thesis
    using assms unfolding enrich_snapshot_metadata_def Let_def
    by (auto split: prod.splits bool.splits if_splits dest!: attempt resume intro: same_place_trans)
qed

lemma listed_place:
  "snapshot_for_listed_thread tr now t st = (e, st') \<Longrightarrow> same_place st st'"
  unfolding snapshot_for_listed_thread_def by (drule enrich_place) simp

lemma elsewhere_lists:
  "elsewhere (store_listed env n ts)" "elsewhere (enrich_all env n ss)"
proof -
  have "same_place st (store_listed env n ts st)" for st
    by (induction ts arbitrary: n st)
      (auto split: prod.split dest!: listed_place intro: same_place_via_hub)
  then show "elsewhere (store_listed env n ts)" by (simp add: elsewhere_def same_place_def)
  have "same_place st (enrich_all env n ss st)" for st
    by (induction ss arbitrary: n st)
      (auto split: prod.split dest!: enrich_place intro: same_place_via_hub same_place_trans)
  then show "elsewhere (enrich_all env n ss)" by (simp add: elsewhere_def same_place_def)
qed

lemma frame_list_sessions [maintains_intros]: "maintains (frame pm ds i) (list_sessions env)"
proof -
  have "elsewhere (\<lambda>st. enrich_all env n (all_snapshots (api_hub st)) st)" for n
    using elsewhere_lists(2) by (simp add: elsewhere_def)
  then show ?thesis
    unfolding list_sessions_def by (intro maintains_intros frame_modify elsewhere_lists) blast
qed

lemma frame_publish_user_message [maintains_intros]:
  "maintains (frame pm ds i) (publish_user_message env e)"
proof -
  have "maintains (frame pm ds i) (register_event_assets env' e)" for env'
    by (auto simp: maintains_def register_event_assets_def frame_def with_live_def api_db_def
        split: prod.split)
  then show ?thesis
    unfolding publish_user_message_def
    by (intro maintains_intros frame_modify elsewhere_live) (simp_all add: live_db)
qed

lemma frame_sessions [maintains_intros]:
  "maintains (frame pm ds i) (list_workspaces env)"
  "maintains (frame pm ds i) (list_approvals env)"
  "maintains (frame pm ds i) (decide_approval env aid did request)"
  "maintains (frame pm ds i) (create_session_route env cr)"
  "maintains (frame pm ds i) (deliver_user_message env tid text images cid)"
  unfolding list_workspaces_def list_approvals_def adapter_approvals_def decide_approval_def
    create_session_route_def deliver_user_message_def Let_def
  by (intro maintains_intros frame_modify elsewhere_hub elsewhere_live; simp)+

lemma frame_trigger [maintains_intros]:
  "maintains (frame pm ds i) (trigger_dev_approval env request)"
proof -
  have "elsewhere (\<lambda>st. case snapshot_for_thread t (api_hub st) of None \<Rightarrow> st
      | Some snap \<Rightarrow> with_api_hub (f snap) st)" for t f
    using elsewhere_hub by (auto simp: elsewhere_def split: option.split)
  then show ?thesis
    unfolding trigger_dev_approval_def Let_def
    by (intro maintains_intros frame_modify elsewhere_hub elsewhere_live) simp_all
qed


lemma elsewhere_cache: "elsewhere (with_cache t f)"
  by (simp add: elsewhere_def with_cache_def with_live_def api_db_def)

lemma frame_load_older [maintains_intros]: "maintains (frame pm ds i) (load_older env t before limit k)"
proof (induction k)
  case (Suc k)
  show ?case unfolding maintains_def
  proof (intro allI impI)
    fix st assume st: "frame pm ds i st"
    show "frame pm ds i (snd (load_older env t before limit (Suc k) st))"
    proof (cases "wanted_page before limit (cache_of t st)")
      case (Some c)
      obtain r st1 where r: "on_client (list_turns_page (en_transport env) t (Some c)) st = (r, st1)"
        by fastforce
      have st1: "frame pm ds i st1" using maintainsD [OF frame_on_client r st] .
      have "frame pm ds i (with_cache t g st1)" for g by (rule elsewhereD [OF elsewhere_cache st1])
      then show ?thesis
        using Suc.IH st1 Some r
        by (auto simp: bind_ok_run Let_def maintains_def split: sum.split prod.split)
    qed (simp add: st)
  qed
qed (simp add: maintains_intros)

lemma frame_events_of_session [maintains_intros]:
  "maintains (frame pm ds i) (events_of_session env t q)"
proof -
  have live: "elsewhere (with_live (replace_session_event_history t es))" for es
    by (rule elsewhere_live) (simp add: live_db)
  show ?thesis
    unfolding events_of_session_def adapter_events_for_query_def all_turn_events_def
    by (intro maintains_intros frame_modify elsewhere_cache live)
qed

lemma frame_list_events [maintains_intros]:
  "maintains (frame pm ds i) (list_session_events env t headers q)"
proof -
  have mobile: "maintains (frame pm ds i) (for_mobile env es)" for es
    by (auto simp: maintains_def for_mobile_def frame_def with_live_def api_db_def split: prod.split)
  have pair: "(\<And>a b. maintains P (f a b)) \<Longrightarrow> maintains P (case p of (a, b) \<Rightarrow> f a b)"
    for P :: "api_state \<Rightarrow> bool" and f :: "'x \<Rightarrow> 'y \<Rightarrow> 'z api" and p
    by (cases p) simp
  show ?thesis
    unfolding list_session_events_def query_with_headers_def Let_def
    by (intro maintains_intros mobile pair)
qed

lemma frame_image [maintains_intros]: "maintains (frame pm ds i) (get_local_image_asset env now token)"
  by (auto simp: maintains_def get_local_image_asset_def frame_def with_live_def api_db_def Let_def
      split: prod.split option.split sum.split file_error.split)

lemma frame_send_message:
  assumes "send_message env did t headers request st = Some (r, st')" and "frame pm ds i st"
  shows "frame pm ds i st'"
proof -
  have cache: "frame pm ds i (s\<lparr>as_dedupe := c\<rparr>) = frame pm ds i s" for s c
    by (simp add: frame_def api_db_def)
  have deliver: "deliver_user_message env t m images cid s = (q, s') \<Longrightarrow> frame pm ds i s \<Longrightarrow> frame pm ds i s'"
    for m images cid s q s'
    by (rule maintainsD [OF frame_sessions(5)])
  show ?thesis
    using assms
    by (auto simp: send_message_def deliver_as_owner_def Let_def cache
        split: if_splits sum.splits option.splits dedupe_claim.splits prod.splits
        dest!: deliver)
qed

lemma frame_settings [maintains_intros]:
  "maintains (frame pm ds i) (notification_settings_response env did headers)"
  unfolding notification_settings_response_def Let_def by (intro maintains_intros)

lemma frame_notifications [maintains_intros]:
  "maintains (frame pm ds i) (put_notification_settings env did headers input)"
  "maintains (frame pm ds i) (send_test_notification env did)"
  "maintains (frame pm ds i) (get_push_public_key env headers)"
  "maintains (frame pm ds i) (save_push_subscription env did headers request)"
  "maintains (frame pm ds i) (delete_push_subscription did)"
proof -
  have named: "maintains (frame pm ds i) (require_named_push_origin env headers)"
    by (auto simp: maintains_def require_named_push_origin_def action_simps
        split: public_access_mode.split option.split)
  show "maintains (frame pm ds i) (put_notification_settings env did headers input)"
    "maintains (frame pm ds i) (send_test_notification env did)"
    "maintains (frame pm ds i) (get_push_public_key env headers)"
    "maintains (frame pm ds i) (save_push_subscription env did headers request)"
    "maintains (frame pm ds i) (delete_push_subscription did)"
    unfolding put_notification_settings_def send_test_notification_def get_push_public_key_def
      save_push_subscription_def delete_push_subscription_def Let_def
    by (intro maintains_intros named)+
qed

lemma frame_others [maintains_intros]:
  "maintains (frame pm ds i) (health env)" "maintains (frame pm ds i) (open_stream did)"
  "maintains (frame pm ds i) (set_public_access_context env context)"
  "maintains (frame pm ds i) (control_diagnostics env)"
proof -
  show "maintains (frame pm ds i) (health env)" "maintains (frame pm ds i) (open_stream did)"
    unfolding health_def open_stream_def by (intro maintains_intros frame_modify elsewhere_hub)+
  have access: "frame pm ds i (with_access c st) = frame pm ds i st" for c st
    by (simp add: frame_def api_state_defs)
  have "maintains (frame pm ds i) (bind_ok (on_db (ApiInternal ''notification outbox unavailable'')
      (fail_pending_deliveries ''public_access_changed'' (en_now env))) (\<lambda>_. ok ()))"
    by (intro maintains_intros)
  then show "maintains (frame pm ds i) (set_public_access_context env context)"
    by (auto simp: maintains_def set_public_access_context_def access Let_def
        split: prod.split sum.split)
  have "maintains (kept ds i) (push_subscription_diagnostics host)" for host
    by (rule maintains_intros)
  then show "maintains (frame pm ds i) (control_diagnostics env)"
    by (auto simp: maintains_def control_diagnostics_def frame_def api_state_defs split: prod.split sum.split)
      (metis snd_conv)+
qed


section \<open>Properties of the manager under requests\<close>

text \<open>A property of the manager that its tables but the one of devices do not enter.\<close>

definition stable :: "(pairing_manager \<Rightarrow> bool) \<Rightarrow> bool" where
  "stable Q \<longleftrightarrow> (\<forall>pm s s'. Q (pm\<lparr>pm_store := s\<rparr>) \<and> devices s' = devices s \<and> (store_inv s \<longrightarrow> store_inv s')
     \<longrightarrow> Q (pm\<lparr>pm_store := s'\<rparr>))"

lemma stable_frame:
  assumes "stable Q" and "frame (as_pairing st) (devices (api_db st)) (store_inv (api_db st)) st'"
    and "Q (pairing_of st)"
  shows "Q (pairing_of st')"
  using assms unfolding stable_def frame_def kept_def pairing_of_def by metis

lemma frame_start: "frame (as_pairing st) (devices (api_db st)) (store_inv (api_db st)) st"
  by (simp add: frame_def kept_def)

lemma stable_handler:
  assumes "stable Q" and "\<And>pm ds i. maintains (frame pm ds i) m"
  shows "maintains (\<lambda>st. Q (pairing_of st)) m"
  unfolding maintains_def
proof (intro allI impI)
  fix st assume "Q (pairing_of st)"
  moreover have "frame (as_pairing st) (devices (api_db st)) (store_inv (api_db st)) (snd (m st))"
    using assms(2) frame_start by (rule maintains_snd)
  ultimately show "Q (pairing_of (snd (m st)))" using stable_frame [OF assms(1)] by blast
qed

lemma on_pairing_keeps:
  "maintains Q m \<Longrightarrow> maintains (\<lambda>st. Q (pairing_of st)) (on_pairing m)"
  by (auto simp: maintains_def on_pairing_def split: prod.split)

fun pairs_device :: "string \<Rightarrow> bridge_step \<Rightarrow> bool" where
  "pairs_device did (Request env headers uri_query (CompletePairing request)) = (pc_device_id request = did)"
| "pairs_device did _ = False"

locale pairing_kept =
  fixes Q :: "pairing_manager \<Rightarrow> bool" and spared :: "string \<Rightarrow> bool"
  assumes stable: "stable Q"
    and kept_by: "\<lbrakk>\<And>d. registers d c \<Longrightarrow> \<not> spared d; Q pm\<rbrakk> \<Longrightarrow> Q (pairing_exec hash c pm)"
begin

lemma calls:
  "maintains Q (create_token now uuid)" "maintains Q (create_session hash now uuid did secret)"
  "maintains Q (validate_session_token now tok)" "maintains Q (revoke_paired_device now did)"
  "maintains Q active_paired_devices"
  "\<not> spared did \<Longrightarrow>
     maintains Q (register_device_with_origin hash now mint_now uuid tok did name secret origin)"
  using kept_by [of "CreateToken now uuid"] kept_by [of "CreateSession now uuid did secret" _ hash]
    kept_by [of "Validate now tok"] kept_by [of "Revoke now did"] kept_by [of ListActive]
    kept_by [of "Register now mint_now uuid tok did name secret origin" _ hash]
  by (simp_all add: maintains_def)

lemma guards: "maintains (\<lambda>st. Q (pairing_of st)) (guard_call env headers uri_query g)"
proof -
  have auth: "maintains (\<lambda>st. Q (pairing_of st)) (authenticate_token env token)" for token
    unfolding authenticate_token_def by (intro maintains_intros on_pairing_keeps calls)
  have bearer: "maintains (\<lambda>st. Q (pairing_of st)) (require_bearer_auth env headers)"
    unfolding require_bearer_auth_def by (intro maintains_intros auth)
  have ws: "maintains (\<lambda>st. Q (pairing_of st)) (require_websocket_auth env headers uri_query)"
    unfolding require_websocket_auth_def by (intro maintains_intros auth)
  have control: "maintains (\<lambda>st. Q (pairing_of st)) (require_control_token headers)"
    unfolding require_control_token_def by (intro maintains_intros)
  show ?thesis
    by (cases g; simp add: guard_call_def; intro maintains_intros bearer ws control)
qed

lemma refreshes: "maintains (\<lambda>st. Q (pairing_of st)) (refresh_session env request)"
proof -
  have "maintains (\<lambda>st. Q (pairing_of st)) (on_pairing (create_session (en_hash env) (en_now env)
      (en_uuid env) (sr_device_id request) (sr_device_secret request)))"
    by (intro on_pairing_keeps calls)
  then show ?thesis
    by (auto simp: maintains_def refresh_session_def action_simps record_refresh_failure_def
        clear_refresh_failures_def pairing_of_def Let_def api_db_def split: prod.split sum.split)
qed

lemma pairs:
  "\<not> spared (pc_device_id request) \<Longrightarrow>
     maintains (\<lambda>st. Q (pairing_of st)) (complete_pairing env request)"
  unfolding complete_pairing_def by (intro maintains_intros on_pairing_keeps calls)

lemma revokes: "maintains (\<lambda>st. Q (pairing_of st)) (revoke_device_route env did)"
  unfolding revoke_device_route_def
  by (intro maintains_intros on_pairing_keeps calls stable_handler [OF stable] frame_modify elsewhere_hub)

lemma responses:
  assumes "\<And>request. rq = CompletePairing request \<Longrightarrow> \<not> spared (pc_device_id request)"
  shows "maintains (\<lambda>st. Q (pairing_of st)) (respond env headers did rq)"
proof -
  have starts: "maintains (\<lambda>st. Q (pairing_of st)) (start_pairing env)"
    unfolding start_pairing_def by (intro maintains_intros on_pairing_keeps calls)
  have lists: "maintains (\<lambda>st. Q (pairing_of st)) list_devices"
    unfolding list_devices_def by (intro maintains_intros on_pairing_keeps calls)
  show ?thesis
    using assms
    by (cases rq; simp only: respond.simps; intro maintains_intros starts lists revokes refreshes pairs
        stable_handler [OF stable]; simp)
qed

lemma step:
  assumes "\<And>d. pairs_device d st \<Longrightarrow> \<not> spared d" and "Q (pairing_of s)"
  shows "Q (pairing_of (take_step st s))"
proof (cases st)
  case (Notification env n)
  have "frame (as_pairing s) (devices (api_db s)) (store_inv (api_db s)) (take_step st s)"
    using frame_start [of s] keeps_notification Notification
    by (auto simp: frame_def with_live_def api_db_def)
  then show ?thesis using assms(2) by (rule stable_frame [OF stable])
next
  case (Request env headers uri_query rq)
  obtain g where g: "guard_of rq = Some g" using guard_of_Some by blast
  obtain r s1 where r: "guard_call env headers uri_query g s = (r, s1)" by fastforce
  have s1: "Q (pairing_of s1)" using maintainsD [OF guards r] assms(2) .
  show ?thesis
  proof (cases "\<exists>t m. rq = SendMessage t m")
    case True
    then obtain t m where m: "rq = SendMessage t m" by blast
    have "Q (pairing_of s2)" if "send_message env did t headers m s1 = Some (q, s2)" for did q s2
      using stable_frame [OF stable frame_send_message [OF that frame_start] s1] .
    with Request g r s1 assms(2) m show ?thesis
      by (auto simp: handle_def perform_def split: sum.split option.split)
  next
    case False
    have "maintains (\<lambda>st. Q (pairing_of st)) (respond env headers did rq)" for did
      by (rule responses) (use assms(1) Request in auto)
    then have "Q (pairing_of (snd (respond env headers did rq s1)))" for did
      using s1 by (simp add: maintains_def)
    with Request g r s1 False show ?thesis
      by (cases rq; simp add: handle_def perform_def split: sum.split prod.split; metis snd_conv)
  qed
qed

lemma run:
  assumes "\<And>st d. st \<in> set steps \<Longrightarrow> pairs_device d st \<Longrightarrow> \<not> spared d" and "Q (pairing_of s)"
  shows "Q (pairing_of (bridge_run steps s))"
  using assms unfolding bridge_run_def
  by (induction steps arbitrary: s) (auto intro: step)

end

end
