(* ===== verification/Api_Guard.thy ===== *)
theory Api_Guard
  imports Api_Frames
begin

text \<open>
  Who gets past the guards of the HTTP API, and what stays true of the pairing state over all requests.
\<close>

section \<open>The two contracts of the pairing state\<close>

lemma store_inv_devices [simp]: "store_inv (s\<lparr>devices := ds\<rparr>) = store_inv s"
  by (simp add: store_inv_def)

lemma on_store_inv [maintains_intros]:
  "maintains store_inv m \<Longrightarrow> maintains (\<lambda>pm. store_inv (pm_store pm)) (on_store e m)"
  by (auto simp: maintains_def on_store_def split: prod.splits sum.splits)

lemma device_ops_inv [maintains_intros]:
  "maintains store_inv (insert_device d)" "maintains store_inv (revoke_device did at)"
  "maintains store_inv (device_by_id did)" "maintains store_inv active_devices"
  unfolding insert_device_def revoke_device_def device_by_id_def active_devices_def
  by (rule sql_write_maintains sql_read_maintains; simp)+

lemma pairing_exec_store_inv:
  assumes "store_inv (pm_store pm)"
  shows "store_inv (pm_store (pairing_exec hash c pm))"
proof -
  let ?P = "\<lambda>pm. store_inv (pm_store pm)"
  have mint: "maintains ?P (mint_session_token_for_device_id now uuid did)" for now uuid did
    by (simp add: maintains_def mint_session_token_for_device_id_def Let_def)
  have used: "maintains ?P (mark_used tok)" for tok
    by (simp add: maintains_def mark_used_def split: option.split)
  have register: "maintains ?P (register_device_with_origin hash now mint_now uuid tok did name secret origin)"
    for now mint_now uuid tok did name secret origin
  proof -
    have "maintains ?P (then_ok (on_store InvalidToken (insert_device d))
        (then_ok (mark_used tok) (mint_session_token_for_device_id mint_now uuid did)))" for d
      by (intro maintains_intros mint used)
    then show ?thesis
      by (simp add: maintains_def register_device_with_origin_def split: option.split)
  qed
  have "maintains ?P (create_session hash now uuid did secret)" for now uuid did secret
    unfolding create_session_def by (intro maintains_intros mint)
  moreover have "maintains ?P (validate_session_token now tok)" for now tok
  proof -
    have "maintains ?P (bind_ok (on_store DeviceNotFound (device_by_id did)) (\<lambda>found. case found of
        Some d \<Rightarrow> if revoked_at d \<noteq> None then err DeviceRevoked else ok did'
      | None \<Rightarrow> err DeviceNotFound))" for did did' :: string
      by (intro maintains_intros)
    then show ?thesis
      by (simp add: maintains_def validate_session_token_def split: option.split)
  qed
  moreover have "maintains ?P (revoke_paired_device now did)" for now did
    unfolding revoke_paired_device_def by (intro maintains_intros)
  moreover have "maintains ?P active_paired_devices"
    unfolding active_paired_devices_def by (intro maintains_intros)
  ultimately show ?thesis
    using register assms by (cases c) (simp_all add: maintains_def create_token_def)
qed

lemma stable_inv: "stable (\<lambda>pm. pairing_inv pm \<and> store_inv (pm_store pm))"
  by (simp add: stable_def pairing_inv_def device_lookup_def)

lemma stable_revoked: "stable (\<lambda>pm. devs.is_revoked (pm_store pm) did)"
  by (simp add: stable_def devs.is_revoked_def device_lookup_def)

interpretation tables_kept: pairing_kept "\<lambda>pm. pairing_inv pm \<and> store_inv (pm_store pm)" "\<lambda>_. False"
  by unfold_locales (simp_all add: stable_inv pairing_exec_inv pairing_exec_store_inv)

interpretation locked: pairing_kept "\<lambda>pm. devs.is_revoked (pm_store pm) did" "\<lambda>d. d = did" for did
  by unfold_locales (auto simp: stable_revoked intro: pairing_exec_keeps_revoked)

text \<open>Of a state of the bridge: unique keys, valid status columns, and no session of an unknown device.\<close>

definition api_inv :: "api_state \<Rightarrow> bool" where
  "api_inv st \<longleftrightarrow> pairing_inv (pairing_of st) \<and> store_inv (api_db st)"

section \<open>Who gets past a guard\<close>

text \<open>A token of a session of a device, at a time.\<close>

definition session_open :: "api_state \<Rightarrow> u64 \<Rightarrow> string \<Rightarrow> string \<Rightarrow> bool" where
  "session_open st now token did \<longleftrightarrow>
     (\<exists>t. session_tokens (as_pairing st) token = Some t \<and> st_device_id t = did \<and>
          now < st_expires_at t \<and> devs.is_active (api_db st) did)"

definition presented :: "guard \<Rightarrow> header_map \<Rightarrow> string option \<Rightarrow> string option" where
  "presented g headers uri_query =
     (case g of
        NoGuard \<Rightarrow> None
      | BearerGuard \<Rightarrow> bearer_token_from_headers headers
      | WebsocketGuard \<Rightarrow>
          or_else (bearer_token_from_headers headers) (token_from_query (unwrap_or [] uri_query))
      | ControlGuard \<Rightarrow> or_else (bearer_token_from_headers headers) (control_token_from_headers headers))"

text \<open>Nothing of the state has changed but the script of the database's faults.\<close>

definition unchanged :: "api_state \<Rightarrow> api_state \<Rightarrow> bool" where
  "unchanged st st' \<longleftrightarrow> st' = with_db (api_db st') st \<and> same_tables (api_db st') (api_db st)"

lemma unchanged_refl [simp]: "unchanged st st"
  by (simp add: unchanged_def)

lemma validate_tables:
  assumes "validate_session_token now tok pm = (r, pm')"
  shows "same_tables (pm_store pm') (pm_store pm)"
  using assms
  by (auto simp: validate_session_token_def action_simps on_store_def device_by_id_def
      split: option.splits if_splits sum.splits prod.splits dest: sql_read_tables)

lemma authenticate_cases:
  assumes "authenticate_token env token st = (r, st')"
  obtains (opened) did where "r = Inr did" and "session_open st (en_now env) token did"
      and "unchanged st st'"
  | (refused) "r = Inl ApiUnauthorized" and "unchanged st st'"
proof -
  obtain q pm where q: "validate_session_token (en_now env) token (pairing_of st) = (q, pm)" by fastforce
  have r: "r = (case q of Inl _ \<Rightarrow> Inl ApiUnauthorized | Inr did \<Rightarrow> Inr did)"
    and st': "st' = with_pairing pm st"
    using assms q by (auto simp: authenticate_token_def map_err_def on_pairing_def split: sum.splits)
  have "pm = (pairing_of st)\<lparr>pm_store := pm_store pm\<rparr>" using validate_frame(1) [OF q] .
  then have "st' = with_db (pm_store pm) st" using st' with_pairing_store by metis
  then have u: "unchanged st st'"
    using validate_tables [OF q] by (simp add: unchanged_def)
  show thesis
  proof (cases q)
    case (Inl e)
    with r u refused show ?thesis by simp
  next
    case (Inr did)
    then have "session_open st (en_now env) token did"
      using validate_ok_active [of "en_now env" token "pairing_of st" did] q
      by (auto simp: session_open_def)
    with r u Inr opened show ?thesis by simp
  qed
qed

lemma guard_call_exact:
  assumes "guard_call env headers uri_query g st = (r, st')"
  shows "unchanged st st' \<and>
    (case r of
       Inl e \<Rightarrow> e = ApiUnauthorized
     | Inr None \<Rightarrow> g = NoGuard \<or> g = ControlGuard \<and> presented g headers uri_query = Some (as_control_token st)
     | Inr (Some did) \<Rightarrow> (g = BearerGuard \<or> g = WebsocketGuard) \<and>
         (\<exists>tok. presented g headers uri_query = Some tok \<and> session_open st (en_now env) tok did))"
proof (cases g)
  case NoGuard
  with assms show ?thesis by (auto simp: guard_call_def ok_def)
next
  case ControlGuard
  with assms show ?thesis
    by (auto simp: guard_call_def require_control_token_def presented_def action_simps
        split: option.splits if_splits)
next
  case BearerGuard
  show ?thesis
  proof (cases "bearer_token_from_headers headers")
    case None
    with assms BearerGuard show ?thesis
      by (auto simp: guard_call_def require_bearer_auth_def action_simps)
  next
    case (Some tok)
    obtain q s1 where q: "authenticate_token env tok st = (q, s1)" by fastforce
    with assms BearerGuard Some show ?thesis
      by (cases rule: authenticate_cases [OF q])
        (auto simp: guard_call_def require_bearer_auth_def presented_def action_simps)
  qed
next
  case WebsocketGuard
  let ?tok = "or_else (bearer_token_from_headers headers) (token_from_query (unwrap_or [] uri_query))"
  show ?thesis
  proof (cases ?tok)
    case None
    with assms WebsocketGuard show ?thesis
      by (auto simp: guard_call_def require_websocket_auth_def action_simps)
  next
    case (Some tok)
    obtain q s1 where q: "authenticate_token env tok st = (q, s1)" by fastforce
    with assms WebsocketGuard Some show ?thesis
      by (cases rule: authenticate_cases [OF q])
        (auto simp: guard_call_def require_websocket_auth_def presented_def action_simps)
  qed
qed


section \<open>A bridge with one paired phone, for the witnesses\<close>

definition demo_api_env :: api_env where
  "demo_api_env =
     \<lparr>en_now = 20, en_mint_now = 20, en_instant = (\<lambda>n. n), en_uuid = ''u1'', en_hash = (\<lambda>s. s),
      en_parse_url = (\<lambda>s. if s = ''https://codex.example.com''
        then Some \<lparr>scheme = ''https'', ascii_origin = s, url_path = ''/'', query = None, fragment = None,
          host_str = Some ''codex.example.com'', url_username = [], url_password = None, url_userinfo = []\<rparr>
        else None),
      en_base64url = (\<lambda>s. None), en_transport = (\<lambda>past rq. Inl (Transport ''down'')),
      en_decode_approval = (\<lambda>v. None), en_live = plain_env, en_assets = (\<lambda>i k. (20, ''token'')),
      en_upload = \<lparr>up_decode = (\<lambda>s. None), up_dir = ''/tmp'', up_uuid = (\<lambda>n. ''u''),
        up_dir_ok = (\<lambda>n. True), up_write_ok = (\<lambda>n. True)\<rparr>,
      en_files = \<lparr>canonicalize = (\<lambda>s. Some s), is_dir = (\<lambda>s. True)\<rparr>,
      en_read = (\<lambda>s. Inl OtherFileError), en_debug = False, en_version = ''0.1.0''\<rparr>"

definition demo_api :: api_state where
  "demo_api =
     \<lparr>as_live = first_state\<lparr>lv_bridge := quiet_bridge\<lparr>store_db := empty_db\<lparr>devices := [demo_device]\<rparr>\<rparr>\<rparr>,
      as_pairing = demo_manager, as_dedupe = empty_cache, as_refresh_failures = Map.empty,
      as_retries = Map.empty, as_subagents = {}, as_client = new_client, as_adapter = True,
      as_control_token = ''c1'', as_instance_id = ''i1'', as_diagnostics = default_report,
      as_vapid_key = None, as_push_runtime = False\<rparr>"

definition demo_bearer :: "string \<Rightarrow> header_map" where
  "demo_bearer token = [''authorization'' \<mapsto> ''Bearer '' @ token]"

lemma demo_tokens:
  "bearer_token_from_headers (demo_bearer ''c1'') = Some ''c1''"
  "bearer_token_from_headers (demo_bearer ''s2'') = Some ''s2''"
  by code_simp+

lemma demo_control: "guard_call demo_api_env (demo_bearer ''c1'') None ControlGuard demo_api = (Inr None, demo_api)"
  by (simp add: guard_call_def require_control_token_def demo_tokens demo_api_def action_simps)

section \<open>Properties\<close>

text \<open>
  Which token a request must carry, by the path it is sent to: under \<open>/api/control/\<close> the bridge's control
  token, as the bearer token or, when there is none, in the header of its own; elsewhere the token of an
  open session as the bearer token, for \<open>/ws\<close> also in the query when there is no bearer token.
\<close>

definition entitled :: "api_state \<Rightarrow> u64 \<Rightarrow> string \<Rightarrow> header_map \<Rightarrow> string option \<Rightarrow> bool" where
  "entitled st now path headers uri_query \<longleftrightarrow>
     (if starts_with path ''/api/control/''
      then bearer_token_from_headers headers = Some (as_control_token st) \<or>
           bearer_token_from_headers headers = None \<and>
             control_token_from_headers headers = Some (as_control_token st)
      else \<exists>token did. session_open st now token did \<and>
           (bearer_token_from_headers headers = Some token \<or>
            path = ''/ws'' \<and> bearer_token_from_headers headers = None \<and>
              token_from_query (unwrap_or [] uri_query) = Some token))"

lemma guard_of_path:
  assumes "route_of rq \<notin>
    {(HttpGet, ''/api/health''), (HttpPost, ''/api/pairing/complete''), (HttpPost, ''/api/session/refresh'')}"
  shows "guard_of rq = Some (if starts_with (snd (route_of rq)) ''/api/control/'' then ControlGuard
    else if snd (route_of rq) = ''/ws'' then WebsocketGuard else BearerGuard)"
  using assms by (cases rq; simp add: starts_with_def)

lemma presented_entitled:
  assumes "presented g headers uri_query = Some tok"
    and "g = (if starts_with path ''/api/control/'' then ControlGuard
      else if path = ''/ws'' then WebsocketGuard else BearerGuard)"
  shows "g = ControlGuard \<Longrightarrow> tok = as_control_token st \<Longrightarrow> entitled st now path headers uri_query"
    and "g \<noteq> ControlGuard \<Longrightarrow> session_open st now tok did \<Longrightarrow> entitled st now path headers uri_query"
  using assms
  by (cases "bearer_token_from_headers headers"; auto simp: entitled_def presented_def or_else_def split: if_splits)+

text \<open>
  C29. No request gets past the bridge without a token. Only the health check, pairing and the refresh of a
  session can be called without one. Every other request whose path is under \<open>/api/control/\<close> must carry the
  bridge's control token; every other request must carry, as its bearer token, the token of a session that has not
  expired, of an active device (for \<open>/ws\<close> the token may be in the query). Without it the answer is \<open>401\<close>,
  whatever the request, and nothing of the bridge has changed.
\<close>

theorem guards_enforced:
  assumes "route_of rq \<notin>
      {(HttpGet, ''/api/health''), (HttpPost, ''/api/pairing/complete''), (HttpPost, ''/api/session/refresh'')}"
    and "\<not> entitled st (en_now env) (snd (route_of rq)) headers uri_query"
  shows "\<exists>st'. handle env headers uri_query rq st = Some (Inl ApiUnauthorized, st') \<and> unchanged st st'"
proof -
  let ?path = "snd (route_of rq)"
  define g where "g = (if starts_with ?path ''/api/control/'' then ControlGuard
    else if ?path = ''/ws'' then WebsocketGuard else BearerGuard)"
  have g: "guard_of rq = Some g" using guard_of_path [OF assms(1)] by (simp add: g_def)
  obtain r st' where r: "guard_call env headers uri_query g st = (r, st')" by fastforce
  note ex = guard_call_exact [OF r]
  have "r = Inl ApiUnauthorized"
  proof (cases r)
    case (Inr d)
    have "g \<noteq> NoGuard" by (simp add: g_def)
    with Inr ex presented_entitled [OF _ g_def] assms(2) have False by (cases d) auto
    then show ?thesis ..
  qed (use ex in auto)
  with g r ex show ?thesis by (auto simp: handle_def)
qed

theorem guards_enforced_witness:
  "\<exists>st'. handle demo_api_env (demo_bearer ''s2'') None ListSessions demo_api = Some (Inl ApiUnauthorized, st') \<and>
     unchanged demo_api st'"
proof -
  have "\<not> entitled demo_api 20 ''/api/sessions'' (demo_bearer ''s2'') None"
    by (simp add: entitled_def demo_tokens session_open_def demo_api_def demo_manager_def starts_with_def)
  then show ?thesis
    using guards_enforced [of ListSessions demo_api demo_api_env "demo_bearer ''s2''" None]
    by (simp add: demo_api_env_def)
qed

definition no_data_of :: "string \<Rightarrow> db \<Rightarrow> bool" where
  "no_data_of did s \<longleftrightarrow>
     did \<notin> set (map set_device_id (device_settings s)) \<and>
     did \<notin> set (map sub_device_id (push_subscriptions s)) \<and>
     did \<notin> set (map dl_device_id (deliveries s))"

lemma revoke_handled:
  assumes "handle env headers uri_query (RevokeDevice did) st = Some (r, st1)"
    and "r = Inr NoContentReply \<or> r = Inl (ApiInternal ''notification cleanup failed'')"
  obtains st0 where "unchanged st st0"
    and "revoke_device_route env did st0 = (map_sum id (\<lambda>_. ()) r, st1)"
proof -
  obtain q st0 where q: "guard_call env headers uri_query ControlGuard st = (q, st0)" by fastforce
  note ex = guard_call_exact [OF q]
  obtain d where d: "q = Inr d" using assms ex q by (cases q) (auto simp: handle_def)
  obtain w s1 where w: "revoke_device_route env did st0 = (w, s1)" by fastforce
  have "r = map_sum id (\<lambda>_. NoContentReply) w \<and> st1 = s1"
    using assms(1) q d w by (cases w) (auto simp: handle_def perform_def reply_as_def action_simps)
  with ex w that show thesis by (cases w) auto
qed

lemma revoke_route_exact:
  assumes "revoke_device_route env did st = (w, st1)"
    and "\<And>e. w \<noteq> Inl (ApiPairing e)"
  shows "sent (api_hub st1) = sent (api_hub st) @ [DisconnectDevice did] \<and>
    devs.is_revoked (pm_store (pairing_of st1)) did \<and> (w = Inr () \<longrightarrow> no_data_of did (api_db st1))"
proof -
  obtain q pm where q: "revoke_paired_device (en_now env) did (pairing_of st) = (q, pm)" by fastforce
  let ?mid = "with_api_hub (disconnect_device did) (with_pairing pm st)"
  obtain d s2 where d: "delete_device_notification_data did (api_db ?mid) = (d, s2)" by fastforce
  have q': "q = Inr ()"
    using assms q by (cases q) (auto simp: revoke_device_route_def map_err_def on_pairing_def action_simps)
  have st1: "st1 = with_db s2 ?mid"
    and w: "w = (case d of Inl _ \<Rightarrow> Inl (ApiInternal ''notification cleanup failed'') | Inr u \<Rightarrow> Inr u)"
    using assms q q' d
    by (auto simp: revoke_device_route_def map_err_def on_pairing_def on_db_def action_simps split: sum.splits)
  have rev: "devs.is_revoked (pm_store pm) did" using q
  proof (cases rule: revoke_paired_cases)
    case (revoked s1)
    have "device_lookup s1 did \<noteq> None" using revoked(3,4) by simp
    with revoked(5) show ?thesis by (rule devs.revoke_revokes)
  qed (use q' in auto)
  have "api_db ?mid = pm_store pm" by (simp add: with_pairing_def)
  moreover have "devices s2 = devices (api_db ?mid)"
    using maintainsD [OF keeps_written(4) d, of "devices (api_db ?mid)" False] by (simp add: kept_def)
  ultimately have "devs.is_revoked s2 did" using rev by (simp add: devs.is_revoked_def device_lookup_def)
  moreover have "d = Inr () \<Longrightarrow> no_data_of did s2"
    using d by (auto simp: delete_device_notification_data_def sql_write_ok no_data_of_def row_delete_def)
  moreover have "sent (api_hub st1) = sent (api_hub st) @ [DisconnectDevice did]"
    by (simp add: st1 with_pairing_def)
      (simp add: api_state_defs with_hub_def hub_of_def disconnect_device_def hub_send_def)
  ultimately show ?thesis by (cases d) (auto simp: st1 w)
qed

lemma revoke_outcome:
  "r = Inr NoContentReply \<or> r = Inl (ApiInternal m) \<Longrightarrow> map_sum id (\<lambda>_. ()) r \<noteq> Inl (ApiPairing e)"
  by auto

lemma revoked_refused:
  assumes "devs.is_revoked (api_db st) did"
  shows "fst (guard_call env headers uri_query g st) \<noteq> Inr (Some did)"
proof -
  obtain r st' where r: "guard_call env headers uri_query g st = (r, st')" by fastforce
  have "\<not> session_open st now tok did" for now tok
    using assms devs.active_not_revoked by (auto simp: session_open_def)
  with r guard_call_exact [OF r] show ?thesis by auto
qed

lemma revoked_no_refresh:
  assumes "devs.is_revoked (api_db st) did"
  shows "fst (refresh_session env \<lparr>sr_device_id = did, sr_device_secret = secret\<rparr> st)
    = Inl ApiUnauthorized"
proof -
  obtain r pm where r: "create_session (en_hash env) (en_now env) (en_uuid env) did secret (pairing_of st) = (r, pm)"
    by fastforce
  then obtain e where "r = Inl e"
    using assms by (cases rule: create_session_cases) (auto simp: devs.is_revoked_def)
  with r show ?thesis
    by (simp add: refresh_session_def on_pairing_def action_simps record_refresh_failure_def Let_def)
qed

text \<open>
  C30. A revoked device is locked out. Once the desktop app has revoked a device (whatever became of the
  clean-up of its notifications), the device's streams were told to end, and its settings,
  subscriptions and queued deliveries are gone if the clean-up succeeded. From then on, over all
  requests and notifications of Codex that do not pair the device again, no request passes a guard as
  this device, and its secret opens no session.
\<close>

theorem revoked_device_locked_out:
  assumes "handle env headers uri_query (RevokeDevice did) st = Some (r, st1)"
    and "r = Inr NoContentReply \<or> r = Inl (ApiInternal ''notification cleanup failed'')"
    and "\<And>s. s \<in> set steps \<Longrightarrow> \<not> pairs_device did s"
  shows "sent (api_hub st1) = sent (api_hub st) @ [DisconnectDevice did] \<and>
    (r = Inr NoContentReply \<longrightarrow> no_data_of did (api_db st1)) \<and>
    fst (guard_call env2 headers2 uri_query2 g (bridge_run steps st1)) \<noteq> Inr (Some did) \<and>
    fst (refresh_session env2 \<lparr>sr_device_id = did, sr_device_secret = secret\<rparr> (bridge_run steps st1))
      = Inl ApiUnauthorized"
proof -
  obtain st0 where st0: "unchanged st st0" and r: "revoke_device_route env did st0 = (map_sum id (\<lambda>_. ()) r, st1)"
    using assms(1,2) by (rule revoke_handled)
  note rv = revoke_route_exact [OF r revoke_outcome [OF assms(2)]]
  let ?st = "bridge_run steps st1"
  have "devs.is_revoked (pm_store (pairing_of ?st)) did"
    by (rule locked.run) (use assms(3) rv in auto)
  then have locked: "devs.is_revoked (api_db ?st) did" by simp
  have "sent (api_hub st0) = sent (api_hub st)"
    using st0 unfolding unchanged_def by (metis with_db_simps(5))
  with rv assms(2) revoked_refused [OF locked] revoked_no_refresh [OF locked] show ?thesis by auto
qed

theorem revoked_device_locked_out_witness:
  "\<exists>st1. handle demo_api_env (demo_bearer ''c1'') None (RevokeDevice ''phone'') demo_api
       = Some (Inr NoContentReply, st1) \<and>
     fst (guard_call demo_api_env (demo_bearer ''s1'') None BearerGuard
       (bridge_run [Request demo_api_env (demo_bearer ''s1'') None ListSessions] st1)) \<noteq> Inr (Some ''phone'')"
proof -
  have "fst (revoke_device_route demo_api_env ''phone'' demo_api) = Inr ()"
    by (simp add: revoke_device_route_def on_pairing_def on_db_def map_err_def pairing_of_def with_pairing_def
        api_state_defs with_hub_def demo_api_def demo_api_env_def first_state_def quiet_bridge_def demo_simps
        modify_run delete_device_notification_data_def)
  then obtain st1 where h: "handle demo_api_env (demo_bearer ''c1'') None (RevokeDevice ''phone'') demo_api
      = Some (Inr NoContentReply, st1)"
    by (cases "revoke_device_route demo_api_env ''phone'' demo_api")
      (auto simp: handle_def perform_def reply_as_def demo_control action_simps)
  show ?thesis
    using revoked_device_locked_out [OF h, of "[Request demo_api_env (demo_bearer ''s1'') None ListSessions]"
        demo_api_env "demo_bearer ''s1''" None BearerGuard] h
    by auto
qed

text \<open>
  C31. What every request and every notification of Codex leaves true of the bridge's tables, from any
  state in which it is: device ids, the keys of settings, subscriptions, alert states and deliveries are
  unique, a delivery's status is one the code can read back, and every session belongs to a device that
  the table of devices has.
\<close>

theorem bridge_tables_typed:
  assumes "api_inv st"
  shows "api_inv (bridge_run steps st)"
  using tables_kept.run [of steps st] assms by (simp add: api_inv_def)

theorem bridge_tables_typed_witness:
  "api_inv (bridge_run [Request demo_api_env (demo_bearer ''s1'') None ListSessions,
     Request demo_api_env (demo_bearer ''c1'') None (RevokeDevice ''phone'')] demo_api)"
proof (rule bridge_tables_typed)
  show "api_inv demo_api"
    by (simp add: api_inv_def pairing_inv_def pairing_of_def api_db_def demo_api_def first_state_def
        quiet_bridge_def demo_manager_def demo_device_def empty_db_def store_inv_def keyed_def
        device_lookup_def row_lookup_Cons split: if_splits)
qed

end
