(* ===== verification/Api_Push.thy ===== *)
theory Api_Push
  imports Api_Guard
begin

text \<open>
  What the HTTP API tells a device of its pushes, against what the dispatcher does.
\<close>

section \<open>Reads and writes of the database\<close>

lemma on_db_ok:
  "on_db e m st = (Inr a, st') \<longleftrightarrow> (\<exists>s. m (api_db st) = (Inr a, s) \<and> st' = with_db s st)"
  by (auto simp: on_db_def split: prod.splits sum.splits)

lemma access_with_db [simp]: "api_access (with_db s st) = api_access st"
  by (simp add: api_state_defs)







section \<open>A bridge with a named address, for the witnesses\<close>

definition push_env :: api_env where
  "push_env = demo_api_env\<lparr>
     en_parse_url := (\<lambda>s. Some \<lparr>scheme = ''https'', ascii_origin = s, url_path = ''/'', query = None,
       fragment = None, host_str = Some ''h'', url_username = [], url_password = None, url_userinfo = []\<rparr>),
     en_base64url := (\<lambda>s. Some (if s = ''p'' then replicate 65 CHR ''x'' else replicate 16 CHR ''x''))\<rparr>"

definition named_access :: public_access_context where
  "named_access = \<lparr>mode = Named, public_origin = Some ''https://a.io''\<rparr>"

definition push_db :: db where
  "push_db = empty_db\<lparr>devices := [demo_device],
     push_subscriptions := [\<lparr>sub_device_id = ''phone'', sub_origin = ''https://a.io'', endpoint = ''e'',
       p256dh = ''p'', auth = ''a'', sub_created_at = 1, last_success_at = None, invalidated_at = None\<rparr>],
     deliveries := [\<lparr>dl_event_id = ''e1'', dl_device_id = ''phone'', payload_json = [], dl_status = ''pending'',
       attempt_count = 0, next_attempt_at = 1, last_error_category = None, dl_updated_at = 1\<rparr>]\<rparr>"

definition push_api :: api_state where
  "push_api = (with_access named_access (with_db push_db demo_api))
     \<lparr>as_vapid_key := Some ''k'', as_push_runtime := True\<rparr>"



lemma push_api_parts:
  "api_db push_api = push_db" "api_access push_api = named_access" "as_vapid_key push_api = Some ''k''"
  by (simp_all add: push_api_def api_state_defs)
















text \<open>
  C36. No push goes to an address that was given up. When the desktop app has changed the bridge's
  address and the one before was a named one that is not kept, no delivery waits or is in flight any
  more: at no time is one due.
\<close>

theorem address_change_drops_deliveries:
  assumes "set_public_access_context env context st = (Inr u, st1)"
    and "mode (api_access st) = Named"
    and "mode context \<noteq> Named \<or> public_origin (api_access st) \<noteq> public_origin context"
  shows "api_access st1 = context \<and> due_keys now (api_db st1) = {} \<and>
    (\<forall>r \<in> set (deliveries (api_db st1)). dl_status r \<notin> {''pending'', ''sending''})"
proof -
  obtain c where c: "update_access (plain_parser env) context (api_access st) = (Inr (), c)"
    using assms(1) by (auto simp: set_public_access_context_def Let_def split: prod.splits sum.splits)
  then have "c = context" by (auto simp: update_access_def split: sum.splits)
  with assms c have "bind_ok (on_db (ApiInternal ''notification outbox unavailable'')
      (fail_pending_deliveries ''public_access_changed'' (en_now env))) (\<lambda>_. ok ())
      (with_access context st) = (Inr u, st1)"
    by (simp add: set_public_access_context_def Let_def)
  then obtain n s1 where
    f: "fail_pending_deliveries ''public_access_changed'' (en_now env) (api_db st) = (Inr n, s1)"
    and st1: "st1 = with_db s1 (with_access context st)"
    by (rule bind_ok_okE) (auto simp: on_db_ok ok_run)
  have gone: "dl_status r \<notin> {''pending'', ''sending''}" if "r \<in> set (deliveries s1)" for r
    using f that by (auto simp: fail_pending_deliveries_def sql_call_def with_params_def row_update_def Let_def
        split: if_splits)
  have "due_keys now s1 = {}" using gone by (force simp: due_keys_set is_due_def)
  with gone show ?thesis by (auto simp: st1) (simp_all add: api_state_defs)
qed

theorem address_change_drops_deliveries_witness:
  "\<exists>st1. set_public_access_context push_env default_access push_api = (Inr (), st1) \<and>
     due_keys 1 push_db \<noteq> {} \<and> due_keys 1 (api_db st1) = {}"
proof -
  obtain n s1 where f: "fail_pending_deliveries ''public_access_changed'' (en_now push_env) push_db = (Inr n, s1)"
    by (simp add: fail_pending_deliveries_def sql_working with_params_def fits_i64_def push_env_def
        demo_api_env_def push_db_def empty_db_def)
  have "update_access (plain_parser push_env) default_access named_access = (Inr (), default_access)"
    by (simp add: update_access_def validate_context_def default_access_def)
  with f have s: "set_public_access_context push_env default_access push_api
      = (Inr (), with_db s1 (with_access default_access push_api))"
    by (simp add: set_public_access_context_def push_api_parts Let_def bind_ok_run ok_run on_db_def)
      (simp add: named_access_def default_access_def)
  moreover have "due_keys 1 push_db \<noteq> {}"
    by (simp add: due_keys_set push_db_def empty_db_def is_due_def)
  ultimately show ?thesis
    using s address_change_drops_deliveries [OF s, of 1]
    by (auto simp: push_api_parts named_access_def default_access_def)
qed

end
