(* ===== verification/Session_Requests.thy ===== *)
theory Session_Requests
  imports Api_Guard
begin

text \<open>
  What the requests for sessions ask of the desktop app and do to the bridge.
\<close>

section \<open>What is asked of the desktop app\<close>

definition asked_since :: "rpc_client \<Rightarrow> rpc_client \<Rightarrow> json_rpc_request list \<Rightarrow> bool" where
  "asked_since c c' qs \<longleftrightarrow> sent_requests c' = sent_requests c @ qs"

lemma list_threads_asks:
  assumes "list_threads tr c = (r, c')"
  obtains qs where "asked_since c c' qs" and "asked qs"
  using list_pages_requests [OF assms [unfolded list_threads_def]] by (auto simp: asked_since_def)

lemma start_thread_asks:
  assumes "start_thread tr cwd m images c = (r, c')"
  shows "\<exists>q. asked_since c c' [q] \<and> rq_method q = ''codex-mobile/start-conversation'' \<and>
    json_get ''cwd'' (rq_params q) = Some (JString cwd)"
proof -
  let ?ps = "json_object
       [(''input'', JArray (host_conversation_input m images)), (''cwd'', JString cwd),
        (''workspaceRoots'', JArray [JString cwd]), (''workspaceKind'', JString ''project''),
        (''collaborationMode'', JNull), (''serviceTier'', JNull), (''threadSource'', JString ''user''),
        (''approvalsReviewer'', JString ''user'')]"
  obtain q c1 where q: "call tr ''codex-mobile/start-conversation'' ?ps c = (q, c1)" by fastforce
  have "c' = c1"
    using assms q
    by (auto simp: start_thread_def bind_ok_run err_run ok_run split: sum.splits option.splits)
  moreover have "json_get ''cwd'' ?ps = Some (JString cwd)" by (simp add: json_object_def)
  ultimately show ?thesis using q by (auto simp: call_def asked_since_def Let_def)
qed

lemma publish_asks_nothing:
  "as_client (snd (publish_user_message env e st)) = as_client st"
  by (simp add: publish_user_message_def bind_ok_run register_event_assets_def modify_run with_live_def
      split: prod.split)

lemma on_client_run:
  "on_client m st = (case m (as_client st) of
     (Inl e, c) \<Rightarrow> (Inl (ApiAdapter e), st\<lparr>as_client := c\<rparr>) | (Inr a, c) \<Rightarrow> (Inr a, st\<lparr>as_client := c\<rparr>))"
  by (simp add: on_client_def)

section \<open>Starting a session\<close>

text \<open>The part of a creation after the workspace was found.\<close>

definition start_in :: "api_env \<Rightarrow> create_session_request \<Rightarrow> workspace_option \<Rightarrow> session_snapshot api" where
  "start_in env request workspace =
     bind_ok (lift_sum api_error_from_upload
         (store_incoming_image_attachments (en_upload env) (cr_attachments request))) (\<lambda>attachments.
     bind_ok (on_client (start_thread (en_transport env) (wo_cwd workspace) (trim (cr_text request))
         (codex_image_attachments attachments))) (\<lambda>thread.
       let snapshot = created_snapshot (en_now env)
             (preview_text (trim (cr_text request)) attachments) thread in
       then_ok (modify (with_api_hub (set_snapshot snapshot)))
         (then_ok (publish_user_message env (event_for_user_message (en_uuid env)
             (snap_thread_id snapshot) (trim (cr_text request)) attachments (en_now env) None))
           (ok snapshot))))"

lemma start_in_asks:
  assumes "start_in env request ws st = (r, st')"
  shows "\<exists>qs. asked_since (as_client st) (as_client st') qs \<and> (r = Inr s \<longrightarrow> qs \<noteq> []) \<and>
    (qs \<noteq> [] \<longrightarrow> (\<exists>q. qs = [q] \<and> rq_method q = ''codex-mobile/start-conversation'' \<and>
       json_get ''cwd'' (rq_params q) = Some (JString (wo_cwd ws))))"
proof (cases "store_incoming_image_attachments (en_upload env) (cr_attachments request)")
  case (Inl e)
  with assms show ?thesis
    by (auto simp: start_in_def bind_ok_run lift_sum_run asked_since_def intro: exI [of _ "[]"])
next
  case (Inr att)
  let ?start = "start_thread (en_transport env) (wo_cwd ws) (trim (cr_text request))
      (codex_image_attachments att)"
  obtain q c where q: "?start (as_client st) = (q, c)" by fastforce
  have "as_client st' = c"
  proof (cases q)
    case (Inl e)
    with assms Inr q show ?thesis
      by (auto simp: start_in_def bind_ok_run lift_sum_run on_client_run)
  next
    case (Inr thread)
    let ?snap = "created_snapshot (en_now env) (preview_text (trim (cr_text request)) att) thread"
    let ?ev = "event_for_user_message (en_uuid env) (snap_thread_id ?snap) (trim (cr_text request)) att
        (en_now env) None"
    let ?mid = "with_api_hub (set_snapshot ?snap) (st\<lparr>as_client := c\<rparr>)"
    have "st' = snd (publish_user_message env ?ev ?mid)"
      using assms Inr q \<open>store_incoming_image_attachments _ _ = _\<close>
      by (cases "publish_user_message env ?ev ?mid")
        (auto simp: start_in_def bind_ok_run then_ok_run lift_sum_run on_client_run modify_run ok_run
          Let_def split: sum.splits)
    then show ?thesis by (simp add: publish_asks_nothing api_state_defs)
  qed
  with start_thread_asks [OF q] show ?thesis by auto
qed

text \<open>A desktop app that answers, for the witness.\<close>

definition start_env :: api_env where
  "start_env = demo_api_env\<lparr>en_files := linked_fs,
     en_transport := (\<lambda>past q. Inr
       (if rq_method q = ''thread/list''
        then JObject [(''data'', JArray [JObject [(''id'', JString ''t''), (''cwd'', JString ''/w'')]])]
        else JObject [(''thread'', JObject [(''id'', JString ''n'')])]))\<rparr>"

definition start_request :: create_session_request where
  "start_request = \<lparr>cr_text = ''hi'', cr_cwd = Some ''/w'', cr_attachments = []\<rparr>"

lemma start_lists:
  obtains t c where "list_threads (en_transport start_env) new_client = (Inr [t], c)" and "ct_cwd t = Some ''/w''"
proof -
  let ?item = "JObject [(''id'', JString ''t''), (''cwd'', JString ''/w'')]"
  let ?answer = "JObject [(''data'', JArray [?item])]"
  have "map_sum (\<lambda>_. ()) ct_cwd (map_thread ?item) = Inr (Some ''/w'')" by code_simp
  then obtain t where t: "map_thread ?item = Inr t" "ct_cwd t = Some ''/w''"
    by (cases "map_thread ?item") auto
  have "thread_items ?answer = Some [?item]" "next_page_cursor ?answer = None" by code_simp+
  with t have "fst (list_threads (en_transport start_env) new_client) = Inr [t]"
    by (simp add: list_threads_def MAX_THREAD_LIST_PAGES_def numeral_eq_Suc bind_ok_run call_def
        new_client_def Let_def start_env_def MAX_THREAD_LIST_ITEMS_def ok_run)
  with t that show thesis by (metis prod.collapse)
qed

lemma start_thread_answers:
  "\<exists>t c'. start_thread (en_transport start_env) cwd m images c = (Inr t, c')"
proof -
  let ?item = "JObject [(''id'', JString ''n'')]"
  have "map_sum (\<lambda>_. ()) ct_id (map_thread ?item) = Inr ''n''" by code_simp
  then obtain t where t: "map_thread ?item = Inr t" by (cases "map_thread ?item") auto
  have "extract_thread_value (JObject [(''thread'', ?item)]) = Some ?item" by code_simp
  with t show ?thesis
    by (simp add: start_thread_def bind_ok_run call_def Let_def start_env_def ok_run)
qed

lemma start_validates:
  "ct_cwd t = Some ''/w'' \<Longrightarrow> validate_workspace linked_fs [t] (Some ''/w'') = Inr \<lparr>wo_cwd = ''/w''\<rparr>"
proof -
  assume t: "ct_cwd t = Some ''/w''"
  have "is_allowed_path_shape ''/w''" "canonicalize linked_fs ''/w'' = Some ''/w''" "is_dir linked_fs ''/w''"
    "\<not> same_path ''/w'' ''/''" "same_path ''/w'' ''/w''" "canonical_workspace linked_fs ''/w'' = Some ''/w''"
    by code_simp+
  with t show ?thesis by (simp add: validate_workspace_def known_workspaces_def List.map_filter_simps)
qed

lemma start_succeeds:
  "\<exists>s st'. create_session_route start_env start_request demo_api = (Inr s, st')"
proof -
  obtain t c where t: "list_threads (en_transport start_env) new_client = (Inr [t], c)" "ct_cwd t = Some ''/w''"
    by (rule start_lists)
  have parts: "as_client demo_api = new_client" "as_adapter demo_api" "en_files start_env = linked_fs"
    "cr_cwd start_request = Some ''/w''" "cr_attachments start_request = []" "trim (cr_text start_request) \<noteq> []"
    by (simp_all add: demo_api_def start_env_def start_request_def) code_simp
  obtain t' c' where t': "start_thread (en_transport start_env) ''/w'' (trim (cr_text start_request)) [] c = (Inr t', c')"
    using start_thread_answers by blast
  have "store_incoming_image_attachments (en_upload start_env) [] = Inr []"
    by (simp add: store_incoming_image_attachments_def)
  moreover have "codex_image_attachments [] = []" by (simp add: codex_image_attachments_def)
  moreover have "fst (publish_user_message start_env e st) = Inr ()" for e st
    by (simp add: publish_user_message_def bind_ok_run register_event_assets_def modify_run split: prod.split)
  ultimately have "\<exists>s. fst (create_session_route start_env start_request demo_api) = Inr s"
    using t t' start_validates
    by (simp add: create_session_route_def Let_def bind_ok_run then_ok_run gets_run on_client_def
        lift_sum_run parts modify_run ok_run split: prod.split sum.split) (metis fst_conv sum.distinct(1))
  then show ?thesis by (metis prod.collapse)
qed

text \<open>
  C32. A session starts only in an offered workspace. A request to start one asks the desktop app for
  its threads and then, at most once, for a conversation; that conversation's directory is one of the
  workspaces of those threads, and the request succeeds only with it. So a phone can have no command run
  in a directory that the desktop app has not used.
\<close>

theorem session_started_only_in_workspace:
  assumes "create_session_route env request st = (r, st')" and "canonical_results (en_files env)"
  shows "\<exists>ls started. asked_since (as_client st) (as_client st') (ls @ started) \<and> asked ls \<and>
    (r = Inr s \<longrightarrow> started \<noteq> []) \<and>
    (started \<noteq> [] \<longrightarrow> (\<exists>q ths c ws. started = [q] \<and>
       rq_method q = ''codex-mobile/start-conversation'' \<and>
       list_threads (en_transport env) (as_client st) = (Inr ths, c) \<and>
       ws \<in> set (workspace_options (en_files env) ths) \<and>
       json_get ''cwd'' (rq_params q) = Some (JString (wo_cwd ws))))"
proof -
  show ?thesis
  proof (cases "(trim (cr_text request) = [] \<and> cr_attachments request = []) \<or> \<not> as_adapter st")
    case True
    with assms(1) have "as_client st' = as_client st \<and> (\<forall>s. r \<noteq> Inr s)"
      by (auto simp: create_session_route_def Let_def err_run bind_ok_run gets_run split: if_splits)
    then show ?thesis by (intro exI [of _ "[]"]) (auto simp: asked_since_def asked_def)
  next
    case False
    obtain q c where q: "list_threads (en_transport env) (as_client st) = (q, c)" by fastforce
    obtain ls where ls: "asked_since (as_client st) c ls" "asked ls"
      using list_threads_asks [OF q] by blast
    have only: ?thesis if "as_client st' = c" "r \<noteq> Inr s"
      using that ls by (intro exI [of _ ls] exI [of _ "[]"]) simp
    let ?validated = "\<lambda>ths. validate_workspace (en_files env) ths (cr_cwd request)"
    have run: "create_session_route env request st =
        (case q of Inl e \<Rightarrow> (Inl (ApiAdapter e), st\<lparr>as_client := c\<rparr>)
         | Inr ths \<Rightarrow> (case ?validated ths of
             Inl e \<Rightarrow> (Inl (api_error_from_workspace e), st\<lparr>as_client := c\<rparr>)
           | Inr ws \<Rightarrow> start_in env request ws (st\<lparr>as_client := c\<rparr>)))"
      using False q
      by (auto simp: create_session_route_def start_in_def [abs_def] Let_def bind_ok_run gets_run
          on_client_run lift_sum_run split: sum.split)
    show ?thesis
    proof (cases "\<exists>ths ws. q = Inr ths \<and> ?validated ths = Inr ws")
      case True
      then obtain ths ws where t: "q = Inr ths" "?validated ths = Inr ws" by blast
      then obtain cwd where "cr_cwd request = Some cwd"
        by (cases "cr_cwd request") (auto simp: validate_workspace_def)
      then have ws: "ws \<in> set (workspace_options (en_files env) ths)"
        using workspace_validated_iff [OF assms(2)] t by auto
      have "start_in env request ws (st\<lparr>as_client := c\<rparr>) = (r, st')" using assms(1) run t by simp
      then obtain qs where qs: "asked_since c (as_client st') qs" "r = Inr s \<longrightarrow> qs \<noteq> []"
        "qs \<noteq> [] \<longrightarrow> (\<exists>q. qs = [q] \<and> rq_method q = ''codex-mobile/start-conversation'' \<and>
           json_get ''cwd'' (rq_params q) = Some (JString (wo_cwd ws)))"
        using start_in_asks [of env request ws "st\<lparr>as_client := c\<rparr>" r st'] by auto
      have "asked_since (as_client st) (as_client st') (ls @ qs)"
        using ls(1) qs(1) by (simp add: asked_since_def)
      with ls(2) qs q t ws show ?thesis by blast
    next
      case False
      with assms(1) run have "as_client st' = c \<and> (\<forall>s. r \<noteq> Inr s)"
        by (auto split: sum.splits)
      then show ?thesis using only by blast
    qed
  qed
qed

theorem session_started_only_in_workspace_witness:
  "\<exists>s st' q. create_session_route start_env start_request demo_api = (Inr s, st') \<and>
     q \<in> set (sent_requests (as_client st')) \<and> rq_method q = ''codex-mobile/start-conversation''"
proof -
  obtain s st' where r: "create_session_route start_env start_request demo_api = (Inr s, st')"
    using start_succeeds by blast
  have "canonical_results (en_files start_env)"
    by (auto simp: canonical_results_def start_env_def linked_fs_def split: if_splits)
  from session_started_only_in_workspace [OF r this, of s] r show ?thesis
    by (auto simp: asked_since_def)
qed

section \<open>Completing the titles of threads\<close>














end
