(* ===== verification/Session_Answers.thy ===== *)
theory Session_Answers
  imports Session_Requests
begin

text \<open>
  What a device is answered about sessions: the list keeps what is known of each thread, a page of
  events asks the desktop app for a bounded number of pages, and a message sent again is not delivered again.
\<close>

section \<open>The list of sessions\<close>

text \<open>
  What a snapshot tells of its thread: the parts that are not blank; the thread's id in place of a title is
  none.
\<close>

datatype part = Title | Directory | Model | Preview

definition not_blank :: "string option \<Rightarrow> string option" where
  "not_blank v = option_filter (\<lambda>t. \<not> blank t) v"

fun known :: "part \<Rightarrow> session_snapshot \<Rightarrow> string option" where
  "known Title s = (if snap_title s = snap_thread_id s then None else not_blank (Some (snap_title s)))"
| "known Directory s = not_blank (snap_cwd s)"
| "known Model s = not_blank (snap_model_provider s)"
| "known Preview s = not_blank (snap_preview s)"

text \<open>
  What is known of a thread after Codex listed threads: what its last entry that tells something tells, or
  what was known before.
\<close>

fun heard :: "part \<Rightarrow> string \<Rightarrow> codex_thread list \<Rightarrow> string \<Rightarrow> string" where
  "heard part thread_id [] v = v"
| "heard part thread_id (th # rest) v =
     heard part thread_id rest
       (if ct_id th = thread_id then unwrap_or v (known part (snapshot_from_thread th)) else v)"

definition hub_knows :: "part \<Rightarrow> string \<Rightarrow> string \<Rightarrow> json event_hub \<Rightarrow> bool" where
  "hub_knows part t v h \<longleftrightarrow>
     keyed snap_thread_id (snapshots h) \<and>
     (\<exists>s. snapshot_for_thread t h = Some s \<and> known part s = Some v)"

lemma not_blank_merge:
  "not_blank (merge_optional_metadata a b) = or_else (not_blank a) (not_blank b)"
  by (cases a; cases b; simp add: not_blank_def merge_optional_metadata_def option_filter_def or_else_def)

lemma not_blank_some: "not_blank (Some t) = (if blank t then None else Some t)"
  by (simp add: not_blank_def option_filter_def)

lemma merge_known:
  "snap_thread_id a = snap_thread_id b \<Longrightarrow>
     known part (merge_snapshot_metadata a b) = or_else (known part a) (known part b)"
  "known part a = Some v \<Longrightarrow> known part (merge_snapshot_metadata a b) = Some v"
  "snap_thread_id (merge_snapshot_metadata a b) = snap_thread_id a"
proof -
  show "snap_thread_id (merge_snapshot_metadata a b) = snap_thread_id a"
    by (simp add: merge_snapshot_metadata_def)
  show "known part a = Some v \<Longrightarrow> known part (merge_snapshot_metadata a b) = Some v"
    by (cases part) (auto simp: merge_snapshot_metadata_def not_blank_merge snapshot_has_resolved_title_def
      not_blank_some or_else_def split: if_splits)
  show "known part (merge_snapshot_metadata a b) = or_else (known part a) (known part b)"
    if "snap_thread_id a = snap_thread_id b"
    using that by (cases part) (auto simp: merge_snapshot_metadata_def not_blank_merge
      snapshot_has_resolved_title_def not_blank_some or_else_def split: if_splits)
qed

lemma hub_steps:
  "api_hub (forget_retry t st) = api_hub st"
  "api_hub (remember_subagent_classification th st) = api_hub st"
  "api_hub (st\<lparr>as_client := c\<rparr>) = api_hub st" "api_hub (st\<lparr>as_retries := r\<rparr>) = api_hub st"
  by (simp_all add: forget_retry_def remember_subagent_classification_def api_state_defs hub_of_def)

lemma resume_metadata:
  assumes "resume_for_metadata tr s st = (e, st')"
  shows "snap_thread_id e = snap_thread_id s \<and> (known part s = Some v \<longrightarrow> known part e = Some v) \<and>
    api_hub st' = api_hub st"
  using assms
  by (auto simp: resume_for_metadata_def hub_steps merge_known(2,3) split: prod.splits sum.splits option.splits)

lemma attempt_hub:
  "begin_snapshot_enrichment_attempt now t st = (g, st') \<Longrightarrow> api_hub st' = api_hub st"
  by (auto simp: begin_snapshot_enrichment_attempt_def hub_steps split: option.splits)

lemma cached_metadata:
  assumes "snapshot_for_thread (snap_thread_id s) (api_hub st) = Some c" and "known part c = Some v"
  shows "known part (with_cached_metadata st s) = Some (unwrap_or v (known part s))"
proof -
  have "snap_thread_id c = snap_thread_id s"
    using assms(1) by (auto simp: snapshot_for_thread_def dest: row_lookup_SomeD)
  with assms show ?thesis
    by (simp add: with_cached_metadata_def merge_known(1) or_else_def split: option.split)
qed

lemma cached_id: "snap_thread_id (with_cached_metadata st s) = snap_thread_id s"
  by (simp add: with_cached_metadata_def merge_known(3) split: option.split)

lemma enriched_metadata:
  assumes "enrich_snapshot_metadata tr now s st = (e, st')"
  shows "snap_thread_id e = snap_thread_id s" and "api_hub st' = api_hub st"
    and "snapshot_for_thread (snap_thread_id s) (api_hub st) = Some c \<Longrightarrow> known part c = Some v \<Longrightarrow>
      known part e = Some (unwrap_or v (known part s))"
proof -
  let ?s = "with_cached_metadata st s"
  have "snap_thread_id e = snap_thread_id ?s \<and> api_hub st' = api_hub st"
    using assms
    by (auto simp: enrich_snapshot_metadata_def Let_def hub_steps
        split: if_splits prod.splits bool.splits dest!: attempt_hub resume_metadata)
  then show "snap_thread_id e = snap_thread_id s" "api_hub st' = api_hub st" by (simp_all add: cached_id)
  have keep: "known part e = Some x" if "known part ?s = Some x" for x
    using assms that
    by (auto simp: enrich_snapshot_metadata_def Let_def split: if_splits prod.splits bool.splits
        dest!: resume_metadata [where part = part and v = x])
  show "snapshot_for_thread (snap_thread_id s) (api_hub st) = Some c \<Longrightarrow> known part c = Some v \<Longrightarrow>
      known part e = Some (unwrap_or v (known part s))"
    using cached_metadata by (intro keep)
qed

lemma stored_snapshot:
  "snapshot_for_thread t (api_hub (with_api_hub (set_snapshot e) st)) =
     (if t = snap_thread_id e then Some e else snapshot_for_thread t (api_hub st))"
  "keyed snap_thread_id (snapshots (api_hub st)) \<Longrightarrow>
     keyed snap_thread_id (snapshots (api_hub (with_api_hub (set_snapshot e) st)))"
proof -
  have s: "snapshots (api_hub (with_api_hub (set_snapshot e) st)) = store_snapshot e (snapshots (api_hub st))"
    by (simp add: api_state_defs with_hub_def hub_of_def set_snapshot_def publish_def hub_send_def)
  show "snapshot_for_thread t (api_hub (with_api_hub (set_snapshot e) st)) =
     (if t = snap_thread_id e then Some e else snapshot_for_thread t (api_hub st))"
    unfolding snapshot_for_thread_def s by (simp add: store_snapshot_def row_lookup_upsert split: option.split)
  show "keyed snap_thread_id (snapshots (api_hub st)) \<Longrightarrow>
     keyed snap_thread_id (snapshots (api_hub (with_api_hub (set_snapshot e) st)))"
    unfolding s by (simp add: store_snapshot_def keyed_upsert)
qed

lemma stored_knows:
  assumes "enrich_snapshot_metadata tr now s st = (e, st')" and "hub_knows part t v (api_hub st)"
  shows "hub_knows part t (if snap_thread_id s = t then unwrap_or v (known part s) else v)
    (api_hub (with_api_hub (set_snapshot e) st'))"
  using assms(2) enriched_metadata [OF assms(1)] stored_snapshot [where e = e and st = st']
  by (auto simp: hub_knows_def)

lemma store_listed_knows:
  "hub_knows part t v (api_hub st) \<Longrightarrow> hub_knows part t (heard part t ts v) (api_hub (store_listed env n ts st))"
proof (induction ts arbitrary: n st v)
  case (Cons a ts)
  obtain e st' where e: "snapshot_for_listed_thread (en_transport env) (en_instant env n) a st = (e, st')"
    by fastforce
  then have "enrich_snapshot_metadata (en_transport env) (en_instant env n) (snapshot_from_thread a)
      (remember_subagent_classification a st) = (e, st')"
    by (simp add: snapshot_for_listed_thread_def)
  from stored_knows [OF this] Cons.prems
  have "hub_knows part t (if ct_id a = t then unwrap_or v (known part (snapshot_from_thread a)) else v)
      (api_hub (with_api_hub (set_snapshot e) st'))"
    by (simp add: hub_steps snapshot_from_thread_def)
  from Cons.IH [OF this] e show ?case by simp
qed simp

lemma enrich_all_knows:
  assumes "hub_knows part t v (api_hub st)"
    and "\<forall>s \<in> set ss. snap_thread_id s = t \<longrightarrow> known part s = Some v"
  shows "hub_knows part t v (api_hub (enrich_all env n ss st))"
  using assms
proof (induction ss arbitrary: n st)
  case (Cons s ss)
  obtain e st' where e: "enrich_snapshot_metadata (en_transport env) (en_instant env n) s st = (e, st')"
    by fastforce
  have "hub_knows part t v (api_hub (if e \<noteq> s then with_api_hub (set_snapshot e) st' else st'))"
    using stored_knows [OF e Cons.prems(1)] enriched_metadata(2) [OF e] Cons.prems
    by (auto split: if_splits)
  with Cons.IH [of "if e \<noteq> s then with_api_hub (set_snapshot e) st' else st'" "Suc n"] Cons.prems(2) e
  show ?case by simp
qed simp

lemma hub_knows_listed:
  assumes "hub_knows part t v h"
  shows "\<forall>s \<in> set (all_snapshots h). snap_thread_id s = t \<longrightarrow> known part s = Some v"
    and "\<exists>s \<in> set (all_snapshots h). snap_thread_id s = t"
proof -
  have m: "set (all_snapshots h) = set (snapshots h)" by (simp add: all_snapshots_def sorted_snapshots_def)
  show "\<forall>s \<in> set (all_snapshots h). snap_thread_id s = t \<longrightarrow> known part s = Some v"
    unfolding m using assms row_lookup_mem [of snap_thread_id "snapshots h"]
    by (fastforce simp: hub_knows_def snapshot_for_thread_def)
  show "\<exists>s \<in> set (all_snapshots h). snap_thread_id s = t"
    unfolding m using assms by (auto simp: hub_knows_def snapshot_for_thread_def dest: row_lookup_SomeD)
qed

text \<open>
  C38. The list of sessions loses nothing. Take a thread the bridge knows (it holds one snapshot per thread) and
  a part of what it knows of it: the title, the directory, the model or the preview, not blank. However the
  desktop app answers (a failure for this thread, a list without it, an entry without that part), a list that is
  returned has the thread, and every item of it has exactly that value, unless Codex listed the thread in this
  answer with a value of its own for the part, not blank: then the item has the value of the last such
  entry. (The title of an entry without a title is its preview or its sub-agent name.)
\<close>

theorem metadata_never_lost:
  assumes "list_sessions env st = (Inr items, st')"
    and "keyed snap_thread_id (snapshots (api_hub st))"
    and "snapshot_for_thread t (api_hub st) = Some s" and "known part s = Some v"
  shows "(\<exists>item \<in> set items. snap_thread_id (si_snapshot item) = t) \<and>
    (\<forall>item \<in> set items. snap_thread_id (si_snapshot item) = t \<longrightarrow>
       known part (si_snapshot item) = Some
         (if as_adapter st
          then case list_threads (en_transport env) (as_client st) of
              (Inr ths, _) \<Rightarrow> heard part t ths v | (Inl _, _) \<Rightarrow> v
          else v))"
proof -
  let ?v = "if as_adapter st
    then case list_threads (en_transport env) (as_client st) of
        (Inr ths, _) \<Rightarrow> heard part t ths v | (Inl _, _) \<Rightarrow> v
    else v"
  have start: "hub_knows part t v (api_hub st)" using assms(2-4) by (simp add: hub_knows_def)
  have items: "items = session_items st'"
    using assms(1) by (auto simp: list_sessions_def then_ok_run gets_run split: prod.splits sum.splits)
  have "hub_knows part t ?v (api_hub st')"
  proof (cases "as_adapter st")
    case False
    with assms(1) start show ?thesis
      by (auto simp: list_sessions_def then_ok_run bind_ok_run gets_run ok_run)
  next
    case True
    obtain q c where q: "list_threads (en_transport env) (as_client st) = (q, c)" by fastforce
    with True assms(1) obtain ths where ths: "q = Inr ths"
      by (cases q) (auto simp: list_sessions_def then_ok_run bind_ok_run gets_run on_client_def)
    let ?mid = "store_listed env 0 ths (st\<lparr>as_client := c\<rparr>)"
    have "st' = enrich_all env (length ths) (all_snapshots (api_hub ?mid)) ?mid"
      using True assms(1) q ths
      by (auto simp: list_sessions_def then_ok_run bind_ok_run gets_run on_client_def modify_run)
    moreover have mid: "hub_knows part t (heard part t ths v) (api_hub ?mid)"
      using store_listed_knows [of part t v "st\<lparr>as_client := c\<rparr>"] start by (simp add: hub_steps)
    ultimately show ?thesis
      using enrich_all_knows [OF mid hub_knows_listed(1) [OF mid]] True q ths by simp
  qed
  from hub_knows_listed [OF this] show ?thesis unfolding items by (auto simp: session_items_def)
qed

definition known_snapshot :: session_snapshot where
  "known_snapshot = \<lparr>snap_thread_id = ''k'', snap_title = ''Fix'', snap_cwd = None, snap_model_provider = None,
     snap_preview = None, snap_updated_at = 3, snap_status = Idle, snap_pending_approval_ids = []\<rparr>"

theorem metadata_never_lost_witness:
  "\<exists>items st' item ths c. list_sessions start_env (with_api_hub (set_snapshot known_snapshot) demo_api) = (Inr items, st') \<and>
     list_threads (en_transport start_env) new_client = (Inr ths, c) \<and>
     item \<in> set items \<and> known Title (si_snapshot item) = Some (heard Title ''k'' ths ''Fix'')"
proof -
  let ?st = "with_api_hub (set_snapshot known_snapshot) demo_api"
  obtain th c where t: "list_threads (en_transport start_env) new_client = (Inr [th], c)"
    by (rule start_lists)
  have a: "as_client ?st = new_client" "as_adapter ?st"
    by (simp_all add: api_state_defs demo_api_def)
  with t have "\<exists>items st'. list_sessions start_env ?st = (Inr items, st')"
    by (simp add: list_sessions_def then_ok_run bind_ok_run gets_run on_client_def modify_run)
  then obtain items st' where l: "list_sessions start_env ?st = (Inr items, st')" by blast
  have s: "snapshot_for_thread ''k'' (api_hub ?st) = Some known_snapshot"
    by (simp add: stored_snapshot known_snapshot_def)
  have k: "keyed snap_thread_id (snapshots (api_hub ?st))"
    by (rule stored_snapshot(2)) (simp add: api_state_defs with_hub_def hub_of_def
        demo_api_def first_state_def quiet_bridge_def new_hub_def hub_with_capacity_def keyed_def)
  have "known Title known_snapshot = Some ''Fix''"
    by (simp add: known_snapshot_def not_blank_def option_filter_def) code_simp
  from metadata_never_lost [OF l k s this] obtain item where "item \<in> set items"
    "known Title (si_snapshot item) = Some (heard Title ''k'' [th] ''Fix'')"
    unfolding a t by (auto simp: a)
  with l t show ?thesis by blast
qed

section \<open>A page of events\<close>

definition asks_turns :: "string \<Rightarrow> nat \<Rightarrow> rpc_client \<Rightarrow> rpc_client \<Rightarrow> bool" where
  "asks_turns thread_id n c c' \<longleftrightarrow>
     (\<exists>qs. asked_since c c' qs \<and> length qs \<le> n \<and>
        (\<forall>q \<in> set qs. rq_method q = ''thread/turns/list'' \<and>
           json_get ''threadId'' (rq_params q) = Some (JString thread_id)))"

lemma asks_none: "asks_turns t n c c"
  unfolding asks_turns_def asked_since_def by (intro exI [of _ "[]"]) simp

lemma asks_trans: "asks_turns t m a b \<Longrightarrow> asks_turns t n b c \<Longrightarrow> asks_turns t (m + n) a c"
  unfolding asks_turns_def asked_since_def
proof (elim exE conjE)
  fix ps qs
  assume "sent_requests b = sent_requests a @ ps" "sent_requests c = sent_requests b @ qs"
    "length ps \<le> m" "length qs \<le> n"
    "\<forall>q\<in>set ps. rq_method q = ''thread/turns/list'' \<and> json_get ''threadId'' (rq_params q) = Some (JString t)"
    "\<forall>q\<in>set qs. rq_method q = ''thread/turns/list'' \<and> json_get ''threadId'' (rq_params q) = Some (JString t)"
  then show "\<exists>qs. sent_requests c = sent_requests a @ qs \<and> length qs \<le> m + n \<and>
      (\<forall>q\<in>set qs. rq_method q = ''thread/turns/list'' \<and> json_get ''threadId'' (rq_params q) = Some (JString t))"
    by (intro exI [of _ "ps @ qs"]) auto
qed

lemma page_asks:
  assumes "list_turns_page tr thread_id cur c = (r, c')"
  shows "asks_turns thread_id 1 c c'"
proof -
  have asks: "asks_turns thread_id 1 c (snd (call tr ''thread/turns/list'' ps c))"
    if "json_get ''threadId'' ps = Some (JString thread_id)" for ps
    using that unfolding asks_turns_def asked_since_def call_def Let_def by auto
  have snd: "snd (bind_ok m (\<lambda>result. case f result of None \<Rightarrow> err e | Some i \<Rightarrow> ok (g result i)) c) = snd (m c)"
    for m :: "json rpc" and f :: "json \<Rightarrow> 'x option" and e and g :: "json \<Rightarrow> 'x \<Rightarrow> 'y"
    by (auto simp: bind_ok_run err_run ok_run split: prod.split sum.split option.split)
  have "json_get ''threadId'' (json_insert ''cursor'' (JString x) (json_object [(''threadId'', JString thread_id)]))
      = Some (JString thread_id)" for x
    by (simp add: json_object_def)
  moreover have "c' = snd (list_turns_page tr thread_id cur c)" using assms by simp
  ultimately show ?thesis
    by (auto simp: list_turns_page_def Let_def snd json_object_def intro!: asks [unfolded One_nat_def] split: option.split)
qed

lemma on_client_asks:
  assumes "on_client (list_turns_page tr thread_id cur) st = (r, st')"
  shows "asks_turns thread_id 1 (as_client st) (as_client st')"
  using assms by (auto simp: on_client_def split: prod.splits sum.splits dest: page_asks)

lemma cache_client: "as_client (with_cache t f st) = as_client st"
  by (simp add: with_cache_def with_live_def)

lemma load_older_asks:
  "asks_turns thread_id k (as_client st) (as_client (snd (load_older env thread_id before limit k st)))"
proof (induction k arbitrary: st)
  case (Suc k)
  show ?case
  proof (cases "wanted_page before limit (cache_of thread_id st)")
    case (Some c)
    obtain r st1 where r: "on_client (list_turns_page (en_transport env) thread_id (Some c)) st = (r, st1)"
      by fastforce
    note one = on_client_asks [OF r]
    have more: "asks_turns thread_id (Suc k) (as_client st)
        (as_client (snd (load_older env thread_id before limit k (with_cache thread_id f st1))))" for f
      using asks_trans [OF one Suc.IH [of "with_cache thread_id f st1", unfolded cache_client]] by simp
    have stop: "asks_turns thread_id (Suc k) (as_client st) (as_client st1)"
      using asks_trans [OF one asks_none [of thread_id k]] by simp
    show ?thesis
      using Some r more stop
      by (auto simp: bind_ok_run cache_client Let_def split: sum.split prod.split)
  qed (simp add: asks_none)
qed (simp add: ok_run asks_none)

lemma events_ask:
  assumes "events_of_session env thread_id q st = (r, st')" and "is_paginated q"
  shows "asks_turns thread_id 5 (as_client st) (as_client st')"
proof -
  let ?ask = "on_client (list_turns_page (en_transport env) thread_id None)"
  obtain p st1 where p: "?ask st = (p, st1)" by fastforce
  note one = on_client_asks [OF p]
  have stop: "asks_turns thread_id 5 (as_client st) (as_client st1)"
    using asks_trans [OF one asks_none [of thread_id 4]] by simp
  have stop': "asks_turns thread_id 5 (as_client st) (as_client st)" by (rule asks_none)
  have older: "asks_turns thread_id 5 (as_client st)
      (as_client (snd (load_older env thread_id before limit 4 (with_cache thread_id f st1))))"
    for before limit f
    using asks_trans [OF one load_older_asks [of thread_id 4 "with_cache thread_id f st1", unfolded cache_client]]
    by simp
  have live: "as_client (with_live g s) = as_client s" for g s by (simp add: with_live_def)
  have "as_client st' = as_client st \<or> as_client st' = as_client st1 \<or>
      (\<exists>before limit f. as_client st' =
        as_client (snd (load_older env thread_id before limit 4 (with_cache thread_id f st1))))"
  proof (cases "as_adapter st")
    case False
    with assms show ?thesis by (auto simp: events_of_session_def bind_ok_run gets_run)
  next
    case True
    with assms have run: "adapter_events_for_query env thread_id q st = (r, st')"
      by (simp add: events_of_session_def bind_ok_run gets_run)
    show ?thesis
    proof (cases "\<exists>page limit. p = Inr page \<and> page_limit q = Inr limit")
      case False
      with run p show ?thesis
        by (auto simp: adapter_events_for_query_def bind_ok_run lift_sum_run split: sum.splits)
    next
      case True
      then obtain page limit where pl: "p = Inr page" "page_limit q = Inr limit" by blast
      let ?mid = "with_cache thread_id (\<lambda>c. first_page_cursor (pg_next_cursor page)
          (merge_turns thread_id (pg_turns page) c)) st1"
      let ?older = "case q_before q of None \<Rightarrow> ok () | Some before \<Rightarrow>
          load_older env thread_id before limit MAX_ADAPTER_HISTORY_PAGES_PER_REQUEST"
      obtain w s2 where w: "?older ?mid = (w, s2)" by fastforce
      have "as_client st' = as_client s2"
        using run p pl w
        by (auto simp: adapter_events_for_query_def bind_ok_run then_ok_run lift_sum_run modify_run gets_run
            ok_run live split: sum.splits)
      moreover have "s2 = ?mid \<or> (\<exists>before. s2 = snd (load_older env thread_id before limit 4 ?mid))"
        using w by (auto simp: MAX_ADAPTER_HISTORY_PAGES_PER_REQUEST_def ok_run split: option.splits)
          (metis snd_conv)
      ultimately show ?thesis using cache_client by metis
    qed
  qed
  with stop stop' older show ?thesis by metis
qed

text \<open>
  C40. A page of events asks a bounded amount of the desktop app. However many turns the thread has
  and however far back the page is, a request for it sends at most five requests, each for a page of turns of
  that thread.
\<close>

theorem history_requests_bounded:
  assumes "list_session_events env thread_id headers q0 st = (r, st')"
    and "query_with_headers headers q0 st = (Inr q, st)" and "is_paginated q"
  shows "asks_turns thread_id 5 (as_client st) (as_client st')"
proof -
  have mobile: "as_client (snd (for_mobile env es s)) = as_client s" for es s
    by (simp add: for_mobile_def with_live_def split: prod.split)
  obtain ev s1 where ev: "events_of_session env thread_id q st = (ev, s1)" by fastforce
  have "as_client st' = as_client st \<or> as_client st' = as_client s1"
  proof (cases "validate_query q")
    case (Inl e)
    with assms show ?thesis
      by (auto simp: list_session_events_def bind_ok_run then_ok_run lift_sum_run)
  next
    case (Inr u)
    let ?answer = "\<lambda>(events, older). bind_ok (lift_sum ApiBadRequest (paginate_session_events events q)) (\<lambda>page0.
         let page = with_older older events page0 in
         bind_ok (for_mobile env (pg_events page)) (\<lambda>es.
           ok (PageOfEvents (page\<lparr>pg_events := es\<rparr>))))"
    have run: "bind_ok (events_of_session env thread_id q) ?answer st = (r, st')"
      using assms Inr by (simp add: list_session_events_def bind_ok_run then_ok_run lift_sum_run)
    have same: "as_client (snd (?answer v s)) = as_client s" for v s
      by (cases v) (auto simp: bind_ok_run lift_sum_run Let_def ok_run split: sum.split prod.split
          dest!: arg_cong [where f = "\<lambda>x. as_client (snd x)"] simp: mobile)
    show ?thesis
    proof (cases ev)
      case (Inl e)
      with run ev show ?thesis by (simp add: bind_ok_run)
    next
      case (Inr v)
      with run ev have "?answer v s1 = (r, st')" by (simp add: bind_ok_run)
      with same [of v s1] show ?thesis by simp
    qed
  qed
  with events_ask [OF ev assms(3)] asks_none [of thread_id 5] show ?thesis by metis
qed

theorem history_requests_bounded_witness:
  "\<exists>r st'. list_session_events demo_api_env ''t'' Map.empty
       \<lparr>q_limit = Some 5, q_before = None, q_since = None\<rparr> demo_api = (r, st') \<and>
     asks_turns ''t'' 5 new_client (as_client st')"
proof -
  let ?q = "\<lparr>q_limit = Some 5, q_before = None, q_since = None\<rparr> :: events_query"
  obtain r st' where l: "list_session_events demo_api_env ''t'' Map.empty ?q demo_api = (r, st')" by fastforce
  have q: "query_with_headers Map.empty ?q demo_api = (Inr ?q, demo_api)"
    by (simp add: query_with_headers_def limit_with_headers_def cursor_with_headers_def
        optional_event_header_def bind_ok_run lift_sum_run ok_run)
  have "is_paginated ?q" by (simp add: is_paginated_def)
  from history_requests_bounded [OF l q this] l show ?thesis by (auto simp: demo_api_def)
qed

section \<open>A message that is sent again\<close>

text \<open>The cache when no delivery runs: it lists the messages it remembers.\<close>

definition dedupe_ok :: "dedupe_cache \<Rightarrow> bool" where
  "dedupe_ok c \<longleftrightarrow> distinct (completed_order c) \<and> length (completed_order c) \<le> MAX_MESSAGE_DEDUPE_ENTRIES \<and>
     (\<forall>k. entries c k = Some CompletedMessage \<longleftrightarrow> k \<in> set (completed_order c))"

lemma deliver_keeps_cache:
  "as_dedupe (snd (deliver_user_message env t m images cid st)) = as_dedupe st"
proof -
  have publish: "as_dedupe (snd (publish_user_message env e s)) = as_dedupe s" for e s
    by (simp add: publish_user_message_def bind_ok_run register_event_assets_def modify_run with_live_def
        split: prod.split)
  show ?thesis
    by (auto simp: deliver_user_message_def bind_ok_run then_ok_run lift_sum_run gets_run ok_run publish
        on_client_def split: sum.split prod.split)
qed

text \<open>A request leaves the cache as it was, or remembers one more message.\<close>

lemma send_cache:
  assumes "send_message env did t headers request st = Some (r, st')"
  shows "as_dedupe st' = as_dedupe st \<or>
    (\<exists>key. r = Inr () \<and> entries (as_dedupe st) key = None \<and>
       as_dedupe st' = complete_message key
         (as_dedupe st\<lparr>entries := (entries (as_dedupe st))(key \<mapsto> InFlight 0)\<rparr>))"
proof (cases "client_message_id_from_headers headers")
  case (Inl e)
  with assms show ?thesis by (auto simp: send_message_def Let_def split: if_splits)
next
  case (Inr ci)
  show ?thesis
  proof (cases ci)
    case None
    with assms Inr have "st' = st \<or>
        st' = snd (deliver_user_message env t (trim (sm_text request)) (sm_attachments request) None st)"
      by (auto simp: send_message_def Let_def split: if_splits)
    then show ?thesis using deliver_keeps_cache by auto
  next
    case (Some cid)
    let ?key = "message_dedupe_key did t cid"
    let ?c = "(as_dedupe st)\<lparr>entries := (entries (as_dedupe st))(?key \<mapsto> InFlight 0)\<rparr>"
    let ?deliver = "deliver_user_message env t (trim (sm_text request)) (sm_attachments request) (Some cid)
        (st\<lparr>as_dedupe := ?c\<rparr>)"
    show ?thesis
    proof (cases "entries (as_dedupe st) ?key")
      case None
      obtain q s where d: "?deliver = (q, s)" by fastforce
      have c: "as_dedupe s = ?c"
        using deliver_keeps_cache [of env t "trim (sm_text request)" "sm_attachments request" "Some cid"
            "st\<lparr>as_dedupe := ?c\<rparr>"] d by simp
      have undo: "fail_message ?key ?c = as_dedupe st"
        using None by (simp add: fail_message_def fun_upd_idem)
      from assms Inr Some None d have "st' = st \<or>
          (r, st') = (case q of Inr _ \<Rightarrow> (Inr (), s\<lparr>as_dedupe := complete_message ?key (as_dedupe s)\<rparr>)
            | Inl e \<Rightarrow> (Inl e, s\<lparr>as_dedupe := fail_message ?key (as_dedupe s)\<rparr>))"
        by (auto simp: send_message_def claim_message_def deliver_as_owner_def Let_def split: if_splits sum.splits)
      with c undo None show ?thesis by (cases q) auto
    next
      case (Some e)
      with assms Inr \<open>ci = Some cid\<close> have "as_dedupe st' = as_dedupe st"
        by (cases e) (auto simp: send_message_def claim_message_def Let_def split: if_splits)
      then show ?thesis ..
    qed
  qed
qed

text \<open>The message is remembered, and at most \<open>n\<close> were remembered after it.\<close>

definition recent :: "nat \<Rightarrow> string \<Rightarrow> dedupe_cache \<Rightarrow> bool" where
  "recent n key c \<longleftrightarrow> dedupe_ok c \<and>
     (\<exists>older newer. completed_order c = older @ key # newer \<and> length newer \<le> n)"

lemma recent_remembered: "recent n key c \<Longrightarrow> entries c key = Some CompletedMessage"
proof -
  assume "recent n key c"
  then have "dedupe_ok c" "key \<in> set (completed_order c)" unfolding recent_def by fastforce+
  then show "entries c key = Some CompletedMessage" by (simp add: dedupe_ok_def)
qed

lemma recent_mono: "recent n key c \<Longrightarrow> n \<le> m \<Longrightarrow> recent m key c"
  unfolding recent_def by (meson le_trans)

lemma completed_cache:
  fixes n :: nat
  assumes "dedupe_ok c" and "entries c key = None"
  defines "c' \<equiv> complete_message key (c\<lparr>entries := (entries c)(key \<mapsto> InFlight n)\<rparr>)"
  shows "dedupe_ok c'"
    and "completed_order c' = (if length (completed_order c) < MAX_MESSAGE_DEDUPE_ENTRIES
       then completed_order c @ [key] else tl (completed_order c) @ [key])"
proof -
  let ?ks = "completed_order c @ [key]" and ?es = "(entries c)(key \<mapsto> CompletedMessage)"
  have fresh: "key \<notin> set (completed_order c)"
    using assms(1,2) unfolding dedupe_ok_def by (metis option.distinct(1))
  have drop: "drop_expired ?ks ?es =
      (if length ?ks \<le> MAX_MESSAGE_DEDUPE_ENTRIES then \<lparr>entries = ?es, completed_order = ?ks\<rparr>
       else \<lparr>entries = ?es(hd ?ks := None), completed_order = tl ?ks\<rparr>)"
    by (rule drop_expired_exact) (use assms(1) fresh in \<open>auto simp: dedupe_ok_def\<close>)
  have c': "c' = drop_expired ?ks ?es" by (simp add: c'_def complete_message_def)
  show order: "completed_order c' = (if length (completed_order c) < MAX_MESSAGE_DEDUPE_ENTRIES
       then completed_order c @ [key] else tl (completed_order c) @ [key])"
    unfolding c' drop by (cases "completed_order c") (auto simp: MAX_MESSAGE_DEDUPE_ENTRIES_def)
  have d: "distinct ?ks" "\<And>k. ?es k = Some CompletedMessage \<longleftrightarrow> k \<in> set ?ks"
    using assms(1) fresh by (auto simp: dedupe_ok_def)
  show "dedupe_ok c'"
  proof (cases "length ?ks \<le> MAX_MESSAGE_DEDUPE_ENTRIES")
    case True
    with d show ?thesis unfolding c' drop dedupe_ok_def by simp
  next
    case False
    obtain k ks where ks: "?ks = k # ks" by (cases ?ks) auto
    have "length ks = length (completed_order c)" using arg_cong [OF ks, of length] by simp
    then have "length ks \<le> MAX_MESSAGE_DEDUPE_ENTRIES" using assms(1) by (simp add: dedupe_ok_def)
    moreover have "distinct ks" "k \<notin> set ks" using d(1) unfolding ks by simp_all
    moreover have "(?es(k := None)) x = Some CompletedMessage \<longleftrightarrow> x \<in> set ks" for x
      using d(2) [of x] \<open>k \<notin> set ks\<close> unfolding ks by auto
    moreover have "c' = \<lparr>entries = ?es(k := None), completed_order = ks\<rparr>"
      unfolding c' drop using False by (simp add: ks)
    ultimately show ?thesis unfolding dedupe_ok_def by simp
  qed
qed

lemma recent_complete:
  assumes "recent n key c" and "entries c k = None" and "Suc n < MAX_MESSAGE_DEDUPE_ENTRIES"
  shows "recent (Suc n) key (complete_message k (c\<lparr>entries := (entries c)(k \<mapsto> InFlight m)\<rparr>))"
proof -
  let ?c = "complete_message k (c\<lparr>entries := (entries c)(k \<mapsto> InFlight m)\<rparr>)"
  obtain older newer where o: "completed_order c = older @ key # newer" "length newer \<le> n"
    and ok: "dedupe_ok c" using assms(1) by (auto simp: recent_def)
  have "\<exists>older'. completed_order ?c = older' @ key # (newer @ [k])"
  proof (cases "length (completed_order c) < MAX_MESSAGE_DEDUPE_ENTRIES")
    case True
    with completed_cache(2) [OF ok assms(2), of m] o show ?thesis by simp
  next
    case False
    then have "older \<noteq> []" using o assms(3) by auto
    with False completed_cache(2) [OF ok assms(2), of m] o show ?thesis by simp
  qed
  then obtain older' where "completed_order ?c = older' @ key # (newer @ [k])" ..
  moreover have "length (newer @ [k]) \<le> Suc n" using o(2) by simp
  ultimately show ?thesis using completed_cache(1) [OF ok assms(2), of m] unfolding recent_def by blast
qed

text \<open>
  What happens to the bridge between two requests: messages of any device for any thread, of which \<open>n\<close> were
  accepted, and anything else that leaves the cache of message identifiers alone (only messages use it).
\<close>

inductive messages_between :: "nat \<Rightarrow> api_state \<Rightarrow> api_state \<Rightarrow> bool" where
  nothing: "messages_between 0 st st"
| other: "messages_between n st st' \<Longrightarrow> as_dedupe st'' = as_dedupe st' \<Longrightarrow> messages_between n st st''"
| sent_message: "messages_between n st st' \<Longrightarrow>
    send_message env did t headers request st' = Some (r, st'') \<Longrightarrow>
    messages_between (if r = Inr () then Suc n else n) st st''"

lemma recent_between:
  assumes "messages_between n st st'" and "recent 0 key (as_dedupe st)" and "n < MAX_MESSAGE_DEDUPE_ENTRIES"
  shows "recent n key (as_dedupe st')"
  using assms
proof (induction rule: messages_between.induct)
  case (sent_message n st st' env did t headers request r st'')
  have n: "n < MAX_MESSAGE_DEDUPE_ENTRIES" using sent_message.prems(2) by (auto split: if_splits)
  have IH: "recent n key (as_dedupe st')" using sent_message.IH sent_message.prems(1) n by simp
  from send_cache [OF sent_message.hyps(2)] show ?case
  proof (elim disjE exE conjE)
    assume "as_dedupe st'' = as_dedupe st'"
    with recent_mono [OF IH] show ?thesis by simp
  next
    fix k assume k: "r = Inr ()" "entries (as_dedupe st') k = None"
      "as_dedupe st'' = complete_message k
         (as_dedupe st'\<lparr>entries := (entries (as_dedupe st'))(k \<mapsto> InFlight 0)\<rparr>)"
    with sent_message.prems(2) recent_complete [OF IH k(2)] show ?thesis by simp
  qed
qed simp_all

text \<open>
  C37. A message sent again is not delivered again. Once a message with an identifier was delivered, a further
  request of this device for this thread with the same identifier is accepted at once and changes nothing: the
  desktop app is not asked, and no event is published. In between, messages of any device for any thread may have
  been sent, accepted or not, as long as fewer than 1024 of them were accepted (the cache forgets the oldest of
  1024 messages), and anything else may have happened to the bridge but to the cache of identifiers.
\<close>

theorem resent_message_ignored:
  assumes "send_message env did t headers request st = Some (Inr u, st1)"
    and "client_message_id_from_headers headers = Inr (Some cid)" and "dedupe_ok (as_dedupe st)"
    and "entries (as_dedupe st) (message_dedupe_key did t cid) \<noteq> Some CompletedMessage"
    and "messages_between n st1 st2" and "n < 1024"
    and "client_message_id_from_headers headers2 = Inr (Some cid)"
    and "trim (sm_text request2) \<noteq> [] \<or> sm_attachments request2 \<noteq> []"
  shows "send_message env2 did t headers2 request2 st2 = Some (Inr (), st2)"
proof -
  let ?key = "message_dedupe_key did t cid"
  let ?c = "(as_dedupe st)\<lparr>entries := (entries (as_dedupe st))(?key \<mapsto> InFlight 0)\<rparr>"
  have first: "(case claim_message 0 ?key (as_dedupe st) of
      (ClaimWait n, _) \<Rightarrow> None
    | (ClaimCompleted, cache') \<Rightarrow> Some (Inr (), st\<lparr>as_dedupe := cache'\<rparr>)
    | (ClaimOwner key n, cache') \<Rightarrow>
        Some (deliver_as_owner env key t (trim (sm_text request)) (sm_attachments request) (Some cid)
          (st\<lparr>as_dedupe := cache'\<rparr>))) = Some (Inr u, st1)"
    using assms(1,2) by (simp add: send_message_def Let_def split: if_splits)
  have none: "entries (as_dedupe st) ?key = None"
  proof (cases "entries (as_dedupe st) ?key")
    case (Some e)
    with first assms(4) show ?thesis by (cases e) (auto simp: claim_message_def)
  qed
  let ?deliver = "deliver_user_message env t (trim (sm_text request)) (sm_attachments request) (Some cid)
      (st\<lparr>as_dedupe := ?c\<rparr>)"
  obtain q s where d: "?deliver = (q, s)" by fastforce
  have "as_dedupe s = ?c"
    using deliver_keeps_cache [of env t "trim (sm_text request)" "sm_attachments request" "Some cid"
        "st\<lparr>as_dedupe := ?c\<rparr>"] d by simp
  moreover have "st1 = s\<lparr>as_dedupe := complete_message ?key (as_dedupe s)\<rparr>"
    using first none d by (auto simp: claim_message_def deliver_as_owner_def split: sum.splits)
  ultimately have "recent 0 ?key (as_dedupe st1)"
    using completed_cache [OF assms(3) none, of 0] by (simp add: recent_def)
  then have "entries (as_dedupe st2) ?key = Some CompletedMessage"
    using recent_between [OF assms(5)] assms(6) recent_remembered
    unfolding MAX_MESSAGE_DEDUPE_ENTRIES_def by blast
  with assms(7,8) show ?thesis by (auto simp: send_message_def claim_message_def Let_def)
qed

definition id_headers :: header_map where
  "id_headers = [CLIENT_MESSAGE_ID_HEADER \<mapsto> ''m1'']"

theorem resent_message_ignored_witness:
  "\<exists>st1. send_message start_env ''phone'' ''t'' id_headers \<lparr>sm_text = ''hi'', sm_attachments = []\<rparr>
       (demo_api\<lparr>as_adapter := False\<rparr>) = Some (Inr (), st1) \<and>
     send_message start_env ''phone'' ''t'' id_headers \<lparr>sm_text = ''hi'', sm_attachments = []\<rparr> st1
       = Some (Inr (), st1)"
proof -
  let ?st = "demo_api\<lparr>as_adapter := False\<rparr>" and ?m = "\<lparr>sm_text = ''hi'', sm_attachments = []\<rparr> :: send_message_request"
  have id: "client_message_id_from_headers id_headers = Inr (Some ''m1'')" by code_simp
  have hi: "trim ''hi'' \<noteq> []" by code_simp
  have cache: "as_dedupe ?st = empty_cache" by (simp add: demo_api_def)
  have publish: "fst (publish_user_message start_env e s) = Inr ()" for e s
    by (simp add: publish_user_message_def bind_ok_run register_event_assets_def modify_run split: prod.split)
  have deliver: "fst (deliver_user_message start_env ''t'' (trim ''hi'') [] c (?st\<lparr>as_dedupe := d\<rparr>)) = Inr ()" for c d
    by (simp add: deliver_user_message_def store_incoming_image_attachments_def bind_ok_run then_ok_run
        lift_sum_run gets_run ok_run publish)
  let ?key = "message_dedupe_key ''phone'' ''t'' ''m1''"
  let ?c = "empty_cache\<lparr>entries := [?key \<mapsto> InFlight 0]\<rparr>"
  have claim: "claim_message 0 ?key empty_cache = (ClaimOwner ?key 0, ?c)"
    by (simp add: claim_message_def empty_cache_def)
  obtain w where w: "deliver_user_message start_env ''t'' (trim ''hi'') [] (Some ''m1'') (?st\<lparr>as_dedupe := ?c\<rparr>)
      = (Inr (), w)"
    using deliver [of "Some ''m1''" ?c] by (metis prod.collapse)
  let ?st1 = "w\<lparr>as_dedupe := complete_message ?key (as_dedupe w)\<rparr>"
  have s: "send_message start_env ''phone'' ''t'' id_headers ?m ?st = Some (Inr (), ?st1)"
    using hi w unfolding send_message_def Let_def id cache claim by (simp add: id cache claim deliver_as_owner_def)
  have "send_message start_env ''phone'' ''t'' id_headers ?m ?st1 = Some (Inr (), ?st1)"
    by (rule resent_message_ignored [OF s id _ _ messages_between.nothing _ id])
      (simp_all add: hi cache, simp_all add: dedupe_ok_def empty_cache_def)
  with s show ?thesis by blast
qed

section \<open>A decision\<close>

definition made_decision :: "api_env \<Rightarrow> string \<Rightarrow> string \<Rightarrow> approval_decision_request \<Rightarrow> approval_decision" where
  "made_decision env approval_id did request =
     \<lparr>dec_approval_id = approval_id, dec_decision = ad_decision request, dec_comment = ad_comment request,
      dec_device_id = did, dec_decided_at = en_now env\<rparr>"

lemma respond_asks:
  assumes "respond_approval tr approval_id d c = (r, c')"
  shows "\<exists>q. asked_since c c' [q] \<and> rq_method q = ''codex-mobile/respond-approval'' \<and>
    json_get ''approvalId'' (rq_params q) = Some (JString approval_id) \<and>
    json_get ''decision'' (rq_params q) = Some (JString (decision_name (dec_decision d)))"
proof -
  let ?ps = "json_object [(''approvalId'', JString approval_id),
      (''decision'', JString (decision_name (dec_decision d)))]"
  have "c' = snd (call tr ''codex-mobile/respond-approval'' ?ps c)"
    using assms
    by (auto simp: respond_approval_def bind_ok_run ok_run split: sum.splits prod.splits)
  then show ?thesis by (auto simp: call_def asked_since_def Let_def json_object_def)
qed

text \<open>
  C33. A decision is taken whole or not at all. When the desktop app did not take the answer, the request
  fails, and the approval is still listed and nothing was published. Otherwise the app was asked once, with the
  approval's identifier and the decision (not at all for an approval of the debug build's trigger), the approval
  is gone from the list, and every device is told of this decision by this device, and of nothing else.
\<close>

theorem decision_whole_or_not:
  assumes "decide_approval env approval_id did request st = (r, st')"
  shows "(r \<noteq> Inr () \<longrightarrow> as_adapter st \<and> \<not> is_dev_approval_id approval_id \<and>
       st' = st\<lparr>as_client := as_client st'\<rparr>) \<and>
    (r = Inr () \<longrightarrow>
       lv_approvals (as_live st') = filter (\<lambda>a. ap_id a \<noteq> approval_id) (lv_approvals (as_live st)) \<and>
       sent (api_hub st') = sent (api_hub st)
         @ [Envelope None (ApprovalResolved (made_decision env approval_id did request))] \<and>
       (if as_adapter st \<and> \<not> is_dev_approval_id approval_id
        then \<exists>q. asked_since (as_client st) (as_client st') [q] \<and>
          rq_method q = ''codex-mobile/respond-approval'' \<and>
          json_get ''approvalId'' (rq_params q) = Some (JString approval_id) \<and>
          json_get ''decision'' (rq_params q) = Some (JString (decision_name (ad_decision request)))
        else as_client st' = as_client st))"
proof -
  let ?d = "made_decision env approval_id did request"
  let ?after = "\<lambda>s. with_api_hub (publish (ApprovalResolved ?d)) (with_live (\<lambda>l. l\<lparr>lv_approvals :=
      row_delete (\<lambda>a. ap_id a = approval_id) (lv_approvals l)\<rparr>) s)"
  have after: "lv_approvals (as_live (?after s)) = filter (\<lambda>a. ap_id a \<noteq> approval_id) (lv_approvals (as_live s)) \<and>
      sent (api_hub (?after s)) = sent (api_hub s) @ [Envelope None (ApprovalResolved ?d)] \<and>
      as_client (?after s) = as_client s" for s
    by (simp add: api_state_defs with_hub_def hub_of_def publish_def hub_send_def row_delete_def)
  have client: "as_live (s\<lparr>as_client := c\<rparr>) = as_live s" "api_hub (s\<lparr>as_client := c\<rparr>) = api_hub s" for s c
    by (simp_all add: api_state_defs hub_of_def)
  show ?thesis
  proof (cases "as_adapter st \<and> \<not> is_dev_approval_id approval_id")
    case False
    with assms have "r = Inr () \<and> st' = ?after st"
      by (auto simp: decide_approval_def made_decision_def Let_def bind_ok_run then_ok_run gets_run ok_run
          modify_run)
    with after [of st] False show ?thesis by auto
  next
    case True
    obtain q c where q: "respond_approval (en_transport env) approval_id ?d (as_client st) = (q, c)"
      by fastforce
    then have "(r, st') = (case q of Inl e \<Rightarrow> (Inl (ApiAdapter e), st\<lparr>as_client := c\<rparr>)
        | Inr _ \<Rightarrow> (Inr (), ?after (st\<lparr>as_client := c\<rparr>)))"
      using assms True
      by (auto simp: decide_approval_def made_decision_def Let_def bind_ok_run then_ok_run gets_run
          on_client_def modify_run split: sum.split)
    then show ?thesis
      using respond_asks [OF q] True after [of "st\<lparr>as_client := c\<rparr>"]
      by (cases q) (simp_all add: client made_decision_def)
  qed
qed

theorem decision_whole_or_not_witness:
  "\<exists>r st'. decide_approval demo_api_env ''a1'' ''phone'' \<lparr>ad_decision = Approve, ad_comment = None\<rparr> demo_api = (r, st') \<and>
     r \<noteq> Inr () \<and> st' = demo_api\<lparr>as_client := as_client st'\<rparr>"
proof -
  let ?d = "\<lparr>ad_decision = Approve, ad_comment = None\<rparr>"
  obtain r st' where d: "decide_approval demo_api_env ''a1'' ''phone'' ?d demo_api = (r, st')" by fastforce
  have "\<not> is_dev_approval_id ''a1''" by code_simp
  then have "r \<noteq> Inr ()"
    using d by (auto simp: decide_approval_def Let_def bind_ok_run then_ok_run gets_run on_client_def
        respond_approval_def call_def demo_api_def demo_api_env_def)
  with decision_whole_or_not [OF d] d show ?thesis by blast
qed

end
