(* ===== verification/Spec2Isabelle.thy ===== *)
theory Spec2Isabelle
  imports Pairing Alert_Monitor Push_Delivery_Worker Local_Assets Safe_Details Event_Identity
    Approval Workspace Message_Delivery Event_Pages Live_Events Uploads
    Quick_Tunnel Named_Tunnel Vapid_Keys Bridge_Process
    Host_Bridge Debugging_Client Codex_Launch Diagnostics_Bundle
    Api_Push Session_Answers
begin

text \<open>
  Codex Mobile Bridge lets a phone follow and steer the Codex desktop app of a Mac. It has two
  programs. The bridge (\<open>crates/bridge-core\<close>, run by the sidecar \<open>apps/bridge-sidecar\<close>) talks
  JSON-RPC with Codex through the desktop app's debugging port, turns threads, turns and notifications
  into session events a phone may see, and serves them over HTTP and server-sent events to paired
  devices; it also detects alerts and pushes them to the devices with Web Push. The desktop app
  (\<open>apps/desktop-shell\<close> on \<open>crates/desktop-core\<close>) starts the bridge's sidecar and cloudflared, keeps
  the settings and the secrets, and shows the pairing link.

  Parts and theories (paths under \<open>src/crates\<close>).

  Shared: \<open>Prelude\<close> has the machine integers, the results of Rust (\<open>action\<close>: a state and
  \<open>error + value\<close>), tables as lists of rows with a key, and sorting; \<open>Rust_Text\<close> the operations of
  \<open>str\<close>, on strings as lists of UTF-8 bytes; \<open>Json_Value\<close> the values of serde_json; \<open>Sqlite\<close> the
  database with the faults a statement may meet; \<open>Supervised_Process\<close> polling loops and the contract
  of a manager of one process; \<open>Local_Files\<close> files and \<open>desktop-core/src/secret_file.rs\<close>.

  Bridge, \<open>bridge-core/src\<close>: \<open>Protocol_Types\<close> (\<open>protocol.rs\<close>), \<open>Storage\<close> (\<open>storage.rs\<close>), \<open>Pairing\<close>
  (\<open>pairing.rs\<close>), \<open>Notification_Store\<close> (\<open>notification_store.rs\<close>), \<open>Alert_Detector\<close>
  (\<open>alert_detector.rs\<close>), \<open>Event_Hub\<close> (\<open>event_hub.rs\<close>), \<open>Public_Access\<close> (\<open>public_access.rs\<close>),
  \<open>Web_Push\<close> (\<open>web_push.rs\<close>), \<open>Notification_Dispatcher\<close> (\<open>notification_dispatcher.rs\<close>),
  \<open>Codex_Rpc\<close> (\<open>codex_rpc.rs\<close>), \<open>Alert_Monitor\<close> (\<open>alert_monitor.rs\<close>), \<open>Push_Delivery_Worker\<close>
  (\<open>push_delivery_worker.rs\<close>), \<open>Local_Assets\<close> (\<open>local_assets.rs\<close>), \<open>Workspace\<close> (\<open>workspace.rs\<close>),
  \<open>Approval\<close> (\<open>approval.rs\<close>); \<open>Normalizer\<close>, \<open>Safe_Details\<close> and \<open>Event_Identity\<close>
  (\<open>normalizer.rs\<close>: the functions, what their labels show, and the identifiers of events). Of
  \<open>http_api.rs\<close>: \<open>Message_Delivery\<close> (a message id is delivered once), \<open>Event_Pages\<close> (merging and
  paging of events), \<open>Live_Events\<close> (a notification of Codex), \<open>Uploads\<close> (images sent by a device),
  \<open>Api_State\<close> (\<open>AppState\<close> and its errors), \<open>Api_Access\<close> (tokens, pairing, the public address,
  notification settings and subscriptions), \<open>Session_Api\<close> (the list of sessions, approvals, starting a
  session, sending a message), \<open>Session_Events\<close> (pages of events, images) and \<open>Api_Routes\<close> (the routes,
  their guards, and the bridge as a sequence of requests and notifications). What they guarantee together
  is in \<open>Api_Frames\<close> and \<open>Api_Guard\<close> (the guards, revocation, the tables), \<open>Api_Push\<close> (what a device
  is told of its pushes), \<open>Session_Requests\<close> (what is asked of the desktop app) and \<open>Session_Answers\<close>
  (what a device is answered).
  \<open>Debugging_Client\<close> is the Rust part of \<open>cdp.rs\<close> and \<open>diagnostics.rs\<close>, \<open>Host_Bridge\<close> the JavaScript
  that \<open>cdp.rs\<close> and \<open>codex_rpc.rs\<close> run in the desktop app.

  Desktop, \<open>desktop-core/src\<close>: \<open>Quick_Tunnel\<close> (\<open>tunnel.rs\<close>), \<open>Named_Tunnel\<close> (\<open>named_tunnel.rs\<close>),
  \<open>Remote_Access\<close> (\<open>remote_access_config.rs\<close>), \<open>Vapid_Keys\<close> (\<open>secret_store.rs\<close>, \<open>vapid_key.rs\<close>
  and \<open>bridge-core/src/vapid.rs\<close>), \<open>Bridge_Process\<close> (\<open>bridge_process.rs\<close>), \<open>Codex_Launch\<close>
  (\<open>codex_launch.rs\<close>), \<open>Diagnostics_Bundle\<close> (\<open>diagnostics_bundle.rs\<close>).

  State and operations. A struct is a \<open>record\<close> with the code's fields in its order, an enum a
  \<open>datatype\<close>, an integer a word of its width, a \<open>Duration\<close> or \<open>Instant\<close> a number of milliseconds. An
  operation is a function of what the environment answers, its arguments and the state, and returns
  the result with the new state. A lock of the code is held for the whole of a modelled operation where
  the code holds it; where an operation takes a lock twice, or awaits between, its steps are separate
  (\<open>Event_Hub\<close>, \<open>Message_Delivery\<close>), and the theorems are about every interleaving. The handlers of the
  HTTP API are one step each, in any order: what two of them do to each other between their locks is in
  those theories.

  What the lemmas show. Each theory first has the facts of its operations, branch by branch, then
  its invariant and the properties. The contracts between the parts are locales, each interpreted on
  the code's model: the device store that pairing uses, the queue of deliveries that the worker drains,
  the supervisor of one process with its three managers (\<open>quick\<close>, \<open>named\<close>, \<open>bridge_proc\<close>), the
  secret store with the keyring and the one in memory, and the properties of the pairing state that every
  request keeps (\<open>tables_kept\<close>, \<open>locked\<close>).

  Loops. A loop over data is structural. The paging loop over threads has the code's bound of 20
  pages; the attempts of a named tunnel the code's bound of 3 retries. A loop that waits for a process
  is \<open>poll_loop\<close>, a partial function whose turns are given by the environment: not returning is
  \<open>None\<close>, and the theorems of termination show that the result is \<open>Some\<close> once the clock of the
  environment reaches the deadline.
  The worker's drain is a partial function too, and it is shown to return always.

  Parameters. The clock, UUIDs, random bytes, SHA-256, base64 and the arithmetic of keys, the parser
  of URLs, serde's codecs, the answers of HTTP servers, of processes and of the file system, and the
  transport to the desktop app are arguments of the definitions that use them.

  Not modelled. axum's matching of paths, reading of bodies and their size limit, compression, static files and
  \<open>serve\<close>; of the script in \<open>cdp.rs\<close> the search for the desktop app's manager and sender in its page;
  the Tauri shell \<open>apps/desktop-shell\<close>; the sidecar's \<open>main.rs\<close>. SQLite's schema set-up, HTTP, Web Push encryption
  and the tasks of tokio are libraries. Cancelled futures and panics of tasks are modelled only where a
  theory says so.
\<close>

end
